(* ===== verification/GoBase.thy ===== *)
theory GoBase
  imports Main "HOL-Library.Word" "HOL-Library.List_Lexorder" "HOL-Library.Char_ord"
    "HOL-Library.Sublist"
begin

text \<open>
  Prelude of the development: the part of Go's language and standard library that
  the modelled packages use.  A Go string is a list of bytes (\<open>string\<close>); the white
  space that \<open>strings.TrimSpace\<close> and \<open>strings.Fields\<close> recognise is Unicode's, given
  here by its UTF-8 byte sequences.  \<open>strings.ToLower\<close> is modelled on ASCII letters
  and on the two non-ASCII runes whose lower case is ASCII (U+0130 and U+212A): every
  use in the modelled code compares the result with ASCII text or rejects whatever is
  not ASCII.  Errors are the left side of a sum.
\<close>

named_theorems guard_simps \<open>unfolding rules for the guards that handlers check first\<close>
named_theorems table_simps \<open>lookup and update laws of the modelled tables\<close>
named_theorems frame_simps \<open>what an operation leaves unchanged\<close>

section \<open>Strings\<close>

text \<open>\<open>unicode.IsSpace\<close>, by the length of the rune's encoding.\<close>

definition ws1 :: "char \<Rightarrow> bool" where
  "ws1 a \<longleftrightarrow> a = CHR 0x20 \<or> a = CHR 0x09 \<or> a = CHR 0x0A \<or> a = CHR 0x0B \<or> a = CHR 0x0C \<or> a = CHR 0x0D"

definition ws2 :: "char \<Rightarrow> char \<Rightarrow> bool" where
  "ws2 a b \<longleftrightarrow> a = CHR 0xC2 \<and> (b = CHR 0x85 \<or> b = CHR 0xA0)"

definition ws3 :: "char \<Rightarrow> char \<Rightarrow> char \<Rightarrow> bool" where
  "ws3 a b c \<longleftrightarrow>
     (a = CHR 0xE1 \<and> b = CHR 0x9A \<and> c = CHR 0x80) \<or>
     (a = CHR 0xE2 \<and> b = CHR 0x80 \<and>
        ((CHR 0x80 \<le> c \<and> c \<le> CHR 0x8A) \<or> c = CHR 0xA8 \<or> c = CHR 0xA9 \<or> c = CHR 0xAF)) \<or>
     (a = CHR 0xE2 \<and> b = CHR 0x81 \<and> c = CHR 0x9F) \<or>
     (a = CHR 0xE3 \<and> b = CHR 0x80 \<and> c = CHR 0x80)"

text \<open>\<open>strings.TrimSpace\<close>: leading white space, then trailing (on the reversed bytes).\<close>

fun trim_left :: "string \<Rightarrow> string" where
  "trim_left (a # b # c # r) =
     (if ws1 a then trim_left (b # c # r)
      else if ws2 a b then trim_left (c # r)
      else if ws3 a b c then trim_left r
      else a # b # c # r)"
| "trim_left [a, b] = (if ws1 a then trim_left [b] else if ws2 a b then [] else [a, b])"
| "trim_left [a] = (if ws1 a then [] else [a])"
| "trim_left [] = []"

fun trim_last :: "string \<Rightarrow> string" where
  "trim_last (c # b # a # r) =
     (if ws1 c then trim_last (b # a # r)
      else if ws2 b c then trim_last (a # r)
      else if ws3 a b c then trim_last r
      else c # b # a # r)"
| "trim_last [b, a] = (if ws1 b then trim_last [a] else if ws2 a b then [] else [b, a])"
| "trim_last [a] = (if ws1 a then [] else [a])"
| "trim_last [] = []"

definition trim :: "string \<Rightarrow> string" where
  "trim s = rev (trim_last (rev (trim_left s)))"

fun starts_ws :: "string \<Rightarrow> bool" where
  "starts_ws (a # b # c # r) = (ws1 a \<or> ws2 a b \<or> ws3 a b c)"
| "starts_ws [a, b] = (ws1 a \<or> ws2 a b)"
| "starts_ws [a] = ws1 a"
| "starts_ws [] = False"

fun ends_ws :: "string \<Rightarrow> bool" where
  "ends_ws (c # b # a # r) = (ws1 c \<or> ws2 b c \<or> ws3 a b c)"
| "ends_ws [b, a] = (ws1 b \<or> ws2 a b)"
| "ends_ws [a] = ws1 a"
| "ends_ws [] = False"

lemma trim_left_no_ws: "\<not> starts_ws (trim_left s)"
  by (induction s rule: trim_left.induct) auto

lemma trim_left_id: "\<not> starts_ws s \<Longrightarrow> trim_left s = s"
  by (induction s rule: trim_left.induct) auto

lemma trim_last_no_ws: "\<not> ends_ws (trim_last s)"
  by (induction s rule: trim_last.induct) auto

lemma trim_last_id: "\<not> ends_ws s \<Longrightarrow> trim_last s = s"
  by (induction s rule: trim_last.induct) auto

lemma trim_last_suffix: "suffix (trim_last s) s"
  by (induction s rule: trim_last.induct)
     (auto simp: suffix_Cons intro: suffix_ConsI)

lemma starts_ws_append: "starts_ws p \<Longrightarrow> starts_ws (p @ q)"
proof (induction p rule: starts_ws.induct)
  case (2 a b)
  then show ?case by (cases q) auto
next
  case (3 a)
  then show ?case
    by (cases q; cases "tl q") auto
qed auto

lemma trim_no_starts_ws: "\<not> starts_ws (trim s)"
proof
  assume s: "starts_ws (trim s)"
  have "suffix (trim_last (rev (trim_left s))) (rev (trim_left s))"
    by (rule trim_last_suffix)
  then have "prefix (trim s) (trim_left s)"
    by (simp add: trim_def suffix_to_prefix)
  then obtain q where "trim_left s = trim s @ q"
    by (auto simp: prefix_def)
  with s starts_ws_append have "starts_ws (trim_left s)" by metis
  then show False by (simp add: trim_left_no_ws)
qed

lemma trim_idem [simp]: "trim (trim s) = trim s"
proof -
  have "trim_left (trim s) = trim s"
    by (rule trim_left_id) (rule trim_no_starts_ws)
  moreover have "trim_last (rev (trim s)) = rev (trim s)"
    by (rule trim_last_id) (simp add: trim_def trim_last_no_ws)
  ultimately show ?thesis by (simp add: trim_def [of "trim s"])
qed

lemma trim_Nil [simp]: "trim [] = []"
  by (simp add: trim_def)

text \<open>\<open>strings.ToLower\<close>, as far as the result is ASCII.\<close>

definition lower_char :: "char \<Rightarrow> char" where
  "lower_char a =
     (if CHR ''A'' \<le> a \<and> a \<le> CHR ''Z'' then char_of ((of_char a :: nat) + 32) else a)"

fun to_lower :: "string \<Rightarrow> string" where
  "to_lower (a # b # c # r) =
     (if a = CHR 0xE2 \<and> b = CHR 0x84 \<and> c = CHR 0xAA then CHR ''k'' # to_lower r
      else if a = CHR 0xC4 \<and> b = CHR 0xB0 then CHR ''i'' # to_lower (c # r)
      else lower_char a # to_lower (b # c # r))"
| "to_lower [a, b] =
     (if a = CHR 0xC4 \<and> b = CHR 0xB0 then [CHR ''i''] else [lower_char a, lower_char b])"
| "to_lower [a] = [lower_char a]"
| "to_lower [] = []"

text \<open>\<open>strings.ToUpper\<close>, used on HTTP method names only; ASCII letters.\<close>

definition upper_char :: "char \<Rightarrow> char" where
  "upper_char a =
     (if CHR ''a'' \<le> a \<and> a \<le> CHR ''z'' then char_of ((of_char a :: nat) - 32) else a)"

definition to_upper :: "string \<Rightarrow> string" where
  "to_upper s = map upper_char s"

definition has_prefix :: "string \<Rightarrow> string \<Rightarrow> bool" where
  "has_prefix s p \<longleftrightarrow> take (length p) s = p"

definition has_suffix :: "string \<Rightarrow> string \<Rightarrow> bool" where
  "has_suffix s p \<longleftrightarrow> length p \<le> length s \<and> drop (length s - length p) s = p"

fun contains_str :: "string \<Rightarrow> string \<Rightarrow> bool" where
  "contains_str [] p = (p = [])"
| "contains_str (a # s) p = (has_prefix (a # s) p \<or> contains_str s p)"

text \<open>\<open>strings.Split\<close> with a one-byte separator, \<open>strings.Join\<close>, \<open>strings.Fields\<close>.\<close>

fun split_on :: "char \<Rightarrow> string \<Rightarrow> string list" where
  "split_on c [] = [[]]"
| "split_on c (x # xs) =
     (if x = c then [] # split_on c xs
      else (case split_on c xs of [] \<Rightarrow> [[x]] | y # ys \<Rightarrow> (x # y) # ys))"

fun join_with :: "string \<Rightarrow> string list \<Rightarrow> string" where
  "join_with sep [] = []"
| "join_with sep [x] = x"
| "join_with sep (x # y # ys) = x @ sep @ join_with sep (y # ys)"

text \<open>\<open>fields_from w s\<close>: \<open>w\<close> is the word read so far, reversed.\<close>

definition flush_word :: "string \<Rightarrow> string list" where
  "flush_word w = (if w = [] then [] else [rev w])"

lemma flush_word_Nil [simp]: "flush_word [] = []"
  by (simp add: flush_word_def)

fun fields_from :: "string \<Rightarrow> string \<Rightarrow> string list" where
  "fields_from w (a # b # c # r) =
     (if ws1 a then flush_word w @ fields_from [] (b # c # r)
      else if ws2 a b then flush_word w @ fields_from [] (c # r)
      else if ws3 a b c then flush_word w @ fields_from [] r
      else fields_from (a # w) (b # c # r))"
| "fields_from w [a, b] =
     (if ws1 a then flush_word w @ fields_from [] [b]
      else if ws2 a b then flush_word w
      else fields_from (a # w) [b])"
| "fields_from w [a] = (if ws1 a then flush_word w else flush_word (a # w))"
| "fields_from w [] = flush_word w"

definition str_fields :: "string \<Rightarrow> string list" where
  "str_fields s = fields_from [] s"

lemma split_on_not_Nil [simp]: "split_on c s \<noteq> []"
  by (induction s) (auto split: list.splits)

subsection \<open>Words: splitting after joining\<close>

text \<open>A word is white-space free when no rune of it, wherever it starts, is white space.\<close>

definition ws_free :: "string \<Rightarrow> bool" where
  "ws_free w \<longleftrightarrow> (\<forall>t. suffix t w \<longrightarrow> \<not> starts_ws t)"

lemma ws_free_Cons: "ws_free (a # w) \<longleftrightarrow> \<not> starts_ws (a # w) \<and> ws_free w"
  by (auto simp: ws_free_def suffix_Cons)

lemma starts_ws_before_space:
  "r \<noteq> [] \<Longrightarrow> starts_ws (r @ CHR 0x20 # s) \<longleftrightarrow> starts_ws r"
proof (cases r rule: starts_ws.cases)
  case (2 a b)
  then show ?thesis by (cases s) (auto simp: ws3_def)
next
  case (3 a)
  then show ?thesis by (cases s) (auto simp: ws2_def ws3_def)
qed auto

lemma fields_from_step:
  "\<not> starts_ws (a # t) \<Longrightarrow> fields_from w (a # t) = fields_from (a # w) t"
  by (cases "(w, a # t)" rule: fields_from.cases) auto

lemma fields_from_space: "fields_from w (CHR 0x20 # t) = flush_word w @ fields_from [] t"
  by (cases "(w, CHR 0x20 # t)" rule: fields_from.cases) (auto simp: ws1_def fields_from.simps(4))

lemma fields_from_word:
  "ws_free r \<Longrightarrow> fields_from w (r @ CHR 0x20 # s) = flush_word (rev r @ w) @ fields_from [] s"
proof (induction r arbitrary: w)
  case Nil
  then show ?case by (simp add: fields_from_space)
next
  case (Cons a r)
  then have "\<not> starts_ws ((a # r) @ CHR 0x20 # s)"
    by (subst starts_ws_before_space) (auto simp: ws_free_Cons)
  then have "fields_from w ((a # r) @ CHR 0x20 # s) = fields_from (a # w) (r @ CHR 0x20 # s)"
    by (simp add: fields_from_step)
  with Cons show ?case by (simp add: ws_free_Cons)
qed

lemma fields_from_last_word: "ws_free r \<Longrightarrow> fields_from w r = flush_word (rev r @ w)"
proof (induction r arbitrary: w)
  case (Cons a r)
  then have "fields_from w (a # r) = fields_from (a # w) r"
    by (simp add: fields_from_step ws_free_Cons)
  with Cons show ?case by (simp add: ws_free_Cons)
qed simp

text \<open>\<open>open_word r s\<close>: the word \<open>r\<close> read so far, followed by \<open>s\<close>, contains no white space yet.\<close>

definition open_word :: "string \<Rightarrow> string \<Rightarrow> bool" where
  "open_word r s \<longleftrightarrow> (\<forall>t. suffix t r \<and> t \<noteq> [] \<longrightarrow> \<not> starts_ws (t @ s))"

lemma open_word_ws_free: "open_word r s \<Longrightarrow> ws_free r"
  unfolding open_word_def ws_free_def
  by (metis starts_ws.simps(4) starts_ws_append)

lemma open_word_Nil [simp]: "open_word [] s"
  by (simp add: open_word_def)

lemma open_word_snoc: "open_word r (a # s) \<Longrightarrow> \<not> starts_ws (a # s) \<Longrightarrow> open_word (r @ [a]) s"
  by (auto simp: open_word_def suffix_snoc)

lemma flush_word_ws_free:
  "open_word (rev w) s \<Longrightarrow> x \<in> set (flush_word w) \<Longrightarrow> ws_free x \<and> x \<noteq> []"
  by (auto simp: flush_word_def dest: open_word_ws_free split: if_splits)

lemma fields_from_words:
  "open_word (rev w) s \<Longrightarrow> x \<in> set (fields_from w s) \<Longrightarrow> ws_free x \<and> x \<noteq> []"
proof (induction w s rule: fields_from.induct)
  case (1 w a b c r)
  show ?case
  proof (cases "starts_ws (a # b # c # r)")
    case True
    with 1 show ?thesis by (auto dest: flush_word_ws_free split: if_splits)
  next
    case False
    then have "fields_from w (a # b # c # r) = fields_from (a # w) (b # c # r)"
      by (rule fields_from_step)
    moreover have "open_word (rev (a # w)) (b # c # r)"
      using "1.prems"(1) False by (simp add: open_word_snoc)
    ultimately show ?thesis using 1 False by simp
  qed
next
  case (2 w a b)
  show ?case
  proof (cases "starts_ws [a, b]")
    case True
    with 2 show ?thesis by (auto dest: flush_word_ws_free split: if_splits)
  next
    case False
    then have "fields_from w [a, b] = fields_from (a # w) [b]"
      by (rule fields_from_step)
    moreover have "open_word (rev (a # w)) [b]"
      using "2.prems"(1) False by (simp add: open_word_snoc)
    ultimately show ?thesis using 2 False by simp
  qed
next
  case (3 w a)
  show ?case
  proof (cases "ws1 a")
    case True
    with 3 show ?thesis by (auto dest: flush_word_ws_free)
  next
    case False
    with 3 have "open_word (rev (a # w)) []" by (auto intro: open_word_snoc)
    moreover from 3 False have "x \<in> set (flush_word (a # w))" by simp
    ultimately show ?thesis by (rule flush_word_ws_free)
  qed
next
  case (4 w)
  then show ?case by (auto dest: flush_word_ws_free)
qed

lemma fields_words: "x \<in> set (str_fields s) \<Longrightarrow> ws_free x \<and> x \<noteq> []"
  unfolding str_fields_def by (rule fields_from_words [of "[]" s]) simp_all

lemma fields_join:
  "(\<And>w. w \<in> set ws \<Longrightarrow> ws_free w \<and> w \<noteq> []) \<Longrightarrow> str_fields (join_with '' '' ws) = ws"
proof (induction ws rule: induct_list012)
  case 1
  then show ?case by (simp add: str_fields_def flush_word_def)
next
  case (2 x)
  then show ?case by (simp add: str_fields_def fields_from_last_word flush_word_def)
next
  case (3 x y zs)
  have "str_fields (join_with '' '' (x # y # zs))
          = fields_from [] (x @ CHR 0x20 # join_with '' '' (y # zs))"
    by (simp add: str_fields_def)
  also have "\<dots> = flush_word (rev x) @ str_fields (join_with '' '' (y # zs))"
    using "3.prems" by (simp add: fields_from_word str_fields_def)
  also have "str_fields (join_with '' '' (y # zs)) = y # zs"
    using 3 by simp
  also have "flush_word (rev x) = [x]"
    using "3.prems" by (simp add: flush_word_def)
  finally show ?case by simp
qed

lemma fields_join_fields [simp]: "str_fields (join_with '' '' (str_fields s)) = str_fields s"
  by (rule fields_join) (rule fields_words)

text \<open>Joined words have no white space at either end, so trimming keeps them.\<close>

fun ws_rune :: "string \<Rightarrow> bool" where
  "ws_rune [a] = ws1 a"
| "ws_rune [a, b] = ws2 a b"
| "ws_rune [a, b, c] = ws3 a b c"
| "ws_rune _ = False"

lemma ends_ws_rune:
  assumes "ends_ws (rev t)"
  obtains u where "suffix u t" "ws_rune u"
proof (cases "rev t" rule: ends_ws.cases)
  case (1 c b a r)
  then have t: "t = rev r @ [a, b, c]" by (metis rev_rev_ident rev.simps(2) append_assoc append_Cons append_Nil)
  have "ws_rune [c] \<or> ws_rune [b, c] \<or> ws_rune [a, b, c]" using assms 1 by simp
  moreover have "suffix [c] t" "suffix [b, c] t" "suffix [a, b, c] t"
    unfolding t suffix_def by force+
  ultimately show ?thesis using that by blast
next
  case (2 b a)
  then have t: "t = [a, b]" by (metis rev_rev_ident rev.simps append_Cons append_Nil)
  have "ws_rune [b] \<or> ws_rune [a, b]" using assms 2 by simp
  moreover have "suffix [b] t" "suffix [a, b] t" unfolding t suffix_def by force+
  ultimately show ?thesis using that by blast
next
  case (3 a)
  then have "t = [a]" by (metis rev_rev_ident rev.simps append_Nil)
  then show ?thesis using assms that [of "[a]"] by simp
next
  case 4
  then show ?thesis using assms by simp
qed

lemma ws_rune_starts: "ws_rune u \<Longrightarrow> starts_ws u"
  by (cases u rule: ws_rune.cases) auto

lemma ws_rune_space: "ws_rune u \<Longrightarrow> CHR 0x20 \<in> set u \<Longrightarrow> length u = 1"
  by (cases u rule: ws_rune.cases) (auto simp: ws2_def ws3_def)

lemma trim_id: "\<not> starts_ws s \<Longrightarrow> \<not> ends_ws (rev s) \<Longrightarrow> trim s = s"
  by (simp add: trim_def trim_left_id trim_last_id)

definition word_list :: "string list \<Rightarrow> bool" where
  "word_list ws \<longleftrightarrow> (\<forall>w \<in> set ws. ws_free w \<and> w \<noteq> [])"

lemma word_list_fields [simp]: "word_list (str_fields s)"
  by (simp add: word_list_def fields_words)

lemma join_not_Nil: "word_list ws \<Longrightarrow> ws \<noteq> [] \<Longrightarrow> join_with '' '' ws \<noteq> []"
  by (cases ws rule: remdups_adj.cases) (auto simp: word_list_def)

lemma join_no_ws_suffix:
  "word_list ws \<Longrightarrow> suffix u (join_with '' '' ws) \<Longrightarrow> \<not> ws_rune u"
proof (induction ws arbitrary: u rule: induct_list012)
  case 1
  then show ?case by simp
next
  case (2 x)
  then have "\<not> starts_ws u" by (simp add: word_list_def ws_free_def)
  then show ?case using ws_rune_starts by blast
next
  case (3 x y zs)
  define t where "t = join_with '' '' (y # zs)"
  have t: "t \<noteq> []" and wl: "word_list (y # zs)"
    using "3.prems"(1) join_not_Nil [of "y # zs"] by (auto simp: t_def word_list_def)
  from "3.prems"(2) have "suffix u ((x @ [CHR 0x20]) @ t)" by (simp add: t_def)
  then have "suffix u t \<or> (\<exists>v. u = v @ t \<and> suffix v (x @ [CHR 0x20]))"
    by (simp only: suffix_append)
  then consider "suffix u t" | v where "u = (v @ [CHR 0x20]) @ t"
    by (auto simp: suffix_snoc)
  then show ?case
  proof cases
    case 1
    then show ?thesis using "3.IH"(2) [OF wl] by (simp add: t_def)
  next
    case 2
    then have "CHR 0x20 \<in> set u" and "length u \<noteq> 1" using t by auto
    then show ?thesis using ws_rune_space by blast
  qed
qed

lemma join_no_ws_start: "word_list ws \<Longrightarrow> \<not> starts_ws (join_with '' '' ws)"
proof (cases ws rule: remdups_adj.cases)
  case (3 x y zs)
  moreover assume "word_list ws"
  ultimately show ?thesis
    by (auto simp: word_list_def starts_ws_before_space ws_free_def)
qed (auto simp: word_list_def ws_free_def)

lemma trim_join_words: "word_list ws \<Longrightarrow> trim (join_with '' '' ws) = join_with '' '' ws"
  by (rule trim_id) (auto dest: join_no_ws_start elim: ends_ws_rune dest: join_no_ws_suffix)

section \<open>Searching a list\<close>

lemma find_append: "find P (xs @ ys) = (case find P xs of None \<Rightarrow> find P ys | Some x \<Rightarrow> Some x)"
  by (induction xs) auto

section \<open>Trimming one character\<close>

text \<open>\<open>strings.TrimRight(s, "c")\<close> and \<open>strings.Trim(s, "c")\<close> for an ASCII character.\<close>

definition trim_right_char :: "char \<Rightarrow> string \<Rightarrow> string" where
  "trim_right_char c s = rev (dropWhile (\<lambda>a. a = c) (rev s))"

definition trim_char :: "char \<Rightarrow> string \<Rightarrow> string" where
  "trim_char c s = trim_right_char c (dropWhile (\<lambda>a. a = c) s)"

lemma prefix_trim_right_char: "prefix (trim_right_char c s) s"
  unfolding trim_right_char_def by (metis suffix_dropWhile suffix_to_prefix rev_rev_ident)

lemma set_trim_right_char: "x \<in> set (trim_right_char c s) \<Longrightarrow> x \<in> set s"
  using prefix_trim_right_char set_mono_prefix by blast

lemma length_trim_right_char: "length (trim_right_char c s) \<le> length s"
  using prefix_trim_right_char prefix_length_le by blast

lemma set_trim_char: "x \<in> set (trim_char c s) \<Longrightarrow> x \<in> set s"
  unfolding trim_char_def by (auto dest!: set_trim_right_char set_dropWhileD)

lemma length_trim_char: "length (trim_char c s) \<le> length s"
  unfolding trim_char_def using length_trim_right_char length_dropWhile_le order_trans by metis

lemma last_trim_right_char: "trim_right_char c s \<noteq> [] \<Longrightarrow> last (trim_right_char c s) \<noteq> c"
  unfolding trim_right_char_def using hd_dropWhile [of "\<lambda>a. a = c" "rev s"] by (simp add: last_rev)

lemma hd_trim_char: "trim_char c s \<noteq> [] \<Longrightarrow> hd (trim_char c s) \<noteq> c"
proof -
  assume ne: "trim_char c s \<noteq> []"
  obtain q where "dropWhile (\<lambda>a. a = c) s = trim_char c s @ q"
    using prefix_trim_right_char unfolding trim_char_def prefix_def by blast
  with ne have "hd (trim_char c s) = hd (dropWhile (\<lambda>a. a = c) s)" "dropWhile (\<lambda>a. a = c) s \<noteq> []" by auto
  then show ?thesis using hd_dropWhile [of "\<lambda>a. a = c" s] by simp
qed

lemma trim_right_char_id: "(s \<noteq> [] \<Longrightarrow> last s \<noteq> c) \<Longrightarrow> trim_right_char c s = s"
  by (cases s rule: rev_cases) (auto simp: trim_right_char_def)

lemma trim_char_id: "(s \<noteq> [] \<Longrightarrow> hd s \<noteq> c \<and> last s \<noteq> c) \<Longrightarrow> trim_char c s = s"
  unfolding trim_char_def by (cases s) (auto simp: trim_right_char_id)

section \<open>Plain texts\<close>

text \<open>Printable ASCII without capitals and blanks: trimming and lowering leave such a text alone.\<close>

definition plain_char :: "char \<Rightarrow> bool" where
  "plain_char c \<longleftrightarrow> CHR 0x21 \<le> c \<and> c \<le> CHR 0x7E \<and> \<not> (CHR ''A'' \<le> c \<and> c \<le> CHR ''Z'')"

lemma plain_char_facts:
  "plain_char c \<Longrightarrow> \<not> ws1 c \<and> \<not> ws2 c a \<and> \<not> ws3 c a b \<and> \<not> ws2 a c \<and> \<not> ws3 a b c \<and> lower_char c = c \<and>
     c \<noteq> CHR 0xE2 \<and> c \<noteq> CHR 0xC4"
  unfolding plain_char_def ws1_def ws2_def ws3_def lower_char_def less_eq_char_def by auto

lemma plain_no_starts_ws: "list_all plain_char s \<Longrightarrow> \<not> starts_ws s"
  by (cases s rule: starts_ws.cases) (auto dest: plain_char_facts)

lemma plain_no_ends_ws: "list_all plain_char s \<Longrightarrow> \<not> ends_ws s"
  by (cases s rule: ends_ws.cases) (auto dest: plain_char_facts)

lemma plain_trim: "list_all plain_char s \<Longrightarrow> trim s = s"
  by (rule trim_id) (simp_all add: plain_no_starts_ws plain_no_ends_ws list_all_rev)

lemma plain_lower: "list_all plain_char s \<Longrightarrow> to_lower s = s"
  by (induction s rule: to_lower.induct) (auto dest: plain_char_facts)

section \<open>Numbers in text\<close>

definition is_digit :: "char \<Rightarrow> bool" where
  "is_digit a \<longleftrightarrow> CHR ''0'' \<le> a \<and> a \<le> CHR ''9''"

definition digit_val :: "char \<Rightarrow> nat" where
  "digit_val a = of_char a - 48"

definition digit_char :: "nat \<Rightarrow> char" where
  "digit_char d = char_of (48 + d)"

fun digits_val :: "nat \<Rightarrow> string \<Rightarrow> nat" where
  "digits_val acc [] = acc"
| "digits_val acc (a # s) = digits_val (10 * acc + digit_val a) s"

definition parse_nat :: "string \<Rightarrow> nat option" where
  "parse_nat s = (if s \<noteq> [] \<and> list_all is_digit s then Some (digits_val 0 s) else None)"

text \<open>\<open>strconv.ParseUint(s, 10, 64)\<close>.\<close>

definition parse_uint64 :: "string \<Rightarrow> 64 word option" where
  "parse_uint64 s = (case parse_nat s of
       None \<Rightarrow> None
     | Some n \<Rightarrow> if n < 2 ^ 64 then Some (word_of_nat n) else None)"

text \<open>\<open>strconv.Atoi\<close> on a 64-bit platform.\<close>

definition atoi :: "string \<Rightarrow> int option" where
  "atoi s =
     (let neg = (s \<noteq> [] \<and> hd s = CHR ''-'');
          body = (if s \<noteq> [] \<and> (hd s = CHR ''-'' \<or> hd s = CHR ''+'') then tl s else s)
      in case parse_nat body of
           None \<Rightarrow> None
         | Some n \<Rightarrow>
             (let v = (if neg then - int n else int n)
              in if - (2 ^ 63) \<le> v \<and> v < 2 ^ 63 then Some v else None))"

text \<open>Decimal text of a number (\<open>strconv.FormatUint\<close>) and \<open>%0*d\<close>.\<close>

fun dec_digits :: "nat \<Rightarrow> string" where
  "dec_digits n = (if n < 10 then [digit_char n] else dec_digits (n div 10) @ [digit_char (n mod 10)])"

declare dec_digits.simps [simp del]

definition pad_zero :: "nat \<Rightarrow> string \<Rightarrow> string" where
  "pad_zero w s = replicate (w - length s) (CHR ''0'') @ s"

section \<open>Results\<close>

text \<open>\<open>if err != nil { return err }\<close> as sequencing on a sum, and an early return as a guard.\<close>

definition bind_res :: "'e + 'a \<Rightarrow> ('a \<Rightarrow> 'e + 'b) \<Rightarrow> 'e + 'b" where
  "bind_res m k = (case m of Inl e \<Rightarrow> Inl e | Inr x \<Rightarrow> k x)"

definition guard_res :: "bool \<Rightarrow> 'e \<Rightarrow> 'e + unit" where
  "guard_res ok e = (if ok then Inr () else Inl e)"

lemma bind_res_simps [simp]: "bind_res (Inl e) k = Inl e" "bind_res (Inr x) k = k x"
  by (simp_all add: bind_res_def)

lemma guard_res_simps [simp]: "guard_res True e = Inr ()" "guard_res False e = Inl e"
  by (simp_all add: guard_res_def)

lemma bind_res_Inr_iff: "bind_res m k = Inr y \<longleftrightarrow> (\<exists>x. m = Inr x \<and> k x = Inr y)"
  by (cases m) auto

lemma guard_res_Inr_iff: "guard_res b e = Inr u \<longleftrightarrow> b"
  by (simp add: guard_res_def)

lemma guard_res_Inl_iff: "guard_res b e = Inl e' \<longleftrightarrow> \<not> b \<and> e' = e"
  by (auto simp: guard_res_def)

lemma bind_res_cong [fundef_cong]:
  "m = m' \<Longrightarrow> (\<And>x. m' = Inr x \<Longrightarrow> k x = k' x) \<Longrightarrow> bind_res m k = bind_res m' k'"
  by (cases m') auto

lemmas res_iffs = bind_res_Inr_iff guard_res_Inr_iff

text \<open>A result that is not an error, as what it holds: one value, a pair, a triple.\<close>

lemma not_isl_projr: "\<not> isl x \<Longrightarrow> x = Inr (projr x)"
  by (cases x) auto

lemma not_isl_pair: "\<not> isl x \<Longrightarrow> x = Inr (fst (projr x), snd (projr x))"
  by (cases x) auto

lemma inr_triple: "\<not> isl x \<Longrightarrow> x = Inr (fst (projr x), fst (snd (projr x)), snd (snd (projr x)))"
  by (cases x) auto

section \<open>Nullable columns and pointers\<close>

text \<open>
  A \<open>sql.NullString\<close> and a \<open>*string\<close> are options.  \<open>is_set\<close> is the test
  \<open>x.Valid && strings.TrimSpace(x.String) != ""\<close>.
\<close>

definition is_set :: "string option \<Rightarrow> bool" where
  "is_set x = (case x of None \<Rightarrow> False | Some s \<Rightarrow> trim s \<noteq> [])"

definition null_text :: "string option \<Rightarrow> string" where
  "null_text x = (case x of None \<Rightarrow> [] | Some s \<Rightarrow> s)"

definition nullable_string :: "string \<Rightarrow> string option" where
  "nullable_string raw = (let s = trim raw in if s = [] then None else Some s)"

fun first_non_empty :: "string list \<Rightarrow> string" where
  "first_non_empty [] = []"
| "first_non_empty (v # vs) = (let t = trim v in if t \<noteq> [] then t else first_non_empty vs)"

lemma is_set_None [simp]: "\<not> is_set None"
  by (simp add: is_set_def)

lemma is_set_Some [simp]: "is_set (Some s) \<longleftrightarrow> trim s \<noteq> []"
  by (simp add: is_set_def)

section \<open>Lists of strings\<close>

text \<open>\<open>uniqueNormalizedStrings\<close> and \<open>uniqueSortedStrings\<close>: the first of each trimmed, non-empty value.\<close>

fun unique_from :: "string set \<Rightarrow> string list \<Rightarrow> string list" where
  "unique_from seen [] = []"
| "unique_from seen (v # vs) =
     (let t = trim v
      in if t = [] then unique_from seen vs
         else if t \<in> seen then unique_from seen vs
         else t # unique_from (insert t seen) vs)"

definition unique_normalized_strings :: "string list \<Rightarrow> string list" where
  "unique_normalized_strings vs = unique_from {} vs"

definition unique_sorted_strings :: "string list \<Rightarrow> string list" where
  "unique_sorted_strings vs = sort (unique_from {} vs)"

lemma set_unique_from: "set (unique_from seen vs) = {t. t \<in> trim ` set vs \<and> t \<noteq> [] \<and> t \<notin> seen}"
  by (induction seen vs rule: unique_from.induct) (auto simp: Let_def)

lemma distinct_unique_from: "distinct (unique_from seen vs)"
  by (induction seen vs rule: unique_from.induct) (auto simp: Let_def set_unique_from)

lemma set_unique_sorted: "set (unique_sorted_strings vs) = {t. t \<in> trim ` set vs \<and> t \<noteq> []}"
  by (simp add: unique_sorted_strings_def set_unique_from)

lemma sorted_unique_sorted: "sorted (unique_sorted_strings vs)" "distinct (unique_sorted_strings vs)"
  by (simp_all add: unique_sorted_strings_def distinct_unique_from)

lemma unique_from_id:
  "distinct vs \<Longrightarrow> (\<And>v. v \<in> set vs \<Longrightarrow> trim v = v \<and> v \<noteq> [] \<and> v \<notin> seen) \<Longrightarrow> unique_from seen vs = vs"
proof (induction vs arbitrary: seen)
  case (Cons v vs)
  have "unique_from (insert v seen) vs = vs"
  proof (rule Cons.IH)
    show "distinct vs" using Cons.prems(1) by simp
    show "u \<in> set vs \<Longrightarrow> trim u = u \<and> u \<noteq> [] \<and> u \<notin> insert v seen" for u
      using Cons.prems(1) Cons.prems(2) [of u] by auto
  qed
  with Cons.prems(2) [of v] show ?case by simp
qed simp

lemma unique_sorted_idem [simp]:
  "unique_sorted_strings (unique_sorted_strings vs) = unique_sorted_strings vs"
proof -
  have "unique_from {} (unique_sorted_strings vs) = unique_sorted_strings vs"
    using sorted_unique_sorted(2) by (intro unique_from_id) (auto simp: set_unique_sorted)
  then show ?thesis
    by (simp add: unique_sorted_strings_def [of "unique_sorted_strings vs"]
        sorted_sort_id sorted_unique_sorted(1))
qed

end
