(* ===== verification/GoNumbers.thy ===== *)
theory GoNumbers
  imports GoBase
begin

text \<open>
  Decimal text: \<open>dec_digits\<close> (Go's \<open>strconv.FormatUint\<close> and \<open>%d\<close>), zero padding
  (\<open>%0*d\<close>) and \<open>parse_nat\<close> (\<open>strconv.ParseUint\<close> without its range check) are inverse,
  and zero-padded text of one width is ordered as the numbers are.  The last fact is what lets
  an SQL \<open>ORDER BY\<close> on text order numbers.
\<close>

lemma list_less_append:
  fixes xs ys us vs :: "'a::linorder list"
  shows "length xs = length ys \<Longrightarrow> xs @ us < ys @ vs \<longleftrightarrow> xs < ys \<or> (xs = ys \<and> us < vs)"
  by (induction xs ys rule: list_induct2) auto

section \<open>Digits\<close>

lemma of_char_digit: "d < 10 \<Longrightarrow> (of_char (digit_char d) :: nat) = 48 + d"
  by (simp add: digit_char_def)

lemma digit_val_char [simp]: "d < 10 \<Longrightarrow> digit_val (digit_char d) = d"
  by (simp add: digit_val_def of_char_digit)

lemma is_digit_char [simp]: "d < 10 \<Longrightarrow> is_digit (digit_char d)"
  by (simp add: is_digit_def less_eq_char_def of_char_digit)

lemma digit_char_less: "a < 10 \<Longrightarrow> b < 10 \<Longrightarrow> digit_char a < digit_char b \<longleftrightarrow> a < b"
  by (simp add: less_char_def of_char_digit)

lemma digit_char_0: "digit_char 0 = CHR ''0''"
  by (simp add: digit_char_def) code_simp

lemma digits_val_snoc: "digits_val acc (s @ [a]) = 10 * digits_val acc s + digit_val a"
  by (induction s arbitrary: acc) auto

lemma digits_val_zeros: "digits_val 0 (replicate k (CHR ''0'') @ s) = digits_val 0 s"
  by (induction k) (auto simp: digit_val_def)

lemma dec_digits_not_Nil [simp]: "dec_digits n \<noteq> []"
  by (subst dec_digits.simps) simp

lemma dec_digits_digits: "list_all is_digit (dec_digits n)"
  by (induction n rule: dec_digits.induct) (subst dec_digits.simps, simp)

lemma digits_val_dec: "digits_val 0 (dec_digits n) = n"
proof (induction n rule: dec_digits.induct)
  case (1 n)
  show ?case
  proof (cases "n < 10")
    case True
    then show ?thesis by (subst dec_digits.simps) simp
  next
    case False
    with 1 have "digits_val 0 (dec_digits (n div 10)) = n div 10" by blast
    with False show ?thesis by (subst dec_digits.simps) (simp add: digits_val_snoc)
  qed
qed

lemma parse_nat_dec [simp]: "parse_nat (dec_digits n) = Some n"
  by (simp add: parse_nat_def dec_digits_digits digits_val_dec)

lemma list_all_pad: "list_all is_digit s \<Longrightarrow> list_all is_digit (pad_zero w s)"
  by (auto simp: pad_zero_def list_all_iff is_digit_def)

lemma parse_nat_pad_dec: "parse_nat (pad_zero w (dec_digits n)) = Some n"
proof -
  have "pad_zero w (dec_digits n) \<noteq> []" by (simp add: pad_zero_def)
  moreover have "digits_val 0 (pad_zero w (dec_digits n)) = n"
    by (simp add: pad_zero_def digits_val_zeros digits_val_dec)
  ultimately show ?thesis
    by (simp add: parse_nat_def list_all_pad dec_digits_digits)
qed

section \<open>Fixed width\<close>

fun fixed_width :: "nat \<Rightarrow> nat \<Rightarrow> string" where
  "fixed_width 0 n = []"
| "fixed_width (Suc w) n = fixed_width w (n div 10) @ [digit_char (n mod 10)]"

lemma length_fixed_width [simp]: "length (fixed_width w n) = w"
  by (induction w arbitrary: n) auto

lemma fixed_width_0: "fixed_width w 0 = replicate w (CHR ''0'')"
  by (induction w) (auto simp: digit_char_0 replicate_append_same)

lemma pad_zero_snoc: "pad_zero (Suc w) (s @ [a]) = pad_zero w s @ [a]"
  by (simp add: pad_zero_def)

lemma pad_dec_fixed_width:
  "0 < w \<Longrightarrow> n < 10 ^ w \<Longrightarrow> pad_zero w (dec_digits n) = fixed_width w n"
proof (induction w arbitrary: n)
  case (Suc w)
  show ?case
  proof (cases "n < 10")
    case True
    then show ?thesis
      by (subst dec_digits.simps) (simp add: pad_zero_def fixed_width_0)
  next
    case False
    with Suc.prems have "0 < w" by (cases w) auto
    moreover have "n div 10 < 10 ^ w" using Suc.prems by (simp add: div_less_iff_less_mult)
    ultimately have "pad_zero w (dec_digits (n div 10)) = fixed_width w (n div 10)"
      by (rule Suc.IH)
    with False show ?thesis by (subst dec_digits.simps) (simp add: pad_zero_snoc)
  qed
qed simp

lemma fixed_width_inject:
  "n < 10 ^ w \<Longrightarrow> m < 10 ^ w \<Longrightarrow> fixed_width w n = fixed_width w m \<Longrightarrow> n = m"
proof -
  assume "n < 10 ^ w" "m < 10 ^ w" "fixed_width w n = fixed_width w m"
  then show "n = m"
  proof (induction w arbitrary: n m)
    case (Suc w)
    have "digit_char (n mod 10) = digit_char (m mod 10)"
      using Suc.prems(3) by simp
    then have "n mod 10 = m mod 10"
      by (metis digit_val_char mod_less_divisor zero_less_numeral)
    moreover have "n div 10 = m div 10"
      using Suc by (simp add: div_less_iff_less_mult)
    ultimately show ?case by (metis div_mult_mod_eq)
  qed simp
qed

lemma ten_times_less:
  fixes q r q' r' :: nat
  shows "r < 10 \<Longrightarrow> r' < 10 \<Longrightarrow>
    (q < q' \<or> (q = q' \<and> r < r')) = (10 * q + r < 10 * q' + r')"
  by auto

lemma fixed_width_less:
  "n < 10 ^ w \<Longrightarrow> m < 10 ^ w \<Longrightarrow> fixed_width w n < fixed_width w m \<longleftrightarrow> n < m"
proof (induction w arbitrary: n m)
  case (Suc w)
  have lt: "n div 10 < 10 ^ w" "m div 10 < 10 ^ w"
    using Suc.prems by (simp_all add: div_less_iff_less_mult)
  have "fixed_width (Suc w) n < fixed_width (Suc w) m \<longleftrightarrow>
      n div 10 < m div 10 \<or> (fixed_width w (n div 10) = fixed_width w (m div 10) \<and> n mod 10 < m mod 10)"
    using Suc.IH [OF lt] by (simp add: list_less_append digit_char_less)
  also have "\<dots> \<longleftrightarrow> n div 10 < m div 10 \<or> (n div 10 = m div 10 \<and> n mod 10 < m mod 10)"
    by (auto dest: fixed_width_inject [OF lt])
  also have "\<dots> \<longleftrightarrow> 10 * (n div 10) + n mod 10 < 10 * (m div 10) + m mod 10"
    by (rule ten_times_less) simp_all
  also have "\<dots> \<longleftrightarrow> n < m" by simp
  finally show ?case .
qed simp

lemma pad_dec_less:
  "0 < w \<Longrightarrow> n < 10 ^ w \<Longrightarrow> m < 10 ^ w \<Longrightarrow>
     pad_zero w (dec_digits n) < pad_zero w (dec_digits m) \<longleftrightarrow> n < m"
  by (simp add: pad_dec_fixed_width fixed_width_less)

end
