(* ===== verification/GoTime.thy ===== *)
theory GoTime
  imports GoNumbers
begin

text \<open>
  Time as the modelled packages use it.  An instant (\<open>time.Time\<close> in UTC) and a
  \<open>time.Duration\<close> are integers counting nanoseconds; the calendar fields that
  \<open>time.Time\<close> derives from an instant are computed here from days since 1970-01-01
  in the proleptic Gregorian calendar.  A \<open>stamp\<close> is an instant stored as the text
  \<open>t.Format(time.RFC3339Nano)\<close>; its order is the order of those texts, which is what an
  SQL comparison or \<open>ORDER BY\<close> on such a column uses.
\<close>

section \<open>Durations and calendar fields\<close>

definition second_ns :: int where "second_ns = 1000000000"
definition minute_ns :: int where "minute_ns = 60 * second_ns"
definition hour_ns :: int where "hour_ns = 60 * minute_ns"
definition day_ns :: int where "day_ns = 24 * hour_ns"

lemmas duration_defs = day_ns_def hour_ns_def minute_ns_def second_ns_def

text \<open>\<open>t.Truncate(time.Minute)\<close>, which rounds down to a whole minute.\<close>

definition truncate_minute :: "int \<Rightarrow> int" where
  "truncate_minute t = t - t mod minute_ns"

definition time_minute :: "int \<Rightarrow> int" where
  "time_minute t = (t div minute_ns) mod 60"

definition time_hour :: "int \<Rightarrow> int" where
  "time_hour t = (t div hour_ns) mod 24"

definition time_weekday :: "int \<Rightarrow> int" where
  \<comment> \<open>Sunday is 0; 1970-01-01 was a Thursday.\<close>
  "time_weekday t = (t div day_ns + 4) mod 7"

text \<open>Month and day of month from days since the epoch, by 400-year eras starting on 1 March.\<close>

definition civil_month_day :: "int \<Rightarrow> int \<times> int" where
  "civil_month_day days =
     (let z = days + 719468;
          doe = z mod 146097;
          yoe = (doe - doe div 1460 + doe div 36524 - doe div 146096) div 365;
          doy = doe - (365 * yoe + yoe div 4 - yoe div 100);
          mp = (5 * doy + 2) div 153;
          d = doy - (153 * mp + 2) div 5 + 1
      in (if mp < 10 then mp + 3 else mp - 9, d))"

definition time_month :: "int \<Rightarrow> int" where
  "time_month t = fst (civil_month_day (t div day_ns))"

definition time_day :: "int \<Rightarrow> int" where
  "time_day t = snd (civil_month_day (t div day_ns))"

section \<open>Stored timestamps and their text order\<close>

datatype stamp = Stamp (stamp_ns: int)

text \<open>
  \<open>RFC3339Nano\<close> prints the fraction of a second without its trailing zeros and prints no
  fraction when it is zero, then \<open>Z\<close>.  The part before it has a fixed width for the years
  0000 to 9999, so there comparing the text is comparing the whole seconds first.
\<close>

definition drop_zeros :: "string \<Rightarrow> string" where
  "drop_zeros s = rev (dropWhile (\<lambda>a. a = CHR ''0'') (rev s))"

definition frac_text :: "nat \<Rightarrow> string" where
  "frac_text n = (if n = 0 then ''Z'' else ''.'' @ drop_zeros (fixed_width 9 n) @ ''Z'')"

definition stamp_sec :: "stamp \<Rightarrow> int" where
  "stamp_sec s = stamp_ns s div second_ns"

definition stamp_frac :: "stamp \<Rightarrow> nat" where
  "stamp_frac s = nat (stamp_ns s mod second_ns)"

lemma drop_zeros_snoc:
  "drop_zeros (s @ [a]) = (if a = CHR ''0'' then drop_zeros s else s @ [a])"
  by (simp add: drop_zeros_def)

lemma drop_zeros_split: "\<exists>k. s = drop_zeros s @ replicate k (CHR ''0'')"
proof (induction s rule: rev_induct)
  case Nil
  show ?case by (simp add: drop_zeros_def)
next
  case (snoc a s)
  then obtain k where k: "s = drop_zeros s @ replicate k (CHR ''0'')" by blast
  show ?case
  proof (cases "a = CHR ''0''")
    case True
    have "s @ [a] = drop_zeros s @ replicate (Suc k) (CHR ''0'')"
      by (subst k) (simp add: True replicate_append_same)
    with True show ?thesis by (metis drop_zeros_snoc)
  next
    case False
    then show ?thesis by (intro exI [of _ 0]) (simp add: drop_zeros_snoc)
  qed
qed

lemma drop_zeros_pad: "drop_zeros s @ replicate (length s - length (drop_zeros s)) (CHR ''0'') = s"
proof -
  obtain k where k: "s = drop_zeros s @ replicate k (CHR ''0'')"
    using drop_zeros_split by blast
  then have "length s = length (drop_zeros s) + k"
    by (metis length_append length_replicate)
  with k show ?thesis by simp
qed

lemma drop_zeros_inject:
  "length s = length t \<Longrightarrow> drop_zeros s = drop_zeros t \<Longrightarrow> s = t"
  by (metis drop_zeros_pad)

lemma frac_text_inject:
  assumes "n < 10 ^ 9" "m < 10 ^ 9" "frac_text n = frac_text m"
  shows "n = m"
proof (cases "n = 0 \<or> m = 0")
  case True
  with assms show ?thesis by (auto simp: frac_text_def split: if_splits)
next
  case False
  with assms have "drop_zeros (fixed_width 9 n) = drop_zeros (fixed_width 9 m)"
    by (simp add: frac_text_def)
  then have "fixed_width 9 n = fixed_width 9 m" by (rule drop_zeros_inject [rotated]) simp
  with assms fixed_width_inject show ?thesis by blast
qed

lemma stamp_frac_bound: "stamp_frac s < 10 ^ 9"
proof -
  have "stamp_ns s mod second_ns < 10 ^ 9" by (simp add: second_ns_def)
  then show ?thesis by (simp add: stamp_frac_def nat_less_iff second_ns_def)
qed

lemma stamp_ns_split: "stamp_ns s = second_ns * stamp_sec s + int (stamp_frac s)"
  by (simp add: stamp_sec_def stamp_frac_def second_ns_def)

lemma stamp_eqI: "stamp_sec a = stamp_sec b \<Longrightarrow> stamp_frac a = stamp_frac b \<Longrightarrow> a = b"
  by (metis stamp.expand stamp_ns_split)

instantiation stamp :: linorder
begin

definition less_stamp :: "stamp \<Rightarrow> stamp \<Rightarrow> bool" where
  "a < b \<longleftrightarrow> stamp_sec a < stamp_sec b \<or>
     (stamp_sec a = stamp_sec b \<and> frac_text (stamp_frac a) < frac_text (stamp_frac b))"

definition less_eq_stamp :: "stamp \<Rightarrow> stamp \<Rightarrow> bool" where
  "a \<le> b \<longleftrightarrow> stamp_sec a < stamp_sec b \<or>
     (stamp_sec a = stamp_sec b \<and> frac_text (stamp_frac a) \<le> frac_text (stamp_frac b))"

instance
proof
  fix a b c :: stamp
  show "(a < b) = (a \<le> b \<and> \<not> b \<le> a)"
    by (auto simp: less_stamp_def less_eq_stamp_def)
  show "a \<le> a" by (simp add: less_eq_stamp_def)
  show "a \<le> b \<Longrightarrow> b \<le> c \<Longrightarrow> a \<le> c"
    by (auto simp: less_eq_stamp_def)
  show "a \<le> b \<or> b \<le> a" by (auto simp: less_eq_stamp_def)
  assume "a \<le> b" "b \<le> a"
  then have "stamp_sec a = stamp_sec b" "frac_text (stamp_frac a) = frac_text (stamp_frac b)"
    by (auto simp: less_eq_stamp_def)
  then show "a = b"
    by (intro stamp_eqI) (auto intro: frac_text_inject stamp_frac_bound)
qed

end

text \<open>The text order agrees with time except inside one second.\<close>

lemma stamp_less_whole_second: "a + second_ns \<le> b \<Longrightarrow> Stamp a < Stamp b"
proof -
  assume "a + second_ns \<le> b"
  then have "a div second_ns < b div second_ns"
    by (simp add: second_ns_def)
  then show ?thesis by (simp add: less_stamp_def stamp_sec_def)
qed

lemma stamp_less_within: "Stamp a < Stamp b \<Longrightarrow> a < b + second_ns"
  using stamp_less_whole_second [of b a] by (meson not_less order_less_asym)

lemma stamp_less_later_second:
  "Stamp a < Stamp b \<Longrightarrow> a div second_ns \<le> b div second_ns"
  by (auto simp: less_stamp_def stamp_sec_def)

text \<open>Inside one second it can be reversed: no fraction sorts after every fraction.\<close>

lemma stamp_order_reversed: "Stamp 500000000 < Stamp 0"
  by (simp add: less_stamp_def stamp_sec_def stamp_frac_def second_ns_def frac_text_def)

end
