(* ===== verification/Cadence.thy ===== *)
theory Cadence
  imports GoTime
begin

text \<open>
  \<open>core/internal/schedule/cadence.go\<close>: the cadence of a topic or thread is
  \<open>reactive\<close>, a legacy preset or a five-field cron expression.  The theory models the
  parser of cron expressions, the matching of an instant against a parsed expression, the
  search for the previous run and the comparison of a cadence with a list filter.
  Error texts are replaced by the constructors of \<open>cron_error\<close>; no caller reads them.
\<close>

section \<open>Cron expressions\<close>

datatype cron_error =
    EmptyField | EmptyToken | InvalidStepToken | InvalidStep | InvalidRangeToken
  | InvalidRangeStart | InvalidRangeEnd | StartAfterEnd | InvalidValue | StepNeedsRange
  | ValueOutsideRange | NoAllowedValues | WrongFieldCount

record cronField =
  wildcard :: bool
  allowed :: "int set"

record parsedCron =
  cron_minute :: cronField
  cron_hour :: cronField
  cron_dom :: cronField
  cron_month :: cronField
  cron_dow :: cronField

definition cadence_reactive :: string where "cadence_reactive = ''reactive''"
definition cadence_custom :: string where "cadence_custom = ''custom''"

definition normalize_cadence :: "string \<Rightarrow> string" where
  "normalize_cadence value = join_with '' '' (str_fields (trim value))"

text \<open>
  One comma-separated token: its optional step, then the range its base names.
\<close>

definition cron_token_step :: "string \<Rightarrow> cron_error + (string \<times> int)" where
  "cron_token_step token =
     (if CHR ''/'' \<in> set token then
        (case split_on (CHR ''/'') token of
           [b, st] \<Rightarrow>
             (case atoi (trim st) of
                None \<Rightarrow> Inl InvalidStep
              | Some v \<Rightarrow> if v \<le> 0 then Inl InvalidStep else Inr (trim b, v))
         | _ \<Rightarrow> Inl InvalidStepToken)
      else Inr (token, 1))"

definition cron_base_range :: "string \<Rightarrow> int \<Rightarrow> int \<Rightarrow> int \<Rightarrow> cron_error + (int \<times> int)" where
  "cron_base_range base step minValue maxValue =
     (if base = ''*'' then Inr (minValue, maxValue)
      else if CHR ''-'' \<in> set base then
        (case split_on (CHR ''-'') base of
           [lo, hi] \<Rightarrow>
             (case atoi (trim lo) of
                None \<Rightarrow> Inl InvalidRangeStart
              | Some start \<Rightarrow>
                  (case atoi (trim hi) of
                     None \<Rightarrow> Inl InvalidRangeEnd
                   | Some stop \<Rightarrow>
                       if start > stop then Inl StartAfterEnd else Inr (start, stop)))
         | _ \<Rightarrow> Inl InvalidRangeToken)
      else
        (case atoi base of
           None \<Rightarrow> Inl InvalidValue
         | Some v \<Rightarrow> if step \<noteq> 1 then Inl StepNeedsRange else Inr (v, v)))"

definition cron_token_range :: "string \<Rightarrow> int \<Rightarrow> int \<Rightarrow> cron_error + (int \<times> int \<times> int)" where
  "cron_token_range token minValue maxValue =
     (case cron_token_step token of
        Inl e \<Rightarrow> Inl e
      | Inr (base, step) \<Rightarrow>
          (case cron_base_range base step minValue maxValue of
             Inl e \<Rightarrow> Inl e
           | Inr (rangeStart, rangeEnd) \<Rightarrow> Inr (rangeStart, rangeEnd, step)))"

text \<open>
  The loop \<open>for number := rangeStart; number <= rangeEnd; number += step\<close>.  The sum is
  taken in 64 bits.  When it wraps, the new \<open>number\<close> is negative, hence not above
  \<open>rangeEnd\<close> and below \<open>minValue\<close>, and the next iteration reports it as
  outside the range: that is the branch \<open>nxt \<le> number\<close>.
\<close>

definition int64_wrap :: "int \<Rightarrow> int" where
  "int64_wrap v = (v + 2 ^ 63) mod 2 ^ 64 - 2 ^ 63"

function add_range_values ::
    "int \<Rightarrow> int \<Rightarrow> bool \<Rightarrow> int \<Rightarrow> int \<Rightarrow> int \<Rightarrow> int set \<Rightarrow> cron_error + int set" where
  "add_range_values minValue maxValue sevenToZero number rangeEnd step acc =
     (if number > rangeEnd then Inr acc
      else if number < minValue \<or> number > maxValue then Inl ValueOutsideRange
      else
        (let norm = (if sevenToZero \<and> number = 7 then 0 else number);
             nxt = int64_wrap (number + step)
         in if nxt \<le> number then Inl ValueOutsideRange
            else add_range_values minValue maxValue sevenToZero nxt rangeEnd step (insert norm acc)))"
  by pat_completeness auto
termination
  by (relation "measure (\<lambda>(_, _, _, number, rangeEnd, _, _). nat (rangeEnd + 1 - number))")
     (auto simp: Let_def)

declare add_range_values.simps [simp del]

fun add_cron_parts ::
    "string list \<Rightarrow> int \<Rightarrow> int \<Rightarrow> bool \<Rightarrow> int set \<Rightarrow> cron_error + int set" where
  "add_cron_parts [] minValue maxValue sevenToZero acc = Inr acc"
| "add_cron_parts (part # parts) minValue maxValue sevenToZero acc =
     (let token = trim part
      in if token = [] then Inl EmptyToken
         else case cron_token_range token minValue maxValue of
             Inl e \<Rightarrow> Inl e
           | Inr (rangeStart, rangeEnd, step) \<Rightarrow>
               (case add_range_values minValue maxValue sevenToZero rangeStart rangeEnd step acc of
                  Inl e \<Rightarrow> Inl e
                | Inr acc' \<Rightarrow> add_cron_parts parts minValue maxValue sevenToZero acc'))"

definition parse_cron_field :: "string \<Rightarrow> int \<Rightarrow> int \<Rightarrow> bool \<Rightarrow> cron_error + cronField" where
  "parse_cron_field field minValue maxValue mapSevenToZero =
     (let input = trim field
      in if input = [] then Inl EmptyField
         else case add_cron_parts (split_on (CHR '','') input) minValue maxValue mapSevenToZero {} of
             Inl e \<Rightarrow> Inl e
           | Inr vals \<Rightarrow>
               if vals = {} then Inl NoAllowedValues
               else Inr \<lparr>wildcard = (input = ''*''), allowed = vals\<rparr>)"

definition parse_cron_expression :: "string \<Rightarrow> cron_error + parsedCron" where
  "parse_cron_expression expr =
     (case str_fields (normalize_cadence expr) of
        [f0, f1, f2, f3, f4] \<Rightarrow>
          (case parse_cron_field f0 0 59 False of
             Inl e \<Rightarrow> Inl e
           | Inr mi \<Rightarrow>
          (case parse_cron_field f1 0 23 False of
             Inl e \<Rightarrow> Inl e
           | Inr ho \<Rightarrow>
          (case parse_cron_field f2 1 31 False of
             Inl e \<Rightarrow> Inl e
           | Inr dm \<Rightarrow>
          (case parse_cron_field f3 1 12 False of
             Inl e \<Rightarrow> Inl e
           | Inr mo \<Rightarrow>
          (case parse_cron_field f4 0 7 True of
             Inl e \<Rightarrow> Inl e
           | Inr dw \<Rightarrow>
               Inr \<lparr>cron_minute = mi, cron_hour = ho, cron_dom = dm, cron_month = mo, cron_dow = dw\<rparr>)))))
      | _ \<Rightarrow> Inl WrongFieldCount)"

definition cron_field_matches :: "cronField \<Rightarrow> int \<Rightarrow> bool" where
  "cron_field_matches f v \<longleftrightarrow> v \<in> allowed f"

definition cron_matches :: "parsedCron \<Rightarrow> int \<Rightarrow> bool" where
  "cron_matches c ts =
     (let domMatches = cron_field_matches (cron_dom c) (time_day ts);
          dowMatches = cron_field_matches (cron_dow c) (time_weekday ts);
          dayMatches =
            (if \<not> wildcard (cron_dom c) \<and> \<not> wildcard (cron_dow c)
             then domMatches \<or> dowMatches else domMatches \<and> dowMatches)
      in cron_field_matches (cron_minute c) (time_minute ts) \<and>
         cron_field_matches (cron_hour c) (time_hour ts) \<and>
         cron_field_matches (cron_month c) (time_month ts) \<and>
         dayMatches)"

section \<open>Cadences\<close>

definition is_reactive_cadence :: "string \<Rightarrow> bool" where
  "is_reactive_cadence value =
     (let normalized = normalize_cadence value
      in normalized = [] \<or> normalized = cadence_reactive)"

definition is_legacy_cadence :: "string \<Rightarrow> bool" where
  "is_legacy_cadence value \<longleftrightarrow>
     normalize_cadence value \<in> {''daily'', ''weekly'', ''monthly'', ''custom''}"

definition is_cron_cadence :: "string \<Rightarrow> bool" where
  "is_cron_cadence value =
     (let normalized = normalize_cadence value
      in if normalized = [] \<or> normalized = cadence_reactive \<or> is_legacy_cadence normalized
         then False
         else (case parse_cron_expression normalized of Inl _ \<Rightarrow> False | Inr _ \<Rightarrow> True))"

datatype cadence_error = CadenceEmpty | CadenceInvalid

definition validate_cadence :: "string \<Rightarrow> cadence_error option" where
  "validate_cadence value =
     (let normalized = normalize_cadence value
      in if normalized = [] then Some CadenceEmpty
         else if normalized = cadence_reactive \<or> is_legacy_cadence normalized then None
         else (case parse_cron_expression normalized of
                 Inl _ \<Rightarrow> Some CadenceInvalid | Inr _ \<Rightarrow> None))"

definition cadence_preset :: "string \<Rightarrow> string" where
  "cadence_preset value =
     (let normalized = normalize_cadence value
      in if normalized \<in> {[], cadence_reactive} then cadence_reactive
         else if normalized \<in> {''daily'', ''0 9 * * *''} then ''daily''
         else if normalized \<in> {''weekly'', ''0 9 * * 1''} then ''weekly''
         else if normalized \<in> {''monthly'', ''0 9 1 * *''} then ''monthly''
         else if normalized = cadence_custom then cadence_custom
         else if is_cron_cadence normalized then cadence_custom
         else [])"

definition cadence_matches_filter :: "string \<Rightarrow> string \<Rightarrow> bool" where
  "cadence_matches_filter threadCadence filterCadence =
     (let flt = normalize_cadence filterCadence
      in if flt = [] then True
         else
           (let threadValue = normalize_cadence threadCadence
            in if flt = cadence_custom then cadence_preset threadValue = cadence_custom
               else if is_cron_cadence flt then
                 (if threadValue = flt then True
                  else (let filterPreset = cadence_preset flt
                        in if filterPreset = cadence_custom then False
                           else cadence_preset threadValue = filterPreset))
               else (let filterPreset = cadence_preset flt
                     in if filterPreset = [] then False
                        else cadence_preset threadValue = filterPreset)))"

section \<open>The previous run\<close>

definition cron_previous_run_lookback :: int where
  "cron_previous_run_lookback = 6 * 366 * 24 * hour_ns"

function search_previous :: "parsedCron \<Rightarrow> int \<Rightarrow> int \<Rightarrow> int option" where
  "search_previous parsed candidate earliest =
     (if candidate < earliest then None
      else if cron_matches parsed candidate then Some candidate
      else search_previous parsed (candidate - minute_ns) earliest)"
  by pat_completeness auto
termination
  by (relation "measure (\<lambda>(_, candidate, earliest). nat (candidate + 1 - earliest))")
     (auto simp: duration_defs)

declare search_previous.simps [simp del]

definition first_candidate :: "int \<Rightarrow> int" where
  "first_candidate now =
     (let candidate = truncate_minute now
      in if \<not> candidate < now then candidate - minute_ns else candidate)"

definition previous_cron_run :: "string \<Rightarrow> int \<Rightarrow> int option" where
  "previous_cron_run value now =
     (let cadence = normalize_cadence value
      in if \<not> is_cron_cadence cadence then None
         else case parse_cron_expression cadence of
             Inl _ \<Rightarrow> None
           | Inr parsed \<Rightarrow>
               (let candidate = first_candidate now
                in search_previous parsed candidate (candidate - cron_previous_run_lookback)))"

section \<open>Normalisation and presets\<close>

lemma normalize_cadence_idem [simp]: "normalize_cadence (normalize_cadence v) = normalize_cadence v"
  by (simp add: normalize_cadence_def trim_join_words)

lemma predicates_normalized [simp]:
  "is_legacy_cadence (normalize_cadence v) = is_legacy_cadence v"
  "parse_cron_expression (normalize_cadence v) = parse_cron_expression v"
  "is_cron_cadence (normalize_cadence v) = is_cron_cadence v"
  "cadence_preset (normalize_cadence v) = cadence_preset v"
  by (simp_all add: is_legacy_cadence_def parse_cron_expression_def is_cron_cadence_def
        cadence_preset_def Let_def)

lemma is_cron_cadence_iff:
  "is_cron_cadence v \<longleftrightarrow> normalize_cadence v \<noteq> [] \<and> normalize_cadence v \<noteq> cadence_reactive \<and>
     \<not> is_legacy_cadence v \<and> (\<exists>p. parse_cron_expression v = Inr p)"
  by (auto simp: is_cron_cadence_def Let_def split: sum.splits)

lemma canonical_presets_parse:
  "\<exists>p. parse_cron_expression ''0 9 * * *'' = Inr p"
  "\<exists>p. parse_cron_expression ''0 9 * * 1'' = Inr p"
  "\<exists>p. parse_cron_expression ''0 9 1 * *'' = Inr p"
  by (rule exI, code_simp)+

lemma cron_text_not_word:
  "parse_cron_expression v = Inr p \<Longrightarrow> length (str_fields (normalize_cadence v)) = 5"
  by (auto simp: parse_cron_expression_def split: list.splits)

lemma legacy_word_one_field:
  "is_legacy_cadence v \<or> normalize_cadence v = cadence_reactive \<Longrightarrow>
     length (str_fields (normalize_cadence v)) = 1"
  by (auto simp: is_legacy_cadence_def cadence_reactive_def str_fields_def flush_word_def
        ws1_def ws2_def ws3_def)

lemma is_cron_cadence_parses: "is_cron_cadence v \<longleftrightarrow> (\<exists>p. parse_cron_expression v = Inr p)"
proof
  assume "\<exists>p. parse_cron_expression v = Inr p"
  then have "length (str_fields (normalize_cadence v)) = 5"
    using cron_text_not_word by blast
  then have "normalize_cadence v \<noteq> []" "normalize_cadence v \<noteq> cadence_reactive" "\<not> is_legacy_cadence v"
    using legacy_word_one_field [of v] by (auto simp: str_fields_def)
  with \<open>\<exists>p. parse_cron_expression v = Inr p\<close> show "is_cron_cadence v"
    by (simp add: is_cron_cadence_iff)
qed (auto simp: is_cron_cadence_iff)

lemma is_cron_cadence_by_text:
  "normalize_cadence v = w \<Longrightarrow> is_cron_cadence v = is_cron_cadence w"
  by (metis predicates_normalized(3))

lemma canonical_is_cron:
  "is_cron_cadence ''0 9 * * *''" "is_cron_cadence ''0 9 * * 1''" "is_cron_cadence ''0 9 1 * *''"
  using canonical_presets_parse by (simp_all add: is_cron_cadence_parses)

lemma cadence_preset_nonempty_iff:
  "cadence_preset v \<noteq> [] \<longleftrightarrow>
     normalize_cadence v = [] \<or> normalize_cadence v = cadence_reactive \<or>
     is_legacy_cadence v \<or> is_cron_cadence v"
  using canonical_is_cron is_cron_cadence_by_text [of v "''0 9 * * *''"]
    is_cron_cadence_by_text [of v "''0 9 * * 1''"] is_cron_cadence_by_text [of v "''0 9 1 * *''"]
  by (auto simp: cadence_preset_def is_legacy_cadence_def Let_def cadence_reactive_def cadence_custom_def)

lemma preset_of_custom: "normalize_cadence v = cadence_custom \<Longrightarrow> cadence_preset v = cadence_custom"
  by (simp add: cadence_preset_def cadence_reactive_def cadence_custom_def)

lemma cron_not_custom_text: "is_cron_cadence v \<Longrightarrow> normalize_cadence v \<noteq> cadence_custom"
  by (auto simp: is_cron_cadence_iff is_legacy_cadence_def cadence_custom_def)

section \<open>The allowed values of a field\<close>

definition range_values :: "int \<Rightarrow> int \<Rightarrow> int \<Rightarrow> int set" where
  "range_values start stop step = {start + int k * step | k. start + int k * step \<le> stop}"

definition seven_to_zero :: "bool \<Rightarrow> int \<Rightarrow> int" where
  "seven_to_zero z v = (if z \<and> v = 7 then 0 else v)"

lemma range_values_empty: "0 < step \<Longrightarrow> stop < start \<Longrightarrow> range_values start stop step = {}"
  by (auto simp: range_values_def) (smt (verit) mult_nonneg_nonneg of_nat_0_le_iff)

lemma range_values_step:
  assumes "0 < step" "start \<le> stop"
  shows "range_values start stop step = insert start (range_values (start + step) stop step)"
proof (intro set_eqI iffI)
  fix v
  assume "v \<in> range_values start stop step"
  then obtain k where k: "v = start + int k * step" "v \<le> stop" by (auto simp: range_values_def)
  show "v \<in> insert start (range_values (start + step) stop step)"
  proof (cases k)
    case 0
    with k show ?thesis by simp
  next
    case (Suc j)
    with k have "v = (start + step) + int j * step" by (simp add: algebra_simps)
    with k show ?thesis by (auto simp: range_values_def)
  qed
next
  fix v
  assume v: "v \<in> insert start (range_values (start + step) stop step)"
  show "v \<in> range_values start stop step"
  proof (cases "v = start")
    case True
    with assms show ?thesis unfolding range_values_def by (auto intro: exI [of _ 0])
  next
    case False
    with v obtain k where "v = start + step + int k * step" "v \<le> stop" by (auto simp: range_values_def)
    then have "v = start + int (Suc k) * step" by (simp add: algebra_simps)
    with \<open>v \<le> stop\<close> show ?thesis unfolding range_values_def by blast
  qed
qed

lemma int64_wrap_small: "- (2 ^ 63) \<le> v \<Longrightarrow> v < 2 ^ 63 \<Longrightarrow> int64_wrap v = v"
  by (simp add: int64_wrap_def)

lemma int64_wrap_over: "2 ^ 63 \<le> v \<Longrightarrow> v < 2 ^ 64 \<Longrightarrow> int64_wrap v < 0"
proof -
  assume "2 ^ 63 \<le> v" "v < 2 ^ 64"
  then have "(v + 2 ^ 63) mod 2 ^ 64 = v + 2 ^ 63 - 2 ^ 64"
    by (subst minus_mod_self2 [symmetric]) (simp add: mod_pos_pos_trivial)
  with \<open>v < 2 ^ 64\<close> show ?thesis by (simp add: int64_wrap_def)
qed

lemma add_range_values_sound:
  "add_range_values lo hi z n stop step acc = Inr s \<Longrightarrow> 0 < step \<Longrightarrow> step < 2 ^ 63 \<Longrightarrow>
     0 \<le> lo \<Longrightarrow> hi < 2 ^ 63 \<Longrightarrow>
     s = acc \<union> seven_to_zero z ` range_values n stop step \<and> range_values n stop step \<subseteq> {lo..hi}"
proof (induction lo hi z n stop step acc rule: add_range_values.induct)
  case (1 lo hi z n stop step acc)
  note res = "1.prems"(1) [simplified add_range_values.simps [of lo hi z n]]
  show ?case
  proof (cases "n > stop")
    case True
    with res "1.prems" show ?thesis by (simp add: range_values_empty)
  next
    case False
    with res have inb: "lo \<le> n" "n \<le> hi"
      and more: "\<not> int64_wrap (n + step) \<le> n"
      and call: "add_range_values lo hi z (int64_wrap (n + step)) stop step (insert (seven_to_zero z n) acc) = Inr s"
      by (auto simp: Let_def seven_to_zero_def split: if_splits)
    have nx: "int64_wrap (n + step) = n + step"
    proof (cases "n + step < 2 ^ 63")
      case True
      with inb "1.prems" show ?thesis by (intro int64_wrap_small) auto
    next
      case False
      with inb "1.prems" have "int64_wrap (n + step) < 0" by (intro int64_wrap_over) auto
      with more inb "1.prems" show ?thesis by simp
    qed
    have "s = insert (seven_to_zero z n) acc \<union> seven_to_zero z ` range_values (n + step) stop step \<and>
          range_values (n + step) stop step \<subseteq> {lo..hi}"
      using "1.IH" [OF _ _ refl refl] False inb more call "1.prems" nx
      by (simp add: seven_to_zero_def Let_def)
    with False inb "1.prems" show ?thesis
      by (simp add: range_values_step [of step n stop] Un_commute)
  qed
qed

text \<open>What a comma-separated list of tokens denotes: the union of its ranges.\<close>

definition parts_values :: "string list \<Rightarrow> int \<Rightarrow> int \<Rightarrow> int set" where
  "parts_values parts lo hi =
     (\<Union>part \<in> set parts. case cron_token_range (trim part) lo hi of
        Inl _ \<Rightarrow> {} | Inr (start, stop, step) \<Rightarrow> range_values start stop step)"

lemma atoi_bound: "atoi s = Some v \<Longrightarrow> v < 2 ^ 63"
  by (auto simp: atoi_def Let_def split: option.splits if_splits)

lemma cron_token_step_bound:
  "cron_token_step tok = Inr (b, st) \<Longrightarrow> 0 < st \<and> st < 2 ^ 63"
  by (auto simp: cron_token_step_def dest: atoi_bound split: if_splits option.splits list.splits)

lemma cron_token_range_step:
  "cron_token_range tok lo hi = Inr (a, b, st) \<Longrightarrow> 0 < st \<and> st < 2 ^ 63"
  by (auto simp: cron_token_range_def dest: cron_token_step_bound split: sum.splits prod.splits)

lemma add_cron_parts_sound:
  "add_cron_parts parts lo hi z acc = Inr s \<Longrightarrow> 0 \<le> lo \<Longrightarrow> hi < 2 ^ 63 \<Longrightarrow>
     s = acc \<union> seven_to_zero z ` parts_values parts lo hi \<and> parts_values parts lo hi \<subseteq> {lo..hi}"
proof (induction parts arbitrary: acc)
  case Nil
  then show ?case by (simp add: parts_values_def)
next
  case (Cons part parts)
  then obtain a b st acc' where tok: "cron_token_range (trim part) lo hi = Inr (a, b, st)"
    and vals: "add_range_values lo hi z a b st acc = Inr acc'"
    and rest: "add_cron_parts parts lo hi z acc' = Inr s"
    by (auto simp: Let_def split: if_splits sum.splits prod.splits)
  have "acc' = acc \<union> seven_to_zero z ` range_values a b st \<and> range_values a b st \<subseteq> {lo..hi}"
    using add_range_values_sound [OF vals] cron_token_range_step [OF tok] Cons.prems by simp
  moreover have "s = acc' \<union> seven_to_zero z ` parts_values parts lo hi \<and> parts_values parts lo hi \<subseteq> {lo..hi}"
    using Cons.IH [OF rest] Cons.prems by simp
  ultimately show ?case by (auto simp: parts_values_def tok)
qed

lemma parse_cron_field_denotes:
  assumes "parse_cron_field f lo hi z = Inr cf" "0 \<le> lo" "hi < 2 ^ 63"
  shows "allowed cf = seven_to_zero z ` parts_values (split_on (CHR '','') (trim f)) lo hi"
    and "parts_values (split_on (CHR '','') (trim f)) lo hi \<subseteq> {lo..hi}"
    and "allowed cf \<noteq> {}"
proof -
  from assms(1) obtain vals where vals: "add_cron_parts (split_on (CHR '','') (trim f)) lo hi z {} = Inr vals"
    and cf: "allowed cf = vals" "vals \<noteq> {}"
    by (auto simp: parse_cron_field_def Let_def split: if_splits sum.splits)
  show "allowed cf = seven_to_zero z ` parts_values (split_on (CHR '','') (trim f)) lo hi"
    and "parts_values (split_on (CHR '','') (trim f)) lo hi \<subseteq> {lo..hi}"
    and "allowed cf \<noteq> {}"
    using add_cron_parts_sound [OF vals assms(2,3)] cf by simp_all
qed

section \<open>The search for the previous run\<close>

lemma search_previous_Some:
  "search_previous p c e = Some t \<Longrightarrow>
     \<exists>k. t = c - int k * minute_ns \<and> e \<le> t \<and> cron_matches p t \<and>
         (\<forall>j < k. \<not> cron_matches p (c - int j * minute_ns))"
proof (induction p c e rule: search_previous.induct)
  case (1 p c e)
  note res = "1.prems" [simplified search_previous.simps [of p c e]]
  show ?case
  proof (cases "cron_matches p c")
    case True
    with res show ?thesis by (intro exI [of _ 0]) (auto split: if_splits)
  next
    case False
    with res have "\<not> c < e" "search_previous p (c - minute_ns) e = Some t" by (auto split: if_splits)
    with "1.IH" False obtain k where k: "t = c - minute_ns - int k * minute_ns" "e \<le> t" "cron_matches p t"
      "\<And>j. j < k \<Longrightarrow> \<not> cron_matches p (c - minute_ns - int j * minute_ns)" by blast
    have "\<not> cron_matches p (c - int j * minute_ns)" if "j < Suc k" for j
      using that False k(4) [of "j - 1"] by (cases j) (auto simp: algebra_simps)
    with k show ?thesis by (intro exI [of _ "Suc k"]) (simp add: algebra_simps)
  qed
qed

lemma search_previous_None:
  "search_previous p c e = None \<Longrightarrow> e \<le> c - int j * minute_ns \<Longrightarrow>
     \<not> cron_matches p (c - int j * minute_ns)"
proof (induction p c e arbitrary: j rule: search_previous.induct)
  case (1 p c e)
  have "0 \<le> int j * minute_ns" by (simp add: duration_defs)
  then have "\<not> c < e" using "1.prems"(2) by linarith
  with "1.prems"(1) [simplified search_previous.simps [of p c e]]
  have no: "\<not> cron_matches p c" and rest: "search_previous p (c - minute_ns) e = None"
    by (simp_all split: if_splits)
  show ?case
  proof (cases j)
    case 0
    with no show ?thesis by simp
  next
    case (Suc i)
    with "1.prems"(2) have "e \<le> c - minute_ns - int i * minute_ns" by (simp add: algebra_simps)
    with "1.IH" [OF \<open>\<not> c < e\<close> no rest] Suc show ?thesis by (simp add: algebra_simps)
  qed
qed

lemma first_candidate_bounds:
  "first_candidate now mod minute_ns = 0" "first_candidate now < now" "now \<le> first_candidate now + minute_ns"
proof -
  have m: "0 < minute_ns" by (simp add: duration_defs)
  note b = pos_mod_bound [OF m, of now] pos_mod_sign [OF m, of now]
  show "first_candidate now < now" "now \<le> first_candidate now + minute_ns"
    unfolding first_candidate_def truncate_minute_def Let_def using m b by (smt (verit))+
  show "first_candidate now mod minute_ns = 0"
    by (simp add: first_candidate_def truncate_minute_def Let_def mod_diff_eq minus_mod_eq_mult_div)
qed

lemma aligned_before_candidate:
  assumes "t mod minute_ns = 0" "t < now"
  shows "\<exists>j. t = first_candidate now - int j * minute_ns"
proof -
  have m: "0 < minute_ns" by (simp add: duration_defs)
  define c where "c = first_candidate now"
  note c = first_candidate_bounds [of now, folded c_def]
  obtain a b where ab: "t = a * minute_ns" "c = b * minute_ns"
    using assms(1) c(1) by (metis mod_eq_0_iff_dvd dvdE mult.commute)
  have "a \<le> b"
  proof (rule ccontr)
    assume "\<not> a \<le> b"
    then have "(b + 1) * minute_ns \<le> a * minute_ns" using m by (intro mult_right_mono) auto
    with ab c(3) assms(2) show False by (simp add: algebra_simps)
  qed
  then have "t = c - int (nat (b - a)) * minute_ns" using ab by (simp add: algebra_simps)
  then show ?thesis unfolding c_def by blast
qed

definition previous_run_of :: "parsedCron \<Rightarrow> int \<Rightarrow> int \<Rightarrow> bool" where
  \<comment> \<open>\<open>t\<close> is the latest whole minute before \<open>now\<close> that the expression matches\<close>
  "previous_run_of p now t \<longleftrightarrow>
     t mod minute_ns = 0 \<and> t < now \<and> cron_matches p t \<and>
     (\<forall>t'. t' mod minute_ns = 0 \<longrightarrow> t < t' \<longrightarrow> t' < now \<longrightarrow> \<not> cron_matches p t')"

lemma previous_run_of_unique: "previous_run_of p now t \<Longrightarrow> previous_run_of p now t' \<Longrightarrow> t = t'"
  unfolding previous_run_of_def by (metis linorder_neqE)

lemma previous_cron_run_parsed:
  "parse_cron_expression v = Inr p \<Longrightarrow>
     previous_cron_run v now =
       search_previous p (first_candidate now) (first_candidate now - cron_previous_run_lookback)"
  by (auto simp: previous_cron_run_def Let_def is_cron_cadence_parses)

lemma previous_cron_run_sound:
  assumes "parse_cron_expression v = Inr p" "previous_cron_run v now = Some t"
  shows "previous_run_of p now t"
proof -
  obtain k where k: "t = first_candidate now - int k * minute_ns" "cron_matches p t"
    "\<And>j. j < k \<Longrightarrow> \<not> cron_matches p (first_candidate now - int j * minute_ns)"
    using assms search_previous_Some by (metis previous_cron_run_parsed)
  have m: "0 < minute_ns" by (simp add: duration_defs)
  have "t mod minute_ns = 0"
    using k(1) first_candidate_bounds(1) [of now] by (simp add: mod_diff_eq [symmetric])
  moreover have "t < now"
  proof -
    have "0 \<le> int k * minute_ns" using m by simp
    with k(1) first_candidate_bounds(2) [of now] show ?thesis by linarith
  qed
  moreover have "\<not> cron_matches p t'" if al: "t' mod minute_ns = 0" "t < t'" "t' < now" for t'
  proof -
    obtain j where j: "t' = first_candidate now - int j * minute_ns"
      using aligned_before_candidate [OF al(1,3)] by blast
    have "j < k" using al(2) k(1) j m by simp
    with k(3) j show ?thesis by simp
  qed
  ultimately show ?thesis using k(2) by (auto simp: previous_run_of_def)
qed

lemma previous_cron_run_complete:
  assumes "parse_cron_expression v = Inr p" "previous_cron_run v now = None"
    "t mod minute_ns = 0" "t < now" "first_candidate now - cron_previous_run_lookback \<le> t"
  shows "\<not> cron_matches p t"
  using assms search_previous_None aligned_before_candidate by (metis previous_cron_run_parsed)

section \<open>Properties\<close>

text \<open>
  C11. \<open>PreviousCronRun\<close> returns an instant exactly when the expression has a
  whole-minute match before now inside the look-back window, and then it is the latest one.
\<close>

theorem previous_cron_run_correct:
  assumes "parse_cron_expression v = Inr p"
  shows "previous_cron_run v now = Some t \<longleftrightarrow>
    previous_run_of p now t \<and> first_candidate now - cron_previous_run_lookback \<le> t"
proof
  assume "previous_cron_run v now = Some t"
  then show "previous_run_of p now t \<and> first_candidate now - cron_previous_run_lookback \<le> t"
    using assms previous_cron_run_sound search_previous_Some by (metis previous_cron_run_parsed)
next
  assume r: "previous_run_of p now t \<and> first_candidate now - cron_previous_run_lookback \<le> t"
  show "previous_cron_run v now = Some t"
  proof (cases "previous_cron_run v now")
    case None
    with r previous_cron_run_complete [OF assms None] show ?thesis by (auto simp: previous_run_of_def)
  next
    case (Some t')
    with r previous_cron_run_sound [OF assms Some] show ?thesis
      by (auto dest: previous_run_of_unique)
  qed
qed

theorem previous_cron_run_correct_witness:
  "\<exists>p. parse_cron_expression ''0 9 * * 1'' = Inr p \<and>
     (previous_cron_run ''0 9 * * 1'' (5 * day_ns) = Some (4 * day_ns + 9 * hour_ns) \<longleftrightarrow>
      previous_run_of p (5 * day_ns) (4 * day_ns + 9 * hour_ns) \<and>
      first_candidate (5 * day_ns) - cron_previous_run_lookback \<le> 4 * day_ns + 9 * hour_ns)"
  using canonical_presets_parse(2) previous_cron_run_correct by blast

text \<open>
  A field that the parser accepts denotes the union of its comma-separated tokens,
  with 7 read as 0 in the day-of-week field; every value lies in the field's range and
  there is at least one.
\<close>

theorem parse_cron_field_sound:
  assumes "parse_cron_field f lo hi z = Inr cf" "0 \<le> lo" "hi < 2 ^ 63"
  shows "allowed cf = seven_to_zero z ` parts_values (split_on (CHR '','') (trim f)) lo hi \<and>
    parts_values (split_on (CHR '','') (trim f)) lo hi \<subseteq> {lo..hi} \<and> allowed cf \<noteq> {}"
  using parse_cron_field_denotes [OF assms] by blast

theorem parse_cron_field_sound_witness:
  "\<exists>cf. parse_cron_field ''1-5/2,7'' 0 7 True = Inr cf \<and>
     allowed cf = seven_to_zero True ` parts_values (split_on (CHR '','') (trim ''1-5/2,7'')) 0 7 \<and>
     allowed cf \<noteq> {}"
proof -
  have "\<exists>cf. parse_cron_field ''1-5/2,7'' 0 7 True = Inr cf" by (rule exI, code_simp)
  then show ?thesis using parse_cron_field_sound by fastforce
qed

text \<open>
  A cadence is valid exactly when it is not blank and \<open>CadencePreset\<close> names a preset for it:
  the validator and the preset lookup agree on every input.
\<close>

theorem validate_cadence_iff_preset:
  "validate_cadence v = None \<longleftrightarrow> normalize_cadence v \<noteq> [] \<and> cadence_preset v \<noteq> []"
  by (auto simp: validate_cadence_def Let_def cadence_preset_nonempty_iff is_cron_cadence_parses
      split: sum.splits)

text \<open>
  The list filter: a blank filter matches everything; a custom cron filter matches the
  same text only; every other recognised filter matches the cadences of its preset; an
  unrecognised filter matches nothing.
\<close>

theorem cadence_matches_filter_correct:
  "cadence_matches_filter t f =
     (if normalize_cadence f = [] then True
      else if is_cron_cadence f \<and> cadence_preset f = cadence_custom
           then normalize_cadence t = normalize_cadence f
      else cadence_preset f \<noteq> [] \<and> cadence_preset t = cadence_preset f)"
proof -
  have same: "normalize_cadence t = normalize_cadence f \<Longrightarrow> cadence_preset t = cadence_preset f"
    by (metis predicates_normalized(4))
  have eq: "cadence_matches_filter t f =
     (if normalize_cadence f = [] then True
      else if normalize_cadence f = cadence_custom then cadence_preset t = cadence_custom
      else if is_cron_cadence f then
        (if normalize_cadence t = normalize_cadence f then True
         else if cadence_preset f = cadence_custom then False
         else cadence_preset t = cadence_preset f)
      else if cadence_preset f = [] then False
      else cadence_preset t = cadence_preset f)"
    by (simp add: cadence_matches_filter_def Let_def)
  have "cadence_custom \<noteq> []" by (simp add: cadence_custom_def)
  then show ?thesis
    unfolding eq
    using same preset_of_custom [of f] cron_not_custom_text [of f] cadence_preset_nonempty_iff [of f]
    by (cases "is_cron_cadence f"; cases "normalize_cadence f = cadence_custom"; auto)
qed

end
