(* ===== verification/BoardRank.thy ===== *)
theory BoardRank
  imports GoNumbers
begin

text \<open>
  \<open>core/internal/primitives/boards_store.go\<close>, the ranks that order the cards of a
  board column: a rank is the decimal text of an unsigned 64-bit number, padded with zeros
  to 19 digits, and the store orders cards with \<open>ORDER BY rank\<close> on the text.
  \<open>allocateBoardRankBetween\<close> finds a rank between two neighbours;
  \<open>boardInsertIndex\<close> turns a before/after anchor into a position.
\<close>

section \<open>Ranks\<close>

type_synonym u64 = "64 word"

definition board_rank_width :: nat where "board_rank_width = 19"
definition board_rank_step :: u64 where "board_rank_step = 1024"

definition format_board_rank :: "u64 \<Rightarrow> string" where
  "format_board_rank v = pad_zero board_rank_width (dec_digits (unat v))"

definition parse_board_rank :: "string \<Rightarrow> u64 option" where
  "parse_board_rank raw = (let r = trim raw in if r = [] then None else parse_uint64 r)"

text \<open>
  \<open>parseBoardRank\<close> returns 0 beside a false flag; the flag is only ignored when the
  text is empty, and then the value is not used.
\<close>

definition rank_value :: "string \<Rightarrow> u64" where
  "rank_value raw = (case parse_board_rank raw of None \<Rightarrow> 0 | Some v \<Rightarrow> v)"

definition allocate_board_rank_between :: "string \<Rightarrow> string \<Rightarrow> string option" where
  "allocate_board_rank_between prevRank nextRank =
     (let prevValue = rank_value prevRank; nextValue = rank_value nextRank
      in if prevRank \<noteq> [] \<and> parse_board_rank prevRank = None then None
         else if nextRank \<noteq> [] \<and> parse_board_rank nextRank = None then None
         else if prevRank = [] \<and> nextRank = [] then Some (format_board_rank board_rank_step)
         else if prevRank = [] then
           (if nextValue \<le> 1 then None
            else let candidate = nextValue div 2
                 in if candidate = 0 \<or> candidate \<ge> nextValue then None
                    else Some (format_board_rank candidate))
         else if nextRank = [] then
           (if prevValue > - 1 - board_rank_step then None
            else Some (format_board_rank (prevValue + board_rank_step)))
         else
           (if nextValue \<le> prevValue + 1 then None
            else let candidate = prevValue + (nextValue - prevValue) div 2
                 in if candidate \<le> prevValue \<or> candidate \<ge> nextValue then None
                    else Some (format_board_rank candidate)))"

section \<open>Insertion index\<close>

datatype anchor_error = AnchorsExclusive | BeforeNotOnBoard | AfterNotOnBoard

fun find_anchor :: "string \<Rightarrow> string \<Rightarrow> nat \<Rightarrow> string list \<Rightarrow> nat option" where
  "find_anchor before after i [] = None"
| "find_anchor before after i (c # cs) =
     (if before \<noteq> [] \<and> c = before then Some i
      else if after \<noteq> [] \<and> c = after then Some (i + 1)
      else find_anchor before after (i + 1) cs)"

definition board_insert_index :: "string list \<Rightarrow> string \<Rightarrow> string \<Rightarrow> anchor_error + nat" where
  "board_insert_index cardIDs beforeCardID afterCardID =
     (let before = trim beforeCardID; after = trim afterCardID
      in if before = [] \<and> after = [] then Inr (length cardIDs)
         else if before \<noteq> [] \<and> after \<noteq> [] then Inl AnchorsExclusive
         else case find_anchor before after 0 cardIDs of
             Some i \<Rightarrow> Inr i
           | None \<Rightarrow> if before \<noteq> [] then Inl BeforeNotOnBoard else Inl AfterNotOnBoard)"

definition validate_board_placement_anchors :: "string \<Rightarrow> string \<Rightarrow> bool" where
  "validate_board_placement_anchors beforeCardID afterCardID \<longleftrightarrow>
     trim beforeCardID = [] \<or> trim afterCardID = []"

section \<open>Rank text\<close>

text \<open>An interface: values with a text form that parses back and keeps the order.\<close>

locale ordered_text =
  fixes enc :: "'a::linorder \<Rightarrow> string" and dec :: "string \<Rightarrow> 'a option" and ok :: "'a \<Rightarrow> bool"
  assumes dec_enc: "ok v \<Longrightarrow> dec (enc v) = Some v"
    and enc_less: "ok v \<Longrightarrow> ok w \<Longrightarrow> v < w \<Longrightarrow> enc v < enc w"
    and enc_not_Nil: "enc v \<noteq> []"
begin

lemma enc_inject: "ok v \<Longrightarrow> ok w \<Longrightarrow> enc v = enc w \<Longrightarrow> v = w"
  using dec_enc by (metis option.inject)

lemma enc_less_iff: "ok v \<Longrightarrow> ok w \<Longrightarrow> enc v < enc w \<longleftrightarrow> v < w"
  by (metis enc_less less_irrefl less_trans linorder_neqE)

lemma enc_le_iff: "ok v \<Longrightarrow> ok w \<Longrightarrow> enc v \<le> enc w \<longleftrightarrow> v \<le> w"
  using enc_less_iff by (metis not_le)

end

definition rank_fits :: "u64 \<Rightarrow> bool" where
  "rank_fits v \<longleftrightarrow> unat v < 10 ^ 19"

lemma format_not_ws: "\<not> starts_ws (format_board_rank v)" "\<not> ends_ws (rev (format_board_rank v))"
proof -
  have d: "list_all is_digit (format_board_rank v)"
    by (simp add: format_board_rank_def list_all_pad dec_digits_digits)
  have ne: "format_board_rank v \<noteq> []" by (simp add: format_board_rank_def pad_zero_def)
  have no1: "is_digit a \<Longrightarrow> \<not> ws1 a \<and> \<not> ws2 a b \<and> \<not> ws3 a b c" for a b c
    by (auto simp: ws1_def ws2_def ws3_def is_digit_def less_eq_char_def)
  have no2: "is_digit a \<Longrightarrow> \<not> ws2 b a \<and> \<not> ws3 c b a" for a b c
    by (auto simp: ws2_def ws3_def is_digit_def less_eq_char_def)
  show "\<not> starts_ws (format_board_rank v)"
    using d no1 by (cases "format_board_rank v" rule: starts_ws.cases) auto
  have "list_all is_digit (rev (format_board_rank v))" using d by (simp add: list_all_iff)
  then show "\<not> ends_ws (rev (format_board_rank v))"
    using no1 no2 by (cases "rev (format_board_rank v)" rule: ends_ws.cases) auto
qed

lemma format_board_rank_not_Nil [simp]: "format_board_rank v \<noteq> []"
  by (simp add: format_board_rank_def pad_zero_def)

lemma unat64_bound: "unat (v :: u64) < 2 ^ 64"
  using unsigned_less [where 'a = nat, of v] by simp

lemma parse_format_board_rank [simp]: "parse_board_rank (format_board_rank v) = Some v"
proof -
  have "parse_nat (format_board_rank v) = Some (unat v)"
    by (simp add: format_board_rank_def parse_nat_pad_dec)
  moreover have "unat v < 2 ^ 64" by (rule unat64_bound)
  ultimately show ?thesis
    by (simp add: parse_board_rank_def trim_id format_not_ws parse_uint64_def)
qed

lemma format_board_rank_less:
  "rank_fits v \<Longrightarrow> rank_fits w \<Longrightarrow> v < w \<Longrightarrow> format_board_rank v < format_board_rank w"
  by (simp add: format_board_rank_def board_rank_width_def rank_fits_def pad_dec_less word_less_nat_alt)

interpretation rank: ordered_text format_board_rank parse_board_rank rank_fits
  by unfold_locales (auto simp: format_board_rank_less)

section \<open>Allocation between two neighbours\<close>

text \<open>A neighbour is absent (the empty text) or a formatted rank.\<close>

fun rank_text :: "u64 option \<Rightarrow> string" where
  "rank_text None = []"
| "rank_text (Some v) = format_board_rank v"

definition room_between :: "u64 option \<Rightarrow> u64 option \<Rightarrow> bool" where
  "room_between p n =
     (case (p, n) of
        (None, None) \<Rightarrow> True
      | (None, Some w) \<Rightarrow> 2 \<le> unat w
      | (Some v, None) \<Rightarrow> unat v + 1024 < 2 ^ 64
      | (Some v, Some w) \<Rightarrow> unat v + 2 \<le> unat w)"

definition lies_between :: "u64 option \<Rightarrow> u64 \<Rightarrow> u64 option \<Rightarrow> bool" where
  "lies_between p v n =
     ((case p of None \<Rightarrow> True | Some a \<Rightarrow> a < v) \<and> (case n of None \<Rightarrow> True | Some b \<Rightarrow> v < b))"

lemma rank_fits_no_wrap: "rank_fits v \<Longrightarrow> unat v < 10 ^ 19"
  by (simp add: rank_fits_def)

lemma unat_step [simp]: "unat board_rank_step = 1024"
  by (simp add: board_rank_step_def)

lemma unat_add_small: "unat v + unat w < 2 ^ 64 \<Longrightarrow> unat (v + w) = unat v + unat w" for v w :: u64
  by (simp add: unat_add_lem [THEN iffD1])

lemma middle_between:
  fixes v w :: u64
  assumes "unat v + 2 \<le> unat w"
  shows "v < v + (w - v) div 2" "v + (w - v) div 2 < w"
proof -
  have d: "unat (w - v) = unat w - unat v"
    using assms by (simp add: unat_sub word_le_nat_alt)
  have h: "unat ((w - v) div 2) = (unat w - unat v) div 2"
    using d by (simp add: unat_div)
  have "unat w < 2 ^ 64" by (rule unat64_bound)
  then have "unat v + unat ((w - v) div 2) < 2 ^ 64" using assms h by linarith
  then have s: "unat (v + (w - v) div 2) = unat v + (unat w - unat v) div 2"
    using h by (simp add: unat_add_small)
  show "v < v + (w - v) div 2" "v + (w - v) div 2 < w"
    unfolding word_less_nat_alt s using assms by linarith+
qed

lemma half_below:
  fixes w :: u64
  assumes "1 < unat w"
  shows "w div 2 < w" "w div 2 \<noteq> 0"
proof -
  have h: "unat (w div 2) = unat w div 2" by (simp add: unat_div)
  show "w div 2 < w" unfolding word_less_nat_alt h using assms by simp
  have "unat (w div 2) \<noteq> 0" using assms unfolding h by linarith
  then show "w div 2 \<noteq> 0" by auto
qed

lemma le_one_unat: "w \<le> (1::u64) \<longleftrightarrow> unat w \<le> 1"
  by (simp add: word_le_nat_alt)

lemma le_succ_unat: "unat v < 2 ^ 64 - 1 \<Longrightarrow> w \<le> v + (1::u64) \<longleftrightarrow> unat w \<le> unat v + 1"
  using unat_add_small [of v 1] by (simp add: word_le_nat_alt)

lemma above_step_limit: "- 1 - board_rank_step < v \<longleftrightarrow> 2 ^ 64 \<le> unat v + 1024"
proof -
  have "unat (- 1 - board_rank_step) = 2 ^ 64 - 1 - 1024"
    by (simp add: board_rank_step_def)
  then show ?thesis using unat64_bound [of v] by (simp add: word_less_nat_alt) linarith
qed

lemma allocate_none_iff:
  assumes "\<And>v. p = Some v \<Longrightarrow> rank_fits v"
  shows "allocate_board_rank_between (rank_text p) (rank_text n) = None \<longleftrightarrow> \<not> room_between p n"
proof (cases p)
  case p: None
  show ?thesis
  proof (cases n)
    case None
    with p show ?thesis
      by (simp add: allocate_board_rank_between_def room_between_def Let_def)
  next
    case (Some w)
    show ?thesis
    proof (cases "1 < unat w")
      case True
      with p Some show ?thesis
        using half_below [of w]
        by (simp add: allocate_board_rank_between_def rank_value_def room_between_def Let_def
             le_one_unat not_le)
    next
      case False
      with p Some show ?thesis
        by (simp add: allocate_board_rank_between_def rank_value_def room_between_def Let_def
             le_one_unat not_le)
    qed
  qed
next
  case (Some v)
  then have "unat v < 10 ^ 19" using assms rank_fits_no_wrap by blast
  then have v: "unat v < 2 ^ 64 - 1" by simp
  show ?thesis
  proof (cases n)
    case None
    with Some show ?thesis
      by (auto simp: allocate_board_rank_between_def rank_value_def room_between_def above_step_limit)
  next
    case (Some w)
    with \<open>p = Some v\<close> show ?thesis
      using middle_between [of v w]
      by (auto simp: allocate_board_rank_between_def rank_value_def room_between_def Let_def
           le_succ_unat [OF v] not_le)
  qed
qed

lemma allocate_some:
  assumes "\<And>v. p = Some v \<Longrightarrow> rank_fits v"
    and "allocate_board_rank_between (rank_text p) (rank_text n) = Some r"
  obtains v where "r = format_board_rank v" "lies_between p v n"
    "n = None \<Longrightarrow> unat v = (case p of None \<Rightarrow> 1024 | Some a \<Rightarrow> unat a + 1024)"
proof -
  have room: "room_between p n" using allocate_none_iff [OF assms(1)] assms(2) by (metis option.distinct(1))
  show ?thesis
  proof (cases p)
    case None
    show ?thesis
    proof (cases n)
      case None
      with \<open>p = None\<close> assms(2) show ?thesis
        by (intro that [of board_rank_step])
           (auto simp: allocate_board_rank_between_def Let_def lies_between_def)
    next
      case (Some w)
      with None assms(2) room show ?thesis
        using half_below [of w] by (intro that [of "w div 2"])
          (auto simp: allocate_board_rank_between_def rank_value_def Let_def lies_between_def
             room_between_def le_one_unat split: if_splits)
    qed
  next
    case (Some v)
    then have "unat v < 10 ^ 19" using assms(1) rank_fits_no_wrap by blast
    then have v: "unat v < 2 ^ 64 - 1" by simp
    show ?thesis
    proof (cases n)
      case None
      with Some room have nw: "unat v + 1024 < 2 ^ 64" by (simp add: room_between_def)
      then have u: "unat (v + board_rank_step) = unat v + 1024" using unat_add_small [of v board_rank_step] by simp
      with Some None assms(2) nw show ?thesis
        by (intro that [of "v + board_rank_step"])
           (auto simp: allocate_board_rank_between_def rank_value_def above_step_limit
              lies_between_def word_less_nat_alt split: if_splits)
    next
      case (Some w)
      with \<open>p = Some v\<close> assms(2) room show ?thesis
        using middle_between [of v w] by (intro that [of "v + (w - v) div 2"])
          (auto simp: allocate_board_rank_between_def rank_value_def Let_def lies_between_def
             room_between_def le_succ_unat [OF v] split: if_splits)
    qed
  qed
qed

end
