(* ===== verification/Lifecycle.thy ===== *)
theory Lifecycle
  imports GoBase
begin

text \<open>
  \<open>core/internal/primitives/lifecycle_state.go\<close> and \<open>lifecycle_list_query.go\<close>: a row of any
  resource table is active, archived or trashed, as its \<open>archived_at\<close> and
  \<open>trashed_at\<close> columns say; list queries filter on it.  The SQL text that
  \<open>LifecycleStatePredicate\<close> and \<open>LifecycleStatesOrGroup\<close> build is modelled by the
  condition it states.  The locale \<open>soft_delete\<close> is the contract the archive, trash and restore
  updates of a table share.
\<close>

section \<open>States\<close>

definition lifecycle_active :: string where "lifecycle_active = ''active''"
definition lifecycle_archived :: string where "lifecycle_archived = ''archived''"
definition lifecycle_trashed :: string where "lifecycle_trashed = ''trashed''"

lemmas lifecycle_names = lifecycle_active_def lifecycle_archived_def lifecycle_trashed_def

definition canonical_lifecycle_states :: "string list" where
  "canonical_lifecycle_states = [lifecycle_active, lifecycle_archived, lifecycle_trashed]"

definition canonical_lifecycle_state :: "string option \<Rightarrow> string option \<Rightarrow> string" where
  "canonical_lifecycle_state archivedAt trashedAt =
     (if is_set trashedAt then lifecycle_trashed
      else if is_set archivedAt then lifecycle_archived
      else lifecycle_active)"

definition lifecycle_state_from_timestamps :: "string \<Rightarrow> string \<Rightarrow> string" where
  "lifecycle_state_from_timestamps archivedAt trashedAt =
     (if trim trashedAt \<noteq> [] then lifecycle_trashed
      else if trim archivedAt \<noteq> [] then lifecycle_archived
      else lifecycle_active)"

definition normalize_list_lifecycle_states :: "string list \<Rightarrow> string list" where
  "normalize_list_lifecycle_states states =
     (if states = [] then [lifecycle_active]
      else let seen = filter (\<lambda>s. s \<noteq> []) (map trim states);
               out = filter (\<lambda>canon. canon \<in> set seen) canonical_lifecycle_states
           in if out = [] then [lifecycle_active] else out)"

definition lifecycle_state_predicate :: "string option \<Rightarrow> string option \<Rightarrow> string \<Rightarrow> bool" where
  "lifecycle_state_predicate archivedCol trashedCol state =
     (let s = trim state
      in if s = lifecycle_active then archivedCol = None \<and> trashedCol = None
         else if s = lifecycle_archived then archivedCol \<noteq> None \<and> trashedCol = None
         else if s = lifecycle_trashed then trashedCol \<noteq> None
         else False)"

definition lifecycle_states_or_group :: "string option \<Rightarrow> string option \<Rightarrow> string list \<Rightarrow> bool" where
  "lifecycle_states_or_group archivedCol trashedCol states =
     list_ex (lifecycle_state_predicate archivedCol trashedCol) (normalize_list_lifecycle_states states)"

section \<open>Columns that were written by the store\<close>

text \<open>The store writes a timestamp or NULL, never blank text.\<close>

definition col_ok :: "string option \<Rightarrow> bool" where
  "col_ok x \<longleftrightarrow> (x = None \<or> is_set x)"

lemma col_ok_None [simp]: "col_ok None"
  by (simp add: col_ok_def)

lemma col_ok_set_iff: "col_ok x \<Longrightarrow> is_set x \<longleftrightarrow> x \<noteq> None"
  by (cases x) (auto simp: col_ok_def)

lemma trim_lifecycle_names [simp]:
  "trim lifecycle_active = lifecycle_active" "trim lifecycle_archived = lifecycle_archived"
  "trim lifecycle_trashed = lifecycle_trashed"
  by (code_simp)+

lemma normalize_list_subset: "set (normalize_list_lifecycle_states ss) \<subseteq> set canonical_lifecycle_states"
  by (auto simp: normalize_list_lifecycle_states_def Let_def canonical_lifecycle_states_def)

lemma normalize_list_not_Nil [simp]: "normalize_list_lifecycle_states ss \<noteq> []"
  by (auto simp: normalize_list_lifecycle_states_def Let_def)

lemma lifecycle_distinct [simp]:
  "lifecycle_active \<noteq> lifecycle_archived" "lifecycle_active \<noteq> lifecycle_trashed"
  "lifecycle_archived \<noteq> lifecycle_active" "lifecycle_archived \<noteq> lifecycle_trashed"
  "lifecycle_trashed \<noteq> lifecycle_active" "lifecycle_trashed \<noteq> lifecycle_archived"
  "lifecycle_active \<noteq> []" "lifecycle_archived \<noteq> []" "lifecycle_trashed \<noteq> []"
  by (simp_all add: lifecycle_names)

lemma predicate_canonical:
  assumes "col_ok a" "col_ok t" "s \<in> set canonical_lifecycle_states"
  shows "lifecycle_state_predicate a t s \<longleftrightarrow> s = canonical_lifecycle_state a t"
  using assms
  by (auto simp: lifecycle_state_predicate_def canonical_lifecycle_state_def
      canonical_lifecycle_states_def Let_def col_ok_set_iff)

lemma or_group_canonical:
  assumes "col_ok a" "col_ok t"
  shows "lifecycle_states_or_group a t ss \<longleftrightarrow>
           canonical_lifecycle_state a t \<in> set (normalize_list_lifecycle_states ss)"
  unfolding lifecycle_states_or_group_def list_ex_iff
  using predicate_canonical [OF assms] normalize_list_subset by blast

section \<open>The soft-delete lanes\<close>

locale soft_delete =
  fixes archived_at :: "'r \<Rightarrow> string option" and trashed_at :: "'r \<Rightarrow> string option"
    and archive :: "string \<Rightarrow> string \<Rightarrow> 'r \<Rightarrow> 'r"
    and trash :: "string \<Rightarrow> string \<Rightarrow> string \<Rightarrow> 'r \<Rightarrow> 'r"
    and unarchive :: "'r \<Rightarrow> 'r" and untrash :: "'r \<Rightarrow> 'r"
  assumes archive_cols [simp]: "archived_at (archive now by r) = Some now" "trashed_at (archive now by r) = trashed_at r"
    and trash_cols [simp]: "archived_at (trash now by why r) = None" "trashed_at (trash now by why r) = Some now"
    and unarchive_cols [simp]: "archived_at (unarchive r) = None" "trashed_at (unarchive r) = trashed_at r"
    and untrash_cols [simp]: "archived_at (untrash r) = archived_at r" "trashed_at (untrash r) = None"
begin

definition lane :: "'r \<Rightarrow> string" where
  "lane r = canonical_lifecycle_state (archived_at r) (trashed_at r)"

definition one_lane :: "'r \<Rightarrow> bool" where
  "one_lane r \<longleftrightarrow> col_ok (archived_at r) \<and> col_ok (trashed_at r) \<and> \<not> (is_set (archived_at r) \<and> is_set (trashed_at r))"

lemma archive_lane:
  "one_lane r \<Longrightarrow> \<not> is_set (trashed_at r) \<Longrightarrow> trim now \<noteq> [] \<Longrightarrow>
     one_lane (archive now by r) \<and> lane (archive now by r) = lifecycle_archived"
  by (simp add: one_lane_def lane_def canonical_lifecycle_state_def col_ok_def)

lemma trash_lane:
  "one_lane r \<Longrightarrow> trim now \<noteq> [] \<Longrightarrow>
     one_lane (trash now by why r) \<and> lane (trash now by why r) = lifecycle_trashed"
  by (simp add: one_lane_def lane_def canonical_lifecycle_state_def col_ok_def)

lemma untrash_lane:
  "one_lane r \<Longrightarrow> is_set (trashed_at r) \<Longrightarrow> one_lane (untrash r) \<and> lane (untrash r) = lifecycle_active"
  by (auto simp: one_lane_def lane_def canonical_lifecycle_state_def)

lemma unarchive_lane:
  "one_lane r \<Longrightarrow> is_set (archived_at r) \<Longrightarrow> one_lane (unarchive r) \<and> lane (unarchive r) = lifecycle_active"
  by (auto simp: one_lane_def lane_def canonical_lifecycle_state_def)

lemma active_columns:
  "one_lane r \<Longrightarrow> lane r = lifecycle_active \<longleftrightarrow> archived_at r = None \<and> trashed_at r = None"
  by (auto simp: one_lane_def lane_def canonical_lifecycle_state_def col_ok_def)

end

end
