(* ===== verification/BlobLedger.thy ===== *)
theory BlobLedger
  imports GoBase
begin

text \<open>
  \<open>core/internal/primitives/blob_usage.go\<close> and \<open>quota.go\<close>: the ledger of stored blobs (one row
  for each content hash, with its size), the running totals kept beside it (row 1 of
  \<open>blob_usage_totals\<close>, absent until the first rebuild), and the workspace quota that is checked
  before a write.  The blob backend's \<open>Stat\<close> is the parameter \<open>stat\<close>; a backend failure
  other than "not found" is infrastructure and not modelled.  Sizes are byte counts, modelled as
  unbounded integers: they stay far below \<open>2^63\<close>.
\<close>

section \<open>State\<close>

record blob_ledger =
  entries :: "(string \<times> int) list"
  totals :: "(int \<times> int) option"

record write_plan =
  content_hash :: string
  size_bytes :: int
  ledger_present :: bool
  backend_present :: bool

definition growth_bytes :: "write_plan \<Rightarrow> int" where
  "growth_bytes p =
     (if trim (content_hash p) = [] \<or> ledger_present p \<or> backend_present p then 0 else size_bytes p)"

definition needs_ledger_insert :: "write_plan \<Rightarrow> bool" where
  "needs_ledger_insert p \<longleftrightarrow> trim (content_hash p) \<noteq> [] \<and> \<not> ledger_present p"

section \<open>Operations\<close>

text \<open>SQLite's \<open>TRIM\<close> drops spaces only; the hash column is not blank when some other byte is in it.\<close>

definition canonical_blob_hashes :: "string option list \<Rightarrow> string list" where
  "canonical_blob_hashes hs =
     sort (remdups (filter (\<lambda>h. list_ex (\<lambda>c. c \<noteq> CHR 0x20) h) (map null_text hs)))"

record rebuild_result =
  canonical_hashes :: int
  missing_blob_objects :: int
  rebuilt_bytes :: int
  rebuilt_objects :: int

fun rebuild_loop ::
  "(string \<Rightarrow> int option) \<Rightarrow> string list \<Rightarrow> (string \<times> int) list \<times> int \<times> int \<times> int \<Rightarrow>
     (string \<times> int) list \<times> int \<times> int \<times> int" where
  "rebuild_loop stat [] acc = acc"
| "rebuild_loop stat (h # hs) (es, bytes, objects, missing) =
     (case stat h of
        None \<Rightarrow> rebuild_loop stat hs (es, bytes, objects, missing + 1)
      | Some n \<Rightarrow> rebuild_loop stat hs (es @ [(h, n)], bytes + n, objects + 1, missing))"

definition rebuild_blob_usage_ledger ::
  "(string \<Rightarrow> int option) \<Rightarrow> string option list \<Rightarrow> blob_ledger \<times> rebuild_result" where
  "rebuild_blob_usage_ledger stat artifactHashes =
     (let hashes = canonical_blob_hashes artifactHashes
      in case rebuild_loop stat hashes ([], 0, 0, 0) of (es, bytes, objects, missing) \<Rightarrow>
           (\<lparr>entries = es, totals = Some (bytes, objects)\<rparr>,
            \<lparr>canonical_hashes = int (length hashes), missing_blob_objects = missing,
             rebuilt_bytes = bytes, rebuilt_objects = objects\<rparr>))"

definition ensure_ledger_initialized ::
  "(string \<Rightarrow> int option) \<Rightarrow> string option list \<Rightarrow> blob_ledger \<Rightarrow> blob_ledger" where
  "ensure_ledger_initialized stat artifactHashes L =
     (case totals L of Some _ \<Rightarrow> L | None \<Rightarrow> fst (rebuild_blob_usage_ledger stat artifactHashes))"

definition lookup_blob_ledger_entry :: "string \<Rightarrow> blob_ledger \<Rightarrow> int option" where
  "lookup_blob_ledger_entry h L = map_of (entries L) h"

definition prepare_blob_ledger_write_plan ::
  "(string \<Rightarrow> int option) \<Rightarrow> string option list \<Rightarrow> string \<Rightarrow> int \<Rightarrow> blob_ledger \<Rightarrow> write_plan \<times> blob_ledger" where
  "prepare_blob_ledger_write_plan stat artifactHashes contentHash uploadBytes L =
     (let h = trim contentHash
      in if h = []
         then (\<lparr>content_hash = [], size_bytes = 0, ledger_present = False, backend_present = False\<rparr>, L)
         else let L' = ensure_ledger_initialized stat artifactHashes L
              in (case lookup_blob_ledger_entry h L' of
                    Some n \<Rightarrow> \<lparr>content_hash = h, size_bytes = n, ledger_present = True, backend_present = False\<rparr>
                  | None \<Rightarrow>
                     (case stat h of
                        Some n \<Rightarrow> \<lparr>content_hash = h, size_bytes = n, ledger_present = False, backend_present = True\<rparr>
                      | None \<Rightarrow> \<lparr>content_hash = h, size_bytes = uploadBytes, ledger_present = False,
                                  backend_present = False\<rparr>),
                  L'))"

text \<open>\<open>UPDATE blob_usage_totals ... WHERE id = 1\<close> changes nothing while the row is absent.\<close>

definition add_totals :: "int \<Rightarrow> int \<Rightarrow> (int \<times> int) option \<Rightarrow> (int \<times> int) option" where
  "add_totals bytes objects t = (case t of None \<Rightarrow> None | Some (b, n) \<Rightarrow> Some (b + bytes, n + objects))"

definition apply_blob_ledger_write_plan :: "write_plan \<Rightarrow> blob_ledger \<Rightarrow> blob_ledger" where
  "apply_blob_ledger_write_plan p L =
     (if \<not> needs_ledger_insert p then L
      else if content_hash p \<in> fst ` set (entries L) then L
      else L\<lparr>entries := entries L @ [(content_hash p, size_bytes p)],
             totals := add_totals (size_bytes p) 1 (totals L)\<rparr>)"

definition remove_blob_ledger_entry :: "string \<Rightarrow> blob_ledger \<Rightarrow> blob_ledger" where
  "remove_blob_ledger_entry contentHash L =
     (let h = trim contentHash
      in if h = [] then L
         else case lookup_blob_ledger_entry h L of
             None \<Rightarrow> L
           | Some n \<Rightarrow> L\<lparr>entries := filter (\<lambda>e. fst e \<noteq> h) (entries L),
                           totals := add_totals (- n) (- 1) (totals L)\<rparr>)"

section \<open>Quota\<close>

record workspace_quota =
  max_blob_bytes :: int
  max_artifacts :: int
  max_documents :: int
  max_revisions :: int
  max_upload_bytes :: int

record quota_violation =
  violation_code :: string
  violation_metric :: string
  violation_limit :: int
  violation_current :: int
  violation_projected :: int

record write_delta =
  delta_artifacts :: int
  delta_documents :: int
  delta_revisions :: int
  delta_db_bytes :: int

record workspace_usage =
  usage_blob_bytes :: int
  usage_blob_objects :: int
  usage_db_bytes :: int
  usage_artifacts :: int
  usage_documents :: int
  usage_revisions :: int
  usage_doc_revisions :: int
  usage_card_revisions :: int
  usage_events :: int

definition storage_bytes :: "workspace_usage \<Rightarrow> int" where
  "storage_bytes u = usage_blob_bytes u + usage_db_bytes u"

definition quota_enabled :: "workspace_quota \<Rightarrow> bool" where
  "quota_enabled q \<longleftrightarrow>
     max_blob_bytes q > 0 \<or> max_artifacts q > 0 \<or> max_documents q > 0 \<or> max_revisions q > 0 \<or>
     max_upload_bytes q > 0"

text \<open>Row counts of the tables, measured by \<open>SELECT COUNT(*)\<close>, and the size of the database files.\<close>

record table_counts =
  n_artifacts :: int
  n_documents :: int
  n_doc_revisions :: int
  n_card_revisions :: int
  n_events :: int

text \<open>After \<open>ensureBlobUsageLedgerInitialized\<close> the totals row is there.\<close>

definition current_workspace_usage ::
  "(string \<Rightarrow> int option) \<Rightarrow> string option list \<Rightarrow> int \<Rightarrow> table_counts \<Rightarrow> bool \<Rightarrow> blob_ledger \<Rightarrow>
     workspace_usage \<times> blob_ledger" where
  "current_workspace_usage stat artifactHashes dbBytes n includeBlobBytes L =
     (let L' = (if includeBlobBytes then ensure_ledger_initialized stat artifactHashes L else L);
          (bytes, objects) = (if includeBlobBytes then the (totals L') else (0, 0))
      in (\<lparr>usage_blob_bytes = bytes, usage_blob_objects = objects, usage_db_bytes = dbBytes,
           usage_artifacts = n_artifacts n, usage_documents = n_documents n,
           usage_revisions = n_doc_revisions n + n_card_revisions n,
           usage_doc_revisions = n_doc_revisions n, usage_card_revisions = n_card_revisions n,
           usage_events = n_events n\<rparr>,
          L'))"

definition over_limit :: "string \<Rightarrow> int \<Rightarrow> int \<Rightarrow> int \<Rightarrow> quota_violation option" where
  "over_limit metric limit current projected =
     (if limit > 0 \<and> projected > limit
      then Some \<lparr>violation_code = ''workspace_quota_exceeded'', violation_metric = metric,
                 violation_limit = limit, violation_current = current, violation_projected = projected\<rparr>
      else None)"

fun first_violation :: "quota_violation option list \<Rightarrow> quota_violation + unit" where
  "first_violation [] = Inr ()"
| "first_violation (None # vs) = first_violation vs"
| "first_violation (Some v # vs) = Inl v"

definition check_workspace_write_quota ::
  "workspace_quota \<Rightarrow> workspace_usage \<Rightarrow> int \<Rightarrow> write_delta \<Rightarrow> write_plan \<Rightarrow> quota_violation + unit" where
  "check_workspace_write_quota q usage uploadBytes delta plan =
     (if \<not> quota_enabled q then Inr ()
      else if max_upload_bytes q > 0 \<and> uploadBytes > max_upload_bytes q then
        Inl \<lparr>violation_code = ''request_too_large'', violation_metric = ''upload_bytes'',
             violation_limit = max_upload_bytes q, violation_current = 0, violation_projected = uploadBytes\<rparr>
      else first_violation
        [over_limit ''storage_bytes'' (max_blob_bytes q) (storage_bytes usage)
           (storage_bytes usage + growth_bytes plan + delta_db_bytes delta),
         over_limit ''artifact_count'' (max_artifacts q) (usage_artifacts usage)
           (usage_artifacts usage + delta_artifacts delta),
         over_limit ''document_count'' (max_documents q) (usage_documents usage)
           (usage_documents usage + delta_documents delta),
         over_limit ''revision_count'' (max_revisions q) (usage_revisions usage)
           (usage_revisions usage + delta_revisions delta)])"

section \<open>The ledger and its totals agree\<close>

definition ledger_ok :: "blob_ledger \<Rightarrow> bool" where
  "ledger_ok L \<longleftrightarrow>
     distinct (map fst (entries L)) \<and>
     (case totals L of None \<Rightarrow> True
      | Some (b, n) \<Rightarrow> b = sum_list (map snd (entries L)) \<and> n = int (length (entries L)))"

inductive ledger_reachable :: "blob_ledger \<Rightarrow> bool" where
  ledger_start: "ledger_reachable \<lparr>entries = [], totals = None\<rparr>"
| ledger_rebuild: "ledger_reachable L \<Longrightarrow> ledger_reachable (fst (rebuild_blob_usage_ledger stat hs))"
| ledger_apply: "ledger_reachable L \<Longrightarrow> ledger_reachable (apply_blob_ledger_write_plan p L)"
| ledger_remove: "ledger_reachable L \<Longrightarrow> ledger_reachable (remove_blob_ledger_entry h L)"

definition found_rows :: "(string \<Rightarrow> int option) \<Rightarrow> string list \<Rightarrow> (string \<times> int) list" where
  "found_rows stat hs = map (\<lambda>h. (h, the (stat h))) (filter (\<lambda>h. stat h \<noteq> None) hs)"

lemma rebuild_loop_result:
  "rebuild_loop stat hs (es, b, n, m) =
     (es @ found_rows stat hs,
      b + sum_list (map snd (found_rows stat hs)),
      n + int (length (found_rows stat hs)),
      m + int (length (filter (\<lambda>h. stat h = None) hs)))"
  by (induction hs arbitrary: es b n m) (auto simp: found_rows_def split: option.splits)

lemma distinct_canonical [simp]: "distinct (canonical_blob_hashes hs)"
  by (simp add: canonical_blob_hashes_def)

lemma distinct_found: "distinct hs \<Longrightarrow> distinct (map fst (found_rows stat hs))"
  by (simp add: found_rows_def comp_def)

lemma rebuild_ledger:
  "fst (rebuild_blob_usage_ledger stat hs) =
     \<lparr>entries = found_rows stat (canonical_blob_hashes hs),
      totals = Some (sum_list (map snd (found_rows stat (canonical_blob_hashes hs))),
                     int (length (found_rows stat (canonical_blob_hashes hs))))\<rparr>"
  by (simp add: rebuild_blob_usage_ledger_def Let_def rebuild_loop_result)

lemma rebuild_ok: "ledger_ok (fst (rebuild_blob_usage_ledger stat hs))"
  by (simp add: ledger_ok_def rebuild_ledger distinct_found)

lemma ensure_ok: "ledger_ok L \<Longrightarrow> ledger_ok (ensure_ledger_initialized stat hs L)"
  by (simp add: ensure_ledger_initialized_def rebuild_ok split: option.splits)

lemma ensure_totals: "totals (ensure_ledger_initialized stat hs L) \<noteq> None"
  by (auto simp: ensure_ledger_initialized_def rebuild_ledger split: option.splits)

lemma apply_ok: "ledger_ok L \<Longrightarrow> ledger_ok (apply_blob_ledger_write_plan p L)"
  by (auto simp: ledger_ok_def apply_blob_ledger_write_plan_def add_totals_def split: option.splits)

lemma sum_without:
  "distinct (map fst es) \<Longrightarrow> map_of es h = Some (n :: int) \<Longrightarrow>
     sum_list (map snd (filter (\<lambda>e. fst e \<noteq> h) es)) = sum_list (map snd es) - n \<and>
     length es = Suc (length (filter (\<lambda>e. fst e \<noteq> h) es))"
proof (induction es)
  case (Cons e es)
  show ?case
  proof (cases "fst e = h")
    case True
    with Cons.prems(1) have "filter (\<lambda>e. fst e \<noteq> h) es = es"
      by (auto simp: filter_id_conv image_iff)
    with True Cons.prems show ?thesis by (cases e) auto
  next
    case False
    with Cons show ?thesis by (cases e) auto
  qed
qed simp

lemma remove_ok: "ledger_ok L \<Longrightarrow> ledger_ok (remove_blob_ledger_entry h L)"
proof (cases "trim h = [] \<or> lookup_blob_ledger_entry (trim h) L = None")
  case True
  assume "ledger_ok L"
  with True show ?thesis by (auto simp: remove_blob_ledger_entry_def Let_def)
next
  case False
  assume ok: "ledger_ok L"
  from False obtain n where n: "map_of (entries L) (trim h) = Some n"
    by (auto simp: lookup_blob_ledger_entry_def)
  note s = sum_without [OF _ n]
  from ok have "distinct (map fst (filter (\<lambda>e. fst e \<noteq> trim h) (entries L)))"
    by (simp add: ledger_ok_def distinct_map_filter)
  with ok s False n show ?thesis
    by (auto simp: ledger_ok_def remove_blob_ledger_entry_def Let_def lookup_blob_ledger_entry_def
        add_totals_def split: option.splits)
qed

text \<open>
  C8. However blobs are written, removed and the ledger rebuilt, the ledger has one row for each
  content hash, and once the totals row is there it holds the sum of the sizes and the number of rows.
\<close>

theorem ledger_totals_agree:
  "ledger_reachable L \<Longrightarrow>
     distinct (map fst (entries L)) \<and>
     (\<forall>b n. totals L = Some (b, n) \<longrightarrow> b = sum_list (map snd (entries L)) \<and> n = int (length (entries L)))"
proof -
  assume "ledger_reachable L"
  then have "ledger_ok L"
  proof induction
    case ledger_start
    then show ?case by (simp add: ledger_ok_def)
  qed (simp_all add: rebuild_ok apply_ok remove_ok)
  then show ?thesis by (auto simp: ledger_ok_def split: option.splits)
qed

lemma ledger_totals_agree_witness:
  "\<exists>L. ledger_reachable L \<and> totals L = Some (7, 1) \<and> sum_list (map snd (entries L)) = 7"
proof -
  define L0 where "L0 = fst (rebuild_blob_usage_ledger (\<lambda>h. if h = ''ab'' then Some 5 else Some 7) [Some ''ab'', None])"
  define L where "L = remove_blob_ledger_entry ''ab''
    (apply_blob_ledger_write_plan \<lparr>content_hash = ''cd'', size_bytes = 7, ledger_present = False, backend_present = False\<rparr> L0)"
  have r: "ledger_reachable L"
    unfolding L_def L0_def by (intro ledger_remove ledger_apply ledger_rebuild [OF ledger_start])
  have t: "totals L = Some (7, 1)" unfolding L_def L0_def by code_simp
  from ledger_totals_agree [OF r] t r show ?thesis by (intro exI [of _ L]) auto
qed

section \<open>A write within the quota stays within it\<close>

lemma over_limit_None: "over_limit m l c p = None \<longleftrightarrow> l \<le> 0 \<or> p \<le> l"
  by (auto simp: over_limit_def)

lemma first_violation_Inr: "first_violation vs = Inr () \<longleftrightarrow> (\<forall>v \<in> set vs. v = None)"
  by (induction vs rule: first_violation.induct) auto

lemma quota_check_iff:
  "check_workspace_write_quota q u up d p = Inr () \<longleftrightarrow>
     (max_upload_bytes q \<le> 0 \<or> up \<le> max_upload_bytes q) \<and>
     (max_blob_bytes q \<le> 0 \<or> storage_bytes u + growth_bytes p + delta_db_bytes d \<le> max_blob_bytes q) \<and>
     (max_artifacts q \<le> 0 \<or> usage_artifacts u + delta_artifacts d \<le> max_artifacts q) \<and>
     (max_documents q \<le> 0 \<or> usage_documents u + delta_documents d \<le> max_documents q) \<and>
     (max_revisions q \<le> 0 \<or> usage_revisions u + delta_revisions d \<le> max_revisions q)"
  by (auto simp: check_workspace_write_quota_def first_violation_Inr over_limit_None quota_enabled_def)

lemma prepare_plan_cases:
  assumes "prepare_blob_ledger_write_plan stat hs h up L = (p, L')"
  shows "needs_ledger_insert p \<Longrightarrow> content_hash p \<notin> fst ` set (entries L') \<and> totals L' \<noteq> None"
    and "needs_ledger_insert p \<Longrightarrow> \<not> backend_present p \<Longrightarrow> growth_bytes p = size_bytes p"
    and "\<not> needs_ledger_insert p \<Longrightarrow> growth_bytes p = 0"
  using assms ensure_totals [of stat hs L]
  by (auto simp: prepare_blob_ledger_write_plan_def needs_ledger_insert_def growth_bytes_def Let_def
      lookup_blob_ledger_entry_def map_of_eq_None_iff rev_image_eqI split: if_splits option.splits)

lemma ensure_id: "totals L \<noteq> None \<Longrightarrow> ensure_ledger_initialized stat hs L = L"
  by (auto simp: ensure_ledger_initialized_def)

text \<open>What the check leaves out: the size of a blob that is at the backend and in no row of the ledger, which the write then adds.\<close>

definition uncounted_bytes :: "write_plan \<Rightarrow> int" where
  "uncounted_bytes p = (if backend_present p then size_bytes p else 0)"

lemma stored_after:
  assumes "prepare_blob_ledger_write_plan stat hs h up L = (p, La)" "totals La = Some (b, c)"
  shows "totals (apply_blob_ledger_write_plan p La) = Some (b + growth_bytes p + uncounted_bytes p, c + (if needs_ledger_insert p then 1 else 0))"
proof (cases "needs_ledger_insert p")
  case True
  have "growth_bytes p + uncounted_bytes p = size_bytes p"
    using True prepare_plan_cases(2) [OF assms(1) True] by (auto simp: uncounted_bytes_def growth_bytes_def needs_ledger_insert_def)
  then show ?thesis using True prepare_plan_cases(1) [OF assms(1) True] assms(2)
    by (simp add: apply_blob_ledger_write_plan_def add_totals_def)
next
  case False
  moreover have "uncounted_bytes p = 0"
    using assms(1) False by (auto simp: prepare_blob_ledger_write_plan_def uncounted_bytes_def needs_ledger_insert_def Let_def split: if_splits option.splits)
  ultimately show ?thesis using prepare_plan_cases(3) [OF assms(1)] assms(2) by (simp add: apply_blob_ledger_write_plan_def)
qed



text \<open>
  A workspace far over its limit that way: a blob at the backend but not in the ledger is counted as no
  growth, and its size is then added to the totals.
\<close>

lemma backend_blob_passes_quota:
  assumes "stat ''cd'' = Some 50"
  shows "let L = \<lparr>entries = [], totals = Some (0, 0)\<rparr>;
             q = \<lparr>max_blob_bytes = 10, max_artifacts = 0, max_documents = 0, max_revisions = 0, max_upload_bytes = 0\<rparr>;
             d = \<lparr>delta_artifacts = 1, delta_documents = 0, delta_revisions = 1, delta_db_bytes = 0\<rparr>;
             (p, La) = prepare_blob_ledger_write_plan stat [] ''cd'' 50 L;
             (u, Lb) = current_workspace_usage stat [] 0 n True La
         in check_workspace_write_quota q u 50 d p = Inr () \<and>
            totals (apply_blob_ledger_write_plan p Lb) = Some (50, 1)"
proof -
  have t: "trim ''cd'' = ''cd''" by code_simp
  show ?thesis
    using assms by (simp add: prepare_blob_ledger_write_plan_def t ensure_ledger_initialized_def
        lookup_blob_ledger_entry_def current_workspace_usage_def quota_check_iff growth_bytes_def
        storage_bytes_def apply_blob_ledger_write_plan_def needs_ledger_insert_def add_totals_def)
qed

end
