(* ===== verification/BoardTables.thy ===== *)
theory BoardTables
  imports BoardRank Lifecycle BlobLedger "HOL-Library.Product_Lexorder"
begin

text \<open>
  \<open>core/internal/primitives/boards_store.go\<close>, the data: the rows of the tables that the board and card
  operations read and write, the queries, and the pure functions on rows.  A table is the list
  of its rows.  JSON columns that hold a list of strings are lists of strings; the metadata of a
  reference edge is the list of its members.  Columns that no modelled operation reads
  (ids and creation times of edges, the JSON provenance) are left out.
\<close>

section \<open>Typed references\<close>

definition split_typed_ref :: "string \<Rightarrow> (string \<times> string) option" where
  "split_typed_ref ref =
     (let p = takeWhile (\<lambda>c. c \<noteq> CHR '':'') ref; r = dropWhile (\<lambda>c. c \<noteq> CHR '':'') ref
      in if r = [] \<or> p = [] \<or> tl r = [] then None
         else let prefix = trim p; val = trim (tl r)
              in if prefix = [] \<or> val = [] then None else Some (prefix, val))"

definition normalize_typed_ref :: "string \<Rightarrow> (string \<times> string) option" where
  "normalize_typed_ref raw = split_typed_ref (trim raw)"

definition contains_typed_ref_prefix :: "string list \<Rightarrow> string \<Rightarrow> bool" where
  "contains_typed_ref_prefix refs pre =
     (let p = trim pre
      in p \<noteq> [] \<and> list_ex (\<lambda>ref. case normalize_typed_ref ref of None \<Rightarrow> False | Some (rp, _) \<Rightarrow> rp = p) refs)"

fun sole_thread_ref :: "string \<Rightarrow> string list \<Rightarrow> string option" where
  "sole_thread_ref out [] = Some out"
| "sole_thread_ref out (r # rs) =
     (let t = trim r
      in if \<not> has_prefix t ''thread:'' then sole_thread_ref out rs
         else let i = trim (drop 7 t)
              in if i = [] then sole_thread_ref out rs
                 else if out \<noteq> [] \<and> out \<noteq> i then None
                 else sole_thread_ref i rs)"

definition sole_thread_ref_id_from_refs :: "string list \<Rightarrow> string option" where
  "sole_thread_ref_id_from_refs refs = sole_thread_ref [] refs"

definition system_actor_id :: string where "system_actor_id = ''system''"

definition is_reserved_service_actor_id :: "string \<Rightarrow> bool" where
  "is_reserved_service_actor_id raw =
     (let s = trim raw;
          named = (\<lambda>i. i = system_actor_id \<or> i = ''anx-core'')
      in if s = [] then False
         else if CHR '':'' \<in> set s then
           (let prefix = trim (takeWhile (\<lambda>c. c \<noteq> CHR '':'') s);
                ident = trim (tl (dropWhile (\<lambda>c. c \<noteq> CHR '':'') s))
            in if to_lower prefix \<in> {''actor'', ''human'', ''agent''} then named ident else False)
         else named s)"

section \<open>Rows\<close>

record board_row =
  b_id :: string
  b_handle :: "string option"
  b_title :: string
  b_summary :: string
  b_owners :: "string list"
  b_thread_id :: string
  b_refs :: "string list"
  b_column_schema :: "(string \<times> string \<times> int option) list"
  b_created_at :: string
  b_created_by :: string
  b_updated_at :: string
  b_updated_by :: string
  b_archived_at :: "string option"
  b_archived_by :: "string option"
  b_trashed_at :: "string option"
  b_trashed_by :: "string option"
  b_trash_reason :: "string option"

record card_row =
  c_id :: string
  c_handle :: "string option"
  c_board_id :: string
  c_column_key :: string
  c_rank :: string
  c_title :: string
  c_summary :: string
  c_version :: int
  c_head_revision_id :: "string option"
  c_head_revision_number :: int
  c_thread_id :: "string option"
  c_parent_thread_id :: "string option"
  c_due_at :: "string option"
  c_definition_of_done :: "string list"
  c_pinned_document_id :: "string option"
  c_assignee :: "string option"
  c_risk :: string
  c_resolution :: "string option"
  c_resolution_refs :: "string list"
  c_refs :: "string list"
  c_created_at :: string
  c_created_by :: string
  c_updated_at :: string
  c_updated_by :: string
  c_archived_at :: "string option"
  c_archived_by :: "string option"
  c_trashed_at :: "string option"
  c_trashed_by :: "string option"
  c_trash_reason :: "string option"

record ref_edge =
  e_source_type :: string
  e_source_id :: string
  e_target_type :: string
  e_target_id :: string
  e_edge_type :: string
  e_metadata :: "(string \<times> string) list"

record card_revision_row =
  cr_revision_id :: string
  cr_card_id :: string
  cr_revision_number :: int
  cr_artifact_id :: string

record artifact_row =
  a_id :: string
  a_kind :: string
  a_content_hash :: string

record board_db =
  boards :: "board_row list"
  cards :: "card_row list"
  ref_edges :: "ref_edge list"
  card_revisions :: "card_revision_row list"
  artifacts :: "artifact_row list"
  ledger :: blob_ledger
  blob_objects :: "string list"

text \<open>
  \<open>boardCardRow\<close>: a card's columns, joined with the \<open>board_card\<close> edge that puts it on a board;
  column and rank come from the edge, not from the card's own columns.
\<close>

record board_card =
  bc_board_id :: string
  bc_board_handle :: "string option"
  bc_column_key :: string
  bc_rank :: string
  bc_card :: card_row

definition bc_id :: "board_card \<Rightarrow> string" where
  "bc_id r = c_id (bc_card r)"

datatype board_error =
    ErrNotFound
  | ErrConflict
  | ErrAlreadyTrashed
  | ErrNotArchived
  | ErrNotTrashed
  | InvalidBoardRequest string
  | InvalidTypedRef string
  | RankExhausted

section \<open>Columns\<close>

definition canonical_board_column_order :: "string list" where
  "canonical_board_column_order =
     [''backlog'', ''ready'', ''in_progress'', ''blocked'', ''review'', ''done'']"

definition board_default_column :: string where "board_default_column = ''backlog''"

definition board_column_order :: "string \<Rightarrow> nat" where
  "board_column_order k =
     (if k = ''backlog'' then 0 else if k = ''ready'' then 1 else if k = ''in_progress'' then 2
      else if k = ''blocked'' then 3 else if k = ''review'' then 4 else if k = ''done'' then 5 else 6)"

definition validate_board_column_key :: "string \<Rightarrow> bool" where
  "validate_board_column_key k \<longleftrightarrow> trim k \<in> set canonical_board_column_order"

text \<open>\<open>validateCardID\<close>, \<open>validateThreadID\<close> and \<open>validateBoardID\<close>.\<close>

definition validate_card_id :: "string \<Rightarrow> bool" where
  "validate_card_id i \<longleftrightarrow> (let t = trim i in t \<noteq> [] \<and> CHR ''/'' \<notin> set t \<and> CHR 0x5C \<notin> set t)"

definition validate_thread_id :: "string \<Rightarrow> bool" where
  "validate_thread_id i \<longleftrightarrow> (let t = trim i in t \<noteq> [] \<and> CHR ''/'' \<notin> set t \<and> CHR 0x5C \<notin> set t)"

definition validate_board_id :: "string \<Rightarrow> bool" where
  "validate_board_id i \<longleftrightarrow> (let t = trim i in t \<noteq> [] \<and> CHR ''/'' \<notin> set t)"

definition canonical_board_card_risk :: "string \<Rightarrow> string" where
  "canonical_board_card_risk raw =
     (let r = trim (to_lower raw) in if r \<in> {''medium'', ''high'', ''critical''} then r else ''low'')"

section \<open>Queries\<close>

definition board_card_type :: string where "board_card_type = ''board_card''"

definition edge_meta :: "string \<Rightarrow> string \<Rightarrow> ref_edge \<Rightarrow> string" where
  "edge_meta k dflt e = (case map_of (e_metadata e) k of None \<Rightarrow> dflt | Some v \<Rightarrow> v)"

definition is_board_card_edge :: "ref_edge \<Rightarrow> bool" where
  "is_board_card_edge e \<longleftrightarrow> e_source_type e = ''board'' \<and> e_edge_type e = board_card_type"

definition find_board :: "string \<Rightarrow> board_db \<Rightarrow> board_row option" where
  "find_board i db = find (\<lambda>b. b_id b = i) (boards db)"

definition join_board_card :: "board_db \<Rightarrow> ref_edge \<Rightarrow> card_row \<Rightarrow> board_card" where
  "join_board_card db e c =
     \<lparr>bc_board_id = e_source_id e,
      bc_board_handle = (case find_board (e_source_id e) db of None \<Rightarrow> None | Some b \<Rightarrow> b_handle b),
      bc_column_key = edge_meta ''column_key'' board_default_column e,
      bc_rank = edge_meta ''rank'' [] e,
      bc_card = c\<rparr>"

definition board_card_rows :: "board_db \<Rightarrow> board_card list" where
  "board_card_rows db =
     concat (map (\<lambda>e. map (join_board_card db e) (filter (\<lambda>c. c_id c = e_target_id e) (cards db)))
        (filter is_board_card_edge (ref_edges db)))"

definition live_card :: "card_row \<Rightarrow> bool" where
  "live_card c \<longleftrightarrow> c_archived_at c = None \<and> c_trashed_at c = None"

definition load_board_row :: "string \<Rightarrow> board_db \<Rightarrow> board_error + board_row" where
  "load_board_row boardID db =
     (case find_board (trim boardID) db of None \<Rightarrow> Inl ErrNotFound | Some b \<Rightarrow> Inr b)"

text \<open>\<open>ORDER BY column, rank, card_id\<close>; the \<open>column_key\<close> filter is applied when it is not blank.\<close>

definition board_card_order :: "board_card \<Rightarrow> nat \<times> string \<times> string" where
  "board_card_order r = (board_column_order (bc_column_key r), bc_rank r, bc_id r)"

definition load_ordered_board_cards :: "string \<Rightarrow> string \<Rightarrow> board_db \<Rightarrow> board_card list" where
  "load_ordered_board_cards boardID columnKey db =
     sort_key board_card_order
       (filter (\<lambda>r. bc_board_id r = boardID \<and> live_card (bc_card r) \<and>
                    (trim columnKey \<noteq> [] \<longrightarrow> bc_column_key r = columnKey))
          (board_card_rows db))"

definition load_board_cards_for_column :: "string \<Rightarrow> string \<Rightarrow> board_db \<Rightarrow> board_card list" where
  "load_board_cards_for_column boardID columnKey db =
     sort_key (\<lambda>r. (bc_rank r, bc_id r))
       (filter (\<lambda>r. bc_board_id r = boardID \<and> bc_column_key r = columnKey \<and> live_card (bc_card r))
          (board_card_rows db))"

text \<open>\<open>ORDER BY updated_at DESC, card_id ASC LIMIT 1\<close>.\<close>

fun newest_card :: "board_card list \<Rightarrow> board_card option" where
  "newest_card [] = None"
| "newest_card (r # rs) =
     (case newest_card rs of
        None \<Rightarrow> Some r
      | Some s \<Rightarrow>
          if c_updated_at (bc_card s) > c_updated_at (bc_card r) \<or>
             (c_updated_at (bc_card s) = c_updated_at (bc_card r) \<and> bc_id s < bc_id r)
          then Some s else Some r)"

definition load_board_card_by_identifier ::
  "string \<Rightarrow> string \<Rightarrow> bool \<Rightarrow> board_db \<Rightarrow> board_error + board_card" where
  "load_board_card_by_identifier boardID identifier includeArchived db =
     (let i = trim identifier; b = trim boardID;
          visible = (\<lambda>r. bc_board_id r = b \<and> (includeArchived \<or> live_card (bc_card r)))
      in if i = [] \<or> b = [] then Inl ErrNotFound
         else case find (\<lambda>r. visible r \<and> bc_id r = i) (board_card_rows db) of
             Some r \<Rightarrow> Inr r
           | None \<Rightarrow>
              (case newest_card (filter (\<lambda>r. visible r \<and> c_parent_thread_id (bc_card r) = Some i)
                       (board_card_rows db)) of
                 Some r \<Rightarrow> Inr r
               | None \<Rightarrow> Inl ErrNotFound))"

definition load_board_card_by_global_id ::
  "string \<Rightarrow> bool \<Rightarrow> board_db \<Rightarrow> board_error + board_card" where
  "load_board_card_by_global_id cardID includeArchived db =
     (let i = trim cardID
      in if i = [] then Inl ErrNotFound
         else case find (\<lambda>r. bc_id r = i \<and> (includeArchived \<or> live_card (bc_card r))) (board_card_rows db) of
             Some r \<Rightarrow> Inr r
           | None \<Rightarrow> Inl ErrNotFound)"

text \<open>\<open>ListCards\<close>: every card, by its own \<open>board_id\<close>, \<open>column_key\<close> and \<open>rank\<close> columns.\<close>

definition list_cards :: "string list \<Rightarrow> board_db \<Rightarrow> board_card list" where
  "list_cards states db =
     sort_key (\<lambda>r. (bc_board_id r, board_card_order r))
       (map (\<lambda>c. \<lparr>bc_board_id = c_board_id c,
                  bc_board_handle = (case find_board (c_board_id c) db of None \<Rightarrow> None | Some b \<Rightarrow> b_handle b),
                  bc_column_key = c_column_key c, bc_rank = c_rank c, bc_card = c\<rparr>)
         (filter (\<lambda>c. lifecycle_states_or_group (c_archived_at c) (c_trashed_at c) states) (cards db)))"

section \<open>Row updates\<close>

definition update_card :: "string \<Rightarrow> (card_row \<Rightarrow> card_row) \<Rightarrow> board_db \<Rightarrow> board_db" where
  "update_card i f db = db\<lparr>cards := map (\<lambda>c. if c_id c = i then f c else c) (cards db)\<rparr>"

definition update_board :: "string \<Rightarrow> (board_row \<Rightarrow> board_row) \<Rightarrow> board_db \<Rightarrow> board_db" where
  "update_board i f db = db\<lparr>boards := map (\<lambda>b. if b_id b = i then f b else b) (boards db)\<rparr>"

text \<open>\<open>ON CONFLICT(source_type, source_id, target_type, target_id, edge_type)\<close>.\<close>

definition same_edge :: "ref_edge \<Rightarrow> ref_edge \<Rightarrow> bool" where
  "same_edge e f \<longleftrightarrow>
     e_source_type e = e_source_type f \<and> e_source_id e = e_source_id f \<and>
     e_target_type e = e_target_type f \<and> e_target_id e = e_target_id f \<and> e_edge_type e = e_edge_type f"

definition upsert_edge :: "ref_edge \<Rightarrow> ref_edge list \<Rightarrow> ref_edge list" where
  "upsert_edge n es =
     (if list_ex (same_edge n) es
      then map (\<lambda>e. if same_edge n e then e\<lparr>e_metadata := e_metadata n\<rparr> else e) es
      else es @ [n])"

definition upsert_board_card_ref_edge ::
  "string \<Rightarrow> string \<Rightarrow> string \<Rightarrow> string \<Rightarrow> board_db \<Rightarrow> board_error + board_db" where
  "upsert_board_card_ref_edge boardID cardID columnKey rank db =
     (let b = trim boardID; c = trim cardID
      in if b = [] \<or> c = []
         then Inl (InvalidBoardRequest ''board card membership requires board and card ids'')
         else Inr (db\<lparr>ref_edges := upsert_edge
                 \<lparr>e_source_type = ''board'', e_source_id = b, e_target_type = ''card'', e_target_id = c,
                  e_edge_type = board_card_type,
                  e_metadata = [(''column_key'', trim columnKey), (''rank'', trim rank)]\<rparr> (ref_edges db)\<rparr>))"

definition touch_board_row :: "string \<Rightarrow> string \<Rightarrow> board_row \<Rightarrow> board_db \<Rightarrow> board_row \<times> board_db" where
  "touch_board_row now actorID board db =
     (board\<lparr>b_updated_at := now, b_updated_by := actorID\<rparr>,
      update_board (b_id board) (\<lambda>b. b\<lparr>b_updated_at := now, b_updated_by := actorID\<rparr>) db)"

section \<open>Guards\<close>

definition ensure_updated_at_matches :: "string \<Rightarrow> string option \<Rightarrow> board_error + unit" where
  "ensure_updated_at_matches current ifUpdatedAt =
     (case ifUpdatedAt of None \<Rightarrow> Inr () | Some t \<Rightarrow> guard_res (trim current = trim t) ErrConflict)"

definition ensure_board_card_mutable :: "board_card \<Rightarrow> board_error + unit" where
  "ensure_board_card_mutable r =
     (if is_set (c_trashed_at (bc_card r)) then Inl (InvalidBoardRequest ''card is trashed'')
      else if is_set (c_archived_at (bc_card r)) then Inl (InvalidBoardRequest ''card is archived'')
      else Inr ())"

definition ensure_board_card_parent_thread_available ::
  "string \<Rightarrow> string \<Rightarrow> string \<Rightarrow> board_db \<Rightarrow> board_error + unit" where
  "ensure_board_card_parent_thread_available boardID parentThreadID excludeCardID db =
     (if trim parentThreadID = [] then Inr ()
      else guard_res
        (\<not> list_ex (\<lambda>r. bc_board_id r = boardID \<and> c_parent_thread_id (bc_card r) = Some parentThreadID \<and>
                        live_card (bc_card r) \<and> bc_id r \<noteq> trim excludeCardID)
              (board_card_rows db))
        ErrConflict)"

definition validate_board_anchors ::
  "string \<Rightarrow> string \<Rightarrow> string \<Rightarrow> string \<Rightarrow> string \<Rightarrow> board_db \<Rightarrow> board_error + unit" where
  "validate_board_anchors boardID targetColumn beforeCardID afterCardID movingCardID db =
     (let anchor = trim (if beforeCardID = [] then afterCardID else beforeCardID)
      in if anchor = [] then Inr ()
         else if anchor = trim movingCardID
           then Inl (InvalidBoardRequest ''placement anchor cannot reference the moving card'')
         else case load_board_card_by_identifier boardID anchor True db of
             Inl ErrNotFound \<Rightarrow>
               Inl (InvalidBoardRequest ''placement anchor must reference a card already on the board'')
           | Inl e \<Rightarrow> Inl e
           | Inr r \<Rightarrow> guard_res (bc_column_key r = targetColumn)
               (InvalidBoardRequest ''placement anchor must reference a card in the target column''))"

end
