(* ===== verification/BoardCards.thy ===== *)
theory BoardCards
  imports BoardTables
begin

text \<open>
  \<open>core/internal/primitives/boards_store.go\<close>, the operations on the cards of a board: rank
  allocation and rebalancing in a column, moving a card, and its archive, trash, restore and purge.
  An operation runs in one transaction: an error leaves the tables as they were.  Each call
  of \<open>time.Now\<close> is an argument.
\<close>

section \<open>Resolution\<close>

definition canonicalize_stored_card_resolution :: "string \<Rightarrow> string" where
  "canonicalize_stored_card_resolution raw =
     (let s = trim raw
      in if s = ''completed'' \<or> s = ''superseded'' then ''done''
         else if s = ''unresolved'' then [] else s)"

definition validate_card_resolution :: "string \<Rightarrow> bool \<Rightarrow> bool" where
  "validate_card_resolution raw allowEmpty \<longleftrightarrow> (trim raw = [] \<and> allowEmpty) \<or> trim raw = ''done''"

record move_input =
  mi_column_key :: string
  mi_before_card_id :: string
  mi_after_card_id :: string
  mi_resolution :: "string option"
  mi_resolution_refs :: "string list option"
  mi_if_board_updated_at :: "string option"

definition effective_resolution :: "string \<Rightarrow> move_input \<Rightarrow> string option" where
  "effective_resolution columnKey input =
     (case mi_resolution input of
        Some v \<Rightarrow> Some v
      | None \<Rightarrow>
          (case mi_resolution_refs input of
             Some refs \<Rightarrow> if columnKey = ''done'' \<and> unique_sorted_strings refs \<noteq> [] then Some ''done'' else None
           | None \<Rightarrow> None))"

text \<open>The refs a resolution needs: at least one, all typed, one of them an artifact or an event.\<close>

definition check_resolution_refs :: "string list option \<Rightarrow> board_error + string list" where
  "check_resolution_refs given =
     (case given of
        None \<Rightarrow> Inl (InvalidBoardRequest ''resolution_refs are required when resolution is set'')
      | Some raw \<Rightarrow>
          let refs = unique_sorted_strings raw
          in if refs = [] then Inl (InvalidBoardRequest ''resolution_refs are required when resolution is set'')
             else case find (\<lambda>r. normalize_typed_ref r = None) refs of
                 Some bad \<Rightarrow> Inl (InvalidTypedRef (trim bad))
               | None \<Rightarrow>
                   if \<not> contains_typed_ref_prefix refs ''artifact'' \<and> \<not> contains_typed_ref_prefix refs ''event''
                   then Inl (InvalidBoardRequest
                     ''resolution_refs must include at least one artifact: or event: ref for resolution done'')
                   else Inr refs)"

definition resolve_board_card_move_resolution ::
  "board_card \<Rightarrow> string \<Rightarrow> move_input \<Rightarrow> board_error + string \<times> string list \<times> bool" where
  "resolve_board_card_move_resolution r rawColumn input =
     (let columnKey = trim rawColumn;
          current = canonicalize_stored_card_resolution (null_text (c_resolution (bc_card r)))
      in case effective_resolution columnKey input of
           None \<Rightarrow>
             if columnKey \<noteq> ''done'' then
               Inr (if current \<noteq> [] \<or> c_resolution_refs (bc_card r) \<noteq> [] then ([], [], True) else ([], [], False))
             else if trim (bc_column_key r) = ''done'' \<and> current \<noteq> [] then
               Inr (current, c_resolution_refs (bc_card r), False)
             else Inl (InvalidBoardRequest ''resolution is required when column_key is done'')
         | Some v \<Rightarrow>
             let nxt = trim v
             in if \<not> validate_card_resolution nxt False
                  then Inl (InvalidBoardRequest ''card.resolution must be null or done'')
                else if columnKey \<noteq> ''done''
                  then Inl (InvalidBoardRequest ''resolution requires column_key done'')
                else bind_res (check_resolution_refs (mi_resolution_refs input))
                       (\<lambda>refs. Inr (nxt, refs, True)))"

section \<open>Rank of a card in a column\<close>

fun anchor_request_error :: "anchor_error \<Rightarrow> board_error" where
  "anchor_request_error AnchorsExclusive =
     InvalidBoardRequest ''before_card_id and after_card_id are mutually exclusive''"
| "anchor_request_error BeforeNotOnBoard =
     InvalidBoardRequest ''before_card_id must reference a card already on the board''"
| "anchor_request_error AfterNotOnBoard =
     InvalidBoardRequest ''after_card_id must reference a card already on the board''"

definition insert_index :: "board_card list \<Rightarrow> string \<Rightarrow> string \<Rightarrow> board_error + nat" where
  "insert_index cs beforeCardID afterCardID =
     (case board_insert_index (map bc_id cs) beforeCardID afterCardID of
        Inl e \<Rightarrow> Inl (anchor_request_error e) | Inr i \<Rightarrow> Inr i)"

definition rank_before :: "board_card list \<Rightarrow> nat \<Rightarrow> string" where
  "rank_before cs i = (if i > 0 then bc_rank (cs ! (i - 1)) else [])"

definition rank_after :: "board_card list \<Rightarrow> nat \<Rightarrow> string" where
  "rank_after cs i = (if i < length cs then bc_rank (cs ! i) else [])"

text \<open>The column a card is placed in, without the card itself.\<close>

definition column_without :: "string \<Rightarrow> string \<Rightarrow> string \<Rightarrow> board_db \<Rightarrow> board_card list" where
  "column_without boardID columnKey excludeCardID db =
     filter (\<lambda>r. bc_id r \<noteq> excludeCardID) (load_ordered_board_cards boardID columnKey db)"

fun rebalance_rows ::
  "string \<Rightarrow> string \<Rightarrow> string \<Rightarrow> string \<Rightarrow> u64 \<Rightarrow> board_card list \<Rightarrow> board_db \<Rightarrow> board_error + board_db" where
  "rebalance_rows now boardID columnKey excludeCardID nextRank [] db = Inr db"
| "rebalance_rows now boardID columnKey excludeCardID nextRank (r # rs) db =
     (if bc_id r = excludeCardID then rebalance_rows now boardID columnKey excludeCardID nextRank rs db
      else bind_res (upsert_board_card_ref_edge boardID (bc_id r) columnKey (format_board_rank nextRank) db)
             (\<lambda>db1. rebalance_rows now boardID columnKey excludeCardID (nextRank + board_rank_step) rs
                (update_card (bc_id r)
                   (\<lambda>c. c\<lparr>c_rank := format_board_rank nextRank, c_updated_at := now,
                          c_updated_by := system_actor_id\<rparr>) db1)))"

definition rebalance_board_column_ranks ::
  "string \<Rightarrow> string \<Rightarrow> string \<Rightarrow> string \<Rightarrow> board_db \<Rightarrow> board_error + board_db" where
  "rebalance_board_column_ranks now boardID columnKey excludeCardID db =
     rebalance_rows now boardID columnKey excludeCardID board_rank_step
       (load_board_cards_for_column boardID columnKey db) db"

definition allocate_board_card_rank ::
  "string \<Rightarrow> string \<Rightarrow> string \<Rightarrow> string \<Rightarrow> string \<Rightarrow> string \<Rightarrow> board_db \<Rightarrow> board_error + string \<times> board_db" where
  "allocate_board_card_rank now boardID columnKey beforeCardID afterCardID excludeCardID db =
     (let col = column_without boardID columnKey excludeCardID db
      in bind_res (insert_index col beforeCardID afterCardID) (\<lambda>i.
         case allocate_board_rank_between (rank_before col i) (rank_after col i) of
           Some rank \<Rightarrow> Inr (rank, db)
         | None \<Rightarrow>
             bind_res (rebalance_board_column_ranks now boardID columnKey excludeCardID db) (\<lambda>db1.
             let col1 = column_without boardID columnKey excludeCardID db1
             in bind_res (insert_index col1 beforeCardID afterCardID) (\<lambda>j.
                case allocate_board_rank_between (rank_before col1 j) (rank_after col1 j) of
                  Some rank \<Rightarrow> Inr (rank, db1)
                | None \<Rightarrow> Inl RankExhausted))))"

section \<open>Moving a card\<close>

text \<open>With a blank board id the card is found first, on whichever board it is.\<close>

definition locate_for_move ::
  "string \<Rightarrow> string \<Rightarrow> string option \<Rightarrow> board_db \<Rightarrow> board_error + string \<times> board_row \<times> board_card" where
  "locate_for_move boardID identifier ifUpdatedAt db =
     (if trim boardID = [] then
        bind_res (load_board_card_by_global_id identifier True db) (\<lambda>r.
        bind_res (load_board_row (bc_board_id r) db) (\<lambda>b.
        bind_res (ensure_updated_at_matches (b_updated_at b) ifUpdatedAt) (\<lambda>_.
        Inr (bc_board_id r, b, r))))
      else
        bind_res (load_board_row boardID db) (\<lambda>b.
        bind_res (ensure_updated_at_matches (b_updated_at b) ifUpdatedAt) (\<lambda>_.
        bind_res (load_board_card_by_identifier boardID identifier True db) (\<lambda>r.
        Inr (boardID, b, r)))))"

definition moved_card ::
  "string \<Rightarrow> string \<Rightarrow> string \<Rightarrow> board_card \<Rightarrow> string \<Rightarrow> string \<Rightarrow> string \<Rightarrow> string list \<Rightarrow> card_row \<Rightarrow> card_row" where
  "moved_card now actorID boardID r columnKey rank resolution refs c =
     c\<lparr>c_board_id := boardID,
       c_thread_id := Some (first_non_empty [null_text (c_thread_id (bc_card r)),
                                             null_text (c_parent_thread_id (bc_card r))]),
       c_column_key := columnKey, c_rank := rank,
       c_resolution := nullable_string resolution, c_resolution_refs := refs,
       c_updated_at := now, c_updated_by := actorID\<rparr>"

definition store_moved_card ::
  "string \<Rightarrow> string \<Rightarrow> string \<Rightarrow> board_card \<Rightarrow> string \<Rightarrow> string \<Rightarrow> string \<times> string list \<times> bool \<Rightarrow> board_db \<Rightarrow>
     board_error + board_card \<times> board_db" where
  "store_moved_card now actorID boardID r columnKey rank res db =
     (case res of (resolution, refs, updateCard) \<Rightarrow>
        if updateCard then
          let db1 = update_card (bc_id r) (moved_card now actorID boardID r columnKey rank resolution refs) db
          in bind_res (load_board_card_by_identifier boardID (bc_id r) True db1) (\<lambda>r1. Inr (r1, db1))
        else Inr (r\<lparr>bc_column_key := columnKey, bc_rank := rank\<rparr>, db))"

definition move_board_card ::
  "string \<Rightarrow> string \<Rightarrow> string \<Rightarrow> string \<Rightarrow> string \<Rightarrow> string \<Rightarrow> move_input \<Rightarrow> board_db \<Rightarrow>
     board_error + board_row \<times> board_card \<times> board_db" where
  "move_board_card nowRebalance now nowTouch actorID boardID0 identifier input db =
     bind_res (guard_res (trim actorID \<noteq> []) (InvalidBoardRequest ''actorID is required'')) (\<lambda>_.
     let columnKey = trim (mi_column_key input)
     in bind_res (guard_res (columnKey \<noteq> []) (InvalidBoardRequest ''column_key is required'')) (\<lambda>_.
     bind_res (guard_res (validate_board_column_key columnKey)
       (InvalidBoardRequest ''column_key must be one of: backlog, ready, in_progress, blocked, review, done'')) (\<lambda>_.
     bind_res (guard_res (validate_board_placement_anchors (mi_before_card_id input) (mi_after_card_id input))
       (InvalidBoardRequest ''before and after anchors are mutually exclusive'')) (\<lambda>_.
     bind_res (locate_for_move boardID0 identifier (mi_if_board_updated_at input) db) (\<lambda>(boardID, b, r).
     bind_res (ensure_board_card_mutable r) (\<lambda>_.
     let beforeCardID = trim (mi_before_card_id input); afterCardID = trim (mi_after_card_id input)
     in bind_res (validate_board_anchors boardID columnKey beforeCardID afterCardID (bc_id r) db) (\<lambda>_.
     bind_res (allocate_board_card_rank nowRebalance boardID columnKey beforeCardID afterCardID (bc_id r) db)
       (\<lambda>(rank, db1).
     bind_res (resolve_board_card_move_resolution r columnKey input) (\<lambda>res.
     bind_res (upsert_board_card_ref_edge boardID (bc_id r) columnKey rank db1) (\<lambda>db2.
     bind_res (store_moved_card now actorID boardID r columnKey rank res db2) (\<lambda>(r1, db3).
     let (b1, db4) = touch_board_row nowTouch actorID b db3
     in Inr (b1, r1, db4))))))))))))"

section \<open>Archive, trash, restore, purge\<close>

definition archive_card :: "string \<Rightarrow> string \<Rightarrow> card_row \<Rightarrow> card_row" where
  "archive_card now actorID c = c\<lparr>c_archived_at := Some now, c_archived_by := Some actorID\<rparr>"

definition trash_card :: "string \<Rightarrow> string \<Rightarrow> string \<Rightarrow> card_row \<Rightarrow> card_row" where
  "trash_card now actorID reason c =
     c\<lparr>c_archived_at := None, c_archived_by := None, c_trashed_at := Some now, c_trashed_by := Some actorID,
       c_trash_reason := Some reason\<rparr>"

definition unarchive_card :: "card_row \<Rightarrow> card_row" where
  "unarchive_card c = c\<lparr>c_archived_at := None, c_archived_by := None\<rparr>"

definition untrash_card :: "card_row \<Rightarrow> card_row" where
  "untrash_card c = c\<lparr>c_trashed_at := None, c_trashed_by := None, c_trash_reason := None\<rparr>"

definition locate_for_lifecycle :: "string \<Rightarrow> string \<Rightarrow> board_db \<Rightarrow> board_error + board_card" where
  "locate_for_lifecycle boardID identifier db =
     (if trim boardID \<noteq> [] then load_board_card_by_identifier boardID identifier True db
      else load_board_card_by_global_id identifier True db)"

text \<open>The shared opening of the lifecycle operations: actor, card, its board, the board's version.\<close>

definition open_card ::
  "string \<Rightarrow> string \<Rightarrow> string \<Rightarrow> string option \<Rightarrow> board_db \<Rightarrow> board_error + board_row \<times> board_card" where
  "open_card actorID boardID identifier ifUpdatedAt db =
     bind_res (guard_res (trim actorID \<noteq> []) (InvalidBoardRequest ''actorID is required'')) (\<lambda>_.
     bind_res (locate_for_lifecycle boardID identifier db) (\<lambda>r.
     bind_res (load_board_row (bc_board_id r) db) (\<lambda>b.
     bind_res (ensure_updated_at_matches (b_updated_at b) ifUpdatedAt) (\<lambda>_.
     Inr (b, r)))))"

definition archive_board_card ::
  "string \<Rightarrow> string \<Rightarrow> string \<Rightarrow> string \<Rightarrow> string \<Rightarrow> string option \<Rightarrow> board_db \<Rightarrow>
     board_error + board_row \<times> board_card \<times> board_db" where
  "archive_board_card now nowTouch actorID boardID identifier ifUpdatedAt db =
     bind_res (open_card actorID boardID identifier ifUpdatedAt db) (\<lambda>(b, r).
     if is_set (c_trashed_at (bc_card r)) then Inl ErrAlreadyTrashed
     else if is_set (c_archived_at (bc_card r)) then Inr (b, r, db)
     else let db1 = update_card (bc_id r) (archive_card now actorID) db;
              (b1, db2) = touch_board_row nowTouch actorID b db1
          in Inr (b1, r\<lparr>bc_card := archive_card now actorID (bc_card r)\<rparr>, db2))"

text \<open>An empty reason is stored as empty text and reported as absent.\<close>

definition trash_board_card ::
  "string \<Rightarrow> string \<Rightarrow> string \<Rightarrow> string \<Rightarrow> string \<Rightarrow> string \<Rightarrow> string option \<Rightarrow> board_db \<Rightarrow>
     board_error + board_row \<times> board_card \<times> bool \<times> board_db" where
  "trash_board_card now nowTouch actorID boardID identifier rawReason ifUpdatedAt db =
     bind_res (open_card actorID boardID identifier ifUpdatedAt db) (\<lambda>(b, r).
     if is_set (c_trashed_at (bc_card r)) then Inr (b, r, False, db)
     else let reason = trim rawReason;
              db1 = update_card (bc_id r) (trash_card now actorID reason) db;
              (b1, db2) = touch_board_row nowTouch actorID b db1;
              shown = (trash_card now actorID reason (bc_card r))
                        \<lparr>c_trash_reason := if reason \<noteq> [] then Some reason else None\<rparr>
          in Inr (b1, r\<lparr>bc_card := shown\<rparr>, True, db2))"

text \<open>
  The restored card is read again after the commit, so the reload can fail with the change in place:
  the outcome is the answer beside the tables.
\<close>

definition restore_archived_board_card ::
  "string \<Rightarrow> string \<Rightarrow> string \<Rightarrow> string \<Rightarrow> string option \<Rightarrow> board_db \<Rightarrow>
     (board_error + board_row \<times> board_card) \<times> board_db" where
  "restore_archived_board_card nowTouch actorID boardID identifier ifUpdatedAt db =
     (case open_card actorID boardID identifier ifUpdatedAt db of
        Inl e \<Rightarrow> (Inl e, db)
      | Inr (b, r) \<Rightarrow>
          let trashed = is_set (c_trashed_at (bc_card r)); archived = is_set (c_archived_at (bc_card r))
          in if \<not> trashed \<and> \<not> archived then (Inr (b, r), db)
             else let db1 = update_card (bc_id r) (if trashed then untrash_card else unarchive_card) db;
                      (b1, db2) = touch_board_row nowTouch actorID b db1
                  in (bind_res (load_board_card_by_identifier (bc_board_id r) (bc_id r) False db2)
                        (\<lambda>r1. Inr (b1, r1)), db2))"

text \<open>Purge: the revisions of the card with their artifacts' hashes.\<close>

definition purge_revision_rows :: "string \<Rightarrow> board_db \<Rightarrow> (string \<times> string \<times> string) list" where
  "purge_revision_rows cardID db =
     concat (map (\<lambda>cr. map (\<lambda>a. (trim (cr_revision_id cr), trim (cr_artifact_id cr), trim (a_content_hash a)))
                     (filter (\<lambda>a. a_id a = cr_artifact_id cr) (artifacts db)))
        (filter (\<lambda>cr. cr_card_id cr = cardID) (card_revisions db)))"

definition edge_touches :: "string \<Rightarrow> string \<Rightarrow> ref_edge \<Rightarrow> bool" where
  "edge_touches typ i e \<longleftrightarrow>
     (e_source_type e = typ \<and> e_source_id e = i) \<or> (e_target_type e = typ \<and> e_target_id e = i)"

definition unreferenced_hashes :: "string list \<Rightarrow> board_db \<Rightarrow> string list" where
  "unreferenced_hashes hs db =
     filter (\<lambda>h. h \<noteq> [] \<and> \<not> list_ex (\<lambda>a. a_content_hash a = h) (artifacts db)) (unique_sorted_strings hs)"

definition delete_card_rows :: "string \<Rightarrow> (string \<times> string \<times> string) list \<Rightarrow> board_db \<Rightarrow> board_db" where
  "delete_card_rows cardID revs db =
     (let revisionIDs = filter (\<lambda>i. i \<noteq> []) (map fst revs);
          artifactIDs = filter (\<lambda>i. i \<noteq> []) (map (fst \<circ> snd) revs)
      in db\<lparr>ref_edges := filter (\<lambda>e. \<not> edge_touches ''card'' cardID e \<and>
                                     \<not> list_ex (\<lambda>i. edge_touches ''card_revision'' i e) revisionIDs \<and>
                                     \<not> list_ex (\<lambda>i. edge_touches ''artifact'' i e) artifactIDs) (ref_edges db),
            card_revisions := filter (\<lambda>cr. cr_card_id cr \<noteq> cardID) (card_revisions db),
            artifacts := filter (\<lambda>a. a_id a \<notin> set artifactIDs) (artifacts db)\<rparr>)"

definition purge_archived_board_card ::
  "string \<Rightarrow> string \<Rightarrow> string \<Rightarrow> board_db \<Rightarrow> board_error + board_db" where
  "purge_archived_board_card nowTouch boardID identifier db =
     bind_res (locate_for_lifecycle boardID identifier db) (\<lambda>r.
     bind_res (guard_res (is_set (c_archived_at (bc_card r)) \<or> is_set (c_trashed_at (bc_card r))) ErrNotArchived) (\<lambda>_.
     let cardID = trim (bc_id r)
     in bind_res (load_board_row (bc_board_id r) db) (\<lambda>b.
     let revs = purge_revision_rows cardID db;
         db1 = delete_card_rows cardID revs db;
         gone = (\<lambda>c. c_id c = cardID \<and> (c_archived_at c \<noteq> None \<or> c_trashed_at c \<noteq> None))
     in bind_res (guard_res (list_ex gone (cards db1)) ErrNotFound) (\<lambda>_.
     let db2 = db1\<lparr>cards := filter (\<lambda>c. \<not> gone c) (cards db1)\<rparr>;
         (b1, db3) = touch_board_row nowTouch system_actor_id b db2;
         dead = unreferenced_hashes (map (snd \<circ> snd) revs) db3
     in Inr (db3\<lparr>ledger := fold remove_blob_ledger_entry dead (ledger db3),
                  blob_objects := filter (\<lambda>h. h \<notin> set dead) (blob_objects db3)\<rparr>)))))"

end
