(* ===== verification/BoardPlacement.thy ===== *)
theory BoardPlacement
  imports BoardCards
begin

text \<open>
  Where cards are on a board.  The abstraction of the reference edges is \<open>place db b i\<close>, the column
  and rank of card \<open>i\<close> on board \<open>b\<close>; a column's cards are the live ones placed there, in the
  order of rank and id.  The lemmas relate the queries and the edge updates to it; the properties
  say where \<open>MoveBoardCard\<close> puts a card and what it leaves in place.
\<close>

section \<open>The tables' own constraints\<close>

definition edge_key :: "ref_edge \<Rightarrow> string \<times> string \<times> string \<times> string \<times> string" where
  "edge_key e = (e_source_type e, e_source_id e, e_target_type e, e_target_id e, e_edge_type e)"

lemma same_edge_iff: "same_edge e f \<longleftrightarrow> edge_key e = edge_key f"
  by (auto simp: same_edge_def edge_key_def)

definition edge_rank :: "ref_edge \<Rightarrow> string" where
  "edge_rank e = edge_meta ''rank'' [] e"

definition edge_column :: "ref_edge \<Rightarrow> string" where
  "edge_column e = edge_meta ''column_key'' board_default_column e"

definition trimmed_id :: "string \<Rightarrow> bool" where
  "trimmed_id i \<longleftrightarrow> i \<noteq> [] \<and> trim i = i"

text \<open>Primary keys, the unique index on edges, and what every writer of a \<open>board_card\<close> edge stores.\<close>

definition edges_ok :: "board_db \<Rightarrow> bool" where
  "edges_ok db \<longleftrightarrow>
     distinct (map edge_key (ref_edges db)) \<and>
     (\<forall>e \<in> set (ref_edges db). is_board_card_edge e \<longrightarrow>
        e_target_type e = ''card'' \<and> trimmed_id (e_source_id e) \<and> trimmed_id (e_target_id e))"

definition keys_ok :: "board_db \<Rightarrow> bool" where
  "keys_ok db \<longleftrightarrow> distinct (map c_id (cards db)) \<and> edges_ok db"

definition place :: "board_db \<Rightarrow> string \<Rightarrow> string \<Rightarrow> (string \<times> string) option" where
  "place db b i =
     map_option (\<lambda>e. (edge_column e, edge_rank e))
       (find (\<lambda>e. is_board_card_edge e \<and> e_source_id e = b \<and> e_target_id e = i) (ref_edges db))"

definition live_ids :: "board_db \<Rightarrow> string set" where
  "live_ids db = {c_id c | c. c \<in> set (cards db) \<and> live_card c}"

definition column_set :: "board_db \<Rightarrow> string \<Rightarrow> string \<Rightarrow> (string \<times> string) set" where
  "column_set db b k = {(rank, i). place db b i = Some (k, rank) \<and> i \<in> live_ids db}"

section \<open>The rows of a query\<close>

lemma edge_unique:
  assumes "edges_ok db" "e \<in> set (ref_edges db)" "f \<in> set (ref_edges db)"
    "is_board_card_edge e" "is_board_card_edge f" "e_source_id e = e_source_id f" "e_target_id e = e_target_id f"
  shows "e = f"
proof -
  have "edge_key e = edge_key f"
    using assms by (auto simp: edge_key_def edges_ok_def is_board_card_edge_def)
  then show ?thesis using assms by (auto simp: edges_ok_def distinct_map dest: inj_onD)
qed

lemma place_iff:
  assumes "edges_ok db"
  shows "place db b i = Some (k, rank) \<longleftrightarrow>
    (\<exists>e \<in> set (ref_edges db). is_board_card_edge e \<and> e_source_id e = b \<and> e_target_id e = i \<and>
       edge_column e = k \<and> edge_rank e = rank)"
proof
  assume "place db b i = Some (k, rank)"
  then show "\<exists>e \<in> set (ref_edges db). is_board_card_edge e \<and> e_source_id e = b \<and> e_target_id e = i \<and>
       edge_column e = k \<and> edge_rank e = rank"
    by (auto simp: place_def find_Some_iff intro: nth_mem)
next
  assume "\<exists>e \<in> set (ref_edges db). is_board_card_edge e \<and> e_source_id e = b \<and> e_target_id e = i \<and>
       edge_column e = k \<and> edge_rank e = rank"
  then obtain e where e: "e \<in> set (ref_edges db)" "is_board_card_edge e" "e_source_id e = b" "e_target_id e = i"
    "edge_column e = k" "edge_rank e = rank" by blast
  let ?P = "\<lambda>e. is_board_card_edge e \<and> e_source_id e = b \<and> e_target_id e = i"
  obtain f where f: "find ?P (ref_edges db) = Some f"
    using e by (cases "find ?P (ref_edges db)") (auto simp: find_None_iff)
  then have "f \<in> set (ref_edges db)" "?P f" by (auto simp: find_Some_iff intro: nth_mem)
  with e edge_unique [OF assms] have "f = e" by metis
  with f e show "place db b i = Some (k, rank)" by (simp add: place_def)
qed

lemma board_card_rows_iff:
  "r \<in> set (board_card_rows db) \<longleftrightarrow>
     (\<exists>e \<in> set (ref_edges db). \<exists>c \<in> set (cards db). is_board_card_edge e \<and> c_id c = e_target_id e \<and>
        r = join_board_card db e c)"
  by (auto simp: board_card_rows_def)

lemma join_simps [simp]:
  "bc_board_id (join_board_card db e c) = e_source_id e"
  "bc_column_key (join_board_card db e c) = edge_column e"
  "bc_rank (join_board_card db e c) = edge_rank e"
  "bc_card (join_board_card db e c) = c"
  "bc_id (join_board_card db e c) = c_id c"
  by (simp_all add: join_board_card_def edge_column_def edge_rank_def bc_id_def)

lemma filter_key_unique:
  "distinct (map f xs) \<Longrightarrow> filter (\<lambda>x. f x = k) xs = [] \<or> (\<exists>x \<in> set xs. f x = k \<and> filter (\<lambda>x. f x = k) xs = [x])"
proof (induction xs)
  case (Cons x xs)
  show ?case
  proof (cases "f x = k")
    case True
    with Cons.prems have "filter (\<lambda>y. f y = k) xs = []" by (auto simp: filter_empty_conv image_iff)
    with True show ?thesis by simp
  next
    case False
    with Cons show ?thesis by auto
  qed
qed simp

lemma distinct_rows:
  assumes "keys_ok db"
  shows "distinct (map (\<lambda>r. (bc_board_id r, bc_id r)) (board_card_rows db))"
proof -
  let ?key = "\<lambda>e. (e_source_id e, e_target_id e)"
  let ?rows = "\<lambda>es. concat (map (\<lambda>e. map (join_board_card db e) (filter (\<lambda>c. c_id c = e_target_id e) (cards db))) es)"
  have cd: "distinct (map c_id (cards db))" using assms by (simp add: keys_ok_def)
  have gen: "set (map (\<lambda>r. (bc_board_id r, bc_id r)) (?rows es)) \<subseteq> ?key ` set es \<and>
      (distinct (map ?key es) \<longrightarrow> distinct (map (\<lambda>r. (bc_board_id r, bc_id r)) (?rows es)))" for es
  proof (induction es)
    case (Cons e es)
    have "filter (\<lambda>c. c_id c = e_target_id e) (cards db) = [] \<or>
        (\<exists>c. c_id c = e_target_id e \<and> filter (\<lambda>c. c_id c = e_target_id e) (cards db) = [c])"
      using filter_key_unique [OF cd, of "e_target_id e"] by blast
    with Cons show ?case by (elim disjE exE conjE) auto
  qed simp
  have "distinct (map ?key (filter is_board_card_edge (ref_edges db)))"
    unfolding distinct_map
  proof (intro conjI inj_onI)
    show "distinct (filter is_board_card_edge (ref_edges db))"
      using assms by (simp add: keys_ok_def edges_ok_def distinct_map)
  next
    fix e f
    assume "e \<in> set (filter is_board_card_edge (ref_edges db))"
      "f \<in> set (filter is_board_card_edge (ref_edges db))" "?key e = ?key f"
    then show "e = f" using assms edge_unique [of db e f] by (auto simp: keys_ok_def)
  qed
  with gen [of "filter is_board_card_edge (ref_edges db)"] show ?thesis by (simp add: board_card_rows_def)
qed

definition rank_key :: "board_card \<Rightarrow> string \<times> string" where
  "rank_key r = (bc_rank r, bc_id r)"

definition column_rows :: "board_db \<Rightarrow> string \<Rightarrow> string \<Rightarrow> board_card list" where
  "column_rows db b k =
     filter (\<lambda>r. bc_board_id r = b \<and> bc_column_key r = k \<and> live_card (bc_card r)) (board_card_rows db)"

lemma set_rank_keys:
  assumes "keys_ok db"
  shows "rank_key ` set (column_rows db b k) = column_set db b k"
proof -
  have e: "edges_ok db" using assms by (simp add: keys_ok_def)
  show ?thesis
    by (force simp: column_rows_def column_set_def rank_key_def board_card_rows_iff place_iff [OF e] live_ids_def)
qed

lemma distinct_rank_keys:
  assumes "keys_ok db"
  shows "distinct (map rank_key (column_rows db b k))"
proof -
  have "distinct (map (\<lambda>r. (bc_board_id r, bc_id r)) (column_rows db b k))"
    using distinct_rows [OF assms] by (simp add: column_rows_def distinct_map_filter)
  then show ?thesis
    unfolding distinct_map by (auto simp: inj_on_def rank_key_def column_rows_def)
qed

lemma finite_column_set: "keys_ok db \<Longrightarrow> finite (column_set db b k)"
  using set_rank_keys [of db b k] by (metis List.finite_set finite_imageI)

lemma sorted_column:
  assumes "keys_ok db" "set rs = set (column_rows db b k)" "distinct rs" "sorted (map rank_key rs)"
  shows "map rank_key rs = sorted_list_of_set (column_set db b k)"
proof (rule sorted_distinct_set_unique)
  have "inj_on rank_key (set rs)"
    using distinct_rank_keys [OF assms(1), of b k] assms(2) by (simp add: distinct_map)
  then show "distinct (map rank_key rs)" using assms(3) by (simp add: distinct_map)
  show "set (map rank_key rs) = set (sorted_list_of_set (column_set db b k))"
    using assms set_rank_keys finite_column_set by simp
qed (use assms in \<open>simp_all add: finite_column_set\<close>)

lemma distinct_column_rows: "keys_ok db \<Longrightarrow> distinct (column_rows db b k)"
  using distinct_rank_keys by (simp add: distinct_map)

lemma ordered_cards_column:
  assumes "keys_ok db" "trim k \<noteq> []"
  shows "map rank_key (load_ordered_board_cards b k db) = sorted_list_of_set (column_set db b k)"
proof (rule sorted_column [OF assms(1)])
  have f: "filter (\<lambda>r. bc_board_id r = b \<and> live_card (bc_card r) \<and> (trim k \<noteq> [] \<longrightarrow> bc_column_key r = k))
      (board_card_rows db) = column_rows db b k"
    using assms(2) by (auto simp: column_rows_def intro: filter_cong)
  show "set (load_ordered_board_cards b k db) = set (column_rows db b k)"
    by (simp add: load_ordered_board_cards_def f)
  show "distinct (load_ordered_board_cards b k db)"
    using assms(1) by (simp add: load_ordered_board_cards_def f distinct_column_rows)
  have "sorted (map board_card_order (load_ordered_board_cards b k db))"
    by (simp add: load_ordered_board_cards_def)
  moreover have "r \<in> set (load_ordered_board_cards b k db) \<Longrightarrow> bc_column_key r = k" for r
    using assms(2) by (simp add: load_ordered_board_cards_def)
  ultimately show "sorted (map rank_key (load_ordered_board_cards b k db))"
    by (simp add: sorted_map) (erule sorted_wrt_mono_rel [rotated], auto simp: board_card_order_def rank_key_def)
qed

lemma for_column_column:
  assumes "keys_ok db"
  shows "map rank_key (load_board_cards_for_column b k db) = sorted_list_of_set (column_set db b k)"
proof (rule sorted_column [OF assms])
  show "set (load_board_cards_for_column b k db) = set (column_rows db b k)"
    by (simp add: load_board_cards_for_column_def column_rows_def)
  show "distinct (load_board_cards_for_column b k db)"
    using distinct_column_rows [OF assms] by (simp add: load_board_cards_for_column_def column_rows_def)
  show "sorted (map rank_key (load_board_cards_for_column b k db))"
    by (simp add: load_board_cards_for_column_def rank_key_def [abs_def])
qed

lemma ids_of_rank_keys: "map bc_id rs = map snd (map rank_key rs)"
  by (simp add: rank_key_def)

section \<open>Writing an edge\<close>

definition card_edge :: "string \<Rightarrow> string \<Rightarrow> string \<Rightarrow> string \<Rightarrow> ref_edge" where
  "card_edge b i k rank =
     \<lparr>e_source_type = ''board'', e_source_id = b, e_target_type = ''card'', e_target_id = i,
      e_edge_type = board_card_type, e_metadata = [(''column_key'', k), (''rank'', rank)]\<rparr>"

lemma upsert_card_edge:
  assumes "trimmed_id b" "trimmed_id i"
  shows "upsert_board_card_ref_edge b i k rank db =
    Inr (db\<lparr>ref_edges := upsert_edge (card_edge b i (trim k) (trim rank)) (ref_edges db)\<rparr>)"
  using assms by (simp add: upsert_board_card_ref_edge_def trimmed_id_def card_edge_def)

lemma card_edge_simps [simp]:
  "is_board_card_edge (card_edge b i k rank)" "e_source_id (card_edge b i k rank) = b"
  "e_target_id (card_edge b i k rank) = i" "e_target_type (card_edge b i k rank) = ''card''"
  "edge_column (card_edge b i k rank) = k" "edge_rank (card_edge b i k rank) = rank"
  by (simp_all add: card_edge_def is_board_card_edge_def edge_column_def edge_rank_def edge_meta_def)

lemma trim_rank [simp]: "trim (format_board_rank v) = format_board_rank v"
  by (rule trim_id) (simp_all add: format_not_ws)

lemma set_upsert_edge:
  "distinct (map edge_key es) \<Longrightarrow>
     e \<in> set (upsert_edge n es) \<longleftrightarrow>
       (e \<in> set es \<and> edge_key e \<noteq> edge_key n) \<or> (e = n \<and> edge_key n \<notin> edge_key ` set es) \<or>
       (\<exists>f \<in> set es. edge_key f = edge_key n \<and> e = f\<lparr>e_metadata := e_metadata n\<rparr>)"
  by (auto simp: upsert_edge_def same_edge_iff list_ex_iff image_iff)

lemma keys_upsert_edge:
  "map edge_key (upsert_edge n es) =
     (if edge_key n \<in> edge_key ` set es then map edge_key es else map edge_key es @ [edge_key n])"
  by (auto simp: upsert_edge_def same_edge_iff list_ex_iff image_iff edge_key_def)

lemma edge_eqI: "edge_key e = edge_key f \<Longrightarrow> e_metadata e = e_metadata f \<Longrightarrow> e = (f :: ref_edge)"
  by (simp add: edge_key_def)

lemma with_metadata: "edge_key f = edge_key n \<Longrightarrow> f\<lparr>e_metadata := e_metadata n\<rparr> = (n :: ref_edge)"
  by (rule edge_eqI) (simp_all add: edge_key_def)

lemma in_upsert_edge:
  "distinct (map edge_key es) \<Longrightarrow>
     e \<in> set (upsert_edge n es) \<longleftrightarrow> (e \<in> set es \<and> edge_key e \<noteq> edge_key n) \<or> e = n"
  by (auto simp: set_upsert_edge with_metadata image_iff)

lemma bex_upsert_edge:
  "distinct (map edge_key es) \<Longrightarrow>
     (\<exists>e \<in> set (upsert_edge n es). P e) \<longleftrightarrow> (\<exists>e \<in> set es. edge_key e \<noteq> edge_key n \<and> P e) \<or> P n"
  by (auto simp: in_upsert_edge)

lemma edges_ok_upsert:
  assumes "edges_ok db" "trimmed_id b" "trimmed_id i"
  shows "edges_ok (db\<lparr>ref_edges := upsert_edge (card_edge b i k rank) (ref_edges db)\<rparr>)"
  using assms by (auto simp: edges_ok_def keys_upsert_edge in_upsert_edge)

lemma place_upsert:
  assumes "edges_ok db" "trimmed_id b" "trimmed_id i"
  shows "place (db\<lparr>ref_edges := upsert_edge (card_edge b i k rank) (ref_edges db)\<rparr>) b' i' =
    (if b' = b \<and> i' = i then Some (k, rank) else place db b' i')"
proof -
  let ?n = "card_edge b i k rank"
  let ?db = "db\<lparr>ref_edges := upsert_edge ?n (ref_edges db)\<rparr>"
  note ok = edges_ok_upsert [OF assms, of k rank]
  have d: "distinct (map edge_key (ref_edges db))" using assms(1) by (simp add: edges_ok_def)
  have key: "edge_key e = edge_key ?n \<longleftrightarrow> e_source_id e = b \<and> e_target_id e = i"
    if "e \<in> set (ref_edges db)" "is_board_card_edge e" for e
    using that assms(1) by (auto simp: edge_key_def card_edge_def edges_ok_def is_board_card_edge_def)
  have "place ?db b' i' = Some (k', r) \<longleftrightarrow>
      (if b' = b \<and> i' = i then Some (k, rank) else place db b' i') = Some (k', r)" for k' r
    unfolding place_iff [OF ok] using key
    by (auto simp: place_iff [OF assms(1)] bex_upsert_edge [OF d])
  then show ?thesis by (metis not_None_eq surj_pair)
qed

section \<open>Updates of other tables\<close>

lemma place_cong: "ref_edges db = ref_edges db' \<Longrightarrow> place db b i = place db' b i"
  by (simp add: place_def)

lemma edges_ok_cong: "ref_edges db = ref_edges db' \<Longrightarrow> edges_ok db = edges_ok db'"
  by (simp add: edges_ok_def)

text \<open>What two databases share when only ranks and touch marks of cards differ.\<close>

definition card_core :: "card_row \<Rightarrow> card_row" where
  "card_core c = c\<lparr>c_rank := [], c_updated_at := [], c_updated_by := []\<rparr>"

definition same_but_ranks :: "board_db \<Rightarrow> board_db \<Rightarrow> bool" where
  "same_but_ranks db db' \<longleftrightarrow>
     map card_core (cards db') = map card_core (cards db) \<and> boards db' = boards db \<and>
     card_revisions db' = card_revisions db \<and> artifacts db' = artifacts db \<and>
     ledger db' = ledger db \<and> blob_objects db' = blob_objects db"

lemma same_but_ranks_refl: "same_but_ranks db db"
  by (simp add: same_but_ranks_def)

lemma same_but_ranks_trans: "same_but_ranks a b \<Longrightarrow> same_but_ranks b c \<Longrightarrow> same_but_ranks a c"
  by (simp add: same_but_ranks_def)

lemma card_core_fields:
  "card_core c = card_core d \<Longrightarrow> c_id c = c_id d \<and> live_card c = live_card d \<and> c_resolution c = c_resolution d \<and>
     c_resolution_refs c = c_resolution_refs d \<and> c_column_key c = c_column_key d"
  by (cases c; cases d) (simp add: card_core_def live_card_def)

lemma same_but_ranks_ids:
  assumes "same_but_ranks db db'"
  shows "map c_id (cards db') = map c_id (cards db)" "live_ids db' = live_ids db"
proof -
  have m: "map card_core (cards db') = map card_core (cards db)" using assms by (simp add: same_but_ranks_def)
  have "map (c_id \<circ> card_core) (cards db') = map (c_id \<circ> card_core) (cards db)"
    using m by (metis map_map)
  then show "map c_id (cards db') = map c_id (cards db)" by (simp add: comp_def card_core_def)
  have live: "live_ids d = c_id ` set (filter live_card (map card_core (cards d)))" for d
    by (simp add: live_ids_def filter_map comp_def image_image setcompr_eq_image card_core_def live_card_def)
  show "live_ids db' = live_ids db" unfolding live m ..
qed

definition restamp :: "string \<Rightarrow> string \<Rightarrow> card_row \<Rightarrow> card_row" where
  "restamp now rank c = c\<lparr>c_rank := rank, c_updated_at := now, c_updated_by := system_actor_id\<rparr>"

lemma card_core_restamp [simp]: "card_core (restamp now rank c) = card_core c"
  by (simp add: card_core_def restamp_def)

lemma same_but_ranks_restamp:
  "same_but_ranks db (update_card i (restamp now rank) (db\<lparr>ref_edges := es\<rparr>))"
  by (simp add: same_but_ranks_def update_card_def comp_def if_distrib cong: if_cong)

section \<open>Rebalancing\<close>

definition spread_rank :: "nat \<Rightarrow> string" where
  "spread_rank n = format_board_rank (of_nat (1024 * Suc n))"

definition kept_ids :: "string \<Rightarrow> board_card list \<Rightarrow> string list" where
  "kept_ids excl rs = filter (\<lambda>i. i \<noteq> excl) (map bc_id rs)"

lemma kept_ids_Cons: "kept_ids excl (r # rs) = (if bc_id r = excl then kept_ids excl rs else bc_id r # kept_ids excl rs)"
  by (simp add: kept_ids_def)

lemma unat_spread:
  assumes "n < 10 ^ 15"
  shows "unat (of_nat (1024 * Suc n) :: u64) = 1024 * Suc n"
proof -
  have "1024 * Suc n < 2 ^ 64" using assms by simp
  then show ?thesis unfolding unat_of_nat by (simp only: len_num1 len_bit0 mod_less) simp
qed

lemma spread_next:
  "(of_nat (1024 * Suc n) :: u64) + board_rank_step = of_nat (1024 * Suc (Suc n))"
  by (simp add: board_rank_step_def)

lemma rebalance_rows_result:
  assumes "edges_ok db" "trimmed_id b" "trim k = k" "distinct (map bc_id rs)"
    "\<And>r. r \<in> set rs \<Longrightarrow> trimmed_id (bc_id r)"
  shows "\<exists>db'. rebalance_rows now b k excl (of_nat (1024 * Suc n)) rs db = Inr db' \<and>
     edges_ok db' \<and> same_but_ranks db db' \<and>
     (\<forall>m < length (kept_ids excl rs). place db' b (kept_ids excl rs ! m) = Some (k, spread_rank (n + m))) \<and>
     (\<forall>b' i. b' \<noteq> b \<or> i \<notin> set (kept_ids excl rs) \<longrightarrow> place db' b' i = place db b' i)"
  using assms
proof (induction rs arbitrary: n db)
  case Nil
  then show ?case by (simp add: kept_ids_def same_but_ranks_refl)
next
  case (Cons r rs)
  show ?case
  proof (cases "bc_id r = excl")
    case True
    have "\<exists>db'. rebalance_rows now b k excl (of_nat (1024 * Suc n)) rs db = Inr db' \<and>
       edges_ok db' \<and> same_but_ranks db db' \<and>
       (\<forall>m < length (kept_ids excl rs). place db' b (kept_ids excl rs ! m) = Some (k, spread_rank (n + m))) \<and>
       (\<forall>b' i. b' \<noteq> b \<or> i \<notin> set (kept_ids excl rs) \<longrightarrow> place db' b' i = place db b' i)"
      by (rule Cons.IH) (use Cons.prems in auto)
    then show ?thesis unfolding rebalance_rows.simps kept_ids_Cons if_P [OF True] .
  next
    case False
    let ?v = "of_nat (1024 * Suc n) :: u64"
    let ?e = "card_edge b (bc_id r) k (format_board_rank ?v)"
    let ?db1 = "db\<lparr>ref_edges := upsert_edge ?e (ref_edges db)\<rparr>"
    let ?db2 = "update_card (bc_id r) (restamp now (format_board_rank ?v)) ?db1"
    have ti: "trimmed_id (bc_id r)" using Cons.prems(5) by simp
    have up: "upsert_board_card_ref_edge b (bc_id r) k (format_board_rank ?v) db = Inr ?db1"
      using Cons.prems(2,3) ti by (simp add: upsert_card_edge)
    have e2: "ref_edges ?db2 = ref_edges ?db1" by (simp add: update_card_def)
    have ok2: "edges_ok ?db2"
      using edges_ok_upsert [OF Cons.prems(1,2) ti] edges_ok_cong [OF e2] by blast
    have p2: "place ?db2 b' i = (if b' = b \<and> i = bc_id r then Some (k, format_board_rank ?v) else place db b' i)" for b' i
      using place_upsert [OF Cons.prems(1,2) ti] place_cong [OF e2] by metis
    have s2: "same_but_ranks db ?db2" by (rule same_but_ranks_restamp)
    obtain db' where db': "rebalance_rows now b k excl (of_nat (1024 * Suc (Suc n))) rs ?db2 = Inr db'"
      "edges_ok db'" "same_but_ranks ?db2 db'"
      "\<forall>m < length (kept_ids excl rs). place db' b (kept_ids excl rs ! m) = Some (k, spread_rank (Suc n + m))"
      "\<forall>b' i. b' \<noteq> b \<or> i \<notin> set (kept_ids excl rs) \<longrightarrow> place db' b' i = place ?db2 b' i"
      using Cons.IH [of ?db2 "Suc n"] ok2 Cons.prems by auto
    have step: "rebalance_rows now b k excl ?v (r # rs) db = Inr db'"
      using False up db'(1) spread_next [of n]
      by (simp add: restamp_def [abs_def] del: of_nat_mult of_nat_Suc mult_Suc_right)
    have fresh: "bc_id r \<notin> set (kept_ids excl rs)" using Cons.prems(4) by (auto simp: kept_ids_def)
    have "place db' b (kept_ids excl (r # rs) ! m) = Some (k, spread_rank (n + m))"
      if "m < length (kept_ids excl (r # rs))" for m
    proof (cases m)
      case 0
      with False db'(5) fresh p2 show ?thesis by (simp add: kept_ids_Cons spread_rank_def)
    next
      case (Suc m')
      with False that db'(4) show ?thesis by (simp add: kept_ids_Cons)
    qed
    moreover have "place db' b' i = place db b' i" if "b' \<noteq> b \<or> i \<notin> set (kept_ids excl (r # rs))" for b' i
      using that False db'(5) p2 by (auto simp: kept_ids_Cons)
    ultimately show ?thesis
      using step db'(2) same_but_ranks_trans [OF s2 db'(3)] by blast
  qed
qed

end
