(* ===== verification/BoardMove.thy ===== *)
theory BoardMove
  imports BoardPlacement "HOL-Library.Code_Target_Nat"
begin

text \<open>
  \<open>MoveBoardCard\<close>: rank allocation puts the new rank strictly between the ranks of its neighbours,
  rebalancing the column when there is no room; the moved card therefore stands at the
  requested position and the other cards keep their order.
\<close>

section \<open>Insertion into a sorted column\<close>

definition roomy_rank :: "string \<Rightarrow> bool" where
  "roomy_rank rank \<longleftrightarrow> (\<exists>v. rank = format_board_rank v \<and> unat v + 1024 < 10 ^ 19)"

lemma sorted_insert_at:
  fixes xs :: "(string \<times> string) list"
  assumes "sorted xs" "distinct xs"
    "\<And>p. p \<in> set (take i xs) \<Longrightarrow> fst p < rank" "\<And>p. p \<in> set (drop i xs) \<Longrightarrow> rank < fst p"
  shows "sorted_list_of_set (insert (rank, c) (set xs)) = take i xs @ (rank, c) # drop i xs"
proof (rule sorted_distinct_set_unique)
  have split: "xs = take i xs @ drop i xs" by simp
  have "sorted (take i xs)" "sorted (drop i xs)" "distinct (take i xs)" "distinct (drop i xs)"
    using assms by simp_all
  moreover have "set (take i xs) \<inter> set (drop i xs) = {}"
    using assms(2) by (metis append_take_drop_id distinct_append)
  moreover have lt: "p \<in> set (take i xs) \<Longrightarrow> p \<le> (rank, c)" "p \<in> set (drop i xs) \<Longrightarrow> (rank, c) \<le> p" for p
    using assms(3,4) [of p] by (auto simp: less_eq_prod_def)
  moreover have "p \<in> set (take i xs) \<Longrightarrow> q \<in> set (drop i xs) \<Longrightarrow> p \<le> q" for p q
    using lt order_trans by blast
  moreover have "(rank, c) \<notin> set (take i xs)" "(rank, c) \<notin> set (drop i xs)"
    using assms(3,4) by force+
  ultimately show "sorted (take i xs @ (rank, c) # drop i xs)" "distinct (take i xs @ (rank, c) # drop i xs)"
    by (auto simp: sorted_append)
  show "set (sorted_list_of_set (insert (rank, c) (set xs))) = set (take i xs @ (rank, c) # drop i xs)"
  proof -
    have a: "set (sorted_list_of_set (insert (rank, c) (set xs))) = insert (rank, c) (set xs)"
      by (rule set_sorted_list_of_set) simp
    have b: "set xs = set (take i xs) \<union> set (drop i xs)" by (metis split set_append)
    show ?thesis unfolding a by (subst b) simp
  qed
qed (rule sorted_sorted_list_of_set distinct_sorted_list_of_set)+

lemma lies_between_text:
  assumes "lies_between p v n" "\<And>a. p = Some a \<Longrightarrow> rank_fits a" "rank_fits v" "\<And>w. n = Some w \<Longrightarrow> rank_fits w"
  shows "p \<noteq> None \<Longrightarrow> rank_text p < format_board_rank v" "n \<noteq> None \<Longrightarrow> format_board_rank v < rank_text n"
  using assms rank.enc_less by (auto simp: lies_between_def split: option.splits)

lemma allocate_between_text:
  assumes "\<And>a. p = Some a \<Longrightarrow> unat a + 1024 < 10 ^ 19" "\<And>w. n = Some w \<Longrightarrow> unat w + 1024 < 10 ^ 19"
    "allocate_board_rank_between (rank_text p) (rank_text n) = Some rank"
  shows "\<exists>v. rank = format_board_rank v \<and> rank_fits v" "p \<noteq> None \<Longrightarrow> rank_text p < rank"
    "n \<noteq> None \<Longrightarrow> rank < rank_text n"
proof -
  have pf: "p = Some a \<Longrightarrow> rank_fits a" and nf: "n = Some w \<Longrightarrow> rank_fits w" for a w
    using assms(1,2) by (auto simp: rank_fits_def dest!: add_lessD1)
  obtain v where v: "rank = format_board_rank v" "lies_between p v n"
    "n = None \<Longrightarrow> unat v = (case p of None \<Rightarrow> 1024 | Some a \<Rightarrow> unat a + 1024)"
    using allocate_some [OF pf assms(3)] by metis
  have "rank_fits v"
  proof (cases n)
    case None
    with v(3) assms(1) show ?thesis by (auto simp: rank_fits_def split: option.splits)
  next
    case (Some w)
    with v(2) nf show ?thesis
      by (auto simp: lies_between_def rank_fits_def word_less_nat_alt intro: less_trans split: option.splits)
  qed
  with v lies_between_text [OF v(2) pf \<open>rank_fits v\<close> nf]
  show "\<exists>v. rank = format_board_rank v \<and> rank_fits v" "p \<noteq> None \<Longrightarrow> rank_text p < rank"
    "n \<noteq> None \<Longrightarrow> rank < rank_text n" by auto
qed

definition prev_rank :: "(string \<times> string) list \<Rightarrow> nat \<Rightarrow> string" where
  "prev_rank xs i = (if i > 0 then fst (xs ! (i - 1)) else [])"

definition next_rank :: "(string \<times> string) list \<Rightarrow> nat \<Rightarrow> string" where
  "next_rank xs i = (if i < length xs then fst (xs ! i) else [])"

lemma rank_neighbours:
  assumes "i \<le> length cs"
  shows "rank_before cs i = prev_rank (map rank_key cs) i" "rank_after cs i = next_rank (map rank_key cs) i"
  using assms by (auto simp: rank_before_def rank_after_def prev_rank_def next_rank_def rank_key_def)

lemma allocate_in_column:
  assumes "sorted xs" "\<And>p. p \<in> set xs \<Longrightarrow> roomy_rank (fst p)" "i \<le> length xs"
    "allocate_board_rank_between (prev_rank xs i) (next_rank xs i) = Some rank"
  shows "\<exists>v. rank = format_board_rank v \<and> rank_fits v"
    "p \<in> set (take i xs) \<Longrightarrow> fst p < rank" "p \<in> set (drop i xs) \<Longrightarrow> rank < fst p"
proof -
  have ex: "\<exists>v. fst (xs ! j) = format_board_rank v \<and> unat v + 1024 < 10 ^ 19" if "j < length xs" for j
    using assms(2) [OF nth_mem [OF that]] by (simp add: roomy_rank_def)
  obtain p' where p': "prev_rank xs i = rank_text p'" "\<And>a. p' = Some a \<Longrightarrow> unat a + 1024 < 10 ^ 19"
    "p' = None \<longleftrightarrow> i = 0"
  proof (cases "i = 0")
    case True
    then show ?thesis using that [of None] by (simp add: prev_rank_def)
  next
    case False
    with assms(3) have "i - 1 < length xs" by simp
    from ex [OF this] obtain v where "fst (xs ! (i - 1)) = format_board_rank v" "unat v + 1024 < 10 ^ 19"
      by blast
    with False show ?thesis using that [of "Some v"] by (simp add: prev_rank_def)
  qed
  obtain n' where n': "next_rank xs i = rank_text n'" "\<And>a. n' = Some a \<Longrightarrow> unat a + 1024 < 10 ^ 19"
    "n' = None \<longleftrightarrow> \<not> i < length xs"
  proof (cases "i < length xs")
    case True
    then obtain v where "fst (xs ! i) = format_board_rank v" "unat v + 1024 < 10 ^ 19"
      using ex [of i] by auto
    with True show ?thesis using that [of "Some v"] by (simp add: next_rank_def)
  next
    case False
    then show ?thesis using that [of None] by (simp add: next_rank_def)
  qed
  note between = allocate_between_text [of p' n' rank, OF p'(2) n'(2)]
  have some: "allocate_board_rank_between (rank_text p') (rank_text n') = Some rank"
    using assms(4) p'(1) n'(1) by simp
  show "\<exists>v. rank = format_board_rank v \<and> rank_fits v" using between(1) [OF _ _ some] by simp
  have mono: "fst (xs ! j) \<le> fst (xs ! k)" if "j \<le> k" "k < length xs" for j k
    using sorted_nth_mono [OF assms(1) that] by (auto simp: less_eq_prod_def)
  show "fst p < rank" if "p \<in> set (take i xs)"
  proof -
    from that obtain j where j: "j < i" "j < length xs" "p = xs ! j" by (auto simp: in_set_conv_nth)
    have "i > 0" using j by simp
    have "fst p \<le> fst (xs ! (i - 1))" using mono [of j "i - 1"] j assms(3) by simp
    also have "\<dots> = rank_text p'" using p'(1) \<open>i > 0\<close> by (simp add: prev_rank_def)
    also have "\<dots> < rank" using between(2) [OF _ _ some] p'(3) \<open>i > 0\<close> by simp
    finally show ?thesis .
  qed
  show "rank < fst p" if "p \<in> set (drop i xs)"
  proof -
    from that obtain j where "j < length (drop i xs)" "p = drop i xs ! j" by (metis in_set_conv_nth)
    with assms(3) have j: "i + j < length xs" "p = xs ! (i + j)" by simp_all
    have "rank < rank_text n'" using between(3) [OF _ _ some] n'(3) j by simp
    also have "\<dots> = fst (xs ! i)" using n'(1) j by (simp add: next_rank_def)
    also have "\<dots> \<le> fst p" using mono [of i "i + j"] j by simp
    finally show ?thesis .
  qed
qed

section \<open>The column without the moving card\<close>

definition others :: "board_db \<Rightarrow> string \<Rightarrow> string \<Rightarrow> string \<Rightarrow> (string \<times> string) list" where
  "others db b k c = filter (\<lambda>p. snd p \<noteq> c) (sorted_list_of_set (column_set db b k))"

lemma sorted_filter_pairs: "sorted xs \<Longrightarrow> sorted (filter P (xs :: (string \<times> string) list))"
  by (rule sorted_wrt_filter)

lemma others_props:
  assumes "keys_ok db"
  shows "sorted (others db b k c)" "distinct (others db b k c)"
    "set (others db b k c) = {p \<in> column_set db b k. snd p \<noteq> c}"
  using assms by (auto simp: others_def sorted_filter_pairs finite_column_set)

lemma column_without_others:
  assumes "keys_ok db" "trim k \<noteq> []"
  shows "map rank_key (column_without b k c db) = others db b k c"
  unfolding column_without_def others_def ordered_cards_column [OF assms, symmetric]
  by (simp add: filter_map comp_def rank_key_def)

lemma kept_ids_others:
  assumes "keys_ok db"
  shows "kept_ids c (load_board_cards_for_column b k db) = map snd (others db b k c)"
  unfolding others_def kept_ids_def for_column_column [OF assms, symmetric]
  by (simp add: filter_map comp_def rank_key_def)

lemma distinct_other_ids:
  assumes "keys_ok db"
  shows "distinct (map snd (others db b k c))"
proof -
  have "inj_on snd (set (others db b k c))"
    unfolding others_props(3) [OF assms] by (auto simp: inj_on_def column_set_def)
  with others_props(2) [OF assms] show ?thesis by (simp add: distinct_map)
qed

lemma few_others:
  assumes "keys_ok db"
  shows "length (others db b k c) \<le> length (cards db)"
proof -
  have "set (map snd (others db b k c)) \<subseteq> set (map c_id (cards db))"
    by (auto simp: others_props [OF assms] column_set_def live_ids_def)
  then have "card (set (map snd (others db b k c))) \<le> card (set (map c_id (cards db)))"
    by (intro card_mono) auto
  also have "\<dots> \<le> length (cards db)" using card_length [of "map c_id (cards db)"] by simp
  finally show ?thesis using distinct_card [OF distinct_other_ids [OF assms, of b k c]] by simp
qed

lemma column_ids_trimmed:
  assumes "keys_ok db" "p \<in> column_set db b k"
  shows "trimmed_id (snd p)"
  using assms place_iff [of db b "snd p" k "fst p"]
  by (auto simp: column_set_def keys_ok_def edges_ok_def)

section \<open>Rebalancing a column\<close>

lemma spread_less: "m < n \<Longrightarrow> n < 10 ^ 15 \<Longrightarrow> spread_rank m < spread_rank n"
proof -
  assume mn: "m < n" "n < 10 ^ 15"
  then have "m < 10 ^ 15" by linarith
  from unat_spread [OF this] unat_spread [OF mn(2)]
  have u: "unat (of_nat (1024 * Suc m) :: u64) = 1024 * Suc m" "unat (of_nat (1024 * Suc n) :: u64) = 1024 * Suc n" .
  have "1024 * Suc n < (10 :: nat) ^ 19" using mn(2) by simp
  with mn u show ?thesis
    unfolding spread_rank_def by (intro rank.enc_less) (simp_all only: rank_fits_def word_less_nat_alt, simp_all)
qed

lemma spread_roomy: "n < 10 ^ 15 \<Longrightarrow> roomy_rank (spread_rank n)"
  unfolding roomy_rank_def spread_rank_def
  by (rule exI [of _ "of_nat (1024 * Suc n)"]) (simp add: unat_spread del: of_nat_mult of_nat_Suc mult_Suc_right)

lemma sorted_spread:
  assumes "length ids \<le> 10 ^ 15"
  shows "sorted (map (\<lambda>m. (spread_rank m, ids ! m)) [0..<length ids])"
  using assms by (auto simp: sorted_wrt_iff_nth_less less_eq_prod_def intro!: spread_less)

lemma rebalance_effect:
  assumes ok: "keys_ok db" and b: "trimmed_id b" and k: "trim k = k"
    and few: "length (cards db) < 10 ^ 15"
  shows "\<exists>db1. rebalance_board_column_ranks now b k c db = Inr db1 \<and> keys_ok db1 \<and> same_but_ranks db db1 \<and>
     others db1 b k c = map (\<lambda>m. (spread_rank m, map snd (others db b k c) ! m)) [0..<length (others db b k c)] \<and>
     (\<forall>b' i. (b' \<noteq> b \<or> i \<notin> snd ` set (others db b k c)) \<longrightarrow> place db1 b' i = place db b' i)"
proof -
  let ?rs = "load_board_cards_for_column b k db"
  let ?ids = "map snd (others db b k c)"
  have keys: "map rank_key ?rs = sorted_list_of_set (column_set db b k)" by (rule for_column_column [OF ok])
  have kept: "kept_ids c ?rs = ?ids" by (rule kept_ids_others [OF ok])
  have inj: "inj_on snd (column_set db b k)" by (auto simp: inj_on_def column_set_def)
  have "distinct (map snd (map rank_key ?rs))"
    unfolding keys distinct_map using inj finite_column_set [OF ok] by simp
  then have d: "distinct (map bc_id ?rs)" by (simp add: rank_key_def comp_def)
  have t: "trimmed_id (bc_id r)" if "r \<in> set ?rs" for r
  proof -
    have "rank_key r \<in> set (map rank_key ?rs)" using that by simp
    then have "rank_key r \<in> column_set db b k" unfolding keys using finite_column_set [OF ok] by simp
    from column_ids_trimmed [OF ok this] show ?thesis by (simp add: rank_key_def)
  qed
  have e: "edges_ok db" using ok by (simp add: keys_ok_def)
  from rebalance_rows_result [OF e b k d t, where n = 0 and now = now and excl = c] obtain db1 where
    db1: "rebalance_rows now b k c (of_nat (1024 * Suc 0)) ?rs db = Inr db1" "edges_ok db1" "same_but_ranks db db1"
      "\<forall>m < length ?ids. place db1 b (?ids ! m) = Some (k, spread_rank m)"
      "\<forall>b' i. b' \<noteq> b \<or> i \<notin> set ?ids \<longrightarrow> place db1 b' i = place db b' i"
    unfolding kept by auto
  have ok1: "keys_ok db1"
    using ok db1(2) same_but_ranks_ids(1) [OF db1(3)] by (simp add: keys_ok_def)
  have live: "live_ids db1 = live_ids db" by (rule same_but_ranks_ids(2) [OF db1(3)])
  let ?new = "map (\<lambda>m. (spread_rank m, ?ids ! m)) [0..<length ?ids]"
  have set_ids: "i \<in> set ?ids \<longleftrightarrow> i \<noteq> c \<and> i \<in> live_ids db \<and> (\<exists>rank. place db b i = Some (k, rank))" for i
    by (auto simp: others_props [OF ok] column_set_def image_iff)
  have few': "length ?ids \<le> 10 ^ 15" using few_others [OF ok, of b k c] few by simp
  have "others db1 b k c = ?new"
  proof (rule sorted_distinct_set_unique)
    show "sorted (others db1 b k c)" "distinct (others db1 b k c)" using others_props [OF ok1] by blast+
    show "sorted ?new" by (rule sorted_spread [OF few'])
    have "inj_on (\<lambda>m. ?ids ! m) {0..<length ?ids}"
      using distinct_other_ids [OF ok, of b k c] by (intro inj_onI) (simp add: nth_eq_iff_index_eq del: nth_map)
    then show "distinct ?new" by (auto simp: distinct_map inj_on_def)
    show "set (others db1 b k c) = set ?new"
    proof (intro set_eqI iffI)
      fix p assume "p \<in> set (others db1 b k c)"
      then have p: "place db1 b (snd p) = Some (k, fst p)" "snd p \<noteq> c" "snd p \<in> live_ids db"
        by (auto simp: others_props [OF ok1] column_set_def live)
      have "snd p \<in> set ?ids" using p db1(5) set_ids [of "snd p"] by (metis (no_types))
      then obtain m where m: "m < length ?ids" "snd p = ?ids ! m" by (metis in_set_conv_nth)
      with db1(4) p(1) have "fst p = spread_rank m" by auto
      with m show "p \<in> set ?new" by (auto simp: image_iff intro!: bexI [of _ m] prod_eqI)
    next
      fix p assume "p \<in> set ?new"
      then obtain m where m: "m < length ?ids" "p = (spread_rank m, ?ids ! m)" by auto
      have "?ids ! m \<in> set ?ids" using m(1) by (rule nth_mem)
      with set_ids have "?ids ! m \<noteq> c" "?ids ! m \<in> live_ids db" by blast+
      with m db1(4) show "p \<in> set (others db1 b k c)"
        by (simp add: others_props [OF ok1] column_set_def live)
    qed
  qed
  moreover have "board_rank_step = of_nat (1024 * Suc 0)" by (simp add: board_rank_step_def)
  ultimately show ?thesis
    using db1 ok1 unfolding rebalance_board_column_ranks_def by (intro exI [of _ db1]) auto
qed

section \<open>Allocation in a column\<close>

lemma find_anchor_bound: "find_anchor a b i cs = Some j \<Longrightarrow> i \<le> j \<and> j \<le> i + length cs"
  by (induction cs arbitrary: i) (force split: if_splits)+

lemma insert_index_bound: "board_insert_index ids before after = Inr i \<Longrightarrow> i \<le> length ids"
  using find_anchor_bound [of "trim before" "trim after" 0 ids]
  by (auto simp: board_insert_index_def Let_def split: if_splits option.splits)

lemma insert_index_others:
  assumes "keys_ok db" "trim k \<noteq> []"
  shows "insert_index (column_without b k c db) before after =
    (case board_insert_index (map snd (others db b k c)) before after of
       Inl e \<Rightarrow> Inl (anchor_request_error e) | Inr i \<Rightarrow> Inr i)"
proof -
  have "map bc_id (column_without b k c db) = map snd (others db b k c)"
    unfolding column_without_others [OF assms, symmetric] by (simp add: rank_key_def)
  then show ?thesis by (simp add: insert_index_def)
qed

lemma spread_has_room:
  assumes "length ids < 10 ^ 15" "j \<le> length ids"
  shows "allocate_board_rank_between (prev_rank (map (\<lambda>m. (spread_rank m, ids ! m)) [0..<length ids]) j)
           (next_rank (map (\<lambda>m. (spread_rank m, ids ! m)) [0..<length ids]) j) \<noteq> None"
proof -
  let ?xs = "map (\<lambda>m. (spread_rank m, ids ! m)) [0..<length ids]"
  let ?v = "\<lambda>m. of_nat (1024 * Suc m) :: u64"
  let ?p = "if j > 0 then Some (?v (j - 1)) else None"
  let ?n = "if j < length ids then Some (?v j) else None"
  have texts: "prev_rank ?xs j = rank_text ?p" "next_rank ?xs j = rank_text ?n"
    using assms(2) by (auto simp: prev_rank_def next_rank_def spread_rank_def)
  have u: "unat (?v m) = 1024 * Suc m" if "m \<le> length ids" for m
    using that assms(1) by (intro unat_spread) linarith
  have top: "1024 * Suc (length ids) + 1024 < (10 :: nat) ^ 19" using assms(1) by simp
  have small: "1024 * Suc m + 1024 < (10 :: nat) ^ 19" if "m \<le> length ids" for m
    by (rule le_less_trans [OF _ top]) (use that in simp)
  have small': "1024 * Suc m + 1024 < (2 :: nat) ^ 64" if "m \<le> length ids" for m
    by (rule less_trans [OF small [OF that]]) simp
  have fits: "rank_fits v" if "?p = Some v" for v
  proof -
    from that have "v = ?v (j - 1)" by (auto split: if_splits)
    then show ?thesis
      unfolding rank_fits_def using u [of "j - 1"] small [THEN add_lessD1, of "j - 1"] assms(2) by (simp only:)
  qed
  have "room_between ?p ?n"
  proof (cases "j > 0 \<and> j < length ids")
    case True
    then have "j - 1 \<le> length ids" "j \<le> length ids" by linarith+
    moreover have "Suc (Suc (1024 * j)) \<le> 1024 * Suc j" by simp
    ultimately show ?thesis using u [of "j - 1"] u [of j] True
      by (simp add: room_between_def del: of_nat_mult of_nat_Suc mult_Suc_right)
  next
    case False
    with assms(2) u [of j] u [of "j - 1"] small' [of "j - 1"] show ?thesis
      by (auto simp: room_between_def simp del: of_nat_mult of_nat_Suc mult_Suc_right)
  qed
  with allocate_none_iff [OF fits] show ?thesis unfolding texts by simp
qed

lemma allocate_result:
  assumes ok: "keys_ok db" and b: "trimmed_id b" and k: "trim k = k" "k \<noteq> []"
    and roomy: "\<And>p. p \<in> column_set db b k \<Longrightarrow> roomy_rank (fst p)" and few: "length (cards db) < 10 ^ 15"
    and idx: "board_insert_index (map snd (others db b k c)) before after = Inr i"
  shows "\<exists>rank db1. allocate_board_card_rank now b k before after c db = Inr (rank, db1) \<and>
     keys_ok db1 \<and> same_but_ranks db db1 \<and> map snd (others db1 b k c) = map snd (others db b k c) \<and>
     (\<forall>b' i. (b' \<noteq> b \<or> i \<notin> snd ` set (others db b k c)) \<longrightarrow> place db1 b' i = place db b' i) \<and>
     (\<exists>v. rank = format_board_rank v) \<and>
     (\<forall>p \<in> set (take i (others db1 b k c)). fst p < rank) \<and> (\<forall>p \<in> set (drop i (others db1 b k c)). rank < fst p)"
proof -
  let ?xs = "others db b k c"
  have kt: "trim k \<noteq> []" using k by simp
  have i: "i \<le> length ?xs" using insert_index_bound [OF idx] by simp
  have len: "length (column_without b k c d) = length (others d b k c)" if "keys_ok d" for d
    using column_without_others [OF that kt, of b c] by (metis length_map)
  have ranks: "rank_before (column_without b k c d) j = prev_rank (others d b k c) j"
      "rank_after (column_without b k c d) j = next_rank (others d b k c) j"
    if "keys_ok d" "j \<le> length (others d b k c)" for d j
    using rank_neighbours [of j "column_without b k c d"] that len column_without_others [OF that(1) kt, of b c] by auto
  show ?thesis
  proof (cases "allocate_board_rank_between (prev_rank ?xs i) (next_rank ?xs i)")
    case (Some rank)
    have al: "allocate_board_card_rank now b k before after c db = Inr (rank, db)"
      using Some by (simp add: allocate_board_card_rank_def insert_index_others [OF ok kt] idx ranks [OF ok i])
    have r: "p \<in> set ?xs \<Longrightarrow> roomy_rank (fst p)" for p using roomy by (simp add: others_props [OF ok])
    note ac = allocate_in_column [OF others_props(1) [OF ok] r i Some]
    show ?thesis
    proof (intro exI [of _ rank] exI [of _ db] conjI)
      show "\<exists>v. rank = format_board_rank v" using ac(1) by blast
    qed (rule al ok same_but_ranks_refl refl allI impI ballI ac(2) ac(3) | assumption)+
  next
    case None
    obtain db1 where db1: "rebalance_board_column_ranks now b k c db = Inr db1" "keys_ok db1" "same_but_ranks db db1"
      "others db1 b k c = map (\<lambda>m. (spread_rank m, map snd ?xs ! m)) [0..<length ?xs]"
      "\<forall>b' i. (b' \<noteq> b \<or> i \<notin> snd ` set ?xs) \<longrightarrow> place db1 b' i = place db b' i"
      using rebalance_effect [OF ok b k(1) few, of now c] by (elim exE conjE) (rule that)
    let ?ys = "others db1 b k c"
    have few': "length ?xs < 10 ^ 15" using few_others [OF ok, of b k c] few by linarith
    have ids: "map snd ?ys = map snd ?xs"
      unfolding db1(4) by (simp add: comp_def) (metis (no_types, lifting) length_map map_nth)
    have len1: "length ?ys = length ?xs" using ids by (metis length_map)
    have "allocate_board_rank_between (prev_rank ?ys i) (next_rank ?ys i) \<noteq> None"
      using spread_has_room [of "map snd ?xs" i] few' i unfolding db1(4) by simp
    then obtain rank where rank: "allocate_board_rank_between (prev_rank ?ys i) (next_rank ?ys i) = Some rank" by blast
    have i1: "i \<le> length ?ys" using i len1 by simp
    have al: "allocate_board_card_rank now b k before after c db = Inr (rank, db1)"
      using None rank
      by (simp add: allocate_board_card_rank_def insert_index_others [OF ok kt] insert_index_others [OF db1(2) kt]
          idx ids ranks [OF ok i] ranks [OF db1(2) i1] db1(1))
    have r: "p \<in> set ?ys \<Longrightarrow> roomy_rank (fst p)" for p
      unfolding db1(4) using few' by (auto intro!: spread_roomy)
    note ac = allocate_in_column [OF others_props(1) [OF db1(2)] r i1 rank]
    show ?thesis
    proof (intro exI [of _ rank] exI [of _ db1] conjI)
      show "\<exists>v. rank = format_board_rank v" using ac(1) by blast
    qed (rule al db1(2) db1(3) ids db1(5) ballI ac(2) ac(3) | assumption)+
  qed
qed

lemma allocate_error:
  assumes "keys_ok db" "trim k \<noteq> []" "board_insert_index (map snd (others db b k c)) before after = Inl e"
  shows "allocate_board_card_rank now b k before after c db = Inl (anchor_request_error e)"
  using assms by (simp add: allocate_board_card_rank_def insert_index_others)

section \<open>The located card\<close>

lemma newest_card_in: "newest_card rs = Some r \<Longrightarrow> r \<in> set rs"
  by (induction rs arbitrary: r) (auto split: option.splits if_splits)

lemma find_row: "find P xs = Some r \<Longrightarrow> r \<in> set xs \<and> P r"
  by (induction xs) (auto split: if_splits)

lemma by_identifier_row:
  assumes "load_board_card_by_identifier b i inc db = Inr r"
  shows "r \<in> set (board_card_rows db)" "bc_board_id r = trim b" "inc \<or> live_card (bc_card r)"
  using assms
  by (auto simp: load_board_card_by_identifier_def Let_def split: if_splits option.splits
      dest!: find_row newest_card_in)

lemma by_global_id_row:
  assumes "load_board_card_by_global_id i inc db = Inr r"
  shows "r \<in> set (board_card_rows db)" "bc_id r = trim i" "inc \<or> live_card (bc_card r)"
  using assms
  by (auto simp: load_board_card_by_global_id_def Let_def split: if_splits option.splits dest!: find_row)

lemma row_facts:
  assumes "keys_ok db" "r \<in> set (board_card_rows db)"
  shows "trimmed_id (bc_board_id r)" "trimmed_id (bc_id r)" "bc_card r \<in> set (cards db)"
    "place db (bc_board_id r) (bc_id r) = Some (bc_column_key r, bc_rank r)"
proof -
  from assms(2) obtain e c where e: "e \<in> set (ref_edges db)" "c \<in> set (cards db)" "is_board_card_edge e"
    "c_id c = e_target_id e" "r = join_board_card db e c" by (auto simp: board_card_rows_iff)
  have ok: "edges_ok db" using assms(1) by (simp add: keys_ok_def)
  from e ok show "trimmed_id (bc_board_id r)" "trimmed_id (bc_id r)" "bc_card r \<in> set (cards db)"
    by (auto simp: edges_ok_def)
  from e show "place db (bc_board_id r) (bc_id r) = Some (bc_column_key r, bc_rank r)"
    by (auto simp: place_iff [OF ok])
qed

lemma located_row:
  assumes "locate_for_move boardID0 identifier u db = Inr (b, brow, r)" "trim boardID0 = boardID0"
  shows "r \<in> set (board_card_rows db)" "b = bc_board_id r"
  using assms
  by (auto simp: locate_for_move_def res_iffs split: if_splits dest: by_identifier_row(1,2) by_global_id_row(1))

text \<open>The rows the store writes have a timestamp or nothing in the lifecycle columns.\<close>

definition cards_ok :: "board_db \<Rightarrow> bool" where
  "cards_ok db \<longleftrightarrow> (\<forall>c \<in> set (cards db). col_ok (c_archived_at c) \<and> col_ok (c_trashed_at c))"

lemma mutable_live:
  assumes "keys_ok db" "cards_ok db" "r \<in> set (board_card_rows db)" "ensure_board_card_mutable r = Inr ()"
  shows "bc_id r \<in> live_ids db"
proof -
  have c: "bc_card r \<in> set (cards db)" using row_facts(3) [OF assms(1,3)] .
  with assms(2,4) have "live_card (bc_card r)"
    by (auto simp: cards_ok_def ensure_board_card_mutable_def live_card_def col_ok_set_iff split: if_splits)
  with c show ?thesis by (auto simp: live_ids_def bc_id_def)
qed

section \<open>The steps of a move\<close>

lemma move_steps:
  assumes "move_board_card t1 t2 t3 actorID boardID0 identifier input db = Inr (b1, r1, db')"
  obtains b brow r rank db1 res db2 db3 where
    "locate_for_move boardID0 identifier (mi_if_board_updated_at input) db = Inr (b, brow, r)"
    "ensure_board_card_mutable r = Inr ()"
    "validate_board_column_key (trim (mi_column_key input))" "trim (mi_column_key input) \<noteq> []"
    "allocate_board_card_rank t1 b (trim (mi_column_key input)) (trim (mi_before_card_id input))
       (trim (mi_after_card_id input)) (bc_id r) db = Inr (rank, db1)"
    "resolve_board_card_move_resolution r (trim (mi_column_key input)) input = Inr res"
    "upsert_board_card_ref_edge b (bc_id r) (trim (mi_column_key input)) rank db1 = Inr db2"
    "store_moved_card t2 actorID b r (trim (mi_column_key input)) rank res db2 = Inr (r1, db3)"
    "touch_board_row t3 actorID brow db3 = (b1, db')"
  using assms unfolding move_board_card_def Let_def
  by (simp add: res_iffs case_prod_unfold) (elim exE conjE, rule that, (assumption | simp add: prod_eq_iff)+)

lemma update_card_frame:
  assumes "\<And>c. c_id (f c) = c_id c" "\<And>c. live_card (f c) = live_card c"
  shows "map c_id (cards (update_card i f db)) = map c_id (cards db)"
    "live_ids (update_card i f db) = live_ids db" "ref_edges (update_card i f db) = ref_edges db"
proof -
  define g where "g c = (if c_id c = i then f c else c)" for c
  have g: "c_id (g c) = c_id c" "live_card (g c) = live_card c" for c using assms by (simp_all add: g_def)
  have cards: "cards (update_card i f db) = map g (cards db)" by (simp add: update_card_def g_def [abs_def])
  show "map c_id (cards (update_card i f db)) = map c_id (cards db)" by (simp add: cards comp_def g)
  have live: "live_ids d = c_id ` set (filter live_card (cards d))" for d
    by (simp add: live_ids_def setcompr_eq_image)
  show "live_ids (update_card i f db) = live_ids db"
    by (simp add: live cards filter_map comp_def g image_image)
  show "ref_edges (update_card i f db) = ref_edges db" by (simp add: update_card_def)
qed

lemma store_moved_frame:
  assumes "store_moved_card t a b r k rank res db = Inr (r1, db3)"
  shows "map c_id (cards db3) = map c_id (cards db)" "live_ids db3 = live_ids db" "ref_edges db3 = ref_edges db"
  using assms by (auto simp: store_moved_card_def Let_def res_iffs update_card_frame live_card_def moved_card_def split: prod.splits if_splits)

lemma touch_frame:
  assumes "touch_board_row t a b db = (b1, db1)"
  shows "cards db1 = cards db" "ref_edges db1 = ref_edges db"
  using assms by (auto simp: touch_board_row_def update_board_def)

lemma keys_live_cong:
  assumes "map c_id (cards d) = map c_id (cards db)" "live_ids d = live_ids db" "ref_edges d = ref_edges db"
  shows "keys_ok d = keys_ok db" "place d = place db" "live_ids d = live_ids db"
  using assms by (auto simp: keys_ok_def edges_ok_def place_def fun_eq_iff)

section \<open>Where the card ends up\<close>

definition column_ids :: "board_db \<Rightarrow> string \<Rightarrow> string \<Rightarrow> string list" where
  "column_ids db b k = map bc_id (load_ordered_board_cards b k db)"

text \<open>Position \<open>i\<close> is the one the anchors ask for: before a card, after one, or at the end.\<close>

definition anchored_at :: "string list \<Rightarrow> string \<Rightarrow> string \<Rightarrow> nat \<Rightarrow> bool" where
  "anchored_at ids before after i \<longleftrightarrow>
     i \<le> length ids \<and>
     (before \<noteq> [] \<longrightarrow> i < length ids \<and> ids ! i = before) \<and>
     (after \<noteq> [] \<longrightarrow> 0 < i \<and> ids ! (i - 1) = after) \<and>
     (before = [] \<and> after = [] \<longrightarrow> i = length ids)"

lemma find_anchor_at:
  "find_anchor before after n ids = Some i \<Longrightarrow> before = [] \<or> after = [] \<Longrightarrow>
     \<exists>m. i = n + m \<and> m \<le> length ids \<and> (before \<noteq> [] \<longrightarrow> m < length ids \<and> ids ! m = before) \<and>
         (after \<noteq> [] \<longrightarrow> 0 < m \<and> ids ! (m - 1) = after)"
proof (induction ids arbitrary: n)
  case (Cons c cs)
  consider "before \<noteq> []" "c = before" | "after \<noteq> []" "c = after" "before = []"
    | "find_anchor before after (n + 1) cs = Some i"
    using Cons.prems by (auto split: if_splits)
  then show ?case
  proof cases
    case 3
    from Cons.IH [OF this Cons.prems(2)] obtain m where
      "i = n + 1 + m" "m \<le> length cs" "before \<noteq> [] \<longrightarrow> m < length cs \<and> cs ! m = before"
      "after \<noteq> [] \<longrightarrow> 0 < m \<and> cs ! (m - 1) = after" by blast
    then show ?thesis by (intro exI [of _ "Suc m"]) auto
  qed (use Cons.prems in \<open>auto split: if_splits\<close>)
qed simp

lemma insert_index_anchored:
  "board_insert_index ids before after = Inr i \<Longrightarrow> anchored_at ids (trim before) (trim after) i"
  using find_anchor_at [of "trim before" "trim after" 0 ids i]
  by (auto simp: board_insert_index_def anchored_at_def Let_def split: if_splits option.splits)

lemma column_ids_set:
  assumes "keys_ok db" "trim k \<noteq> []"
  shows "column_ids db b k = map snd (sorted_list_of_set (column_set db b k))"
  unfolding column_ids_def ordered_cards_column [OF assms, symmetric] by (simp add: rank_key_def)

lemma others_sorted_list:
  assumes "keys_ok db"
  shows "sorted_list_of_set {p \<in> column_set db b k. snd p \<noteq> c} = others db b k c"
  by (rule sorted_distinct_set_unique)
     (use others_props [OF assms, of b k c] finite_column_set [OF assms, of b k] in auto)

lemma other_ids:
  assumes "keys_ok db" "trim k \<noteq> []"
  shows "map snd (others db b k c) = filter (\<lambda>i. i \<noteq> c) (column_ids db b k)"
  by (simp add: column_ids_set [OF assms] others_def filter_map comp_def)

lemma column_trim: "validate_board_column_key k \<Longrightarrow> k \<noteq> []"
  by (auto simp: validate_board_column_key_def canonical_board_column_order_def)

text \<open>What a move does to the keys of the columns: the others keep their places up to a rebalancing, the card gets its own.\<close>

lemma move_effect:
  assumes ok: "keys_ok db" and cols: "cards_ok db" and few: "length (cards db) < 10 ^ 15"
    and board: "trim boardID0 = boardID0"
    and located: "locate_for_move boardID0 identifier (mi_if_board_updated_at input) db = Inr (b, brow, r)"
    and roomy: "\<And>p. p \<in> column_set db b (trim (mi_column_key input)) \<Longrightarrow> roomy_rank (fst p)"
    and moved: "move_board_card t1 t2 t3 actorID boardID0 identifier input db = Inr (b1, r1, db')"
    and k: "k = trim (mi_column_key input)" and c: "c = bc_id r"
  obtains i rank db1 where "k \<noteq> []" "keys_ok db'" "keys_ok db1" "live_ids db1 = live_ids db"
    "anchored_at (map snd (others db1 b k c)) (trim (mi_before_card_id input)) (trim (mi_after_card_id input)) i"
    "map snd (others db1 b k c) = map snd (others db b k c)"
    "\<forall>b' i. (b' \<noteq> b \<or> i \<notin> snd ` set (others db b k c)) \<longrightarrow> place db1 b' i = place db b' i"
    "\<forall>p \<in> set (take i (others db1 b k c)). fst p < rank" "\<forall>p \<in> set (drop i (others db1 b k c)). rank < fst p"
    "\<forall>p b' k'. p \<in> column_set db' b' k' \<longleftrightarrow>
       (if b' = b \<and> snd p = c then k' = k \<and> fst p = rank else place db1 b' (snd p) = Some (k', fst p) \<and> snd p \<in> live_ids db)"
proof -
  obtain bb brow' rr rank db1 res db2 db3 where
    loc: "locate_for_move boardID0 identifier (mi_if_board_updated_at input) db = Inr (bb, brow', rr)" and
    steps: "ensure_board_card_mutable rr = Inr ()" "validate_board_column_key k" "k \<noteq> []"
      "allocate_board_card_rank t1 bb k (trim (mi_before_card_id input)) (trim (mi_after_card_id input)) (bc_id rr) db
         = Inr (rank, db1)"
      "resolve_board_card_move_resolution rr k input = Inr res"
      "upsert_board_card_ref_edge bb (bc_id rr) k rank db1 = Inr db2"
      "store_moved_card t2 actorID bb rr k rank res db2 = Inr (r1, db3)"
      "touch_board_row t3 actorID brow' db3 = (b1, db')"
    unfolding k c by (rule move_steps [OF moved])
  have same: "bb = b" "brow' = brow" "rr = r" using loc located by simp_all
  note steps = steps [unfolded same, folded c]
  note mut = steps(1) and vk = steps(2,3) and al = steps(4) and up = steps(6) and st = steps(7) and to = steps(8)
  have row: "r \<in> set (board_card_rows db)" and b: "b = bc_board_id r" using located_row [OF located board] by auto
  have tb: "trimmed_id b" and tc: "trimmed_id c" using row_facts [OF ok row] b c by auto
  have live: "c \<in> live_ids db" unfolding c by (rule mutable_live [OF ok cols row mut])
  obtain i where idx: "board_insert_index (map snd (others db b k c)) (trim (mi_before_card_id input)) (trim (mi_after_card_id input)) = Inr i"
  proof (cases "board_insert_index (map snd (others db b k c)) (trim (mi_before_card_id input)) (trim (mi_after_card_id input))")
    case (Inl e)
    with allocate_error [OF ok _ Inl, of t1] vk(2) k al show ?thesis by simp
  qed (rule that)
  obtain v where alloc: "keys_ok db1" "same_but_ranks db db1"
      "map snd (others db1 b k c) = map snd (others db b k c)"
      "\<forall>b' i. (b' \<noteq> b \<or> i \<notin> snd ` set (others db b k c)) \<longrightarrow> place db1 b' i = place db b' i"
      "rank = format_board_rank v"
      "\<forall>p \<in> set (take i (others db1 b k c)). fst p < rank" "\<forall>p \<in> set (drop i (others db1 b k c)). rank < fst p"
    using allocate_result [OF ok tb _ vk(2) roomy [folded k] few idx, of t1] al k by auto
  let ?ys = "others db1 b k c"
  have e1: "edges_ok db1" using alloc(1) by (simp add: keys_ok_def)
  have db2: "db2 = db1\<lparr>ref_edges := upsert_edge (card_edge b c k rank) (ref_edges db1)\<rparr>"
    using up tb tc alloc(5) k by (simp add: upsert_card_edge)
  have p2: "place db2 b' j = (if b' = b \<and> j = c then Some (k, rank) else place db1 b' j)" for b' j
    unfolding db2 by (rule place_upsert [OF e1 tb tc])
  have ok2: "keys_ok db2" using alloc(1) edges_ok_upsert [OF e1 tb tc] unfolding db2 keys_ok_def by simp
  have live2: "live_ids db2 = live_ids db"
    using same_but_ranks_ids(2) [OF alloc(2)] unfolding db2 by (simp add: live_ids_def)
  have fr: "map c_id (cards db') = map c_id (cards db2)" "live_ids db' = live_ids db2" "ref_edges db' = ref_edges db2"
    using store_moved_frame [OF st] touch_frame [OF to] by (simp_all add: live_ids_def)
  note cong = keys_live_cong [OF fr]
  have ok': "keys_ok db'" using cong(1) ok2 by simp
  have set': "p \<in> column_set db' b' k' \<longleftrightarrow>
      (if b' = b \<and> snd p = c then k' = k \<and> fst p = rank else place db1 b' (snd p) = Some (k', fst p) \<and> snd p \<in> live_ids db)"
    for p b' k' using live by (cases p) (auto simp: column_set_def cong(2) p2 fr(2) live2)
  show thesis
    by (rule that [of db1 i rank]) (use vk(2) ok' alloc set' insert_index_anchored [OF idx] same_but_ranks_ids(2) [OF alloc(2)] in simp_all)
qed

section \<open>What a move leaves alone\<close>

text \<open>A rebalancing gives other cards of the column a new rank, and with it a time and the system as the last writer.\<close>

definition restamped :: "string \<Rightarrow> string set \<Rightarrow> card_row \<Rightarrow> card_row \<Rightarrow> bool" where
  "restamped now I x y \<longleftrightarrow> y = x \<or> c_id x \<in> I \<and> (\<exists>rank. y = restamp now rank x)"

definition other_edges :: "board_db \<Rightarrow> ref_edge list" where
  "other_edges db = filter (\<lambda>e. \<not> is_board_card_edge e) (ref_edges db)"

lemma restamped_trans: "restamped now I x y \<Longrightarrow> restamped now I y z \<Longrightarrow> restamped now I x z"
  by (auto simp: restamped_def restamp_def)

lemma restamped_mono: "restamped now I x y \<Longrightarrow> I \<subseteq> J \<Longrightarrow> restamped now J x y"
  by (auto simp: restamped_def)

lemma restamped_refl: "list_all2 (restamped now I) cs cs"
  by (rule list_all2_refl) (simp add: restamped_def)

lemma upsert_other_edges: "upsert_board_card_ref_edge b i k rank db = Inr db1 \<Longrightarrow> other_edges db1 = other_edges db \<and> cards db1 = cards db"
proof -
  have kept: "filter (\<lambda>e. \<not> is_board_card_edge e) (upsert_edge n es) = filter (\<lambda>e. \<not> is_board_card_edge e) es"
    if n: "is_board_card_edge n" for n es
  proof -
    have "filter (\<lambda>e. \<not> is_board_card_edge e) (map (\<lambda>e. if same_edge n e then e\<lparr>e_metadata := e_metadata n\<rparr> else e) es) =
        filter (\<lambda>e. \<not> is_board_card_edge e) es"
      using n by (induction es) (auto simp: same_edge_def is_board_card_edge_def)
    then show ?thesis using n by (simp add: upsert_edge_def)
  qed
  assume "upsert_board_card_ref_edge b i k rank db = Inr db1"
  then show ?thesis
    by (auto simp: upsert_board_card_ref_edge_def Let_def other_edges_def intro!: kept split: if_splits)
      (simp add: is_board_card_edge_def)
qed

lemma rebalance_rows_frame:
  "rebalance_rows now b k excl n rs db = Inr db' \<Longrightarrow>
     list_all2 (restamped now (set (kept_ids excl rs))) (cards db) (cards db') \<and> other_edges db' = other_edges db"
proof (induction rs arbitrary: n db)
  case Nil
  then show ?case by (simp add: restamped_refl)
next
  case (Cons r rs)
  show ?case
  proof (cases "bc_id r = excl")
    case True
    then show ?thesis using Cons by (simp add: kept_ids_Cons)
  next
    case False
    let ?I = "set (kept_ids excl (r # rs))"
    from Cons.prems False obtain db1 where up: "upsert_board_card_ref_edge b (bc_id r) k (format_board_rank n) db = Inr db1"
      and rest: "rebalance_rows now b k excl (n + board_rank_step) rs (update_card (bc_id r) (restamp now (format_board_rank n)) db1) = Inr db'"
      by (auto simp: res_iffs restamp_def [abs_def])
    let ?db2 = "update_card (bc_id r) (restamp now (format_board_rank n)) db1"
    have one: "list_all2 (restamped now ?I) (cards db) (cards ?db2)"
      using upsert_other_edges [OF up] False
      by (auto simp: update_card_def list_all2_conv_all_nth restamped_def kept_ids_Cons)
    have "list_all2 (restamped now ?I) (cards ?db2) (cards db')"
      using Cons.IH [OF rest] False by (auto simp: kept_ids_Cons elim!: list_all2_mono restamped_mono)
    then have "list_all2 (restamped now ?I) (cards db) (cards db')"
      using list_all2_trans [of "restamped now ?I" "restamped now ?I" "restamped now ?I"] restamped_trans one by blast
    moreover have "other_edges db' = other_edges db"
      using Cons.IH [OF rest] upsert_other_edges [OF up] by (simp add: update_card_def other_edges_def)
    ultimately show ?thesis by blast
  qed
qed

lemma rebalance_rows_same: "rebalance_rows now b k c n rs db = Inr db1 \<Longrightarrow> same_but_ranks db db1"
proof (induction rs arbitrary: n db)
  case (Cons r rs)
  show ?case
  proof (cases "bc_id r = c")
    case True
    with Cons show ?thesis by simp
  next
    case False
    with Cons.prems obtain d where
      d: "upsert_board_card_ref_edge b (bc_id r) k (format_board_rank n) db = Inr d"
         "rebalance_rows now b k c (n + board_rank_step) rs (update_card (bc_id r) (restamp now (format_board_rank n)) d) = Inr db1"
      by (auto simp: res_iffs restamp_def [abs_def])
    then obtain es where "d = db\<lparr>ref_edges := es\<rparr>"
      by (auto simp: upsert_board_card_ref_edge_def Let_def split: if_splits)
    with d(2) Cons.IH same_but_ranks_restamp same_but_ranks_trans show ?thesis by metis
  qed
qed (simp add: same_but_ranks_refl)

lemma allocate_same: "allocate_board_card_rank now b k x y c db = Inr (rank, db1) \<Longrightarrow> same_but_ranks db db1"
  by (auto simp: allocate_board_card_rank_def Let_def res_iffs same_but_ranks_refl rebalance_board_column_ranks_def
      dest: rebalance_rows_same split: option.splits)

lemma allocate_frame:
  assumes "allocate_board_card_rank now b k x y c db = Inr (rank, db1)" "keys_ok db"
  shows "list_all2 (restamped now (set (map snd (others db b k c)))) (cards db) (cards db1) \<and> other_edges db1 = other_edges db"
proof -
  from assms(1) consider "db1 = db" | "rebalance_board_column_ranks now b k c db = Inr db1"
    by (auto simp: allocate_board_card_rank_def Let_def res_iffs split: option.splits)
  then show ?thesis
  proof cases
    case 1
    then show ?thesis by (simp add: restamped_refl)
  next
    case 2
    then show ?thesis using rebalance_rows_frame kept_ids_others [OF assms(2)] unfolding rebalance_board_column_ranks_def by metis
  qed
qed

text \<open>The card moves; of the others of its column at most the rank changes; the board gets a new version; all else stays.\<close>

definition move_changes_only ::
  "string \<Rightarrow> string \<Rightarrow> string \<Rightarrow> string \<Rightarrow> string \<Rightarrow> board_row \<Rightarrow> board_card \<Rightarrow> string \<Rightarrow> string list \<Rightarrow> board_db \<Rightarrow> board_db \<Rightarrow> bool" where
  "move_changes_only t1 t2 t3 actorID b brow r k ids db db' \<longleftrightarrow>
     list_all2 (\<lambda>x y. if c_id x = bc_id r then y = x \<or> (\<exists>rank resolution refs. y = moved_card t2 actorID b r k rank resolution refs x)
         else restamped t1 (set ids) x y) (cards db) (cards db') \<and>
     boards db' = map (\<lambda>x. if b_id x = b_id brow then x\<lparr>b_updated_at := t3, b_updated_by := actorID\<rparr> else x) (boards db) \<and>
     other_edges db' = other_edges db \<and> card_revisions db' = card_revisions db \<and> artifacts db' = artifacts db \<and>
     ledger db' = ledger db \<and> blob_objects db' = blob_objects db"

lemma store_moved_result:
  assumes "store_moved_card t a b r k rank res db = Inr (r1, db3)"
  obtains "db3 = db" | resolution refs where "db3 = update_card (bc_id r) (moved_card t a b r k rank resolution refs) db"
  using assms by (auto simp: store_moved_card_def Let_def res_iffs split: prod.splits if_splits)

lemma move_frame:
  assumes ok: "keys_ok db" and located: "locate_for_move boardID0 identifier (mi_if_board_updated_at input) db = Inr (b, brow, r)"
    and moved: "move_board_card t1 t2 t3 actorID boardID0 identifier input db = Inr (b1, r1, db')"
  shows "move_changes_only t1 t2 t3 actorID b brow r (trim (mi_column_key input))
    (map snd (others db b (trim (mi_column_key input)) (bc_id r))) db db'"
proof -
  let ?k = "trim (mi_column_key input)" and ?c = "bc_id r"
  let ?ids = "map snd (others db b ?k ?c)"
  obtain bb brow' rr rank db1 res db2 db3 where
    loc: "locate_for_move boardID0 identifier (mi_if_board_updated_at input) db = Inr (bb, brow', rr)" and
    al: "allocate_board_card_rank t1 bb ?k (trim (mi_before_card_id input)) (trim (mi_after_card_id input)) (bc_id rr) db = Inr (rank, db1)" and
    up: "upsert_board_card_ref_edge bb (bc_id rr) ?k rank db1 = Inr db2" and
    st: "store_moved_card t2 actorID bb rr ?k rank res db2 = Inr (r1, db3)" and
    to: "touch_board_row t3 actorID brow' db3 = (b1, db')"
    by (rule move_steps [OF moved]) (rule that)
  have same: "bb = b" "brow' = brow" "rr = r" using loc located by simp_all
  note al = al [unfolded same] and up = up [unfolded same] and st = st [unfolded same] and to = to [unfolded same]
  note frame = allocate_frame [OF al ok]
  have tables: "boards db3 = boards db \<and> card_revisions db3 = card_revisions db \<and> artifacts db3 = artifacts db \<and> ledger db3 = ledger db \<and>
      blob_objects db3 = blob_objects db"
    using allocate_same [OF al] up st
    by (auto simp: same_but_ranks_def upsert_board_card_ref_edge_def Let_def update_card_def split: if_splits elim!: store_moved_result)
  have edges: "other_edges db3 = other_edges db"
    using st frame upsert_other_edges [OF up] by (auto simp: update_card_def other_edges_def elim!: store_moved_result)
  have c: "?c \<notin> set ?ids" "\<And>p. (p, ?c) \<notin> set (others db b ?k ?c)" by (auto simp: others_props [OF ok])
  have id: "c_id y = c_id x" if "restamped t1 I x y" for I x y using that by (auto simp: restamped_def restamp_def)
  have cards: "list_all2 (\<lambda>x y. if c_id x = ?c then y = x \<or> (\<exists>rank resolution refs. y = moved_card t2 actorID b r ?k rank resolution refs x)
      else restamped t1 (set ?ids) x y) (cards db) (cards db3)"
    using st
  proof (cases rule: store_moved_result)
    case 1
    have "list_all2 (restamped t1 (set ?ids)) (cards db) (cards db3)" using frame upsert_other_edges [OF up] 1 by simp
    then show ?thesis by (rule list_all2_mono) (use c in \<open>auto simp: restamped_def\<close>)
  next
    case (2 resolution refs)
    have "cards db3 = map (\<lambda>x. if c_id x = ?c then moved_card t2 actorID b r ?k rank resolution refs x else x) (cards db1)"
      using 2 upsert_other_edges [OF up] by (simp add: update_card_def)
    moreover have "list_all2 (restamped t1 (set ?ids)) (cards db) (cards db1)" using frame by simp
    ultimately show ?thesis
      using c by (simp add: list_all2_map2) (erule list_all2_mono, auto simp: restamped_def restamp_def, blast)
  qed
  show ?thesis unfolding move_changes_only_def touch_frame(1) [OF to]
    by (intro conjI cards) (use tables edges to in \<open>auto simp: touch_board_row_def update_board_def other_edges_def\<close>)
qed

text \<open>
  C1. A successful move puts the card at the position its anchors ask for, among the other live cards of
  the target column, which keep their order; it leaves every other column of the board (but for
  the card itself) and every other board as they were.  Of the other cards of the target column at most the rank
  changes, with the time and the writer that a rebalancing leaves; every other card keeps its row.  The moved card keeps all but its
  place, its resolution, its thread (filled in from its parent) and its last update, its board all but its last update, and every other
  board, edge and table stays as it was.
\<close>

theorem move_places_card:
  assumes ok: "keys_ok db" and cols: "cards_ok db" and few: "length (cards db) < 10 ^ 15"
    and board: "trim boardID0 = boardID0"
    and located: "locate_for_move boardID0 identifier (mi_if_board_updated_at input) db = Inr (b, brow, r)"
    and roomy: "\<And>p. p \<in> column_set db b (trim (mi_column_key input)) \<Longrightarrow> roomy_rank (fst p)"
    and moved: "move_board_card t1 t2 t3 actorID boardID0 identifier input db = Inr (b1, r1, db')"
  shows "let k = trim (mi_column_key input); c = bc_id r; ids = filter (\<lambda>i. i \<noteq> c) (column_ids db b k)
         in (\<exists>i. anchored_at ids (trim (mi_before_card_id input)) (trim (mi_after_card_id input)) i \<and>
                 column_ids db' b k = take i ids @ c # drop i ids) \<and>
            (\<forall>k'. trim k' \<noteq> [] \<and> k' \<noteq> k \<longrightarrow> column_ids db' b k' = filter (\<lambda>i. i \<noteq> c) (column_ids db b k')) \<and>
            (\<forall>b' k'. trim k' \<noteq> [] \<and> b' \<noteq> b \<longrightarrow> column_ids db' b' k' = column_ids db b' k') \<and>
            move_changes_only t1 t2 t3 actorID b brow r k ids db db'"
proof -
  let ?k = "trim (mi_column_key input)"
  let ?c = "bc_id r"
  obtain i rank db1 where k: "?k \<noteq> []" and ok': "keys_ok db'" and ok1: "keys_ok db1" and live1: "live_ids db1 = live_ids db"
    and at: "anchored_at (map snd (others db1 b ?k ?c)) (trim (mi_before_card_id input)) (trim (mi_after_card_id input)) i"
    and ids: "map snd (others db1 b ?k ?c) = map snd (others db b ?k ?c)"
    and frame: "\<forall>b' i. (b' \<noteq> b \<or> i \<notin> snd ` set (others db b ?k ?c)) \<longrightarrow> place db1 b' i = place db b' i"
    and ranks: "\<forall>p \<in> set (take i (others db1 b ?k ?c)). fst p < rank" "\<forall>p \<in> set (drop i (others db1 b ?k ?c)). rank < fst p"
    and places: "\<forall>p b' k'. p \<in> column_set db' b' k' \<longleftrightarrow>
       (if b' = b \<and> snd p = ?c then k' = ?k \<and> fst p = rank else place db1 b' (snd p) = Some (k', fst p) \<and> snd p \<in> live_ids db)"
    by (rule move_effect [OF ok cols few board located roomy moved refl refl]) (assumption, rule that)
  note set' = places [rule_format]
  let ?ys = "others db1 b ?k ?c"
  have target: "column_set db' b ?k = insert (rank, ?c) (set ?ys)"
  proof (rule set_eqI)
    fix p :: "string \<times> string"
    show "p \<in> column_set db' b ?k \<longleftrightarrow> p \<in> insert (rank, ?c) (set ?ys)"
      unfolding set' others_props [OF ok1]
      by (cases p) (auto simp: column_set_def live1)
  qed
  have ids': "column_ids db' b ?k = take i (map snd ?ys) @ ?c # drop i (map snd ?ys)"
    unfolding column_ids_set [OF ok', of ?k b, simplified, OF k] target
    using sorted_insert_at [OF others_props(1,2) [OF ok1], of i b ?k ?c rank ?c] ranks
    by (simp add: take_map drop_map)
  have kt: "trim ?k \<noteq> []" using k by simp
  have part1: "\<exists>i. anchored_at (map snd ?ys) (trim (mi_before_card_id input)) (trim (mi_after_card_id input)) i \<and>
      column_ids db' b ?k = take i (map snd ?ys) @ ?c # drop i (map snd ?ys)"
    using ids' at by (intro exI [of _ i]) simp
  have in_ids: "j \<in> snd ` set (others db b ?k ?c) \<Longrightarrow> \<exists>x y. place db b j = Some (?k, x) \<and> place db1 b j = Some (?k, y)" for j
  proof -
    assume j: "j \<in> snd ` set (others db b ?k ?c)"
    then have "j \<in> snd ` set ?ys" using ids by (metis set_map)
    with j show ?thesis by (auto simp: others_props [OF ok] others_props [OF ok1] column_set_def)
  qed
  have part2: "column_ids db' b k' = filter (\<lambda>i. i \<noteq> ?c) (column_ids db b k')" if k': "trim k' \<noteq> []" "k' \<noteq> ?k" for k'
  proof -
    have "column_set db' b k' = {p \<in> column_set db b k'. snd p \<noteq> ?c}"
    proof (rule set_eqI)
      fix p :: "string \<times> string"
      have "place db1 b (snd p) = Some (k', fst p) \<longleftrightarrow> place db b (snd p) = Some (k', fst p)"
        using in_ids [of "snd p"] frame k'(2) by (cases "snd p \<in> snd ` set (others db b ?k ?c)") auto
      with k'(2) show "p \<in> column_set db' b k' \<longleftrightarrow> p \<in> {p \<in> column_set db b k'. snd p \<noteq> ?c}"
        unfolding set' by (cases p) (auto simp: column_set_def)
    qed
    then show ?thesis
      by (simp add: column_ids_set [OF ok' k'(1)] others_sorted_list [OF ok] other_ids [OF ok k'(1)])
  qed
  have part3: "column_ids db' b' k' = column_ids db b' k'" if k': "trim k' \<noteq> []" "b' \<noteq> b" for b' k'
  proof -
    have "column_set db' b' k' = column_set db b' k'"
    proof (rule set_eqI)
      fix p :: "string \<times> string"
      have "place db1 b' (snd p) = place db b' (snd p)" using k'(2) frame by blast
      with k'(2) show "p \<in> column_set db' b' k' \<longleftrightarrow> p \<in> column_set db b' k'"
        unfolding set' by (cases p) (simp add: column_set_def)
    qed
    then show ?thesis by (simp add: column_ids_set [OF ok' k'(1)] column_ids_set [OF ok k'(1)])
  qed
  show ?thesis
    using part1 part2 part3 move_frame [OF ok located moved] unfolding Let_def ids other_ids [OF ok kt] by blast
qed

section \<open>A sample board\<close>

definition sample_board :: board_row where
  "sample_board =
     \<lparr>b_id = ''b1'', b_handle = Some ''plans'', b_title = ''Plans'', b_summary = [], b_owners = [], b_thread_id = ''t1'',
      b_refs = [], b_column_schema = [], b_created_at = ''2026-01-01T00:00:00Z'', b_created_by = ''ann'',
      b_updated_at = ''2026-01-01T00:00:00Z'', b_updated_by = ''ann'', b_archived_at = None, b_archived_by = None,
      b_trashed_at = None, b_trashed_by = None, b_trash_reason = None\<rparr>"

definition sample_card :: "string \<Rightarrow> string \<Rightarrow> string \<Rightarrow> card_row" where
  "sample_card i k rank =
     \<lparr>c_id = i, c_handle = None, c_board_id = ''b1'', c_column_key = k, c_rank = rank, c_title = i, c_summary = [],
      c_version = 1, c_head_revision_id = None, c_head_revision_number = 1, c_thread_id = Some (''t-'' @ i),
      c_parent_thread_id = None, c_due_at = None, c_definition_of_done = [], c_pinned_document_id = None,
      c_assignee = None, c_risk = ''low'', c_resolution = None, c_resolution_refs = [], c_refs = [],
      c_created_at = ''2026-01-01T00:00:00Z'', c_created_by = ''ann'', c_updated_at = ''2026-01-01T00:00:00Z'',
      c_updated_by = ''ann'', c_archived_at = None, c_archived_by = None, c_trashed_at = None, c_trashed_by = None,
      c_trash_reason = None\<rparr>"

definition sample_cards :: "(string \<times> string \<times> string) list" where
  "sample_cards = [(''x'', ''backlog'', ''0000000000000000001''), (''y'', ''backlog'', ''0000000000000000002''),
                   (''z'', ''ready'', ''0000000000000001024'')]"

definition sample_db :: board_db where
  "sample_db =
     \<lparr>boards = [sample_board],
      cards = map (\<lambda>(i, k, rank). sample_card i k rank) sample_cards,
      ref_edges = map (\<lambda>(i, k, rank). card_edge ''b1'' i k rank) sample_cards,
      card_revisions = [], artifacts = [],
      ledger = \<lparr>entries = [], totals = None\<rparr>, blob_objects = []\<rparr>"

definition sample_move :: "string \<Rightarrow> string \<Rightarrow> move_input" where
  "sample_move k before =
     \<lparr>mi_column_key = k, mi_before_card_id = before, mi_after_card_id = [], mi_resolution = None,
      mi_resolution_refs = None, mi_if_board_updated_at = None\<rparr>"

lemmas sample_defs = sample_db_def sample_cards_def sample_card_def sample_board_def

lemma sample_ok: "keys_ok sample_db" "cards_ok sample_db" "length (cards sample_db) < 10 ^ 15"
proof -
  have t: "trim ''b1'' = ''b1''" "trim ''x'' = ''x''" "trim ''y'' = ''y''" "trim ''z'' = ''z''"
    by code_simp+
  show "keys_ok sample_db"
    by (simp add: keys_ok_def edges_ok_def sample_defs edge_key_def t trimmed_id_def card_edge_def)
  show "cards_ok sample_db" "length (cards sample_db) < 10 ^ 15"
    by (simp_all add: cards_ok_def sample_defs)
qed

lemma sample_ranks:
  "''0000000000000000001'' = format_board_rank 1" "''0000000000000000002'' = format_board_rank 2"
  "''0000000000000001024'' = format_board_rank 1024"
  by code_simp+

lemma sample_roomy: "p \<in> column_set sample_db b k \<Longrightarrow> roomy_rank (fst p)"
proof -
  assume "p \<in> column_set sample_db b k"
  then have "place sample_db b (snd p) = Some (k, fst p)" by (auto simp: column_set_def)
  then obtain e where "e \<in> set (ref_edges sample_db)" "edge_rank e = fst p"
    using place_iff [of sample_db] sample_ok(1) by (auto simp: keys_ok_def)
  then have "\<exists>v \<in> {1, 2, 1024}. fst p = format_board_rank v"
    by (auto simp: sample_db_def sample_cards_def sample_ranks)
  then obtain v :: u64 where v: "fst p = format_board_rank v" "v \<in> {1, 2, 1024}" by blast
  then have "unat v + 1024 < 10 ^ 19" by auto
  with v(1) show ?thesis by (auto simp: roomy_rank_def)
qed

lemma sample_moved:
  "\<exists>b1 r1 db'. move_board_card ''1'' ''2'' ''3'' ''ann'' ''b1'' ''z'' (sample_move ''backlog'' ''y'') sample_db
     = Inr (b1, r1, db')"
  by (intro exI, code_simp)

lemma move_places_card_witness:
  "\<exists>b1 r1 db'. move_board_card ''1'' ''2'' ''3'' ''ann'' ''b1'' ''z'' (sample_move ''backlog'' ''y'') sample_db
       = Inr (b1, r1, db') \<and> column_ids db' ''b1'' ''backlog'' = [''x'', ''z'', ''y'']"
proof -
  obtain b1 r1 db' where moved: "move_board_card ''1'' ''2'' ''3'' ''ann'' ''b1'' ''z''
      (sample_move ''backlog'' ''y'') sample_db = Inr (b1, r1, db')" using sample_moved by blast
  have board: "trim ''b1'' = ''b1''" and k: "trim ''backlog'' = ''backlog''" and y: "trim ''y'' = ''y''" by code_simp+
  let ?r = "join_board_card sample_db (card_edge ''b1'' ''z'' ''ready'' ''0000000000000001024'')
    (sample_card ''z'' ''ready'' ''0000000000000001024'')"
  have loc: "locate_for_move ''b1'' ''z'' (mi_if_board_updated_at (sample_move ''backlog'' ''y'')) sample_db
      = Inr (''b1'', sample_board, ?r)" by code_simp
  have ids: "column_ids sample_db ''b1'' ''backlog'' = [''x'', ''y'']" by code_simp
  have roomy: "\<And>p. p \<in> column_set sample_db ''b1'' (trim (mi_column_key (sample_move ''backlog'' ''y''))) \<Longrightarrow> roomy_rank (fst p)"
    by (rule sample_roomy)
  from move_places_card [OF sample_ok board loc roomy moved]
  obtain j where j: "anchored_at [''x'', ''y''] ''y'' [] j" "column_ids db' ''b1'' ''backlog'' = take j [''x'', ''y''] @ ''z'' # drop j [''x'', ''y'']"
    by (auto simp: sample_move_def k y ids sample_card_def Let_def)
  then have "j = 1" by (auto simp: anchored_at_def nth_Cons split: nat.splits)
  with j(2) moved show ?thesis by auto
qed

section \<open>Allocation never runs out of ranks\<close>

text \<open>
  C14. With fewer than \<open>10^15\<close> cards and ranks of at most 19 digits, a column always has a rank
  for a new card: an anchor that is not in the column is the only reason to refuse one.
\<close>

theorem rank_never_exhausted:
  assumes "keys_ok db" "trimmed_id b" "trim k = k" "k \<noteq> []" "length (cards db) < 10 ^ 15"
    and "\<And>p. p \<in> column_set db b k \<Longrightarrow> roomy_rank (fst p)"
  shows "(\<exists>e. board_insert_index (filter (\<lambda>i. i \<noteq> c) (column_ids db b k)) before after = Inl e \<and>
              allocate_board_card_rank now b k before after c db = Inl (anchor_request_error e)) \<or>
         (\<exists>i v db1. anchored_at (filter (\<lambda>i. i \<noteq> c) (column_ids db b k)) (trim before) (trim after) i \<and>
              allocate_board_card_rank now b k before after c db = Inr (format_board_rank v, db1))"
proof -
  have k: "trim k \<noteq> []" using assms(3,4) by simp
  note ids = other_ids [OF assms(1) k, of b c, symmetric]
  show ?thesis
  proof (cases "board_insert_index (map snd (others db b k c)) before after")
    case (Inl e)
    then show ?thesis using allocate_error [OF assms(1) k Inl] unfolding ids by blast
  next
    case (Inr i)
    from allocate_result [OF assms(1-4) assms(6,5) Inr] obtain v db1 where
      "allocate_board_card_rank now b k before after c db = Inr (format_board_rank v, db1)" by blast
    then show ?thesis using insert_index_anchored [OF Inr] unfolding ids by blast
  qed
qed

lemma rank_never_exhausted_witness:
  "\<exists>i v db1. anchored_at [''x'', ''y''] ''y'' [] i \<and>
     allocate_board_card_rank ''1'' ''b1'' ''backlog'' ''y'' [] ''z'' sample_db = Inr (format_board_rank v, db1)"
proof -
  have b: "trimmed_id ''b1''" and k: "trim ''backlog'' = ''backlog''" "trim ''y'' = ''y''" by code_simp+
  have ids: "filter (\<lambda>i. i \<noteq> ''z'') (column_ids sample_db ''b1'' ''backlog'') = [''x'', ''y'']" by code_simp
  have idx: "board_insert_index [''x'', ''y''] ''y'' [] = Inr 1" by code_simp
  have roomy: "\<And>p. p \<in> column_set sample_db ''b1'' ''backlog'' \<Longrightarrow> roomy_rank (fst p)" by (rule sample_roomy)
  show ?thesis
    using rank_never_exhausted [OF sample_ok(1) b k(1) _ sample_ok(3) roomy, of "''z''" "''y''" "[]" "''1''"]
    by (simp add: ids idx k)
qed

section \<open>Resolution follows the column\<close>

lemma same_but_ranks_card:
  assumes "same_but_ranks db db1" "c \<in> set (cards db)"
  shows "\<exists>c1 \<in> set (cards db1). card_core c1 = card_core c"
proof -
  have "card_core c \<in> set (map card_core (cards db1))" using assms by (simp add: same_but_ranks_def)
  then show ?thesis by auto
qed

definition stored_resolution :: "card_row \<Rightarrow> string" where
  "stored_resolution c = canonicalize_stored_card_resolution (null_text (c_resolution c))"

definition evidence_refs :: "string list \<Rightarrow> bool" where
  "evidence_refs refs \<longleftrightarrow> contains_typed_ref_prefix refs ''artifact'' \<or> contains_typed_ref_prefix refs ''event''"

lemma check_resolution_refs_ok: "check_resolution_refs given = Inr refs \<Longrightarrow> evidence_refs refs"
  by (auto simp: check_resolution_refs_def evidence_refs_def Let_def split: option.splits if_splits)

lemma done_resolution: "validate_card_resolution nxt False \<Longrightarrow> trim nxt = nxt \<Longrightarrow> nxt = ''done''"
  by (simp add: validate_card_resolution_def)

lemma resolution_outcome:
  assumes "resolve_board_card_move_resolution r k input = Inr (res, refs, upd)" "trim k = k"
  shows "k \<noteq> ''done'' \<Longrightarrow> res = [] \<and> refs = []"
    "k \<noteq> ''done'' \<Longrightarrow> \<not> upd \<Longrightarrow> stored_resolution (bc_card r) = [] \<and> c_resolution_refs (bc_card r) = []"
    "k = ''done'' \<Longrightarrow> upd \<Longrightarrow> res = ''done'' \<and> evidence_refs refs"
    "k = ''done'' \<Longrightarrow> \<not> upd \<Longrightarrow> stored_resolution (bc_card r) \<noteq> [] \<and> trim (bc_column_key r) = ''done''"
  using assms
  by (auto simp: resolve_board_card_move_resolution_def Let_def stored_resolution_def res_iffs
      dest: check_resolution_refs_ok done_resolution split: option.splits if_splits)

lemma nullable_done [simp]: "nullable_string ''done'' = Some ''done''" "nullable_string [] = None"
  "trim ''done'' = ''done''"
  by code_simp+

lemma canonical_done [simp]: "canonicalize_stored_card_resolution ''done'' = ''done''"
  "canonicalize_stored_card_resolution [] = []"
  by code_simp+

text \<open>
  After a successful move the card's resolution agrees with its column: outside \<open>done\<close> it has no
  resolution and no resolution refs; in \<open>done\<close> it has one, and a card that came from another
  column is resolved \<open>done\<close> with an artifact or event among its refs.
\<close>

theorem move_resolution_agrees:
  assumes ok: "keys_ok db" and board: "trim boardID0 = boardID0"
    and located: "locate_for_move boardID0 identifier (mi_if_board_updated_at input) db = Inr (b, brow, r)"
    and moved: "move_board_card t1 t2 t3 actorID boardID0 identifier input db = Inr (b1, r1, db')"
  shows "\<exists>c \<in> set (cards db'). c_id c = bc_id r \<and>
     (if trim (mi_column_key input) = ''done''
      then stored_resolution c \<noteq> [] \<and>
           (trim (bc_column_key r) \<noteq> ''done'' \<longrightarrow> c_resolution c = Some ''done'' \<and> evidence_refs (c_resolution_refs c))
      else stored_resolution c = [] \<and> c_resolution_refs c = [])"
proof -
  let ?k = "trim (mi_column_key input)"
  obtain bb brow' rr rank db1 res db2 db3 where
    loc: "locate_for_move boardID0 identifier (mi_if_board_updated_at input) db = Inr (bb, brow', rr)" and
    steps: "allocate_board_card_rank t1 bb ?k (trim (mi_before_card_id input)) (trim (mi_after_card_id input)) (bc_id rr) db
         = Inr (rank, db1)"
      "resolve_board_card_move_resolution rr ?k input = Inr res"
      "upsert_board_card_ref_edge bb (bc_id rr) ?k rank db1 = Inr db2"
      "store_moved_card t2 actorID bb rr ?k rank res db2 = Inr (r1, db3)"
      "touch_board_row t3 actorID brow' db3 = (b1, db')"
    by (rule move_steps [OF moved])
  have same: "bb = b" "brow' = brow" "rr = r" using loc located by simp_all
  note steps = steps [unfolded same]
  have row: "r \<in> set (board_card_rows db)" using located_row [OF located board] by auto
  obtain c1 where c1: "c1 \<in> set (cards db1)" "card_core c1 = card_core (bc_card r)"
    using same_but_ranks_card [OF allocate_same [OF steps(1)] row_facts(3) [OF ok row]] by blast
  have eq: "c_id c1 = bc_id r" "c_resolution c1 = c_resolution (bc_card r)"
    "c_resolution_refs c1 = c_resolution_refs (bc_card r)"
    using card_core_fields [OF c1(2)] by (simp_all add: bc_id_def)
  have cs: "cards db2 = cards db1" "cards db' = cards db3"
    using steps(3) touch_frame(1) [OF steps(5)] by (auto simp: upsert_board_card_ref_edge_def Let_def split: if_splits)
  obtain reso refs upd where res: "res = (reso, refs, upd)" by (cases res)
  note out = resolution_outcome [OF steps(2) [unfolded res], simplified]
  show ?thesis
  proof (cases upd)
    case True
    let ?c = "moved_card t2 actorID b r ?k rank reso refs c1"
    have "?c \<in> set (cards db3)"
      using steps(4) True c1(1) eq(1) cs(1) by (auto simp: store_moved_card_def res res_iffs update_card_def Let_def)
    with True out eq show ?thesis unfolding cs(2)
      by (intro bexI [of _ ?c]) (auto simp: stored_resolution_def null_text_def moved_card_def)
  next
    case False
    then have "c1 \<in> set (cards db3)"
      using steps(4) c1(1) cs(1) by (auto simp: store_moved_card_def res)
    with False out eq show ?thesis unfolding cs(2)
      by (intro bexI [of _ c1]) (auto simp: stored_resolution_def)
  qed
qed

lemma move_resolution_agrees_witness:
  "\<exists>b1 r1 db'. move_board_card ''1'' ''2'' ''3'' ''ann'' ''b1'' ''z'' (sample_move ''backlog'' ''y'') sample_db
       = Inr (b1, r1, db') \<and> (\<exists>c \<in> set (cards db'). c_id c = ''z'' \<and> stored_resolution c = [])"
proof -
  obtain b1 r1 db' where moved: "move_board_card ''1'' ''2'' ''3'' ''ann'' ''b1'' ''z''
      (sample_move ''backlog'' ''y'') sample_db = Inr (b1, r1, db')" using sample_moved by blast
  have board: "trim ''b1'' = ''b1''" and k: "trim ''backlog'' = ''backlog''" by code_simp+
  have loc: "locate_for_move ''b1'' ''z'' (mi_if_board_updated_at (sample_move ''backlog'' ''y'')) sample_db
      = Inr (''b1'', sample_board, join_board_card sample_db (card_edge ''b1'' ''z'' ''ready'' ''0000000000000001024'')
          (sample_card ''z'' ''ready'' ''0000000000000001024''))" by code_simp
  from move_resolution_agrees [OF sample_ok(1) board loc moved] moved show ?thesis
    by (auto simp: sample_move_def k sample_card_def)
qed

section \<open>The card's own column\<close>

lemma same_but_ranks_columns:
  assumes "same_but_ranks db db1"
  shows "map (\<lambda>c. (c_id c, c_column_key c)) (cards db1) = map (\<lambda>c. (c_id c, c_column_key c)) (cards db)"
proof -
  have "map (\<lambda>c. (c_id c, c_column_key c)) (map card_core (cards db1)) =
        map (\<lambda>c. (c_id c, c_column_key c)) (map card_core (cards db))"
    using assms by (simp add: same_but_ranks_def)
  then show ?thesis by (simp add: comp_def card_core_def)
qed

text \<open>
  A move that leaves the resolution alone changes only the edge: the \<open>column_key\<close> columns of the cards
  themselves stay, and those are what \<open>ListCards\<close> reports, so it shows the old column.
\<close>

theorem plain_move_keeps_listed_column:
  assumes moved: "move_board_card t1 t2 t3 actorID boardID0 identifier input db = Inr (b1, r1, db')"
    and located: "locate_for_move boardID0 identifier (mi_if_board_updated_at input) db = Inr (b, brow, r)"
    and plain: "resolve_board_card_move_resolution r (trim (mi_column_key input)) input = Inr (reso, refs, False)"
  shows "map (\<lambda>c. (c_id c, c_column_key c)) (cards db') = map (\<lambda>c. (c_id c, c_column_key c)) (cards db)"
proof -
  let ?k = "trim (mi_column_key input)"
  obtain bb brow' rr rank db1 res db2 db3 where
    loc: "locate_for_move boardID0 identifier (mi_if_board_updated_at input) db = Inr (bb, brow', rr)" and
    steps: "allocate_board_card_rank t1 bb ?k (trim (mi_before_card_id input)) (trim (mi_after_card_id input)) (bc_id rr) db
         = Inr (rank, db1)"
      "resolve_board_card_move_resolution rr ?k input = Inr res"
      "upsert_board_card_ref_edge bb (bc_id rr) ?k rank db1 = Inr db2"
      "store_moved_card t2 actorID bb rr ?k rank res db2 = Inr (r1, db3)"
      "touch_board_row t3 actorID brow' db3 = (b1, db')"
    by (rule move_steps [OF moved])
  have "rr = r" using loc located by simp
  with steps(2) plain have "res = (reso, refs, False)" by simp
  with steps(4) have "db3 = db2" by (simp add: store_moved_card_def)
  moreover have "cards db2 = cards db1"
    using steps(3) by (auto simp: upsert_board_card_ref_edge_def Let_def split: if_splits)
  ultimately have "cards db' = cards db1" using touch_frame(1) [OF steps(5)] by simp
  then show ?thesis using same_but_ranks_columns [OF allocate_same [OF steps(1)]] by simp
qed

lemma plain_move_keeps_listed_column_witness:
  "\<exists>b1 r1 db'. move_board_card ''1'' ''2'' ''3'' ''ann'' ''b1'' ''z'' (sample_move ''backlog'' ''y'') sample_db
       = Inr (b1, r1, db') \<and> (''z'', ''ready'') \<in> set (map (\<lambda>c. (c_id c, c_column_key c)) (cards db'))"
proof -
  obtain b1 r1 db' where moved: "move_board_card ''1'' ''2'' ''3'' ''ann'' ''b1'' ''z''
      (sample_move ''backlog'' ''y'') sample_db = Inr (b1, r1, db')" using sample_moved by blast
  let ?r = "join_board_card sample_db (card_edge ''b1'' ''z'' ''ready'' ''0000000000000001024'')
          (sample_card ''z'' ''ready'' ''0000000000000001024'')"
  have loc: "locate_for_move ''b1'' ''z'' (mi_if_board_updated_at (sample_move ''backlog'' ''y'')) sample_db
      = Inr (''b1'', sample_board, ?r)" by code_simp
  have plain: "resolve_board_card_move_resolution ?r (trim (mi_column_key (sample_move ''backlog'' ''y'')))
      (sample_move ''backlog'' ''y'') = Inr ([], [], False)" by code_simp
  have "(''z'', ''ready'') \<in> set (map (\<lambda>c. (c_id c, c_column_key c)) (cards sample_db))" by code_simp
  then have "(''z'', ''ready'') \<in> set (map (\<lambda>c. (c_id c, c_column_key c)) (cards db'))"
    by (simp only: plain_move_keeps_listed_column [OF moved loc plain])
  with moved show ?thesis by blast
qed

end
