(* ===== verification/BoardLifecycle.thy ===== *)
theory BoardLifecycle
  imports BoardMove
begin

text \<open>
  The lifecycle of boards and of their cards (\<open>boards_store.go\<close>): archive, trash, restore and purge.
  Both tables provide the \<open>soft_delete\<close> contract of the theory \<open>Lifecycle\<close>.  The properties follow
  a card through any sequence of operations: it is in one lane, restore undoes an archive or
  a trash, a purge takes exactly one discarded card, and a stale board version stops every operation.
\<close>

section \<open>Boards\<close>

definition archive_board_row :: "string \<Rightarrow> string \<Rightarrow> board_row \<Rightarrow> board_row" where
  "archive_board_row now actorID b = b\<lparr>b_archived_at := Some now, b_archived_by := Some actorID\<rparr>"

definition unarchive_board_row :: "board_row \<Rightarrow> board_row" where
  "unarchive_board_row b = b\<lparr>b_archived_at := None, b_archived_by := None\<rparr>"

definition trash_board_row :: "string \<Rightarrow> string \<Rightarrow> string \<Rightarrow> board_row \<Rightarrow> board_row" where
  "trash_board_row now actorID reason b =
     b\<lparr>b_trashed_at := Some now, b_trashed_by := Some actorID, b_trash_reason := Some reason,
       b_archived_at := None, b_archived_by := None\<rparr>"

definition untrash_board_row :: "board_row \<Rightarrow> board_row" where
  "untrash_board_row b = b\<lparr>b_trashed_at := None, b_trashed_by := None, b_trash_reason := None\<rparr>"

text \<open>The opening the four share: an actor, a board id, the board.\<close>

definition open_board :: "string \<Rightarrow> string \<Rightarrow> board_db \<Rightarrow> board_error + board_row" where
  "open_board actorID boardID db =
     bind_res (guard_res (trim actorID \<noteq> []) (InvalidBoardRequest ''actorID is required'')) (\<lambda>_.
     bind_res (guard_res (trim boardID \<noteq> []) (InvalidBoardRequest ''board_id is required'')) (\<lambda>_.
     load_board_row boardID db))"

definition write_board :: "string \<Rightarrow> (board_row \<Rightarrow> board_row) \<Rightarrow> board_db \<Rightarrow> board_error + board_row \<times> board_db" where
  "write_board boardID f db =
     (let db1 = update_board (trim boardID) f db
      in bind_res (load_board_row boardID db1) (\<lambda>b1. Inr (b1, db1)))"

text \<open>The four read the board (\<open>db0\<close>) and update it afterwards (\<open>db\<close>), in no transaction; the update asks nothing of the row.\<close>

definition archive_board :: "string \<Rightarrow> string \<Rightarrow> string \<Rightarrow> board_db \<Rightarrow> board_db \<Rightarrow> board_error + board_row \<times> board_db" where
  "archive_board now actorID boardID db0 db =
     bind_res (open_board actorID boardID db0) (\<lambda>b.
     if is_set (b_trashed_at b) then Inl ErrAlreadyTrashed
     else if is_set (b_archived_at b) then Inr (b, db)
     else write_board boardID (archive_board_row now (trim actorID)) db)"

definition unarchive_board :: "string \<Rightarrow> string \<Rightarrow> board_db \<Rightarrow> board_db \<Rightarrow> board_error + board_row \<times> board_db" where
  "unarchive_board actorID boardID db0 db =
     bind_res (open_board actorID boardID db0) (\<lambda>b.
     bind_res (guard_res (is_set (b_archived_at b)) ErrNotArchived) (\<lambda>_.
     write_board boardID unarchive_board_row db))"

definition trash_board :: "string \<Rightarrow> string \<Rightarrow> string \<Rightarrow> string \<Rightarrow> board_db \<Rightarrow> board_db \<Rightarrow> board_error + board_row \<times> board_db" where
  "trash_board now actorID boardID reason db0 db =
     bind_res (open_board actorID boardID db0) (\<lambda>b.
     if is_set (b_trashed_at b) then Inr (b, db)
     else write_board boardID (trash_board_row now (trim actorID) (trim reason)) db)"

definition restore_board :: "string \<Rightarrow> string \<Rightarrow> board_db \<Rightarrow> board_db \<Rightarrow> board_error + board_row \<times> board_db" where
  "restore_board actorID boardID db0 db =
     bind_res (open_board actorID boardID db0) (\<lambda>b.
     bind_res (guard_res (is_set (b_trashed_at b)) ErrNotTrashed) (\<lambda>_.
     write_board boardID untrash_board_row db))"

definition purge_board :: "string \<Rightarrow> board_db \<Rightarrow> board_error + board_db" where
  "purge_board boardID db =
     (let i = trim boardID
      in if i = [] then Inl (InvalidBoardRequest ''board_id is required'')
         else if \<not> list_ex (\<lambda>b. b_id b = i \<and> b_trashed_at b \<noteq> None) (boards db)
           then Inl (if list_ex (\<lambda>b. b_id b = i) (boards db) then ErrNotTrashed else ErrNotFound)
         else Inr (db\<lparr>ref_edges := filter (\<lambda>e. \<not> (e_source_type e = ''board'' \<and> e_source_id e = i)) (ref_edges db),
                     boards := filter (\<lambda>b. b_id b \<noteq> i) (boards db)\<rparr>))"

section \<open>The contract, provided by both tables\<close>

interpretation card_lanes: soft_delete c_archived_at c_trashed_at archive_card trash_card unarchive_card untrash_card
  by unfold_locales (simp_all add: archive_card_def trash_card_def unarchive_card_def untrash_card_def)

interpretation board_lanes:
  soft_delete b_archived_at b_trashed_at archive_board_row trash_board_row unarchive_board_row untrash_board_row
  by unfold_locales
     (simp_all add: archive_board_row_def trash_board_row_def unarchive_board_row_def untrash_board_row_def)

section \<open>Steps of a card\<close>

definition lanes_ok :: "board_db \<Rightarrow> bool" where
  "lanes_ok db \<longleftrightarrow>
     distinct (map c_id (cards db)) \<and>
     (\<forall>c \<in> set (cards db). col_ok (c_archived_at c) \<and> col_ok (c_trashed_at c) \<and>
        (c_archived_at c = None \<or> c_trashed_at c = None))"

lemma lanes_ok_iff:
  "lanes_ok db \<longleftrightarrow> distinct (map c_id (cards db)) \<and> (\<forall>c \<in> set (cards db). card_lanes.one_lane c)"
  by (auto simp: lanes_ok_def card_lanes.one_lane_def col_ok_def)

inductive card_step :: "board_db \<Rightarrow> board_db \<Rightarrow> bool" where
  move: "move_board_card t1 t2 t3 a b i input db = Inr (brow, r, db') \<Longrightarrow> card_step db db'"
| archive: "archive_board_card now t a b i u db = Inr (brow, r, db') \<Longrightarrow> trim now \<noteq> [] \<Longrightarrow> card_step db db'"
| trash: "trash_board_card now t a b i why u db = Inr (brow, r, applied, db') \<Longrightarrow> trim now \<noteq> [] \<Longrightarrow> card_step db db'"
| restore: "restore_archived_board_card t a b i u db = (res, db') \<Longrightarrow> card_step db db'"
| purge: "purge_archived_board_card t b i db = Inr db' \<Longrightarrow> card_step db db'"

inductive card_reachable :: "board_db \<Rightarrow> board_db \<Rightarrow> bool" for db0 where
  start: "card_reachable db0 db0"
| step: "card_reachable db0 db \<Longrightarrow> card_step db db' \<Longrightarrow> card_reachable db0 db'"

lemma row_card:
  "r \<in> set (board_card_rows db) \<Longrightarrow> bc_card r \<in> set (cards db)"
  by (auto simp: board_card_rows_iff)

lemma locate_lifecycle_row: "locate_for_lifecycle b i db = Inr r \<Longrightarrow> r \<in> set (board_card_rows db)"
  by (auto simp: locate_for_lifecycle_def dest: by_identifier_row(1) by_global_id_row(1) split: if_splits)

lemma open_card_row:
  assumes "open_card a b i u db = Inr (brow, r)"
  shows "r \<in> set (board_card_rows db)" "locate_for_lifecycle b i db = Inr r"
    "load_board_row (bc_board_id r) db = Inr brow" "trim a \<noteq> []"
    "ensure_updated_at_matches (b_updated_at brow) u = Inr ()"
  using assms locate_lifecycle_row by (auto simp: open_card_def res_iffs)

lemma lanes_ok_update:
  assumes "lanes_ok db" "\<And>c. c_id (f c) = c_id c"
    "\<And>c. c \<in> set (cards db) \<Longrightarrow> c_id c = i \<Longrightarrow> card_lanes.one_lane (f c)"
  shows "lanes_ok (update_card i f db)"
proof -
  have "map c_id (cards (update_card i f db)) = map c_id (cards db)"
    using assms(2) by (auto simp: update_card_def)
  moreover have "card_lanes.one_lane c" if "c \<in> set (cards (update_card i f db))" for c
    using that assms(1,3) by (auto simp: update_card_def lanes_ok_iff)
  ultimately show ?thesis using assms(1) by (simp add: lanes_ok_iff)
qed

lemma lanes_ok_cong: "cards db' = cards db \<Longrightarrow> lanes_ok db' = lanes_ok db"
  by (simp add: lanes_ok_def)

lemma unique_card: "distinct (map c_id cs) \<Longrightarrow> c \<in> set cs \<Longrightarrow> d \<in> set cs \<Longrightarrow> c_id c = c_id d \<Longrightarrow> c = d"
  by (auto simp: distinct_map dest: inj_onD)

lemma lanes_same_but_ranks:
  assumes "same_but_ranks db db1" "lanes_ok db"
  shows "lanes_ok db1"
proof -
  have "card_lanes.one_lane c" if "c \<in> set (cards db1)" for c
  proof -
    from that have "card_core c \<in> set (map card_core (cards db))"
      using assms(1) by (metis image_eqI list.set_map same_but_ranks_def)
    then obtain d where "d \<in> set (cards db)" "card_core c = card_core d" by auto
    moreover have "card_lanes.one_lane (card_core x) = card_lanes.one_lane x" for x
      by (simp add: card_lanes.one_lane_def card_core_def)
    ultimately show ?thesis using assms(2) by (metis lanes_ok_iff)
  qed
  with assms same_but_ranks_ids(1) [OF assms(1)] show ?thesis by (simp add: lanes_ok_iff)
qed

lemma upsert_cards: "upsert_board_card_ref_edge b i k rank db = Inr db1 \<Longrightarrow> cards db1 = cards db"
  by (auto simp: upsert_board_card_ref_edge_def Let_def split: if_splits)

lemma moved_card_lane: "card_lanes.one_lane (moved_card n a b r k rank res refs c) = card_lanes.one_lane c"
  by (simp add: card_lanes.one_lane_def moved_card_def)

lemma lanes_store_moved:
  assumes "store_moved_card t a b r k rank res db = Inr (r1, db3)" "lanes_ok db"
  shows "lanes_ok db3"
proof -
  obtain reso refs upd where res: "res = (reso, refs, upd)" by (cases res)
  show ?thesis
  proof (cases upd)
    case True
    then have "db3 = update_card (bc_id r) (moved_card t a b r k rank reso refs) db"
      using assms(1) by (simp add: store_moved_card_def res Let_def res_iffs)
    moreover have "lanes_ok (update_card (bc_id r) (moved_card t a b r k rank reso refs) db)"
      using assms(2) by (intro lanes_ok_update) (simp_all add: moved_card_lane lanes_ok_iff, simp add: moved_card_def)
    ultimately show ?thesis by simp
  next
    case False
    then show ?thesis using assms by (simp add: store_moved_card_def res)
  qed
qed

lemma lanes_move:
  assumes "move_board_card t1 t2 t3 a b i input db = Inr (b1, r1, db')" "lanes_ok db"
  shows "lanes_ok db'"
proof -
  let ?k = "trim (mi_column_key input)"
  obtain bb brow rr rank db1 res db2 db3 where
    "locate_for_move b i (mi_if_board_updated_at input) db = Inr (bb, brow, rr)"
    "ensure_board_card_mutable rr = Inr ()" "validate_board_column_key ?k" "?k \<noteq> []" and
    s: "allocate_board_card_rank t1 bb ?k (trim (mi_before_card_id input)) (trim (mi_after_card_id input)) (bc_id rr) db
         = Inr (rank, db1)" and
    "resolve_board_card_move_resolution rr ?k input = Inr res" and
    s': "upsert_board_card_ref_edge bb (bc_id rr) ?k rank db1 = Inr db2"
      "store_moved_card t2 a bb rr ?k rank res db2 = Inr (r1, db3)"
      "touch_board_row t3 a brow db3 = (b1, db')"
    by (rule move_steps [OF assms(1)])
  have "lanes_ok db1" by (rule lanes_same_but_ranks [OF allocate_same [OF s] assms(2)])
  then have "lanes_ok db2" using lanes_ok_cong [OF upsert_cards [OF s'(1)]] by simp
  then have "lanes_ok db3" by (rule lanes_store_moved [OF s'(2)])
  then show ?thesis using lanes_ok_cong [OF touch_frame(1) [OF s'(3)]] by simp
qed

lemma touch_pair: "touch_board_row t a b db = (b', db') \<Longrightarrow> cards db' = cards db \<and> ref_edges db' = ref_edges db"
  using touch_frame by blast

lemma archive_steps:
  assumes "archive_board_card now t a b i u db = Inr (brow, r, db')"
  obtains r0 where "open_card a b i u db = Inr (brow, r0)" "is_set (c_archived_at (bc_card r0))" "db' = db" "r = r0"
  | brow0 r0 where "open_card a b i u db = Inr (brow0, r0)" "\<not> is_set (c_trashed_at (bc_card r0))"
    "\<not> is_set (c_archived_at (bc_card r0))"
    "touch_board_row t a brow0 (update_card (bc_id r0) (archive_card now a) db) = (brow, db')"
    "r = r0\<lparr>bc_card := archive_card now a (bc_card r0)\<rparr>"
  using assms
  by (auto simp: archive_board_card_def res_iffs Let_def case_prod_unfold prod_eq_iff split: if_splits)

lemma trash_steps:
  assumes "trash_board_card now t a b i why u db = Inr (brow, r, applied, db')"
  obtains r0 where "open_card a b i u db = Inr (brow, r0)" "is_set (c_trashed_at (bc_card r0))" "db' = db" "r = r0"
  | brow0 r0 where "open_card a b i u db = Inr (brow0, r0)" "\<not> is_set (c_trashed_at (bc_card r0))"
    "touch_board_row t a brow0 (update_card (bc_id r0) (trash_card now a (trim why)) db) = (brow, db')"
  using assms
  by (auto simp: trash_board_card_def res_iffs Let_def case_prod_unfold prod_eq_iff split: if_splits)

lemma restore_steps:
  assumes "restore_archived_board_card t a b i u db = (res, db')"
  obtains "db' = db" |
    brow0 r0 brow where "open_card a b i u db = Inr (brow0, r0)"
    "is_set (c_trashed_at (bc_card r0)) \<or> is_set (c_archived_at (bc_card r0))"
    "touch_board_row t a brow0 (update_card (bc_id r0)
       (if is_set (c_trashed_at (bc_card r0)) then untrash_card else unarchive_card) db) = (brow, db')"
    "res = bind_res (load_board_card_by_identifier (bc_board_id r0) (bc_id r0) False db') (\<lambda>r1. Inr (brow, r1))"
  using assms
  by (auto simp: restore_archived_board_card_def Let_def case_prod_unfold prod_eq_iff split: sum.splits if_splits)

lemma purge_steps:
  assumes "purge_archived_board_card t b i db = Inr db'"
  obtains r brow where "locate_for_lifecycle b i db = Inr r"
    "is_set (c_archived_at (bc_card r)) \<or> is_set (c_trashed_at (bc_card r))"
    "load_board_row (bc_board_id r) db = Inr brow"
    "cards db' = filter (\<lambda>c. \<not> (c_id c = trim (bc_id r) \<and> (c_archived_at c \<noteq> None \<or> c_trashed_at c \<noteq> None))) (cards db)"
    "ref_edges db' = ref_edges (delete_card_rows (trim (bc_id r)) (purge_revision_rows (trim (bc_id r)) db) db)"
    "card_revisions db' = card_revisions (delete_card_rows (trim (bc_id r)) (purge_revision_rows (trim (bc_id r)) db) db)"
    "artifacts db' = artifacts (delete_card_rows (trim (bc_id r)) (purge_revision_rows (trim (bc_id r)) db) db)"
    "ledger db' = fold remove_blob_ledger_entry
       (unreferenced_hashes (map (snd \<circ> snd) (purge_revision_rows (trim (bc_id r)) db)) db') (ledger db)"
    "blob_objects db' = filter (\<lambda>h. h \<notin> set
       (unreferenced_hashes (map (snd \<circ> snd) (purge_revision_rows (trim (bc_id r)) db)) db')) (blob_objects db)"
  using assms
  by (auto simp: purge_archived_board_card_def res_iffs Let_def case_prod_unfold touch_board_row_def update_board_def
      unreferenced_hashes_def delete_card_rows_def)

lemma lanes_card_update:
  assumes "lanes_ok db" "r \<in> set (board_card_rows db)" "\<And>c. c_id (f c) = c_id c"
    "card_lanes.one_lane (bc_card r) \<Longrightarrow> card_lanes.one_lane (f (bc_card r))"
  shows "lanes_ok (update_card (bc_id r) f db)"
proof (rule lanes_ok_update [OF assms(1,3)])
  fix c assume "c \<in> set (cards db)" "c_id c = bc_id r"
  then have "c = bc_card r"
    using unique_card [of "cards db" c "bc_card r"] assms(1) row_card [OF assms(2)] by (simp add: lanes_ok_iff bc_id_def)
  then show "card_lanes.one_lane (f c)" using assms(1,4) row_card [OF assms(2)] by (simp add: lanes_ok_iff)
qed

lemma lane_fields [simp]:
  "c_id (archive_card now a c) = c_id c" "c_id (trash_card now a why c) = c_id c"
  "c_id (unarchive_card c) = c_id c" "c_id (untrash_card c) = c_id c"
  by (simp_all add: archive_card_def trash_card_def unarchive_card_def untrash_card_def)

lemma lanes_step: "card_step db db' \<Longrightarrow> lanes_ok db \<Longrightarrow> lanes_ok db'"
proof (induction rule: card_step.induct)
  case (move t1 t2 t3 a b i input db brow r db')
  then show ?case by (blast intro: lanes_move)
next
  case (archive now t a b i u db brow r db')
  from archive(1) show ?case
  proof (cases rule: archive_steps)
    case (2 brow0 r0)
    have "lanes_ok (update_card (bc_id r0) (archive_card now a) db)"
      using card_lanes.archive_lane 2(2) archive(2)
      by (intro lanes_card_update [OF archive(3) open_card_row(1) [OF 2(1)]]) auto
    then show ?thesis using lanes_ok_cong touch_pair [OF 2(4)] by blast
  qed (use archive in simp)
next
  case (trash now t a b i why u db brow r applied db')
  from trash(1) show ?case
  proof (cases rule: trash_steps)
    case (2 brow0 r0)
    have "lanes_ok (update_card (bc_id r0) (trash_card now a (trim why)) db)"
      using card_lanes.trash_lane trash(2)
      by (intro lanes_card_update [OF trash(3) open_card_row(1) [OF 2(1)]]) auto
    then show ?thesis using lanes_ok_cong touch_pair [OF 2(3)] by blast
  qed (use trash in simp)
next
  case (restore t a b i u db res db')
  from restore(1) show ?case
  proof (cases rule: restore_steps)
    case (2 brow0 r0 brow)
    have "lanes_ok (update_card (bc_id r0)
        (if is_set (c_trashed_at (bc_card r0)) then untrash_card else unarchive_card) db)"
      using card_lanes.untrash_lane card_lanes.unarchive_lane 2(2)
      by (intro lanes_card_update [OF restore(2) open_card_row(1) [OF 2(1)]]) auto
    then show ?thesis using lanes_ok_cong touch_pair [OF 2(3)] by blast
  qed (use restore in simp)
next
  case (purge t b i db db')
  from purge(1) obtain r where
    c: "cards db' = filter (\<lambda>c. \<not> (c_id c = trim (bc_id r) \<and> (c_archived_at c \<noteq> None \<or> c_trashed_at c \<noteq> None))) (cards db)"
    by (rule purge_steps)
  show ?case using purge(2) unfolding lanes_ok_iff c by (auto simp: distinct_map_filter)
qed

text \<open>
  C7. Whatever sequence of moves, archives, trashes, restores and purges runs, no card is archived and
  trashed at once, and card ids stay unique.
\<close>

theorem card_lanes_exclusive:
  "card_reachable db0 db \<Longrightarrow> lanes_ok db0 \<Longrightarrow> lanes_ok db"
  by (induction rule: card_reachable.induct) (auto intro: lanes_step)

lemma sample_lanes: "lanes_ok sample_db"
  by (simp add: lanes_ok_def sample_defs)

lemma card_lanes_exclusive_witness:
  "\<exists>db1 db2. card_step sample_db db1 \<and> card_step db1 db2 \<and> lanes_ok db2 \<and>
     map (\<lambda>c. (c_archived_at c, c_trashed_at c)) (cards db2) = [(None, Some ''2''), (None, None), (None, None)]"
proof -
  let ?db1 = "update_board ''b1'' (\<lambda>b. b\<lparr>b_updated_at := ''1'', b_updated_by := ''ann''\<rparr>)
    (update_card ''x'' (archive_card ''1'' ''ann'') sample_db)"
  let ?db2 = "update_board ''b1'' (\<lambda>b. b\<lparr>b_updated_at := ''2'', b_updated_by := ''ann''\<rparr>)
    (update_card ''x'' (trash_card ''2'' ''ann'' []) ?db1)"
  have "\<exists>brow r. archive_board_card ''1'' ''1'' ''ann'' ''b1'' ''x'' None sample_db = Inr (brow, r, ?db1)"
    by (intro exI, code_simp)
  moreover have "trim ''1'' \<noteq> []" "trim ''2'' \<noteq> []" by code_simp+
  ultimately have s1: "card_step sample_db ?db1" by (blast intro: card_step.archive)
  have "\<exists>brow r. trash_board_card ''2'' ''2'' ''ann'' ''b1'' ''x'' [] None ?db1 = Inr (brow, r, True, ?db2)"
    by (intro exI, code_simp)
  with \<open>trim ''2'' \<noteq> []\<close> have s2: "card_step ?db1 ?db2" by (blast intro: card_step.trash)
  have "card_reachable sample_db ?db2" using s1 s2 by (blast intro: card_reachable.intros)
  then have "lanes_ok ?db2" using sample_lanes by (rule card_lanes_exclusive)
  moreover have "map (\<lambda>c. (c_archived_at c, c_trashed_at c)) (cards ?db2)
      = [(None, Some ''2''), (None, None), (None, None)]" by code_simp
  ultimately show ?thesis using s1 s2 by (intro exI [of _ ?db1] exI [of _ ?db2] conjI)
qed

section \<open>Restore undoes archive and trash\<close>

lemma load_row:
  assumes "keys_ok db" "r \<in> set (board_card_rows db)" "inc \<or> live_card (bc_card r)"
  shows "load_board_card_by_identifier (bc_board_id r) (bc_id r) inc db = Inr r"
proof -
  note t = row_facts(1,2) [OF assms(1,2)]
  let ?P = "\<lambda>q. (bc_board_id q = bc_board_id r \<and> (inc \<or> live_card (bc_card q))) \<and> bc_id q = bc_id r"
  have "find ?P (board_card_rows db) \<noteq> None" using assms(2,3) by (auto simp: find_None_iff)
  then obtain q where q: "find ?P (board_card_rows db) = Some q" by blast
  then have "q \<in> set (board_card_rows db)" "bc_board_id q = bc_board_id r" "bc_id q = bc_id r"
    by (auto dest: find_row)
  with distinct_rows [OF assms(1)] assms(2) have "q = r" by (auto simp: distinct_map dest: inj_onD)
  with q t show ?thesis by (simp add: load_board_card_by_identifier_def Let_def trimmed_id_def)
qed

lemma find_board_update:
  assumes "\<And>b. b_id (f b) = b_id b"
  shows "find_board i (update_board j f db) = map_option (\<lambda>b. if b_id b = j then f b else b) (find_board i db)"
proof -
  have "find (\<lambda>b. b_id b = i) (map (\<lambda>b. if b_id b = j then f b else b) bs) =
      map_option (\<lambda>b. if b_id b = j then f b else b) (find (\<lambda>b. b_id b = i) bs)" for bs
    by (induction bs) (auto simp: assms)
  then show ?thesis by (simp add: find_board_def update_board_def)
qed

lemma find_board_touch:
  assumes "touch_board_row t a brow (update_card i f db) = (b1, db1)"
  shows "find_board j db1 =
    map_option (\<lambda>b. if b_id b = b_id brow then b\<lparr>b_updated_at := t, b_updated_by := a\<rparr> else b) (find_board j db)"
proof -
  have db1: "db1 = update_board (b_id brow) (\<lambda>b. b\<lparr>b_updated_at := t, b_updated_by := a\<rparr>) (update_card i f db)"
    using assms by (simp add: touch_board_row_def)
  show ?thesis unfolding db1 by (subst find_board_update) (simp_all add: find_board_def update_card_def)
qed

lemma touched_row:
  assumes "r \<in> set (board_card_rows db)" "\<And>c. c_id (f c) = c_id c"
    "touch_board_row t a brow (update_card (bc_id r) f db) = (b1, db1)"
  shows "r\<lparr>bc_card := f (bc_card r)\<rparr> \<in> set (board_card_rows db1)"
proof -
  from assms(1) obtain e c where e: "e \<in> set (ref_edges db)" "c \<in> set (cards db)" "is_board_card_edge e"
    "c_id c = e_target_id e" "r = join_board_card db e c" by (auto simp: board_card_rows_iff)
  have db1: "db1 = update_board (b_id brow) (\<lambda>b. b\<lparr>b_updated_at := t, b_updated_by := a\<rparr>) (update_card (bc_id r) f db)"
    using assms(3) by (simp add: touch_board_row_def)
  have "find_board i db1 = map_option (\<lambda>b. if b_id b = b_id brow then b\<lparr>b_updated_at := t, b_updated_by := a\<rparr> else b)
      (find_board i db)" for i
    by (rule find_board_touch [OF assms(3)])
  then have j: "join_board_card db1 e (f c) = r\<lparr>bc_card := f (bc_card r)\<rparr>"
    using e(5) by (auto simp: join_board_card_def split: option.splits)
  have "e \<in> set (ref_edges db1)" "f c \<in> set (cards db1)"
    using e assms(2) by (auto simp: db1 update_board_def update_card_def bc_id_def)
  with e j assms(2) show ?thesis unfolding board_card_rows_iff by (metis (no_types))
qed

lemma keys_ok_touch:
  assumes "keys_ok db" "\<And>c. c_id (f c) = c_id c" "touch_board_row t a brow (update_card i f db) = (b1, db1)"
  shows "keys_ok db1"
proof -
  have "map c_id (cards (update_card i f db)) = map c_id (cards db)" using assms(2) by (auto simp: update_card_def)
  moreover have "ref_edges (update_card i f db) = ref_edges db" by (simp add: update_card_def)
  ultimately show ?thesis
    using assms(1) touch_pair [OF assms(3)] by (simp add: keys_ok_def edges_ok_def)
qed

lemma open_row:
  assumes "keys_ok db" "r \<in> set (board_card_rows db)" "find_board (bc_board_id r) db = Some brow" "trim a \<noteq> []"
  shows "open_card a (bc_board_id r) (bc_id r) None db = Inr (brow, r)"
  using assms load_row [OF assms(1,2), of True] row_facts(1) [OF assms(1,2)]
  by (simp add: open_card_def locate_for_lifecycle_def load_board_row_def trimmed_id_def ensure_updated_at_matches_def)

lemma update_card_twice:
  assumes "\<And>c. c_id (f c) = c_id c" "\<And>c. c \<in> set (cards db) \<Longrightarrow> c_id c = i \<Longrightarrow> g (f c) = c"
  shows "cards (update_card i g (update_card i f db)) = cards db"
  using assms by (simp add: update_card_def map_idI)

lemma cards_update_cong: "cards d = cards d' \<Longrightarrow> cards (update_card i g d) = cards (update_card i g d')"
  by (simp add: update_card_def)

lemma restore_after:
  assumes ok: "keys_ok db" "lanes_ok db" and row: "r \<in> set (board_card_rows db)" and live: "live_card (bc_card r)"
    and f: "\<And>c. c_id (f c) = c_id c" and touch: "touch_board_row t a brow (update_card (bc_id r) f db) = (b1, db1)"
    and brow: "find_board (bc_board_id r) db = Some brow" and a': "trim a' \<noteq> []"
    and set: "is_set (c_trashed_at (f (bc_card r))) \<or> is_set (c_archived_at (f (bc_card r)))"
    and undo: "(if is_set (c_trashed_at (f (bc_card r))) then untrash_card else unarchive_card) (f (bc_card r)) = bc_card r"
  shows "\<exists>b2 r2 db2. restore_archived_board_card t' a' (bc_board_id r) (bc_id r) None db1 = (Inr (b2, r2), db2) \<and>
     cards db2 = cards db \<and> ref_edges db2 = ref_edges db \<and> bc_card r2 = bc_card r"
proof -
  let ?r = "r\<lparr>bc_card := f (bc_card r)\<rparr>"
  let ?g = "if is_set (c_trashed_at (f (bc_card r))) then untrash_card else unarchive_card"
  have row1: "?r \<in> set (board_card_rows db1)" by (rule touched_row [OF row f touch])
  have ok1: "keys_ok db1" by (rule keys_ok_touch [OF ok(1) f touch])
  have ids: "bc_board_id ?r = bc_board_id r" "bc_id ?r = bc_id r" using f by (simp_all add: bc_id_def)
  have "find_board (bc_board_id r) db1 \<noteq> None" using brow find_board_touch [OF touch] by simp
  then obtain brow1 where brow1: "find_board (bc_board_id ?r) db1 = Some brow1" by auto
  have open1: "open_card a' (bc_board_id r) (bc_id r) None db1 = Inr (brow1, ?r)"
    using open_row [OF ok1 row1 brow1 a'] unfolding ids .
  have g: "\<And>c. c_id (?g c) = c_id c" by simp
  obtain b2 db2 where t2: "touch_board_row t' a' brow1 (update_card (bc_id r) ?g db1) = (b2, db2)" by fastforce
  have t2': "touch_board_row t' a' brow1 (update_card (bc_id ?r) ?g db1) = (b2, db2)" using t2 ids by simp
  have row2: "?r\<lparr>bc_card := ?g (bc_card ?r)\<rparr> \<in> set (board_card_rows db2)" by (rule touched_row [OF row1 g t2'])
  have ok2: "keys_ok db2" by (rule keys_ok_touch [OF ok1 g t2])
  have r2: "?r\<lparr>bc_card := ?g (bc_card ?r)\<rparr> = r" using undo by simp
  have reload: "load_board_card_by_identifier (bc_board_id r) (bc_id r) False db2 = Inr r"
    using load_row [OF ok2 row2, of False] live unfolding r2 by simp
  have "cards db2 = cards (update_card (bc_id r) ?g (update_card (bc_id r) f db))"
    using touch_pair [OF t2] touch_pair [OF touch] cards_update_cong [of db1 "update_card (bc_id r) f db"] by simp
  also have "\<dots> = cards db"
  proof (rule update_card_twice [OF f])
    fix c assume "c \<in> set (cards db)" "c_id c = bc_id r"
    then have "c = bc_card r"
      using unique_card [of "cards db" c "bc_card r"] ok(2) row_card [OF row] by (simp add: lanes_ok_def bc_id_def)
    then show "?g (f c) = c" using undo by simp
  qed
  finally have cs: "cards db2 = cards db" .
  have es: "ref_edges db2 = ref_edges db"
    using touch_pair [OF t2] touch_pair [OF touch] by (simp add: update_card_def)
  have "restore_archived_board_card t' a' (bc_board_id r) (bc_id r) None db1 = (Inr (b2, r), db2)"
    using open1 set t2' reload ids by (auto simp: restore_archived_board_card_def Let_def)
  with cs es show ?thesis by blast
qed

lemma archive_live:
  assumes "open_card a b i u db = Inr (brow, r)" "live_card (bc_card r)"
  shows "\<exists>b1 db1. touch_board_row t a brow (update_card (bc_id r) (archive_card now a) db) = (b1, db1) \<and>
     archive_board_card now t a b i u db = Inr (b1, r\<lparr>bc_card := archive_card now a (bc_card r)\<rparr>, db1)"
  using assms by (auto simp: archive_board_card_def live_card_def Let_def split: prod.splits)

lemma trash_live:
  assumes "open_card a b i u db = Inr (brow, r)" "live_card (bc_card r)"
  shows "\<exists>b1 r1 db1. touch_board_row t a brow (update_card (bc_id r) (trash_card now a (trim why)) db) = (b1, db1) \<and>
     trash_board_card now t a b i why u db = Inr (b1, r1, True, db1)"
  using assms by (auto simp: trash_board_card_def live_card_def Let_def split: prod.splits)

lemma undo_archive: "live_card c \<Longrightarrow> c_archived_by c = None \<Longrightarrow> unarchive_card (archive_card n a c) = c"
  by (cases c) (simp add: live_card_def unarchive_card_def archive_card_def)

lemma undo_trash:
  "live_card c \<Longrightarrow> c_archived_by c = None \<Longrightarrow> c_trashed_by c = None \<Longrightarrow> c_trash_reason c = None \<Longrightarrow>
     untrash_card (trash_card n a why c) = c"
  by (cases c) (simp add: live_card_def untrash_card_def trash_card_def)

text \<open>
  Archiving a live card, or trashing it, succeeds and is undone by a restore: the restore answers
  with the card as it was, and the cards and the edges are the original tables.
\<close>

theorem restore_undoes_discard:
  assumes "keys_ok db" "lanes_ok db" "r \<in> set (board_card_rows db)" "live_card (bc_card r)"
    and "c_archived_by (bc_card r) = None" "c_trashed_by (bc_card r) = None" "c_trash_reason (bc_card r) = None"
    and "find_board (bc_board_id r) db = Some brow" "trim a \<noteq> []" "trim a' \<noteq> []" "trim now \<noteq> []"
  shows "(\<exists>b1 r1 db1 b2 r2 db2.
       archive_board_card now t a (bc_board_id r) (bc_id r) None db = Inr (b1, r1, db1) \<and>
       restore_archived_board_card t' a' (bc_board_id r) (bc_id r) None db1 = (Inr (b2, r2), db2) \<and>
       bc_card r2 = bc_card r \<and> cards db2 = cards db \<and> ref_edges db2 = ref_edges db) \<and>
    (\<exists>b1 r1 db1 b2 r2 db2.
       trash_board_card now t a (bc_board_id r) (bc_id r) why None db = Inr (b1, r1, True, db1) \<and>
       restore_archived_board_card t' a' (bc_board_id r) (bc_id r) None db1 = (Inr (b2, r2), db2) \<and>
       bc_card r2 = bc_card r \<and> cards db2 = cards db \<and> ref_edges db2 = ref_edges db)"
proof -
  have o: "open_card a (bc_board_id r) (bc_id r) None db = Inr (brow, r)"
    using assms by (intro open_row) auto
  obtain b1 db1 where a1: "touch_board_row t a brow (update_card (bc_id r) (archive_card now a) db) = (b1, db1)"
    "archive_board_card now t a (bc_board_id r) (bc_id r) None db
       = Inr (b1, r\<lparr>bc_card := archive_card now a (bc_card r)\<rparr>, db1)"
    using archive_live [OF o assms(4), of t now] by blast
  have "\<exists>b2 r2 db2. restore_archived_board_card t' a' (bc_board_id r) (bc_id r) None db1 = (Inr (b2, r2), db2) \<and>
      cards db2 = cards db \<and> ref_edges db2 = ref_edges db \<and> bc_card r2 = bc_card r"
    by (rule restore_after [OF assms(1-4) _ a1(1) assms(8,10)])
       (use assms undo_archive [OF assms(4,5)] in \<open>simp_all add: archive_card_def live_card_def\<close>)
  with a1(2) have archived: "\<exists>b1 r1 db1 b2 r2 db2.
       archive_board_card now t a (bc_board_id r) (bc_id r) None db = Inr (b1, r1, db1) \<and>
       restore_archived_board_card t' a' (bc_board_id r) (bc_id r) None db1 = (Inr (b2, r2), db2) \<and>
       bc_card r2 = bc_card r \<and> cards db2 = cards db \<and> ref_edges db2 = ref_edges db" by blast
  obtain b1 r1 db1 where t1: "touch_board_row t a brow (update_card (bc_id r) (trash_card now a (trim why)) db) = (b1, db1)"
    "trash_board_card now t a (bc_board_id r) (bc_id r) why None db = Inr (b1, r1, True, db1)"
    using trash_live [OF o assms(4), of t now why] by blast
  have "\<exists>b2 r2 db2. restore_archived_board_card t' a' (bc_board_id r) (bc_id r) None db1 = (Inr (b2, r2), db2) \<and>
      cards db2 = cards db \<and> ref_edges db2 = ref_edges db \<and> bc_card r2 = bc_card r"
    by (rule restore_after [OF assms(1-4) _ t1(1) assms(8,10)])
       (use assms undo_trash [OF assms(4-7)] in \<open>simp_all add: trash_card_def\<close>)
  with t1(2) have trashed: "\<exists>b1 r1 db1 b2 r2 db2.
       trash_board_card now t a (bc_board_id r) (bc_id r) why None db = Inr (b1, r1, True, db1) \<and>
       restore_archived_board_card t' a' (bc_board_id r) (bc_id r) None db1 = (Inr (b2, r2), db2) \<and>
       bc_card r2 = bc_card r \<and> cards db2 = cards db \<and> ref_edges db2 = ref_edges db" by blast
  from archived trashed show ?thesis by (rule conjI)
qed

abbreviation sample_row :: board_card where
  "sample_row \<equiv> join_board_card sample_db (card_edge ''b1'' ''x'' ''backlog'' ''0000000000000000001'')
     (sample_card ''x'' ''backlog'' ''0000000000000000001'')"

lemma sample_row_in: "sample_row \<in> set (board_card_rows sample_db)"
proof -
  have "card_edge ''b1'' ''x'' ''backlog'' ''0000000000000000001'' \<in> set (ref_edges sample_db)"
    by (simp add: sample_db_def sample_cards_def)
  moreover have "sample_card ''x'' ''backlog'' ''0000000000000000001'' \<in> set (cards sample_db)"
    by (simp add: sample_db_def sample_cards_def)
  ultimately show ?thesis
    unfolding board_card_rows_iff by (intro bexI) (auto simp: sample_card_def)
qed

lemma sample_ann: "trim ''ann'' \<noteq> []" "trim ''1'' \<noteq> []"
  by code_simp+

lemma restore_undoes_discard_witness:
  "\<exists>b1 r1 db1 b2 r2 db2.
     trash_board_card ''1'' ''1'' ''ann'' ''b1'' ''x'' ''old'' None sample_db = Inr (b1, r1, True, db1) \<and>
     restore_archived_board_card ''2'' ''ann'' ''b1'' ''x'' None db1 = (Inr (b2, r2), db2) \<and>
     cards db2 = cards sample_db"
proof -
  have ids: "bc_board_id sample_row = ''b1''" "bc_id sample_row = ''x''" by (simp_all add: sample_card_def)
  have b: "find_board (bc_board_id sample_row) sample_db = Some sample_board"
    unfolding ids by (simp add: find_board_def sample_db_def sample_board_def)
  from restore_undoes_discard [OF sample_ok(1) sample_lanes sample_row_in _ _ _ _ b sample_ann(1) sample_ann(1)
      sample_ann(2), of "''1''" "''2''" "''old''"]
  show ?thesis unfolding ids by (auto simp: live_card_def sample_card_def)
qed

section \<open>Purge\<close>

lemma remove_keeps_entry:
  assumes "h \<in> fst ` set (entries L)" "h \<noteq> trim d"
  shows "h \<in> fst ` set (entries (remove_blob_ledger_entry d L))"
  using assms by (force simp: remove_blob_ledger_entry_def Let_def split: option.splits)

lemma fold_remove_keeps_entry:
  "h \<in> fst ` set (entries L) \<Longrightarrow> h \<notin> trim ` set ds \<Longrightarrow> h \<in> fst ` set (entries (fold remove_blob_ledger_entry ds L))"
  by (induction ds arbitrary: L) (auto simp del: image_iff intro!: remove_keeps_entry)

lemma unreferenced_dead:
  "h \<in> set (unreferenced_hashes hs db) \<Longrightarrow> trim h = h \<and> (\<forall>a \<in> set (artifacts db). a_content_hash a \<noteq> h)"
  by (auto simp: unreferenced_hashes_def list_ex_iff set_unique_sorted)

lemma unreferenced_trim: "trim ` set (unreferenced_hashes hs db) = set (unreferenced_hashes hs db)"
proof -
  have "trim h = h" if "h \<in> set (unreferenced_hashes hs db)" for h using unreferenced_dead [OF that] by simp
  then show ?thesis by force
qed

text \<open>
  A purge takes one card, which was archived or trashed, with its revisions and every edge that touches it;
  the other cards stay.  A blob or ledger entry that any remaining artifact refers to is kept.
\<close>

theorem purge_takes_discarded_card:
  assumes "purge_archived_board_card t b i db = Inr db'" "keys_ok db" "lanes_ok db"
  shows "\<exists>r \<in> set (board_card_rows db).
     locate_for_lifecycle b i db = Inr r \<and> \<not> live_card (bc_card r) \<and>
     cards db' = filter (\<lambda>c. c_id c \<noteq> bc_id r) (cards db) \<and>
     (\<forall>e \<in> set (ref_edges db'). \<not> edge_touches ''card'' (bc_id r) e) \<and>
     (\<forall>cr \<in> set (card_revisions db'). cr_card_id cr \<noteq> bc_id r) \<and>
     (\<forall>x \<in> set (artifacts db').
        (a_content_hash x \<in> set (blob_objects db) \<longrightarrow> a_content_hash x \<in> set (blob_objects db')) \<and>
        (a_content_hash x \<in> fst ` set (entries (ledger db)) \<longrightarrow> a_content_hash x \<in> fst ` set (entries (ledger db'))))"
  using assms(1)
proof (cases rule: purge_steps)
  case (1 r brow)
  let ?dead = "unreferenced_hashes (map (snd \<circ> snd) (purge_revision_rows (trim (bc_id r)) db)) db'"
  have row: "r \<in> set (board_card_rows db)" by (rule locate_lifecycle_row [OF 1(1)])
  have id: "trim (bc_id r) = bc_id r" using row_facts(2) [OF assms(2) row] by (simp add: trimmed_id_def)
  have gone: "c_archived_at (bc_card r) \<noteq> None \<or> c_trashed_at (bc_card r) \<noteq> None" using 1(2) by auto
  have "(c_id c = bc_id r \<and> (c_archived_at c \<noteq> None \<or> c_trashed_at c \<noteq> None)) = (c_id c = bc_id r)"
    if "c \<in> set (cards db)" for c
    using that gone unique_card [of "cards db" c "bc_card r"] assms(3) row_card [OF row]
    by (auto simp: lanes_ok_def bc_id_def)
  then have c: "cards db' = filter (\<lambda>c. c_id c \<noteq> bc_id r) (cards db)"
    unfolding 1(4) id by (intro filter_cong) auto
  have kept: "a_content_hash x \<notin> set ?dead" if "x \<in> set (artifacts db')" for x
    using that unreferenced_dead [of _ _ db'] by blast
  show ?thesis
  proof (intro bexI [OF _ row] conjI ballI impI)
    show "locate_for_lifecycle b i db = Inr r" by (rule 1(1))
    show "\<not> live_card (bc_card r)" using gone by (auto simp: live_card_def)
    show "cards db' = filter (\<lambda>c. c_id c \<noteq> bc_id r) (cards db)" by (rule c)
    fix e assume "e \<in> set (ref_edges db')"
    then show "\<not> edge_touches ''card'' (bc_id r) e" unfolding 1(5) id by (simp add: delete_card_rows_def Let_def)
  next
    fix cr assume "cr \<in> set (card_revisions db')"
    then show "cr_card_id cr \<noteq> bc_id r" unfolding 1(6) id by (simp add: delete_card_rows_def Let_def)
  next
    fix x assume x: "x \<in> set (artifacts db')"
    show "a_content_hash x \<in> set (blob_objects db')" if "a_content_hash x \<in> set (blob_objects db)"
      using that kept [OF x] unfolding 1(9) by simp
    show "a_content_hash x \<in> fst ` set (entries (ledger db'))" if "a_content_hash x \<in> fst ` set (entries (ledger db))"
      unfolding 1(8) by (rule fold_remove_keeps_entry [OF that]) (use kept [OF x] in \<open>simp add: unreferenced_trim\<close>)
  qed
qed

text \<open>A trashed card with one revision whose blob another artifact shares.\<close>

definition purge_db :: board_db where
  "purge_db =
     (update_card ''x'' (trash_card ''1'' ''ann'' []) sample_db)
       \<lparr>card_revisions := [\<lparr>cr_revision_id = ''v1'', cr_card_id = ''x'', cr_revision_number = 1, cr_artifact_id = ''v1''\<rparr>],
         artifacts := [\<lparr>a_id = ''v1'', a_kind = ''card'', a_content_hash = ''h''\<rparr>, \<lparr>a_id = ''w'', a_kind = ''file'', a_content_hash = ''h''\<rparr>],
         ledger := \<lparr>entries = [(''h'', 5)], totals = Some (5, 1)\<rparr>, blob_objects := [''h'']\<rparr>"

lemma purge_db_ok: "keys_ok purge_db" "lanes_ok purge_db"
proof -
  have "keys_ok (update_card ''x'' (trash_card ''1'' ''ann'' []) sample_db)"
    using sample_ok(1) by (auto simp: keys_ok_def edges_ok_def update_card_frame(3) update_card_def comp_def if_distrib cong: if_cong)
  then show "keys_ok purge_db" by (simp add: purge_db_def keys_ok_def edges_ok_def)
  have "lanes_ok (update_card ''x'' (trash_card ''1'' ''ann'' []) sample_db)"
    using card_lanes.trash_lane sample_ann(2) sample_lanes by (intro lanes_ok_update) (auto simp: lanes_ok_iff)
  then show "lanes_ok purge_db" by (simp add: purge_db_def lanes_ok_def)
qed

lemma purge_takes_discarded_card_witness:
  "\<exists>db'. purge_archived_board_card ''2'' ''b1'' ''x'' purge_db = Inr db' \<and>
     map c_id (cards db') = [''y'', ''z''] \<and> ''h'' \<in> set (blob_objects db')"
proof -
  have "\<exists>db'. purge_archived_board_card ''2'' ''b1'' ''x'' purge_db = Inr db'" by (intro exI, code_simp)
  then obtain db' where p: "purge_archived_board_card ''2'' ''b1'' ''x'' purge_db = Inr db'" by blast
  have loc: "locate_for_lifecycle ''b1'' ''x'' purge_db = Inr r \<Longrightarrow> bc_id r = ''x''" for r
  proof -
    have "(case locate_for_lifecycle ''b1'' ''x'' purge_db of Inr r \<Rightarrow> bc_id r = ''x'' | Inl e \<Rightarrow> False)" by code_simp
    then show "locate_for_lifecycle ''b1'' ''x'' purge_db = Inr r \<Longrightarrow> bc_id r = ''x''" by simp
  qed
  have cs: "map c_id (filter (\<lambda>c. c_id c \<noteq> ''x'') (cards purge_db)) = [''y'', ''z'']" by code_simp
  have art: "\<exists>x \<in> set (artifacts db'). a_content_hash x = ''h''"
    using p
  proof (cases rule: purge_steps)
    case (1 r brow)
    have id: "trim (bc_id r) = ''x''" unfolding loc [OF 1(1)] by code_simp
    have "artifacts db' = [\<lparr>a_id = ''w'', a_kind = ''file'', a_content_hash = ''h''\<rparr>]"
      unfolding 1(7) id by code_simp
    then show ?thesis by simp
  qed
  have "''h'' \<in> set (blob_objects purge_db)" by code_simp
  with purge_takes_discarded_card [OF p purge_db_ok] loc cs art p show ?thesis by fastforce
qed

section \<open>Board versions\<close>

lemma upsert_boards: "upsert_board_card_ref_edge b i k rank db = Inr db1 \<Longrightarrow> boards db1 = boards db"
  by (auto simp: upsert_board_card_ref_edge_def Let_def split: if_splits)

lemma store_moved_boards: "store_moved_card t a b r k rank res db = Inr (r1, db1) \<Longrightarrow> boards db1 = boards db"
  by (auto simp: store_moved_card_def Let_def res_iffs update_card_def split: prod.splits if_splits)

lemma move_boards:
  assumes "move_board_card t1 t2 t3 a b i input db = Inr (b1, r1, db')"
    and "locate_for_move b i (mi_if_board_updated_at input) db = Inr (bid, brow, r)"
  shows "find_board j db' =
    map_option (\<lambda>x. if b_id x = b_id brow then x\<lparr>b_updated_at := t3, b_updated_by := a\<rparr> else x) (find_board j db)"
proof -
  let ?k = "trim (mi_column_key input)"
  obtain bb brow' rr rank db1 res db2 db3 where
    loc: "locate_for_move b i (mi_if_board_updated_at input) db = Inr (bb, brow', rr)" and
    "ensure_board_card_mutable rr = Inr ()" "validate_board_column_key ?k" "?k \<noteq> []" and
    al: "allocate_board_card_rank t1 bb ?k (trim (mi_before_card_id input)) (trim (mi_after_card_id input)) (bc_id rr) db
         = Inr (rank, db1)" and
    "resolve_board_card_move_resolution rr ?k input = Inr res" and
    up: "upsert_board_card_ref_edge bb (bc_id rr) ?k rank db1 = Inr db2" and
    st: "store_moved_card t2 a bb rr ?k rank res db2 = Inr (r1, db3)" and
    to: "touch_board_row t3 a brow' db3 = (b1, db')"
    by (rule move_steps [OF assms(1)])
  have "boards db3 = boards db"
    using store_moved_boards [OF st] upsert_boards [OF up] allocate_same [OF al] by (simp add: same_but_ranks_def)
  then have fb: "find_board j db3 = find_board j db" by (simp add: find_board_def)
  have "brow' = brow" using loc assms(2) by simp
  then have "db' = update_board (b_id brow) (\<lambda>x. x\<lparr>b_updated_at := t3, b_updated_by := a\<rparr>) db3"
    using to by (simp add: touch_board_row_def)
  then show ?thesis by (simp add: find_board_update fb)
qed

lemma find_board_id: "find_board j db = Some x \<Longrightarrow> b_id x = j"
  by (auto simp: find_board_def dest: find_row)

lemma stale_open:
  assumes "locate_for_lifecycle b i db = Inr r" "find_board (trim (bc_board_id r)) db = Some brow"
    "trim (b_updated_at brow) \<noteq> trim v" "trim a \<noteq> []"
  shows "open_card a b i (Some v) db = Inl ErrConflict"
  using assms by (simp add: open_card_def load_board_row_def ensure_updated_at_matches_def guard_res_def)

text \<open>
  A move stamps the board with a new version, so of two clients that read the same version only one
  can write: the second's archive, trash, restore or move of any card of that board is a conflict.
\<close>

theorem second_writer_conflicts:
  assumes "move_board_card t1 t2 t3 a b i input db = Inr (b1, r1, db')" "keys_ok db'"
    and "locate_for_move b i (Some v) db = Inr (bid, brow, r)" "mi_if_board_updated_at input = Some v"
    and "trim t3 \<noteq> trim v" "trim a' \<noteq> []"
    and "q \<in> set (board_card_rows db')" "bc_board_id q = b_id brow"
  shows "archive_board_card n t a' (bc_board_id q) (bc_id q) (Some v) db' = Inl ErrConflict \<and>
     trash_board_card n t a' (bc_board_id q) (bc_id q) why (Some v) db' = Inl ErrConflict \<and>
     restore_archived_board_card t a' (bc_board_id q) (bc_id q) (Some v) db' = (Inl ErrConflict, db') \<and>
     (\<forall>input2 result. mi_if_board_updated_at input2 = Some v \<longrightarrow>
        move_board_card s1 s2 s3 a' (bc_board_id q) (bc_id q) input2 db' \<noteq> Inr result)"
proof -
  note tr = row_facts(1) [OF assms(2,7)]
  have lo: "locate_for_lifecycle (bc_board_id q) (bc_id q) db' = Inr q"
    using load_row [OF assms(2,7), of True] tr by (simp add: locate_for_lifecycle_def trimmed_id_def)
  obtain y where "find_board (b_id brow) db = Some y"
    using assms(3) find_board_id
    by (fastforce simp: locate_for_move_def res_iffs load_board_row_def split: if_splits option.splits)
  then obtain x where x: "find_board (b_id brow) db' = Some x" "b_updated_at x = t3"
    using move_boards [OF assms(1), of bid brow r "b_id brow"] assms(3,4) find_board_id by fastforce
  have fb: "find_board (trim (bc_board_id q)) db' = Some x" using x(1) assms(8) tr by (simp add: trimmed_id_def)
  have stale: "trim (b_updated_at x) \<noteq> trim v" using x(2) assms(5) by simp
  note conflict = stale_open [OF lo fb stale assms(6)]
  have "move_board_card s1 s2 s3 a' (bc_board_id q) (bc_id q) input2 db' \<noteq> Inr result"
    if "mi_if_board_updated_at input2 = Some v" for input2 result
  proof -
    have "locate_for_move (bc_board_id q) (bc_id q) (mi_if_board_updated_at input2) db' = Inl ErrConflict"
      using that tr fb stale
      by (simp add: locate_for_move_def trimmed_id_def load_board_row_def ensure_updated_at_matches_def guard_res_def)
    then show ?thesis by (auto simp: move_board_card_def Let_def res_iffs)
  qed
  then show ?thesis
    by (simp add: archive_board_card_def trash_board_card_def restore_archived_board_card_def conflict)
qed

section \<open>Purging a board\<close>

lemma purge_board_db:
  "purge_board b db = Inr db' \<Longrightarrow>
     db' = db\<lparr>ref_edges := filter (\<lambda>e. \<not> (e_source_type e = ''board'' \<and> e_source_id e = trim b)) (ref_edges db),
              boards := filter (\<lambda>x. b_id x \<noteq> trim b) (boards db)\<rparr>"
  by (auto simp: purge_board_def Let_def split: if_splits)

lemma board_rows_purged:
  assumes "purge_board b db = Inr db'" "r \<in> set (board_card_rows db')"
  shows "bc_board_id r \<noteq> trim b"
    "\<exists>q \<in> set (board_card_rows db). bc_id q = bc_id r \<and> bc_board_id q = bc_board_id r"
proof -
  note db' = purge_board_db [OF assms(1)]
  obtain e c where e: "e \<in> set (ref_edges db')" "c \<in> set (cards db')" "is_board_card_edge e"
    "c_id c = e_target_id e" "r = join_board_card db' e c" using assms(2) by (auto simp: board_card_rows_iff)
  then show "bc_board_id r \<noteq> trim b" by (auto simp: db' is_board_card_edge_def)
  have "join_board_card db e c \<in> set (board_card_rows db)" using e by (auto simp: db' board_card_rows_iff)
  then show "\<exists>q \<in> set (board_card_rows db). bc_id q = bc_id r \<and> bc_board_id q = bc_board_id r"
    using e(5) by (intro bexI [of _ "join_board_card db e c"]) simp_all
qed

text \<open>
  Purging a board deletes its edges but not its cards: a card that is on no other board stays in the
  table, where \<open>ListCards\<close> shows it, and no operation finds it any more.
\<close>

theorem purge_board_strands_cards:
  assumes "purge_board b db = Inr db'" "c \<in> set (cards db)" "trimmed_id (c_id c)"
    and "\<forall>r \<in> set (board_card_rows db). bc_id r = c_id c \<longrightarrow> bc_board_id r = trim b"
  shows "c \<in> set (cards db') \<and> load_board_card_by_global_id (c_id c) True db' = Inl ErrNotFound"
proof
  show "c \<in> set (cards db')" using purge_board_db [OF assms(1)] assms(2) by simp
  have "bc_id r \<noteq> c_id c" if "r \<in> set (board_card_rows db')" for r
    using board_rows_purged [OF assms(1) that] assms(4) by metis
  then have "find (\<lambda>r. bc_id r = c_id c \<and> (True \<or> live_card (bc_card r))) (board_card_rows db') = None"
    by (auto simp: find_None_iff)
  then show "load_board_card_by_global_id (c_id c) True db' = Inl ErrNotFound"
    using assms(3) by (simp add: load_board_card_by_global_id_def Let_def trimmed_id_def)
qed

lemma purge_board_strands_cards_witness:
  "\<exists>db'. purge_board ''b1'' (update_board ''b1'' (trash_board_row ''1'' ''ann'' []) sample_db) = Inr db' \<and>
     load_board_card_by_global_id ''x'' True db' = Inl ErrNotFound \<and> map c_id (cards db') = [''x'', ''y'', ''z'']"
proof -
  let ?db = "update_board ''b1'' (trash_board_row ''1'' ''ann'' []) sample_db"
  let ?x = "sample_card ''x'' ''backlog'' ''0000000000000000001''"
  have "\<exists>db'. purge_board ''b1'' ?db = Inr db'" by (intro exI, code_simp)
  then obtain db' where p: "purge_board ''b1'' ?db = Inr db'" by blast
  have x: "?x \<in> set (cards ?db)" by (simp add: update_board_def sample_db_def sample_cards_def)
  have t: "trimmed_id (c_id ?x)" by code_simp
  have b: "trim ''b1'' = ''b1''" by code_simp
  have only: "\<forall>r \<in> set (board_card_rows ?db). bc_id r = c_id ?x \<longrightarrow> bc_board_id r = trim ''b1''"
    unfolding b by (auto simp: board_card_rows_iff update_board_def sample_db_def sample_cards_def)
  have "c_id ?x = ''x''" by (simp add: sample_card_def)
  moreover have "map c_id (cards db') = [''x'', ''y'', ''z'']"
    using purge_board_db [OF p] by (simp add: update_board_def sample_db_def sample_cards_def sample_card_def)
  ultimately show ?thesis using purge_board_strands_cards [OF p x t only] p by simp
qed

lemma second_writer_conflicts_witness:
  "\<exists>b1 r1 db'. move_board_card ''1'' ''2'' ''3'' ''ann'' ''b1'' ''z''
       ((sample_move ''backlog'' ''y'')\<lparr>mi_if_board_updated_at := Some ''2026-01-01T00:00:00Z''\<rparr>) sample_db = Inr (b1, r1, db') \<and>
     trash_board_card ''4'' ''4'' ''bob'' ''b1'' ''x'' [] (Some ''2026-01-01T00:00:00Z'') db' = Inl ErrConflict"
proof -
  let ?v = "''2026-01-01T00:00:00Z''"
  let ?in = "(sample_move ''backlog'' ''y'')\<lparr>mi_if_board_updated_at := Some ?v\<rparr>"
  let ?edge = "card_edge ''b1'' ''x'' ''backlog'' ''0000000000000001024''"
  have "(case move_board_card ''1'' ''2'' ''3'' ''ann'' ''b1'' ''z'' ?in sample_db of
      Inr (b1, r1, db') \<Rightarrow> keys_ok db' \<and> ?edge \<in> set (ref_edges db') \<and> list_ex (\<lambda>c. c_id c = ''x'') (cards db')
    | Inl e \<Rightarrow> False)" by code_simp
  then obtain b1 r1 db' where m: "move_board_card ''1'' ''2'' ''3'' ''ann'' ''b1'' ''z'' ?in sample_db = Inr (b1, r1, db')"
    "keys_ok db'" "?edge \<in> set (ref_edges db')" "list_ex (\<lambda>c. c_id c = ''x'') (cards db')" by (auto split: sum.splits prod.splits)
  from m(4) obtain c where c: "c \<in> set (cards db')" "c_id c = ''x''" by (auto simp: list_ex_iff)
  let ?q = "join_board_card db' ?edge c"
  have q: "?q \<in> set (board_card_rows db')" using m(3) c unfolding board_card_rows_iff by (intro bexI) auto
  have ids: "bc_board_id ?q = ''b1''" "bc_id ?q = ''x''" using c by simp_all
  have "\<exists>r. locate_for_move ''b1'' ''z'' (Some ?v) sample_db = Inr (''b1'', sample_board, r)" by (intro exI, code_simp)
  then obtain r where loc: "locate_for_move ''b1'' ''z'' (Some ?v) sample_db = Inr (''b1'', sample_board, r)" by blast
  have ne: "trim ''3'' \<noteq> trim ?v" "trim ''bob'' \<noteq> []" by code_simp+
  have b: "bc_board_id ?q = b_id sample_board" by (simp add: sample_board_def)
  from second_writer_conflicts [OF m(1,2) loc _ ne q b] show ?thesis unfolding ids using m(1) by simp
qed

section \<open>The state machine of a board\<close>

definition board_state :: "board_row \<Rightarrow> string" where
  "board_state b = canonical_lifecycle_state (b_archived_at b) (b_trashed_at b)"

datatype board_action = ArchiveAction | UnarchiveAction | TrashAction | RestoreAction

text \<open>The machine the operations implement: the next state of a board, or the refusal.\<close>

fun board_machine :: "board_action \<Rightarrow> string \<Rightarrow> board_error + string" where
  "board_machine ArchiveAction st = (if st = lifecycle_trashed then Inl ErrAlreadyTrashed else Inr lifecycle_archived)"
| "board_machine TrashAction st = Inr lifecycle_trashed"
| "board_machine UnarchiveAction st = (if st = lifecycle_archived then Inr lifecycle_active else Inl ErrNotArchived)"
| "board_machine RestoreAction st = (if st = lifecycle_trashed then Inr lifecycle_active else Inl ErrNotTrashed)"

fun run_board_action ::
  "board_action \<Rightarrow> string \<Rightarrow> string \<Rightarrow> string \<Rightarrow> string \<Rightarrow> board_db \<Rightarrow> board_db \<Rightarrow> board_error + board_row \<times> board_db" where
  "run_board_action ArchiveAction now a i why db0 db = archive_board now a i db0 db"
| "run_board_action TrashAction now a i why db0 db = trash_board now a i why db0 db"
| "run_board_action UnarchiveAction now a i why db0 db = unarchive_board a i db0 db"
| "run_board_action RestoreAction now a i why db0 db = restore_board a i db0 db"

text \<open>The states of all boards, by id; and what is no part of a board's state.\<close>

definition board_states :: "board_db \<Rightarrow> string \<Rightarrow> string option" where
  "board_states db i = map_option board_state (find_board i db)"

definition but_lifecycle :: "board_row \<Rightarrow> board_row" where
  "but_lifecycle b = b\<lparr>b_archived_at := None, b_archived_by := None, b_trashed_at := None, b_trashed_by := None, b_trash_reason := None\<rparr>"

definition boards_ok :: "board_db \<Rightarrow> bool" where
  "boards_ok db \<longleftrightarrow> distinct (map b_id (boards db)) \<and> (\<forall>b\<in>set (boards db). board_lanes.one_lane b)"

text \<open>The marks of a board that changes its state: when, by whom and why.\<close>

definition marked_by :: "string \<Rightarrow> string \<Rightarrow> string \<Rightarrow> board_row \<Rightarrow> bool" where
  "marked_by now a why b \<longleftrightarrow>
     (board_state b = lifecycle_archived \<longrightarrow> b_archived_at b = Some now \<and> b_archived_by b = Some (trim a)) \<and>
     (board_state b = lifecycle_trashed \<longrightarrow> b_trashed_at b = Some now \<and> b_trashed_by b = Some (trim a) \<and> b_trash_reason b = Some (trim why)) \<and>
     (board_state b = lifecycle_active \<longrightarrow> b_archived_at b = None \<and> b_trashed_at b = None)"

lemma write_board_found:
  assumes "find_board (trim i) db = Some b" "\<And>x. b_id (f x) = b_id x"
  shows "write_board i f db = Inr (f b, update_board (trim i) f db)"
  using assms find_board_id [OF assms(1)]
  by (simp add: write_board_def Let_def load_board_row_def find_board_update [OF assms(2)])

lemma board_rows_kept:
  "b_id (archive_board_row now a b) = b_id b" "b_id (trash_board_row now a why b) = b_id b" "b_id (unarchive_board_row b) = b_id b"
  "b_id (untrash_board_row b) = b_id b" "but_lifecycle (archive_board_row now a b) = but_lifecycle b"
  "but_lifecycle (trash_board_row now a why b) = but_lifecycle b" "but_lifecycle (unarchive_board_row b) = but_lifecycle b"
  "but_lifecycle (untrash_board_row b) = but_lifecycle b"
  by (simp_all add: archive_board_row_def trash_board_row_def unarchive_board_row_def untrash_board_row_def but_lifecycle_def)

text \<open>An action is refused, changes nothing, or rewrites the row of the board and its state.\<close>

lemma moves_board:
  assumes "find_board (trim i) db = Some b" "run_board_action x now a i why db db = write_board i f db" "\<And>y. b_id (f y) = b_id y"
    "board_machine x (board_state b) = Inr st" "board_lanes.one_lane (f b) \<and> board_lanes.lane (f b) = st"
  shows "run_board_action x now a i why db db = Inr (f b, update_board (trim i) f db) \<and> board_machine x (board_state b) = Inr (board_state (f b)) \<and>
    board_lanes.one_lane (f b) \<and> board_state (f b) = st"
  using assms write_board_found [OF assms(1,3)] by (simp add: board_state_def board_lanes.lane_def)

lemma lane_names: "lifecycle_archived \<noteq> lifecycle_trashed" "lifecycle_active \<noteq> lifecycle_trashed" "lifecycle_active \<noteq> lifecycle_archived"
  by (simp_all add: lifecycle_archived_def lifecycle_trashed_def lifecycle_active_def)

lemma archive_board_cases:
  assumes "find_board (trim i) db = Some b" "open_board a i db = Inr b" "trim now \<noteq> []" "board_lanes.one_lane b"
    "is_set (b_trashed_at b) \<longleftrightarrow> board_state b = lifecycle_trashed" "is_set (b_archived_at b) \<longleftrightarrow> board_state b = lifecycle_archived"
    "\<not> is_set (b_trashed_at b)" "\<not> is_set (b_archived_at b)"
  shows "run_board_action ArchiveAction now a i why db db = Inr (archive_board_row now (trim a) b, update_board (trim i) (archive_board_row now (trim a)) db) \<and>
    board_machine ArchiveAction (board_state b) = Inr (board_state (archive_board_row now (trim a) b)) \<and>
    board_lanes.one_lane (archive_board_row now (trim a) b) \<and> board_state (archive_board_row now (trim a) b) = lifecycle_archived"
  by (rule moves_board [OF assms(1)])
    (use assms in \<open>simp_all add: archive_board_def board_rows_kept board_lanes.archive_lane\<close>)

lemma trash_board_cases:
  assumes "find_board (trim i) db = Some b" "open_board a i db = Inr b" "trim now \<noteq> []" "board_lanes.one_lane b" "\<not> is_set (b_trashed_at b)"
  shows "run_board_action TrashAction now a i why db db =
      Inr (trash_board_row now (trim a) (trim why) b, update_board (trim i) (trash_board_row now (trim a) (trim why)) db) \<and>
    board_machine TrashAction (board_state b) = Inr (board_state (trash_board_row now (trim a) (trim why) b)) \<and>
    board_lanes.one_lane (trash_board_row now (trim a) (trim why) b) \<and> board_state (trash_board_row now (trim a) (trim why) b) = lifecycle_trashed"
  by (rule moves_board [OF assms(1)])
    (use assms in \<open>simp_all add: trash_board_def board_rows_kept board_lanes.trash_lane\<close>)

lemma unarchive_board_cases:
  assumes "find_board (trim i) db = Some b" "open_board a i db = Inr b" "board_lanes.one_lane b" "is_set (b_archived_at b)"
    "board_state b = lifecycle_archived"
  shows "run_board_action UnarchiveAction now a i why db db = Inr (unarchive_board_row b, update_board (trim i) unarchive_board_row db) \<and>
    board_machine UnarchiveAction (board_state b) = Inr (board_state (unarchive_board_row b)) \<and>
    board_lanes.one_lane (unarchive_board_row b) \<and> board_state (unarchive_board_row b) = lifecycle_active"
  by (rule moves_board [OF assms(1)])
    (use assms in \<open>simp_all add: unarchive_board_def guard_res_def board_rows_kept board_lanes.unarchive_lane\<close>)

lemma restore_board_cases:
  assumes "find_board (trim i) db = Some b" "open_board a i db = Inr b" "board_lanes.one_lane b" "is_set (b_trashed_at b)"
    "board_state b = lifecycle_trashed"
  shows "run_board_action RestoreAction now a i why db db = Inr (untrash_board_row b, update_board (trim i) untrash_board_row db) \<and>
    board_machine RestoreAction (board_state b) = Inr (board_state (untrash_board_row b)) \<and>
    board_lanes.one_lane (untrash_board_row b) \<and> board_state (untrash_board_row b) = lifecycle_active"
  by (rule moves_board [OF assms(1)])
    (use assms in \<open>simp_all add: restore_board_def guard_res_def board_rows_kept board_lanes.untrash_lane\<close>)

lemma marked_when:
  "board_state (archive_board_row now (trim a) b) = lifecycle_archived \<Longrightarrow> marked_by now a why (archive_board_row now (trim a) b)"
  "board_state (trash_board_row now (trim a) (trim why) b) = lifecycle_trashed \<Longrightarrow> marked_by now a why (trash_board_row now (trim a) (trim why) b)"
  "board_lanes.one_lane y \<Longrightarrow> board_state y = lifecycle_active \<Longrightarrow> marked_by now a why y"
  using lane_names board_lanes.active_columns [of y]
  by (auto simp: marked_by_def archive_board_row_def trash_board_row_def board_state_def board_lanes.lane_def)

definition rewritten_board :: "string \<Rightarrow> string \<Rightarrow> string \<Rightarrow> board_row \<Rightarrow> (board_row \<Rightarrow> board_row) \<Rightarrow> bool" where
  "rewritten_board now a why b f \<longleftrightarrow> board_lanes.one_lane (f b) \<and> marked_by now a why (f b) \<and> board_state (f b) \<noteq> board_state b \<and>
     (\<forall>y. b_id (f y) = b_id y \<and> but_lifecycle (f y) = but_lifecycle y)"

lemma board_action_cases:
  assumes "find_board (trim i) db = Some b" "trim i \<noteq> []" "trim a \<noteq> []" "trim now \<noteq> []" "board_lanes.one_lane b"
  obtains e where "run_board_action x now a i why db db = Inl e" "board_machine x (board_state b) = Inl e"
  | "run_board_action x now a i why db db = Inr (b, db)" "board_machine x (board_state b) = Inr (board_state b)"
  | f where "run_board_action x now a i why db db = Inr (f b, update_board (trim i) f db)" "board_machine x (board_state b) = Inr (board_state (f b))"
      "rewritten_board now a why b f"
proof -
  have o: "open_board a i db = Inr b" using assms by (simp add: open_board_def load_board_row_def)
  have lane_iff: "is_set (b_trashed_at b) \<longleftrightarrow> board_state b = lifecycle_trashed"
    "is_set (b_archived_at b) \<longleftrightarrow> board_state b = lifecycle_archived"
    using assms(5) lane_names by (auto simp: board_state_def canonical_lifecycle_state_def board_lanes.one_lane_def)
  show thesis
  proof (cases x)
    case ArchiveAction
    show thesis
    proof (cases "is_set (b_trashed_at b) \<or> is_set (b_archived_at b)")
      case True
      then show thesis using that(1,2) o lane_iff lane_names by (auto simp: archive_board_def ArchiveAction)
    next
      case False
      then show thesis using archive_board_cases [OF assms(1) o assms(4,5) lane_iff] that(3) [of "archive_board_row now (trim a)"] lane_iff marked_when(1)
        by (auto simp: ArchiveAction rewritten_board_def board_rows_kept)
    qed
  next
    case TrashAction
    show thesis
    proof (cases "is_set (b_trashed_at b)")
      case True
      then show thesis using that(2) o lane_iff by (simp add: trash_board_def TrashAction)
    next
      case False
      then show thesis using trash_board_cases [OF assms(1) o assms(4,5)] that(3) [of "trash_board_row now (trim a) (trim why)"] lane_iff marked_when(2)
        by (auto simp: TrashAction rewritten_board_def board_rows_kept)
    qed
  next
    case UnarchiveAction
    show thesis
    proof (cases "is_set (b_archived_at b)")
      case True
      then show thesis using unarchive_board_cases [OF assms(1) o assms(5)] that(3) [of unarchive_board_row] lane_iff marked_when(3) lane_names
        by (auto simp: UnarchiveAction rewritten_board_def board_rows_kept)
    next
      case False
      then show thesis using that(1) o lane_iff by (simp add: UnarchiveAction unarchive_board_def guard_res_def)
    qed
  next
    case RestoreAction
    show thesis
    proof (cases "is_set (b_trashed_at b)")
      case True
      then show thesis using restore_board_cases [OF assms(1) o assms(5)] that(3) [of untrash_board_row] lane_iff marked_when(3) lane_names
        by (auto simp: RestoreAction rewritten_board_def board_rows_kept)
    next
      case False
      then show thesis using that(1) o lane_iff by (simp add: RestoreAction restore_board_def guard_res_def)
    qed
  qed
qed

text \<open>
  C25. The four lifecycle operations on boards implement one machine: archive from active or archived, trash from anywhere,
  unarchive from archived only, restore from trashed only.  When nothing else writes in between, a request the machine refuses fails
  with the machine's error; any other moves the board to the machine's next state and no other board anywhere, keeps every board in one
  state, writes who moved the board, when and why, and changes neither the other columns of the board nor any other table.
\<close>

theorem board_state_machine:
  assumes "boards_ok db" "find_board (trim i) db = Some b" "trim i \<noteq> []" "trim a \<noteq> []" "trim now \<noteq> []"
  shows "case run_board_action x now a i why db db of
      Inl e \<Rightarrow> board_machine x (board_state b) = Inl e
    | Inr (b', db') \<Rightarrow> board_machine x (board_state b) = Inr (board_state b') \<and> boards_ok db' \<and>
        board_states db' = (board_states db)(trim i \<mapsto> board_state b') \<and>
        boards db' = map (\<lambda>y. if b_id y = trim i then b' else y) (boards db) \<and> db' = db\<lparr>boards := boards db'\<rparr> \<and>
        but_lifecycle b' = but_lifecycle b \<and> (if board_state b' = board_state b then b' = b else marked_by now a why b')"
proof -
  have b: "b \<in> set (boards db)" "b_id b = trim i" using find_row [OF assms(2) [unfolded find_board_def]] by simp_all
  have lane: "board_lanes.one_lane b" using assms(1) b(1) by (simp add: boards_ok_def)
  have only: "y = b" if "y \<in> set (boards db)" "b_id y = trim i" for y
    using assms(1) that b inj_onD [of b_id "set (boards db)" y b] by (simp add: boards_ok_def distinct_map)
  have idle: "map (\<lambda>y. if b_id y = trim i then b else y) (boards db) = boards db" by (rule map_idI) (use only in auto)
  show ?thesis
  proof (cases rule: board_action_cases [OF assms(2-5) lane, of x why])
    case (1 e)
    then show ?thesis by simp
  next
    case 2
    have states: "board_states db = (board_states db)(trim i \<mapsto> board_state b)"
      by (rule ext) (use assms(2) in \<open>simp add: board_states_def\<close>)
    show ?thesis unfolding 2(1) sum.case prod.case
      by (intro conjI 2(2) assms(1) states idle [symmetric]) simp_all
  next
    case (3 f)
    let ?db = "update_board (trim i) f db"
    have rows: "boards ?db = map (\<lambda>y. if b_id y = trim i then f b else y) (boards db)"
      unfolding update_board_def using only by auto
    note f = 3(3) [unfolded rewritten_board_def]
    have "map b_id (boards ?db) = map b_id (boards db)" using f b(2) by (simp add: rows)
    moreover have "\<forall>y\<in>set (boards ?db). board_lanes.one_lane y" using assms(1) f by (auto simp: boards_ok_def rows)
    ultimately have ok: "boards_ok ?db" using assms(1) unfolding boards_ok_def by metis
    have states: "board_states ?db = (board_states db)(trim i \<mapsto> board_state (f b))"
    proof
      fix j show "board_states ?db j = ((board_states db)(trim i \<mapsto> board_state (f b))) j"
        using assms(2) f find_board_id [of j db]
        by (cases "find_board j db") (auto simp: board_states_def find_board_update)
    qed
    have "?db = db\<lparr>boards := boards ?db\<rparr>" by (simp add: update_board_def)
    then show ?thesis unfolding 3(1,2) sum.case prod.case
      by (intro conjI ok states rows) (assumption | use f in simp)+
  qed
qed

theorem board_state_machine_witness:
  "\<exists>b' db'. run_board_action TrashAction ''1'' ''ann'' ''b1'' ''old'' sample_db sample_db = Inr (b', db') \<and>
     board_states db' ''b1'' = Some lifecycle_trashed \<and> marked_by ''1'' ''ann'' ''old'' b' \<and> boards_ok db'"
proof -
  have f: "find_board (trim ''b1'') sample_db = Some sample_board" "trim ''b1'' \<noteq> []" by code_simp+
  have l: "boards_ok sample_db" by (simp add: boards_ok_def board_lanes.one_lane_def sample_db_def sample_board_def)
  have s: "board_state sample_board = lifecycle_active" "trim ''b1'' = ''b1''" by code_simp+
  have "\<not> isl (run_board_action TrashAction ''1'' ''ann'' ''b1'' ''old'' sample_db sample_db)" by code_simp
  then obtain b' db' where run: "run_board_action TrashAction ''1'' ''ann'' ''b1'' ''old'' sample_db sample_db = Inr (b', db')"
    by (metis isl_def surj_pair sum.exhaust)
  from board_state_machine [OF l f sample_ann, of TrashAction "''old''"] show ?thesis unfolding run
    using lane_names by (auto simp: s run)
qed

text \<open>What the operations do to a board that another request moved after they read it: a board read active and trashed meanwhile
  is archived as well, and in two states at once; a board read archived and trashed meanwhile is taken out of nothing.\<close>

lemma stale_archive_two_lanes:
  assumes "find_board (trim i) db0 = Some b0" "find_board (trim i) db = Some b" "trim i \<noteq> []" "trim a \<noteq> []" "trim now \<noteq> []"
    "board_state b0 = lifecycle_active" "board_lanes.one_lane b0" "is_set (b_trashed_at b)"
  shows "\<exists>b' db'. archive_board now a i db0 db = Inr (b', db') \<and> find_board (trim i) db' = Some b' \<and> \<not> board_lanes.one_lane b'"
proof -
  have "open_board a i db0 = Inr b0" using assms by (simp add: open_board_def load_board_row_def)
  moreover have "\<not> is_set (b_trashed_at b0)" "\<not> is_set (b_archived_at b0)"
    using assms(6,7) lane_names by (auto simp: board_state_def canonical_lifecycle_state_def split: if_splits)
  ultimately show ?thesis
    using write_board_found [OF assms(2) board_rows_kept(1) [of now "trim a"]] assms(2,5,8) find_board_id [OF assms(2)]
    by (simp add: archive_board_def find_board_update board_rows_kept)
      (simp add: board_lanes.one_lane_def archive_board_row_def is_set_def)
qed

end
