(* ===== verification/CardRules.thy ===== *)
theory CardRules
  imports BoardMove
begin

text \<open>
  \<open>core/internal/primitives/boards_store.go\<close>, the pure rules on cards: the checks and normal forms
  applied to a new card (\<open>prepareBoardCardInsert\<close>) and the open-work and risk state that board summaries
  count.  A due date is given with its parsed time in nanoseconds, \<open>None\<close> when it is absent or does not parse.
\<close>

section \<open>A new card\<close>

record add_card_input =
  ai_card_id :: string
  ai_title :: string
  ai_body :: string
  ai_parent_thread_id :: string
  ai_due_at :: "string option"
  ai_definition_of_done :: "string list"
  ai_assignee :: "string option"
  ai_column_key :: string
  ai_before_card_id :: string
  ai_after_card_id :: string
  ai_pinned_document_id :: "string option"
  ai_resolution :: "string option"
  ai_resolution_refs :: "string list"
  ai_refs :: "string list"
  ai_risk :: "string option"

record card_prep =
  cp_card_id :: string
  cp_column_key :: string
  cp_title :: string
  cp_body :: string
  cp_source_thread_id :: string
  cp_backing_thread_id :: string
  cp_refs :: "string list"
  cp_due_at :: "string option"
  cp_definition_of_done :: "string list"
  cp_assignee :: "string option"
  cp_pinned_document_id :: "string option"
  cp_risk :: string
  cp_resolution :: string
  cp_resolution_refs :: "string list"
  cp_before_card_id :: string
  cp_after_card_id :: string

definition normalize_optional_pointer :: "string option \<Rightarrow> string option" where
  "normalize_optional_pointer raw =
     (case raw of None \<Rightarrow> None | Some s \<Rightarrow> let t = trim s in if t = [] then None else Some t)"

definition reject_reserved_card_assignee :: "string option \<Rightarrow> board_error + unit" where
  "reject_reserved_card_assignee assignee =
     (case assignee of
        None \<Rightarrow> Inr ()
      | Some a \<Rightarrow> guard_res (\<not> is_reserved_service_actor_id (trim a))
                    (InvalidBoardRequest ''card assignee must not be the reserved system actor''))"

definition insert_resolution :: "string \<Rightarrow> string option \<Rightarrow> string list \<Rightarrow> string" where
  "insert_resolution columnKey given refs =
     (let r = (case given of None \<Rightarrow> [] | Some s \<Rightarrow> trim s)
      in if columnKey = ''done'' \<and> r = [] \<and> refs \<noteq> [] then ''done'' else r)"

definition check_insert_resolution :: "string \<Rightarrow> string \<Rightarrow> string list \<Rightarrow> board_error + unit" where
  "check_insert_resolution columnKey resolution refs =
     bind_res (guard_res (validate_card_resolution resolution True)
       (InvalidBoardRequest ''card.resolution must be null or done'')) (\<lambda>_.
     if columnKey \<noteq> ''done'' then Inr ()
     else bind_res (guard_res (validate_card_resolution resolution False)
       (InvalidBoardRequest ''card.resolution must be null or done'')) (\<lambda>_.
     bind_res (guard_res (refs \<noteq> []) (InvalidBoardRequest ''done column requires resolution_refs'')) (\<lambda>_.
     guard_res (contains_typed_ref_prefix refs ''artifact'' \<or> contains_typed_ref_prefix refs ''event'')
       (InvalidBoardRequest
          ''resolution_refs must include at least one artifact: or event: ref for resolution done''))))"

definition insert_source_thread :: "string \<Rightarrow> string list \<Rightarrow> board_error + string" where
  "insert_source_thread parentThreadID refs =
     bind_res (if trim parentThreadID \<noteq> [] then Inr (trim parentThreadID)
               else case sole_thread_ref_id_from_refs refs of
                   None \<Rightarrow> Inl (InvalidBoardRequest ''ambiguous thread refs in refs'')
                 | Some i \<Rightarrow> Inr i) (\<lambda>i.
     bind_res (guard_res (i = [] \<or> validate_thread_id i) (InvalidBoardRequest ''thread_id is invalid'')) (\<lambda>_. Inr i))"

text \<open>\<open>uuid1\<close> and \<open>uuid2\<close> are the fresh ids the code draws for the card and its backing thread.\<close>

definition prepare_board_card_insert ::
  "string \<Rightarrow> string \<Rightarrow> add_card_input \<Rightarrow> board_error + card_prep" where
  "prepare_board_card_insert uuid1 uuid2 input =
     (let cardID = (if trim (ai_card_id input) = [] then uuid1 else trim (ai_card_id input))
      in bind_res (guard_res (validate_card_id cardID) (InvalidBoardRequest ''card.id is invalid'')) (\<lambda>_.
     let columnKey = (if trim (ai_column_key input) = [] then board_default_column else trim (ai_column_key input))
     in bind_res (guard_res (validate_board_column_key columnKey)
       (InvalidBoardRequest ''column_key must be one of: backlog, ready, in_progress, blocked, review, done'')) (\<lambda>_.
     bind_res (guard_res (validate_board_placement_anchors (ai_before_card_id input) (ai_after_card_id input))
       (InvalidBoardRequest ''before and after anchors are mutually exclusive'')) (\<lambda>_.
     let refs = unique_sorted_strings (ai_refs input)
     in bind_res (insert_source_thread (ai_parent_thread_id input) refs) (\<lambda>sourceThreadID.
     let resolutionRefs = unique_sorted_strings (ai_resolution_refs input);
         resolution = insert_resolution columnKey (ai_resolution input) resolutionRefs
     in bind_res (check_insert_resolution columnKey resolution resolutionRefs) (\<lambda>_.
     let assignee = normalize_optional_pointer (ai_assignee input)
     in bind_res (reject_reserved_card_assignee assignee) (\<lambda>_.
     Inr \<lparr>cp_card_id = cardID, cp_column_key = columnKey, cp_title = trim (ai_title input),
          cp_body = trim (ai_body input), cp_source_thread_id = sourceThreadID, cp_backing_thread_id = uuid2,
          cp_refs = refs, cp_due_at = normalize_optional_pointer (ai_due_at input),
          cp_definition_of_done = unique_sorted_strings (ai_definition_of_done input),
          cp_assignee = assignee,
          cp_pinned_document_id = normalize_optional_pointer (ai_pinned_document_id input),
          cp_risk = (case ai_risk input of None \<Rightarrow> canonical_board_card_risk [] | Some r \<Rightarrow> canonical_board_card_risk r),
          cp_resolution = resolution, cp_resolution_refs = resolutionRefs,
          cp_before_card_id = ai_before_card_id input, cp_after_card_id = ai_after_card_id input\<rparr>)))))))"

section \<open>Open work and risk\<close>

definition board_card_is_open_work_item :: "string \<Rightarrow> string \<Rightarrow> bool" where
  "board_card_is_open_work_item columnKey resolution \<longleftrightarrow>
     trim columnKey \<noteq> ''done'' \<or> canonicalize_stored_card_resolution resolution \<noteq> ''done''"

definition counts_as_open_work_item :: "board_card \<Rightarrow> bool" where
  "counts_as_open_work_item r \<longleftrightarrow>
     \<not> is_set (c_trashed_at (bc_card r)) \<and> \<not> is_set (c_archived_at (bc_card r)) \<and>
     board_card_is_open_work_item (bc_column_key r) (null_text (c_resolution (bc_card r)))"

definition parse_board_card_due_at :: "(string \<Rightarrow> int option) \<Rightarrow> board_card \<Rightarrow> int option" where
  "parse_board_card_due_at parse r =
     (if \<not> is_set (c_due_at (bc_card r)) then None else parse (trim (null_text (c_due_at (bc_card r)))))"

definition board_card_risk_state :: "(string \<Rightarrow> int option) \<Rightarrow> board_card \<Rightarrow> int \<Rightarrow> int \<Rightarrow> string" where
  "board_card_risk_state parse r now riskHorizon =
     (let due = parse_board_card_due_at parse r
      in if \<not> counts_as_open_work_item r then []
         else if trim (bc_column_key r) = ''blocked'' then
           (case due of
              Some d \<Rightarrow> if \<not> d > now + riskHorizon \<and> d < now then ''overdue'' else ''blocked''
            | None \<Rightarrow> ''blocked'')
         else case due of
             None \<Rightarrow> []
           | Some d \<Rightarrow> if d > now + riskHorizon then [] else if d < now then ''overdue'' else ''due_soon'')"

section \<open>Properties\<close>

lemma insert_resolution_trim: "trim (insert_resolution k g refs) = insert_resolution k g refs"
  by (auto simp: insert_resolution_def Let_def split: option.splits)

lemma check_insert_done:
  assumes "check_insert_resolution k (insert_resolution k g refs) refs = Inr u"
  shows "insert_resolution k g refs \<in> {[], ''done''}"
    "k = ''done'' \<Longrightarrow> insert_resolution k g refs = ''done'' \<and> evidence_refs refs"
  using assms insert_resolution_trim [of k g refs]
  by (auto simp: check_insert_resolution_def res_iffs validate_card_resolution_def evidence_refs_def split: if_splits)

lemma trim_default [simp]: "trim board_default_column = board_default_column"
  by code_simp

lemma validate_board_column_key_trim:
  "validate_board_column_key k \<Longrightarrow> trim k = k \<Longrightarrow> k \<in> set canonical_board_column_order"
  by (simp add: validate_board_column_key_def)

text \<open>
  A card that passes the checks has a valid id and one of the six columns; its ref lists are sorted
  without repetition; its resolution is empty or \<open>done\<close>; a card created in \<open>done\<close> is resolved with an artifact
  or an event among its refs; it is never assigned to the system actor.
\<close>

theorem prepared_card_ok:
  assumes "prepare_board_card_insert uuid1 uuid2 input = Inr p"
  shows "validate_card_id (cp_card_id p) \<and>
     cp_column_key p \<in> set canonical_board_column_order \<and>
     sorted (cp_refs p) \<and> distinct (cp_refs p) \<and> sorted (cp_resolution_refs p) \<and> distinct (cp_resolution_refs p) \<and>
     cp_resolution p \<in> {[], ''done''} \<and>
     (cp_column_key p = ''done'' \<longrightarrow> cp_resolution p = ''done'' \<and> evidence_refs (cp_resolution_refs p)) \<and>
     (\<forall>a. cp_assignee p = Some a \<longrightarrow> \<not> is_reserved_service_actor_id a) \<and>
     (cp_before_card_id p = ai_before_card_id input \<and> cp_after_card_id p = ai_after_card_id input \<and>
      (trim (cp_before_card_id p) = [] \<or> trim (cp_after_card_id p) = []))"
proof -
  let ?k = "if trim (ai_column_key input) = [] then board_default_column else trim (ai_column_key input)"
  let ?refs = "unique_sorted_strings (ai_resolution_refs input)"
  have k: "trim ?k = ?k" by simp
  obtain u where c: "check_insert_resolution ?k (insert_resolution ?k (ai_resolution input) ?refs) ?refs = Inr u"
    and v: "validate_board_column_key ?k"
    and p: "cp_column_key p = ?k" "cp_resolution p = insert_resolution ?k (ai_resolution input) ?refs"
      "cp_resolution_refs p = ?refs" "cp_refs p = unique_sorted_strings (ai_refs input)"
      "cp_assignee p = normalize_optional_pointer (ai_assignee input)" "validate_card_id (cp_card_id p)"
      "cp_before_card_id p = ai_before_card_id input" "cp_after_card_id p = ai_after_card_id input"
    and a: "validate_board_placement_anchors (ai_before_card_id input) (ai_after_card_id input)"
    and r: "reject_reserved_card_assignee (normalize_optional_pointer (ai_assignee input)) = Inr ()"
    using assms by (auto simp: prepare_board_card_insert_def Let_def res_iffs)
  have trimmed: "normalize_optional_pointer x = Some y \<Longrightarrow> trim y = y" for x y
    by (auto simp: normalize_optional_pointer_def Let_def split: option.splits if_splits)
  show ?thesis
    using check_insert_done [OF c] validate_board_column_key_trim [OF v k] a r trimmed
    by (auto simp: p sorted_unique_sorted validate_board_placement_anchors_def reject_reserved_card_assignee_def
        res_iffs split: option.splits)
qed

definition done_card_input :: add_card_input where
  "done_card_input =
     \<lparr>ai_card_id = ''c9'', ai_title = ''Ship'', ai_body = [], ai_parent_thread_id = [], ai_due_at = None,
      ai_definition_of_done = [], ai_assignee = Some '' bob '', ai_column_key = ''done'', ai_before_card_id = [],
      ai_after_card_id = [], ai_pinned_document_id = None, ai_resolution = None,
      ai_resolution_refs = [''event:e1''], ai_refs = [''topic:t'', ''doc:d''], ai_risk = Some ''HIGH''\<rparr>"

lemma prepared_card_ok_witness:
  "\<exists>p. prepare_board_card_insert ''u1'' ''u2'' done_card_input = Inr p \<and> cp_resolution p = ''done'' \<and>
     evidence_refs (cp_resolution_refs p)"
proof -
  have "\<exists>p. prepare_board_card_insert ''u1'' ''u2'' done_card_input = Inr p" by (intro exI, code_simp)
  then obtain p where p: "prepare_board_card_insert ''u1'' ''u2'' done_card_input = Inr p" by blast
  have "(case prepare_board_card_insert ''u1'' ''u2'' done_card_input of Inr p \<Rightarrow> cp_column_key p = ''done'' | Inl e \<Rightarrow> False)"
    by code_simp
  with p prepared_card_ok [OF p] show ?thesis by simp
qed

text \<open>
  A new card outside \<open>done\<close> may be given a resolution, which \<open>MoveBoardCard\<close> refuses ("resolution requires
  column_key done").
\<close>

lemma new_card_resolved_in_backlog:
  "\<exists>p. prepare_board_card_insert ''u1'' ''u2'' (done_card_input\<lparr>ai_column_key := ''backlog'', ai_resolution := Some ''done'',
       ai_resolution_refs := []\<rparr>) = Inr p"
  by (intro exI, code_simp)

text \<open>
  With a horizon that is not negative the risk state of a card is \<open>overdue\<close> exactly for open work past its due
  date, else \<open>blocked\<close> for open work in the blocked column, else \<open>due_soon\<close> up to the horizon, else empty; and open
  work is what is neither archived, trashed, nor resolved in \<open>done\<close>.
\<close>

theorem risk_state_correct:
  assumes "0 \<le> horizon"
  shows "board_card_risk_state parse r now horizon =
    (case parse_board_card_due_at parse r of
       Some d \<Rightarrow> if \<not> counts_as_open_work_item r then [] else if d < now then ''overdue''
                 else if trim (bc_column_key r) = ''blocked'' then ''blocked''
                 else if d \<le> now + horizon then ''due_soon'' else []
     | None \<Rightarrow> if counts_as_open_work_item r \<and> trim (bc_column_key r) = ''blocked'' then ''blocked'' else []) \<and>
    (counts_as_open_work_item r \<longleftrightarrow>
       canonical_lifecycle_state (c_archived_at (bc_card r)) (c_trashed_at (bc_card r)) = lifecycle_active \<and>
       \<not> (trim (bc_column_key r) = ''done'' \<and> stored_resolution (bc_card r) = ''done''))"
  using assms
  by (auto simp: board_card_risk_state_def Let_def counts_as_open_work_item_def board_card_is_open_work_item_def
      canonical_lifecycle_state_def stored_resolution_def split: option.splits)

lemma risk_state_correct_witness:
  "board_card_risk_state (\<lambda>s. if s = ''d'' then Some 100 else None)
     \<lparr>bc_board_id = ''b1'', bc_board_handle = None, bc_column_key = ''ready'', bc_rank = [],
      bc_card = (sample_card ''x'' ''ready'' [])\<lparr>c_due_at := Some ''d''\<rparr>\<rparr> 90 10 = ''due_soon''"
proof -
  let ?r = "\<lparr>bc_board_id = ''b1'', bc_board_handle = None, bc_column_key = ''ready'', bc_rank = [],
      bc_card = (sample_card ''x'' ''ready'' [])\<lparr>c_due_at := Some ''d''\<rparr>\<rparr>"
  have d: "parse_board_card_due_at (\<lambda>s. if s = ''d'' then Some 100 else None) ?r = Some 100" by code_simp
  have o: "counts_as_open_work_item ?r" "trim (bc_column_key ?r) \<noteq> ''blocked''" by code_simp+
  have "(0 :: int) \<le> 10" by simp
  from risk_state_correct [OF this, of "\<lambda>s. if s = ''d'' then Some 100 else None" ?r 90] show ?thesis
    unfolding d using o by simp
qed

end
