(* ===== verification/Registration.thy ===== *)
theory Registration
  imports GoTime
begin

text \<open>
  \<open>core/internal/auth/registration.go\<close>: what an agent registers about itself so that mentions of it can be routed, and
  \<open>core/internal/router/models.go\<close>: the check-in of its bridge.  In the metadata of an agent a registration is JSON; here it
  is the record, and what reading and writing do to it is \<open>normalize_agent_registration\<close>.
\<close>

record agent_registration =
  rg_version :: string
  rg_handle :: string
  rg_actor_id :: string
  rg_delivery_mode :: string
  rg_driver_kind :: string
  rg_resume_policy :: string
  rg_status :: string
  rg_bindings :: "(string \<times> bool) list"
  rg_adapter_kind :: string
  rg_bridge_instance_id :: string
  rg_bridge_key :: string
  rg_checked_in_at :: string
  rg_expires_at :: string
  rg_bridge_workspace_ids :: "string list"
  rg_proof :: string
  rg_checkin_ttl :: int
  rg_updated_at :: string

definition agent_registration_version :: string where "agent_registration_version = ''agent-registration/v1''"

text \<open>The first binding of a workspace counts; the bindings are sorted by workspace.\<close>

fun first_bindings :: "string set \<Rightarrow> (string \<times> bool) list \<Rightarrow> (string \<times> bool) list" where
  "first_bindings seen [] = []"
| "first_bindings seen ((w0, enabled) # bs) =
     (let w = trim w0
      in if w = [] \<or> w \<in> seen then first_bindings seen bs else (w, enabled) # first_bindings (insert w seen) bs)"

definition default_text :: "string \<Rightarrow> string \<Rightarrow> string" where
  "default_text d s = (if trim s = [] then d else trim s)"

definition normalize_agent_registration :: "agent_registration \<Rightarrow> agent_registration" where
  "normalize_agent_registration r =
     \<lparr>rg_version = default_text agent_registration_version (rg_version r), rg_handle = trim (rg_handle r),
      rg_actor_id = trim (rg_actor_id r), rg_delivery_mode = default_text ''pull'' (rg_delivery_mode r),
      rg_driver_kind = default_text ''custom'' (rg_driver_kind r),
      rg_resume_policy = default_text ''resume_or_create'' (rg_resume_policy r),
      rg_status = default_text ''pending'' (rg_status r), rg_bindings = sort_key fst (first_bindings {} (rg_bindings r)),
      rg_adapter_kind = trim (rg_adapter_kind r), rg_bridge_instance_id = trim (rg_bridge_instance_id r),
      rg_bridge_key = trim (rg_bridge_key r), rg_checked_in_at = trim (rg_checked_in_at r),
      rg_expires_at = trim (rg_expires_at r), rg_bridge_workspace_ids = unique_sorted_strings (rg_bridge_workspace_ids r),
      rg_proof = trim (rg_proof r), rg_checkin_ttl = max 0 (rg_checkin_ttl r), rg_updated_at = trim (rg_updated_at r)\<rparr>"

definition supports_workspace :: "agent_registration \<Rightarrow> string \<Rightarrow> bool" where
  "supports_workspace r workspaceID =
     (let target = trim workspaceID
      in target \<noteq> [] \<and> list_ex (\<lambda>(w, enabled). enabled \<and> trim w = target) (rg_bindings r))"

section \<open>The check-in of a bridge\<close>

record bridge_checkin =
  bc_handle :: string
  bc_actor_id :: string
  bc_workspace_id :: string
  bc_workspace_ids :: "string list"
  bc_bridge_instance_id :: string
  bc_checked_in_at :: string
  bc_expires_at :: string
  bc_proof :: string

definition effective_workspace_ids :: "bridge_checkin \<Rightarrow> string list" where
  "effective_workspace_ids c =
     (let out = unique_from {} (bc_workspace_ids c); w = trim (bc_workspace_id c)
      in if w \<noteq> [] \<and> w \<notin> set out then w # out else out)"

text \<open>\<open>parse\<close> is the parser of times; \<open>VerifyBridgeCheckinSignature\<close> is a parameter where it is used.\<close>

definition ready_for_workspace :: "(string \<Rightarrow> int option) \<Rightarrow> bridge_checkin \<Rightarrow> string \<Rightarrow> int \<Rightarrow> bool" where
  "ready_for_workspace parse c workspaceID now =
     (trim workspaceID \<noteq> [] \<and> trim workspaceID \<in> trim ` set (effective_workspace_ids c) \<and>
      (if trim (bc_expires_at c) = [] then False
       else case parse (trim (bc_expires_at c)) of None \<Rightarrow> False | Some t \<Rightarrow> now \<le> t))"

section \<open>Normal registrations\<close>

lemma default_text_again [simp]: "trim d = d \<Longrightarrow> d \<noteq> [] \<Longrightarrow> default_text d (default_text d s) = default_text d s"
  by (auto simp: default_text_def)

lemma first_bindings_normal:
  "(\<And>w b. (w, b) \<in> set bs \<Longrightarrow> trim w = w \<and> w \<noteq> [] \<and> w \<notin> seen) \<Longrightarrow> distinct (map fst bs) \<Longrightarrow> first_bindings seen bs = bs"
proof (induction bs arbitrary: seen)
  case (Cons p bs)
  obtain w b where p: "p = (w, b)" by (cases p)
  have w: "trim w = w" "w \<noteq> []" "w \<notin> seen" using Cons.prems(1) p by auto
  have "first_bindings (insert w seen) bs = bs"
  proof (rule Cons.IH)
    fix v c assume v: "(v, c) \<in> set bs"
    then have "v \<noteq> w" using Cons.prems(2) p by force
    with v show "trim v = v \<and> v \<noteq> [] \<and> v \<notin> insert w seen" using Cons.prems(1) by auto
  qed (use Cons.prems(2) in simp)
  then show ?case using w p by (simp add: Let_def)
qed simp

lemma first_bindings_ok:
  "(\<forall>(w, b)\<in>set (first_bindings seen bs). trim w = w \<and> w \<noteq> [] \<and> w \<notin> seen) \<and> distinct (map fst (first_bindings seen bs))"
proof (induction seen bs rule: first_bindings.induct)
  case (2 seen w0 enabled bs)
  show ?case
  proof (cases "trim w0 = [] \<or> trim w0 \<in> seen")
    case False
    then have "(\<forall>(w, b)\<in>set (first_bindings (insert (trim w0) seen) bs). trim w = w \<and> w \<noteq> [] \<and> w \<notin> insert (trim w0) seen) \<and>
        distinct (map fst (first_bindings (insert (trim w0) seen) bs))"
      using 2(2) by simp
    with False show ?thesis by (auto simp: Let_def)
  qed (use 2(1) in \<open>simp add: Let_def\<close>)
qed simp

lemma normal_bindings: "sort_key fst (first_bindings {} (sort_key fst (first_bindings {} bs))) = sort_key fst (first_bindings {} bs)"
proof -
  note ok = first_bindings_ok [of "{}" bs]
  have dist: "distinct (map fst (sort_key fst (first_bindings {} bs)))" using ok by (simp add: distinct_map)
  have "first_bindings {} (sort_key fst (first_bindings {} bs)) = sort_key fst (first_bindings {} bs)"
    by (rule first_bindings_normal) (use ok dist in auto)
  then show ?thesis by (simp add: sort_key_id_if_sorted)
qed

lemma default_texts: "trim ''pull'' = ''pull''" "trim ''custom'' = ''custom''" "trim ''resume_or_create'' = ''resume_or_create''"
  "trim ''pending'' = ''pending''" "trim agent_registration_version = agent_registration_version" "agent_registration_version \<noteq> []"
  by code_simp+

text \<open>
  A registration that was written to the metadata of an agent is read back as it was.
\<close>

theorem stored_registration_reads_back:
  "normalize_agent_registration (normalize_agent_registration r) = normalize_agent_registration r"
  by (simp add: normalize_agent_registration_def normal_bindings default_texts)

lemma normal_binding:
  "(w, b) \<in> set (rg_bindings (normalize_agent_registration r)) \<Longrightarrow> trim w = w \<and> w \<noteq> []"
  using first_bindings_ok [of "{}" "rg_bindings r"] by (auto simp: normalize_agent_registration_def)

lemma status_normal: "trim (rg_status (normalize_agent_registration r)) = rg_status (normalize_agent_registration r)"
  "rg_status (normalize_agent_registration r) \<noteq> []"
  by (auto simp: normalize_agent_registration_def default_text_def default_texts)

end
