(* ===== verification/AuthTables.thy ===== *)
theory AuthTables
  imports Registration
begin

text \<open>
  \<open>core/internal/auth\<close>, the data: the rows of the agent, key, passkey, session, token, invite, bootstrap,
  grant and audit tables (\<open>storage/migrations.go\<close>), the store's settings and its errors.  A stored timestamp is a \<open>stamp\<close>
  (theory \<open>GoTime\<close>): Go compares the time, SQL compares the text.  The SHA-256 hash is the parameter
  \<open>hash\<close>; random ids and tokens are arguments.
\<close>

record agent_row =
  ag_id :: string
  ag_username :: string
  ag_actor_id :: string
  ag_created_at :: stamp
  ag_updated_at :: stamp
  ag_revoked_at :: "stamp option"
  ag_principal_kind :: string
  ag_auth_method :: string
  ag_auth_admin :: bool
  ag_external_subject :: "string option"
  ag_registration :: "agent_registration option"

record agent_key_row =
  k_id :: string
  k_agent_id :: string
  k_public_key :: string
  k_algorithm :: string
  k_created_at :: stamp
  k_revoked_at :: "stamp option"

record refresh_session =
  rs_id :: string
  rs_agent_id :: string
  rs_token_hash :: string
  rs_created_at :: stamp
  rs_expires_at :: stamp
  rs_revoked_at :: "stamp option"
  rs_replaced_by :: "string option"

record access_token_row =
  at_id :: string
  at_agent_id :: string
  at_token_hash :: string
  at_created_at :: stamp
  at_expires_at :: stamp
  at_revoked_at :: "stamp option"

record invite_row =
  inv_id :: string
  inv_token_hash :: string
  inv_kind :: string
  inv_created_by_agent_id :: string
  inv_created_by_actor_id :: string
  inv_created_at :: stamp
  inv_expires_at :: "stamp option"
  inv_consumed_at :: "stamp option"
  inv_consumed_by_agent_id :: "string option"
  inv_consumed_by_actor_id :: "string option"
  inv_revoked_at :: "stamp option"
  inv_revoked_by_agent_id :: "string option"
  inv_revoked_by_actor_id :: "string option"

record bootstrap_row =
  bs_token_hash :: string
  bs_consumed_at :: stamp
  bs_agent_id :: string
  bs_actor_id :: string

record audit_event =
  ae_type :: string
  ae_occurred_at :: stamp
  ae_actor_agent_id :: "string option"
  ae_actor_actor_id :: "string option"
  ae_subject_agent_id :: "string option"
  ae_subject_actor_id :: "string option"
  ae_invite_id :: "string option"

record passkey_row =
  pc_credential_id :: string
  pc_agent_id :: string
  pc_user_handle :: string
  pc_sign_count :: int

record auth_db =
  agents :: "agent_row list"
  actors :: "(string \<times> string) list"
  agent_keys :: "agent_key_row list"
  refresh_sessions :: "refresh_session list"
  access_tokens :: "access_token_row list"
  used_assertions :: "(string \<times> stamp) list"
  invites :: "invite_row list"
  bootstrap :: "bootstrap_row option"
  audit_events :: "audit_event list"
  passkeys :: "passkey_row list"
  grant_jtis :: "(string \<times> stamp) list"

record auth_config =
  access_token_ttl :: int
  refresh_token_ttl :: int
  max_assertion_skew :: int
  bootstrap_token_hash :: string
  allow_linked_actor :: bool

text \<open>\<open>DatabaseError\<close> stands for a constraint violation that the code does not translate.\<close>

datatype auth_error =
    InvalidRequest string
  | AuthRequired
  | InvalidToken
  | BootstrapRequired
  | InviteRequired
  | InviteNotFound
  | InviteKindMismatch
  | AgentNotFound
  | AgentRevoked
  | KeyMismatch
  | UsernameTaken
  | LastActivePrincipal
  | AccountDisabled
  | AccountStatusUnreachable
  | PasskeyNotFound
  | ExternalGrantReplay
  | DatabaseError

record principal =
  pr_agent_id :: string
  pr_actor_id :: string
  pr_username :: string
  pr_kind :: string
  pr_auth_method :: string
  pr_auth_admin :: bool

section \<open>Kinds, usernames, audit\<close>

definition kind_human :: string where "kind_human = ''human''"
definition kind_agent :: string where "kind_agent = ''agent''"
definition kind_any :: string where "kind_any = ''any''"

definition normalize_principal_kind :: "string \<Rightarrow> bool \<Rightarrow> string option" where
  "normalize_principal_kind raw allowAny =
     (let k = to_lower (trim raw)
      in if k = kind_human then Some kind_human
         else if k = kind_agent then Some kind_agent
         else if k = kind_any \<and> allowAny then Some kind_any
         else None)"

definition username_char :: "char \<Rightarrow> bool" where
  "username_char c \<longleftrightarrow>
     (CHR ''a'' \<le> c \<and> c \<le> CHR ''z'') \<or> (CHR ''0'' \<le> c \<and> c \<le> CHR ''9'') \<or>
     c = CHR ''_'' \<or> c = CHR ''-'' \<or> c = CHR ''.''"

definition normalize_username :: "string \<Rightarrow> auth_error + string" where
  "normalize_username raw =
     (let u = to_lower (trim raw)
      in if u = [] then Inl (InvalidRequest ''username is required'')
         else if length u < 3 \<or> length u > 64
           then Inl (InvalidRequest ''username must be between 3 and 64 characters'')
         else if \<not> list_all username_char u
           then Inl (InvalidRequest
             ''username must contain only lowercase letters, numbers, underscore, dash, or dot'')
         else Inr u)"

text \<open>\<open>principalKindExpr\<close>: the metadata's kind, else human for an agent with a passkey.\<close>

definition has_passkey :: "auth_db \<Rightarrow> string \<Rightarrow> bool" where
  "has_passkey db i \<longleftrightarrow> list_ex (\<lambda>p. pc_agent_id p = i) (passkeys db)"

definition principal_kind :: "auth_db \<Rightarrow> agent_row \<Rightarrow> string" where
  "principal_kind db a =
     (if ag_principal_kind a \<noteq> [] then ag_principal_kind a
      else if has_passkey db (ag_id a) then kind_human else kind_agent)"

definition auth_method :: "auth_db \<Rightarrow> agent_row \<Rightarrow> string" where
  "auth_method db a =
     (if ag_auth_method a \<noteq> [] then ag_auth_method a
      else if has_passkey db (ag_id a) then ''passkey'' else ''public_key'')"

definition record_audit_event ::
  "string \<Rightarrow> stamp \<Rightarrow> string \<Rightarrow> string \<Rightarrow> string \<Rightarrow> string \<Rightarrow> string \<Rightarrow> auth_db \<Rightarrow> auth_db" where
  "record_audit_event typ at actorAgent actorActor subjectAgent subjectActor inviteID db =
     db\<lparr>audit_events := audit_events db @
       [\<lparr>ae_type = trim typ, ae_occurred_at = at,
         ae_actor_agent_id = nullable_string actorAgent, ae_actor_actor_id = nullable_string actorActor,
         ae_subject_agent_id = nullable_string subjectAgent, ae_subject_actor_id = nullable_string subjectActor,
         ae_invite_id = nullable_string inviteID\<rparr>]\<rparr>"

definition find_agent :: "string \<Rightarrow> auth_db \<Rightarrow> agent_row option" where
  "find_agent i db = find (\<lambda>a. ag_id a = i) (agents db)"

lemma audit_frame [simp]:
  "agents (record_audit_event t at a b c d e db) = agents db"
  "actors (record_audit_event t at a b c d e db) = actors db"
  "agent_keys (record_audit_event t at a b c d e db) = agent_keys db"
  "refresh_sessions (record_audit_event t at a b c d e db) = refresh_sessions db"
  "access_tokens (record_audit_event t at a b c d e db) = access_tokens db"
  "used_assertions (record_audit_event t at a b c d e db) = used_assertions db"
  "invites (record_audit_event t at a b c d e db) = invites db"
  "bootstrap (record_audit_event t at a b c d e db) = bootstrap db"
  "passkeys (record_audit_event t at a b c d e db) = passkeys db"
  "grant_jtis (record_audit_event t at a b c d e db) = grant_jtis db"
  by (simp_all add: record_audit_event_def)

lemma normalize_username_ok:
  "normalize_username raw = Inr u \<Longrightarrow> 3 \<le> length u \<and> length u \<le> 64 \<and> list_all username_char u"
  by (auto simp: normalize_username_def Let_def split: if_splits)

end
