(* ===== verification/Onboarding.thy ===== *)
theory Onboarding
  imports AuthTables "HOL-Library.Product_Lexorder"
begin

text \<open>
  \<open>core/internal/auth/onboarding.go\<close>: who may register.  The first principal uses the bootstrap token, once;
  later ones an invite, which has a kind, may expire, and can be revoked.  A claim is resolved when the request comes
  in and consumed inside the registration's transaction.
\<close>

section \<open>Operations\<close>

datatype onboarding_mode = ModeBootstrap | ModeInvite | ModeOther string

record onboarding_claim =
  cl_mode :: onboarding_mode
  cl_principal_kind :: string
  cl_token_hash :: string
  cl_invite_id :: string
  cl_invite_kind :: string

definition bootstrap_registration_available :: "auth_config \<Rightarrow> auth_db \<Rightarrow> bool" where
  "bootstrap_registration_available cfg db \<longleftrightarrow> trim (bootstrap_token_hash cfg) \<noteq> [] \<and> bootstrap db = None"

text \<open>\<open>WithBootstrapToken\<close>; \<open>placeholder\<close> is the sample token of the deployment files.\<close>

definition with_bootstrap_token :: "(string \<Rightarrow> string) \<Rightarrow> string \<Rightarrow> string \<Rightarrow> auth_config \<Rightarrow> auth_config" where
  "with_bootstrap_token hash placeholder token cfg =
     (let t = trim token
      in cfg\<lparr>bootstrap_token_hash := (if t = [] \<or> t = placeholder then [] else hash t)\<rparr>)"

definition resolve_invite_claim ::
  "(string \<Rightarrow> string) \<Rightarrow> int \<Rightarrow> string \<Rightarrow> string \<Rightarrow> auth_db \<Rightarrow> auth_error + onboarding_claim" where
  "resolve_invite_claim hash now inviteToken principalKind db =
     (case find (\<lambda>i. inv_token_hash i = hash inviteToken) (invites db) of
        None \<Rightarrow> Inl InvalidToken
      | Some i \<Rightarrow>
          if inv_revoked_at i \<noteq> None \<or> inv_consumed_at i \<noteq> None then Inl InvalidToken
          else if (case inv_expires_at i of None \<Rightarrow> False | Some e \<Rightarrow> \<not> stamp_ns e > now) then Inl InvalidToken
          else if inv_kind i \<noteq> kind_any \<and> inv_kind i \<noteq> principalKind then Inl InviteKindMismatch
          else Inr \<lparr>cl_mode = ModeInvite, cl_principal_kind = principalKind, cl_token_hash = hash inviteToken,
                    cl_invite_id = inv_id i, cl_invite_kind = inv_kind i\<rparr>)"

definition resolve_onboarding_claim ::
  "auth_config \<Rightarrow> (string \<Rightarrow> string) \<Rightarrow> int \<Rightarrow> string \<Rightarrow> string \<Rightarrow> string \<Rightarrow> auth_db \<Rightarrow> auth_error + onboarding_claim" where
  "resolve_onboarding_claim cfg hash now bootstrapToken0 inviteToken0 principalKind db =
     (let bootstrapToken = trim bootstrapToken0; inviteToken = trim inviteToken0
      in if normalize_principal_kind principalKind False = None
           then Inl (InvalidRequest ''kind must be human, agent'')
         else if bootstrapToken \<noteq> [] \<and> inviteToken \<noteq> []
           then Inl (InvalidRequest ''provide only one of bootstrap_token or invite_token'')
         else if bootstrap_registration_available cfg db then
           (if bootstrapToken = [] then Inl BootstrapRequired
            else if hash bootstrapToken \<noteq> bootstrap_token_hash cfg then Inl InvalidToken
            else Inr \<lparr>cl_mode = ModeBootstrap, cl_principal_kind = principalKind,
                      cl_token_hash = bootstrap_token_hash cfg, cl_invite_id = [], cl_invite_kind = []\<rparr>)
         else if inviteToken = [] then (if bootstrapToken \<noteq> [] then Inl InvalidToken else Inl InviteRequired)
         else resolve_invite_claim hash now inviteToken principalKind db)"

text \<open>
  \<open>id0\<close> and \<open>token\<close> are the new invite's id and secret; an id or a token hash that is taken violates a unique index.
\<close>

definition create_invite ::
  "(string \<Rightarrow> string) \<Rightarrow> int \<Rightarrow> int \<Rightarrow> string \<Rightarrow> string \<Rightarrow> string \<Rightarrow> string \<Rightarrow> string \<Rightarrow> int option \<Rightarrow> auth_db \<Rightarrow>
     auth_error + invite_row \<times> auth_db" where
  "create_invite hash now0 now id0 token byAgent byActor kind0 expires db =
     (case normalize_principal_kind kind0 True of
        None \<Rightarrow> Inl (InvalidRequest ''kind must be human, agent, or any'')
      | Some kind \<Rightarrow>
          if trim byAgent = [] \<or> trim byActor = [] then Inl AuthRequired
          else if (case expires of None \<Rightarrow> False | Some e \<Rightarrow> \<not> e > now0)
            then Inl (InvalidRequest ''expires_at must be in the future'')
          else if list_ex (\<lambda>i. inv_id i = id0 \<or> inv_token_hash i = hash token) (invites db) then Inl DatabaseError
          else let row = \<lparr>inv_id = id0, inv_token_hash = hash token, inv_kind = kind,
                          inv_created_by_agent_id = trim byAgent, inv_created_by_actor_id = trim byActor,
                          inv_created_at = Stamp now, inv_expires_at = map_option Stamp expires,
                          inv_consumed_at = None, inv_consumed_by_agent_id = None, inv_consumed_by_actor_id = None,
                          inv_revoked_at = None, inv_revoked_by_agent_id = None, inv_revoked_by_actor_id = None\<rparr>
               in Inr (row, record_audit_event ''invite_created'' (Stamp now) (trim byAgent) (trim byActor) [] [] id0
                              (db\<lparr>invites := invites db @ [row]\<rparr>)))"

definition get_invite_by_id :: "string \<Rightarrow> auth_db \<Rightarrow> auth_error + invite_row" where
  "get_invite_by_id inviteID db =
     (let i = trim inviteID
      in if i = [] then Inl InviteNotFound
         else case find (\<lambda>r. inv_id r = i) (invites db) of None \<Rightarrow> Inl InviteNotFound | Some r \<Rightarrow> Inr r)"

text \<open>\<open>ORDER BY created_at DESC, id DESC\<close>.\<close>

definition list_invites :: "auth_db \<Rightarrow> invite_row list" where
  "list_invites db = rev (sort_key (\<lambda>i. (inv_created_at i, inv_id i)) (rev (invites db)))"

definition update_invites :: "(invite_row \<Rightarrow> bool) \<Rightarrow> (invite_row \<Rightarrow> invite_row) \<Rightarrow> auth_db \<Rightarrow> auth_db" where
  "update_invites P f db = db\<lparr>invites := map (\<lambda>i. if P i then f i else i) (invites db)\<rparr>"

definition revocable :: "string \<Rightarrow> invite_row \<Rightarrow> bool" where
  "revocable i r \<longleftrightarrow> inv_id r = i \<and> inv_revoked_at r = None"

definition revoke_invite ::
  "int \<Rightarrow> string \<Rightarrow> string \<Rightarrow> string \<Rightarrow> auth_db \<Rightarrow> auth_error + invite_row \<times> auth_db" where
  "revoke_invite now inviteID byAgent byActor db =
     (let i = trim inviteID
      in if i = [] then Inl (InvalidRequest ''invite_id is required'')
         else if trim byAgent = [] \<or> trim byActor = [] then Inl AuthRequired
         else let db1 = update_invites (revocable i)
                    (\<lambda>r. r\<lparr>inv_revoked_at := Some (Stamp now), inv_revoked_by_agent_id := Some (trim byAgent),
                           inv_revoked_by_actor_id := Some (trim byActor)\<rparr>) db
              in bind_res (get_invite_by_id i db1) (\<lambda>r.
                 if \<not> list_ex (revocable i) (invites db) then Inr (r, db)
                 else Inr (r, record_audit_event ''invite_revoked'' (Stamp now) (trim byAgent) (trim byActor) [] [] i db1)))"

definition consumable :: "int \<Rightarrow> onboarding_claim \<Rightarrow> invite_row \<Rightarrow> bool" where
  "consumable now claim i \<longleftrightarrow>
     inv_id i = cl_invite_id claim \<and> inv_token_hash i = cl_token_hash claim \<and>
     inv_consumed_at i = None \<and> inv_revoked_at i = None \<and>
     (case inv_expires_at i of None \<Rightarrow> True | Some e \<Rightarrow> e > Stamp now) \<and>
     (inv_kind i = cl_principal_kind claim \<or> inv_kind i = kind_any)"

definition consume_onboarding_claim ::
  "auth_config \<Rightarrow> onboarding_claim \<Rightarrow> string \<Rightarrow> string \<Rightarrow> int \<Rightarrow> auth_db \<Rightarrow> auth_error + auth_db" where
  "consume_onboarding_claim cfg claim agentID actorID now db =
     (case cl_mode claim of
        ModeBootstrap \<Rightarrow>
          if trim (bootstrap_token_hash cfg) = [] \<or> cl_token_hash claim \<noteq> bootstrap_token_hash cfg then Inl InvalidToken
          else if bootstrap db \<noteq> None then Inl InvalidToken
          else Inr (record_audit_event ''bootstrap_consumed'' (Stamp now) agentID actorID agentID actorID []
                 (db\<lparr>bootstrap := Some \<lparr>bs_token_hash = cl_token_hash claim, bs_consumed_at = Stamp now,
                                        bs_agent_id = agentID, bs_actor_id = actorID\<rparr>\<rparr>))
      | ModeInvite \<Rightarrow>
          if \<not> list_ex (consumable now claim) (invites db) then Inl InvalidToken
          else Inr (record_audit_event ''invite_consumed'' (Stamp now) agentID actorID agentID actorID (cl_invite_id claim)
                 (update_invites (consumable now claim)
                    (\<lambda>i. i\<lparr>inv_consumed_at := Some (Stamp now), inv_consumed_by_agent_id := Some agentID,
                           inv_consumed_by_actor_id := Some actorID\<rparr>) db))
      | ModeOther m \<Rightarrow> Inl (InvalidRequest ''unsupported onboarding mode''))"

end
