(* ===== verification/AuthText.thy ===== *)
theory AuthText
  imports GoTime "HOL-Library.Word" "HOL-Library.Code_Target_Nat"
begin

text \<open>
  Two text formats the authentication code reads: RFC 3339 times (\<open>time.Parse(time.RFC3339, s)\<close>) and
  base64 (\<open>decodeBase64\<close> of \<open>core/internal/auth/store.go\<close> over \<open>encoding/base64\<close>).
\<close>

section \<open>RFC 3339 times\<close>

text \<open>Days from 1970-01-01, the inverse of the calendar fields of \<open>GoTime\<close>.\<close>

definition days_from_civil :: "int \<Rightarrow> int \<Rightarrow> int \<Rightarrow> int" where
  "days_from_civil year month day =
     (let y = (if month \<le> 2 then year - 1 else year);
          era = y div 400; yoe = y mod 400;
          mp = (if month > 2 then month - 3 else month + 9);
          doy = (153 * mp + 2) div 5 + day - 1;
          doe = yoe * 365 + yoe div 4 - yoe div 100 + doy
      in era * 146097 + doe - 719468)"

definition is_leap :: "int \<Rightarrow> bool" where
  "is_leap y \<longleftrightarrow> y mod 4 = 0 \<and> (y mod 100 \<noteq> 0 \<or> y mod 400 = 0)"

definition days_in_month :: "int \<Rightarrow> int \<Rightarrow> int" where
  "days_in_month y m = (if m = 2 then (if is_leap y then 29 else 28)
     else if m = 4 \<or> m = 6 \<or> m = 9 \<or> m = 11 then 30 else 31)"

text \<open>\<open>take_digits n s\<close>: exactly \<open>n\<close> digits and the rest; \<open>take_char c s\<close>: the character and the rest.\<close>

definition take_digits :: "nat \<Rightarrow> string \<Rightarrow> (int \<times> string) option" where
  "take_digits n s = (if n \<le> length s \<and> list_all is_digit (take n s)
     then Some (int (digits_val 0 (take n s)), drop n s) else None)"

definition take_char :: "char \<Rightarrow> string \<Rightarrow> string option" where
  "take_char c s = (case s of [] \<Rightarrow> None | a # r \<Rightarrow> if a = c then Some r else None)"

text \<open>The hour of \<open>time.Parse\<close> may have one digit.\<close>

definition take_hour :: "string \<Rightarrow> (int \<times> string) option" where
  "take_hour s = (case take_digits 2 s of Some r \<Rightarrow> Some r | None \<Rightarrow> take_digits 1 s)"

text \<open>A fraction after the seconds: its first nine digits count.\<close>

definition take_fraction :: "string \<Rightarrow> int \<times> string" where
  "take_fraction s =
     (case s of
        c # d # r \<Rightarrow>
          if (c = CHR ''.'' \<or> c = CHR '','') \<and> is_digit d then
            (let ds = takeWhile is_digit (d # r); nine = take 9 ds
             in (int (digits_val 0 (nine @ replicate (9 - length nine) (CHR ''0''))), dropWhile is_digit (d # r)))
          else (0, s)
      | _ \<Rightarrow> (0, s))"

text \<open>The zone: \<open>Z\<close>, or a sign and \<open>hh:mm\<close>; the result is the offset in seconds.\<close>

definition parse_zone :: "string \<Rightarrow> int option" where
  "parse_zone s =
     (if s = ''Z'' then Some 0
      else case s of
        [] \<Rightarrow> None
      | sg # r \<Rightarrow>
          if sg \<noteq> CHR ''+'' \<and> sg \<noteq> CHR ''-'' then None
          else Option.bind (take_digits 2 r) (\<lambda>(hr, r1). Option.bind (take_char (CHR '':'') r1) (\<lambda>r2.
               Option.bind (take_digits 2 r2) (\<lambda>(mm, r3).
                 if r3 = [] \<and> hr \<le> 24 \<and> mm \<le> 60
                 then Some ((if sg = CHR ''-'' then -1 else 1) * (hr * 60 + mm) * 60) else None))))"

definition parse_rfc3339 :: "string \<Rightarrow> int option" where
  "parse_rfc3339 s =
     Option.bind (take_digits 4 s) (\<lambda>(y, s1). Option.bind (take_char (CHR ''-'') s1) (\<lambda>s2.
     Option.bind (take_digits 2 s2) (\<lambda>(mo, s3). Option.bind (take_char (CHR ''-'') s3) (\<lambda>s4.
     Option.bind (take_digits 2 s4) (\<lambda>(d, s5). Option.bind (take_char (CHR ''T'') s5) (\<lambda>s6.
     Option.bind (take_hour s6) (\<lambda>(h, s7). Option.bind (take_char (CHR '':'') s7) (\<lambda>s8.
     Option.bind (take_digits 2 s8) (\<lambda>(mi, s9). Option.bind (take_char (CHR '':'') s9) (\<lambda>s10.
     Option.bind (take_digits 2 s10) (\<lambda>(sec, s11).
       let (frac, s12) = take_fraction s11
       in Option.bind (parse_zone s12) (\<lambda>zone.
          if 1 \<le> mo \<and> mo \<le> 12 \<and> 1 \<le> d \<and> d \<le> days_in_month y mo \<and> h < 24 \<and> mi < 60 \<and> sec < 60
          then Some ((days_from_civil y mo d * 86400 + h * 3600 + mi * 60 + sec - zone) * second_ns + frac)
          else None))))))))))))"

section \<open>Base64\<close>

definition b64_val :: "bool \<Rightarrow> char \<Rightarrow> nat option" where
  "b64_val url c =
     (if CHR ''A'' \<le> c \<and> c \<le> CHR ''Z'' then Some (of_char c - 65)
      else if CHR ''a'' \<le> c \<and> c \<le> CHR ''z'' then Some (of_char c - 71)
      else if CHR ''0'' \<le> c \<and> c \<le> CHR ''9'' then Some (of_char c + 4)
      else if c = (if url then CHR ''-'' else CHR ''+'') then Some 62
      else if c = (if url then CHR ''_'' else CHR ''/'') then Some 63
      else None)"

definition b64_bytes :: "nat \<Rightarrow> nat \<Rightarrow> nat \<Rightarrow> nat \<Rightarrow> 8 word list" where
  "b64_bytes a b c d =
     (let n = ((a * 64 + b) * 64 + c) * 64 + d
      in [word_of_nat (n div 65536), word_of_nat (n div 256), word_of_nat n])"

text \<open>
  One quantum at a time.  With padding a short last quantum is filled with \<open>=\<close>; without (\<open>Raw\<close>) it has two
  or three characters.  Line breaks are skipped, and the unused low bits of a short quantum are not checked.
\<close>

fun b64_quanta :: "bool \<Rightarrow> bool \<Rightarrow> string \<Rightarrow> 8 word list option" where
  "b64_quanta url padded [] = Some []"
| "b64_quanta url padded (a # b # c # d # rest) =
     (case (b64_val url a, b64_val url b, b64_val url c, b64_val url d) of
        (Some p, Some q, Some r, Some s) \<Rightarrow> map_option ((@) (b64_bytes p q r s)) (b64_quanta url padded rest)
      | (Some p, Some q, Some r, None) \<Rightarrow>
          if padded \<and> d = CHR ''='' \<and> rest = [] then Some (take 2 (b64_bytes p q r 0)) else None
      | (Some p, Some q, None, None) \<Rightarrow>
          if padded \<and> c = CHR ''='' \<and> d = CHR ''='' \<and> rest = [] then Some (take 1 (b64_bytes p q 0 0)) else None
      | _ \<Rightarrow> None)"
| "b64_quanta url padded [a, b, c] =
     (if padded then None else case (b64_val url a, b64_val url b, b64_val url c) of
        (Some p, Some q, Some r) \<Rightarrow> Some (take 2 (b64_bytes p q r 0)) | _ \<Rightarrow> None)"
| "b64_quanta url padded [a, b] =
     (if padded then None else case (b64_val url a, b64_val url b) of
        (Some p, Some q) \<Rightarrow> Some (take 1 (b64_bytes p q 0 0)) | _ \<Rightarrow> None)"
| "b64_quanta url padded [a] = None"

definition b64_decode :: "bool \<Rightarrow> bool \<Rightarrow> string \<Rightarrow> 8 word list option" where
  "b64_decode url padded s = b64_quanta url padded (filter (\<lambda>a. a \<noteq> CHR 0x0A \<and> a \<noteq> CHR 0x0D) s)"

text \<open>\<open>decodeBase64\<close>: the standard alphabet with and without padding, then the URL alphabet.\<close>

definition decode_base64 :: "string \<Rightarrow> 8 word list option" where
  "decode_base64 raw0 =
     (let raw = trim raw0
      in if raw = [] then None
         else case b64_decode False True raw of Some b \<Rightarrow> Some b | None \<Rightarrow>
              (case b64_decode False False raw of Some b \<Rightarrow> Some b | None \<Rightarrow>
               (case b64_decode True True raw of Some b \<Rightarrow> Some b | None \<Rightarrow> b64_decode True False raw)))"

definition decode_ed25519_public_key :: "string \<Rightarrow> 8 word list option" where
  "decode_ed25519_public_key raw =
     (case decode_base64 raw of None \<Rightarrow> None | Some b \<Rightarrow> if length b = 32 then Some b else None)"

lemma decode_base64_trim [simp]: "decode_base64 (trim s) = decode_base64 s"
  by (simp add: decode_base64_def)

lemma decode_key_trim [simp]: "decode_ed25519_public_key (trim s) = decode_ed25519_public_key s"
  by (simp add: decode_ed25519_public_key_def)

text \<open>Encoding, for ids and tokens (\<open>EncodeToString\<close>).\<close>

definition b64_char :: "bool \<Rightarrow> nat \<Rightarrow> char" where
  "b64_char url v =
     (if v < 26 then char_of (v + 65) else if v < 52 then char_of (v + 71) else if v < 62 then char_of (v - 4)
      else if v = 62 then (if url then CHR ''-'' else CHR ''+'') else (if url then CHR ''_'' else CHR ''/''))"

fun b64_encode :: "bool \<Rightarrow> bool \<Rightarrow> 8 word list \<Rightarrow> string" where
  "b64_encode url padded [] = []"
| "b64_encode url padded [x] =
     (let p = unat x in [b64_char url (p div 4), b64_char url (p mod 4 * 16)] @ (if padded then ''=='' else []))"
| "b64_encode url padded [x, y] =
     (let p = unat x; q = unat y
      in [b64_char url (p div 4), b64_char url (p mod 4 * 16 + q div 16), b64_char url (q mod 16 * 4)] @
         (if padded then ''='' else []))"
| "b64_encode url padded (x # y # z # r) =
     (let p = unat x; q = unat y; s = unat z
      in [b64_char url (p div 4), b64_char url (p mod 4 * 16 + q div 16), b64_char url (q mod 16 * 4 + s div 64),
          b64_char url (s mod 64)] @ b64_encode url padded r)"

lemma b64_val_char: "v < 64 \<Longrightarrow> b64_val url (b64_char url v) = Some v"
proof -
  have "\<forall>u\<in>{False, True}. \<forall>v\<in>set [0..<64]. b64_val u (b64_char u v) = Some v" by code_simp
  moreover assume "v < 64"
  ultimately show ?thesis by (cases url) auto
qed

lemma b64_pad_val [simp]: "b64_val url (CHR ''='') = None"
proof -
  have "\<forall>u\<in>{False, True}. b64_val u (CHR ''='') = None" by code_simp
  then show ?thesis by (cases url) auto
qed

lemma b64_char_no_break:
  "v < 64 \<Longrightarrow> b64_char url v \<noteq> CHR 0x0A \<and> b64_char url v \<noteq> CHR 0x0D"
proof -
  have "\<forall>u\<in>{False, True}. \<forall>v\<in>set [0..<64]. b64_char u v \<noteq> CHR 0x0A \<and> b64_char u v \<noteq> CHR 0x0D" by code_simp
  moreover assume "v < 64"
  ultimately show ?thesis by (cases url) auto
qed

lemma byte_small: "unat (x :: 8 word) < 256"
  proof -
  have "unat x < 2 ^ LENGTH(8)" by (rule unsigned_less)
  then show ?thesis by simp
qed

lemma sextets_aux:
  "p1 * 4 + p0 = p \<Longrightarrow> q1 * 16 + q0 = q \<Longrightarrow> s1 * 64 + s0 = s \<Longrightarrow>
   ((p1 * 64 + (p0 * 16 + q1)) * 64 + (q0 * 4 + s1)) * 64 + s0 = p * 65536 + q * 256 + (s :: nat)"
  by (auto simp: algebra_simps)

lemmas sextets = sextets_aux [OF div_mult_mod_eq div_mult_mod_eq div_mult_mod_eq]

lemma low_byte: "(word_of_nat (m * 256 + unat y) :: 8 word) = y"
proof -
  have z: "(256 :: 8 word) = 0" by simp
  show ?thesis by (simp only: of_nat_add of_nat_mult of_nat_numeral z) simp
qed

lemma b64_bytes_split:
  fixes x y z :: "8 word"
  shows "b64_bytes (unat x div 4) (unat x mod 4 * 16 + unat y div 16) (unat y mod 16 * 4 + unat z div 64) (unat z mod 64)
         = [x, y, z]"
proof -
  have d1: "(unat x * 65536 + unat y * 256 + unat z) div 65536 = unat x"
    using byte_small [of y] byte_small [of z] by (simp add: div_nat_eqI)
  have d2: "(unat x * 65536 + unat y * 256 + unat z) div 256 = unat x * 256 + unat y"
    using byte_small [of z] by (simp add: div_nat_eqI)
  have n: "unat x * 65536 + unat y * 256 + unat z = (unat x * 256 + unat y) * 256 + unat z" by simp
  have w2: "(word_of_nat (unat x * 65536 + unat y * 256 + unat z) :: 8 word) = z"
    unfolding n by (rule low_byte)
  show ?thesis
    unfolding b64_bytes_def Let_def sextets d1 d2 w2 by (simp only: low_byte) simp
qed

text \<open>Decoding undoes encoding, in each of the four formats.\<close>

lemma b64_quanta_encode: "b64_quanta url padded (b64_encode url padded bs) = Some bs"
proof (induction url padded bs rule: b64_encode.induct)
  case (2 url padded x)
  then show ?case
    using b64_bytes_split [of x 0 0] byte_small [of x] by (simp add: Let_def b64_val_char)
next
  case (3 url padded x y)
  then show ?case
    using b64_bytes_split [of x y 0] byte_small [of x] byte_small [of y] by (simp add: Let_def b64_val_char)
next
  case (4 url padded x y z r)
  then show ?case
    using b64_bytes_split [of x y z] byte_small [of x] byte_small [of y] byte_small [of z]
    by (simp add: Let_def b64_val_char)
qed simp

lemma b64_encode_no_break:
  "filter (\<lambda>a. a \<noteq> CHR 0x0A \<and> a \<noteq> CHR 0x0D) (b64_encode url padded bs) = b64_encode url padded bs"
proof (induction url padded bs rule: b64_encode.induct)
  case (2 url padded x)
  then show ?case using byte_small [of x] by (simp add: Let_def b64_char_no_break)
next
  case (3 url padded x y)
  then show ?case using byte_small [of x] byte_small [of y] by (simp add: Let_def b64_char_no_break)
next
  case (4 url padded x y z r)
  then show ?case
    using byte_small [of x] byte_small [of y] byte_small [of z] by (simp add: Let_def b64_char_no_break)
qed simp

lemma b64_decode_encode [simp]: "b64_decode url padded (b64_encode url padded bs) = Some bs"
  by (simp add: b64_decode_def b64_encode_no_break b64_quanta_encode)

end
