(* ===== verification/AuthTokens.thy ===== *)
theory AuthTokens
  imports Onboarding AuthText
begin

text \<open>
  \<open>core/internal/auth/store.go\<close>, \<open>passkeys.go\<close> and \<open>external_grant_store.go\<close>: principals register, get token
  pairs (by assertion, refresh, passkey or grant), rotate keys and are revoked.  \<open>hash\<close> (SHA-256 in hex) and
  \<open>verify\<close> (Ed25519) are parameters; fresh ids and tokens are arguments (\<open>token_draw\<close>, \<open>agent_draw\<close>).
\<close>

section \<open>Token pairs\<close>

record token_draw =
  td_refresh_token :: string
  td_access_token :: string
  td_refresh_id :: string
  td_access_id :: string

record token_bundle =
  tb_access_token :: string
  tb_refresh_token :: string
  tb_expires_in :: int

definition issue_token_bundle ::
  "auth_config \<Rightarrow> (string \<Rightarrow> string) \<Rightarrow> string \<Rightarrow> token_draw \<Rightarrow> int \<Rightarrow> auth_db \<Rightarrow> auth_error + token_bundle \<times> auth_db" where
  "issue_token_bundle cfg hash agentID d now db =
     (if list_ex (\<lambda>r. rs_id r = td_refresh_id d \<or> rs_token_hash r = hash (td_refresh_token d)) (refresh_sessions db)
        then Inl DatabaseError
      else if list_ex (\<lambda>t. at_id t = td_access_id d \<or> at_token_hash t = hash (td_access_token d)) (access_tokens db)
        then Inl DatabaseError
      else Inr (\<lparr>tb_access_token = td_access_token d, tb_refresh_token = td_refresh_token d,
                 tb_expires_in = access_token_ttl cfg div second_ns\<rparr>,
                db\<lparr>refresh_sessions := refresh_sessions db @
                      [\<lparr>rs_id = td_refresh_id d, rs_agent_id = agentID, rs_token_hash = hash (td_refresh_token d),
                        rs_created_at = Stamp now, rs_expires_at = Stamp (now + refresh_token_ttl cfg),
                        rs_revoked_at = None, rs_replaced_by = None\<rparr>],
                    access_tokens := access_tokens db @
                      [\<lparr>at_id = td_access_id d, at_agent_id = agentID, at_token_hash = hash (td_access_token d),
                        at_created_at = Stamp now, at_expires_at = Stamp (now + access_token_ttl cfg),
                        at_revoked_at = None\<rparr>]\<rparr>))"

section \<open>Registration\<close>

record agent_draw =
  ad_agent_id :: string
  ad_key_id :: string
  ad_tokens :: token_draw

text \<open>\<open>ensureExistingActorReadyForAgentLinkTx\<close>.\<close>

definition ensure_existing_actor_ready :: "string \<Rightarrow> auth_db \<Rightarrow> auth_error + unit" where
  "ensure_existing_actor_ready actorID0 db =
     (let actorID = trim actorID0
      in if actorID = [] \<or> actorID \<notin> fst ` set (actors db) then Inl (InvalidRequest ''existing actor not found'')
         else if list_ex (\<lambda>a. ag_actor_id a = actorID \<and> ag_revoked_at a = None \<and> ag_id a \<noteq> []) (agents db)
           then Inl (InvalidRequest ''actor already linked to an agent'')
         else Inr ())"

text \<open>
  The \<open>INSERT INTO agents\<close> of a registration.  \<open>username\<close>, \<open>actor_id\<close> and \<open>id\<close> are unique; a taken username has
  an error of its own (in \<open>registerAgentOnce\<close>; the argument is what to answer).
\<close>

definition insert_agent :: "auth_error \<Rightarrow> agent_row \<Rightarrow> auth_db \<Rightarrow> auth_error + auth_db" where
  "insert_agent taken a db =
     (if list_ex (\<lambda>b. ag_username b = ag_username a) (agents db) then Inl taken
      else if list_ex (\<lambda>b. ag_id b = ag_id a \<or> ag_actor_id b = ag_actor_id a) (agents db) then Inl DatabaseError
      else Inr (db\<lparr>agents := agents db @ [a]\<rparr>))"

definition insert_actor :: "string \<Rightarrow> string \<Rightarrow> auth_db \<Rightarrow> auth_error + auth_db" where
  "insert_actor i name db =
     (if i \<in> fst ` set (actors db) then Inl DatabaseError else Inr (db\<lparr>actors := actors db @ [(i, name)]\<rparr>))"

definition new_agent :: "string \<Rightarrow> string \<Rightarrow> string \<Rightarrow> string \<Rightarrow> string \<Rightarrow> bool \<Rightarrow> int \<Rightarrow> agent_row" where
  "new_agent agentID username actorID kind meth admin now =
     \<lparr>ag_id = agentID, ag_username = username, ag_actor_id = actorID, ag_created_at = Stamp now,
      ag_updated_at = Stamp now, ag_revoked_at = None, ag_principal_kind = kind, ag_auth_method = meth,
      ag_auth_admin = admin, ag_external_subject = None, ag_registration = None\<rparr>"

definition insert_key :: "agent_key_row \<Rightarrow> auth_db \<Rightarrow> auth_error + auth_db" where
  "insert_key k db = (if list_ex (\<lambda>l. k_id l = k_id k) (agent_keys db) then Inl DatabaseError
     else Inr (db\<lparr>agent_keys := agent_keys db @ [k]\<rparr>))"

definition new_key :: "string \<Rightarrow> string \<Rightarrow> string \<Rightarrow> int \<Rightarrow> agent_key_row" where
  "new_key keyID agentID publicKey now =
     \<lparr>k_id = keyID, k_agent_id = agentID, k_public_key = publicKey, k_algorithm = ''ed25519'',
      k_created_at = Stamp now, k_revoked_at = None\<rparr>"

definition register_agent_once ::
  "auth_config \<Rightarrow> (string \<Rightarrow> string) \<Rightarrow> string \<Rightarrow> string \<Rightarrow> onboarding_claim \<Rightarrow> string \<Rightarrow> agent_draw \<Rightarrow> int \<Rightarrow> auth_db \<Rightarrow>
     auth_error + token_bundle \<times> auth_db" where
  "register_agent_once cfg hash username publicKey claim existingActorID d now db =
     (let agentID = ad_agent_id d;
          linked = (trim existingActorID \<noteq> []);
          actorID = (if linked then trim existingActorID else agentID);
          admin = (cl_mode claim = ModeBootstrap)
      in bind_res (consume_onboarding_claim cfg claim agentID actorID now db) (\<lambda>db1.
         bind_res (if linked then ensure_existing_actor_ready actorID db1 else Inr ()) (\<lambda>_.
         bind_res (insert_agent UsernameTaken
                    (new_agent agentID username actorID kind_agent ''public_key'' admin now) db1) (\<lambda>db2.
         bind_res (if linked then Inr db2 else insert_actor actorID username db2) (\<lambda>db3.
         bind_res (insert_key (new_key (ad_key_id d) agentID publicKey now) db3) (\<lambda>db4.
           issue_token_bundle cfg hash agentID (ad_tokens d) now
             (record_audit_event ''principal_registered'' (Stamp (now + 1)) agentID actorID agentID actorID
                (cl_invite_id claim) db4)))))))"

text \<open>
  \<open>RegisterAgent\<close> retries a busy database, at most eight times, until the context is cancelled (the attempts run
  out).  What another attempt finds is the database of that moment, so each attempt carries it.
\<close>

datatype attempt = Busy | Runs agent_draw int auth_db

datatype register_result = Cancelled | StillBusy | Ran "auth_error + token_bundle \<times> auth_db"

fun register_attempts ::
  "nat \<Rightarrow> (agent_draw \<Rightarrow> int \<Rightarrow> auth_db \<Rightarrow> auth_error + token_bundle \<times> auth_db) \<Rightarrow> attempt list \<Rightarrow> register_result" where
  "register_attempts 0 once as = StillBusy"
| "register_attempts (Suc n) once [] = Cancelled"
| "register_attempts (Suc n) once (Busy # as) = register_attempts n once as"
| "register_attempts (Suc n) once (Runs d now db # as) = Ran (once d now db)"

definition register_agent_max_retries :: nat where "register_agent_max_retries = 8"

definition register_agent ::
  "auth_config \<Rightarrow> (string \<Rightarrow> string) \<Rightarrow> string \<Rightarrow> string \<Rightarrow> string \<Rightarrow> onboarding_claim \<Rightarrow> attempt list \<Rightarrow> register_result" where
  "register_agent cfg hash username0 publicKey existingActorID claim attempts =
     (case normalize_username username0 of
        Inl e \<Rightarrow> Ran (Inl e)
      | Inr username \<Rightarrow>
          if decode_ed25519_public_key publicKey = None
            then Ran (Inl (InvalidRequest ''public_key must be a base64-encoded ed25519 public key''))
          else if trim existingActorID \<noteq> [] \<and> \<not> allow_linked_actor cfg
            then Ran (Inl (InvalidRequest ''existing_actor_id is not enabled for this core instance''))
          else register_attempts register_agent_max_retries
                 (\<lambda>d now db. register_agent_once cfg hash username (trim publicKey) claim (trim existingActorID) d now db)
                 attempts)"

section \<open>Assertions\<close>

definition build_assertion_message :: "string \<Rightarrow> string \<Rightarrow> string \<Rightarrow> string" where
  "build_assertion_message agentID keyID signedAt =
     ''anx-auth-token|'' @ trim agentID @ ''|'' @ trim keyID @ ''|'' @ trim signedAt"

definition hash_assertion_replay :: "(string \<Rightarrow> string) \<Rightarrow> string \<Rightarrow> string \<Rightarrow> string" where
  "hash_assertion_replay hash message signature = hash (trim message @ ''|'' @ trim signature)"

definition record_assertion_use ::
  "auth_config \<Rightarrow> (string \<Rightarrow> string) \<Rightarrow> string \<Rightarrow> string \<Rightarrow> int \<Rightarrow> auth_db \<Rightarrow> auth_error + auth_db" where
  "record_assertion_use cfg hash message signature now db =
     (let kept = filter (\<lambda>u. \<not> snd u < Stamp (now - max_assertion_skew cfg)) (used_assertions db);
          h = hash_assertion_replay hash message signature
      in if h \<in> fst ` set kept then Inl KeyMismatch
         else Inr (db\<lparr>used_assertions := kept @ [(h, Stamp now)]\<rparr>))"

definition find_agent_key :: "string \<Rightarrow> string \<Rightarrow> auth_db \<Rightarrow> agent_key_row option" where
  "find_agent_key agentID keyID db = find (\<lambda>k. k_id k = keyID \<and> k_agent_id k = agentID) (agent_keys db)"

definition issue_token_from_assertion ::
  "auth_config \<Rightarrow> (string \<Rightarrow> string) \<Rightarrow> (8 word list \<Rightarrow> string \<Rightarrow> 8 word list \<Rightarrow> bool) \<Rightarrow>
     string \<Rightarrow> string \<Rightarrow> string \<Rightarrow> string \<Rightarrow> token_draw \<Rightarrow> int \<Rightarrow> auth_db \<Rightarrow> auth_error + token_bundle \<times> auth_db" where
  "issue_token_from_assertion cfg hash verify agentID0 keyID0 signedAt0 signature0 d now db =
     (let agentID = trim agentID0; keyID = trim keyID0; signedAt = trim signedAt0; signature = trim signature0
      in if agentID = [] \<or> keyID = [] \<or> signedAt = [] \<or> signature = [] then Inl KeyMismatch
         else case parse_rfc3339 signedAt of
           None \<Rightarrow> Inl KeyMismatch
         | Some signedTime \<Rightarrow>
           if now - signedTime > max_assertion_skew cfg \<or> signedTime - now > max_assertion_skew cfg then Inl KeyMismatch
           else case (find_agent agentID db, find_agent_key agentID keyID db) of
             (Some a, Some k) \<Rightarrow>
               if ag_revoked_at a \<noteq> None then Inl AgentRevoked
               else if k_revoked_at k \<noteq> None then Inl KeyMismatch
               else if trim (k_algorithm k) \<noteq> ''ed25519'' then Inl KeyMismatch
               else (case (decode_ed25519_public_key (k_public_key k), decode_base64 signature) of
                   (Some pub, Some sig) \<Rightarrow>
                     let message = build_assertion_message agentID keyID signedAt
                     in if \<not> verify pub message sig then Inl KeyMismatch
                        else bind_res (record_assertion_use cfg hash message signature now db)
                               (issue_token_bundle cfg hash (ag_id a) d now)
                 | _ \<Rightarrow> Inl KeyMismatch)
           | _ \<Rightarrow> Inl KeyMismatch)"

section \<open>Refresh\<close>

datatype account_error = AccountInactive | AccountUnreachable | AccountOther

definition should_check_hosted_human :: "string \<Rightarrow> string \<Rightarrow> bool" where
  "should_check_hosted_human kind meth \<longleftrightarrow>
     trim kind = kind_human \<and> (trim meth = ''external_grant'' \<or> trim meth = ''control_plane'')"

definition check_account :: "(string \<Rightarrow> account_error option) option \<Rightarrow> agent_row \<Rightarrow> auth_error + unit" where
  "check_account checker a =
     (case checker of
        None \<Rightarrow> Inr ()
      | Some check \<Rightarrow>
          if should_check_hosted_human (ag_principal_kind a) (ag_auth_method a) \<and>
             trim (null_text (ag_external_subject a)) \<noteq> [] then
            (case check (null_text (ag_external_subject a)) of
               None \<Rightarrow> Inr ()
             | Some AccountInactive \<Rightarrow> Inl AccountDisabled
             | Some AccountUnreachable \<Rightarrow> Inl AccountStatusUnreachable
             | Some AccountOther \<Rightarrow> Inl DatabaseError)
          else Inr ())"

text \<open>\<open>now0\<close> is the clock at the expiry check, \<open>now\<close> the clock when the new pair is issued.\<close>

definition issue_token_from_refresh ::
  "auth_config \<Rightarrow> (string \<Rightarrow> string) \<Rightarrow> (string \<Rightarrow> account_error option) option \<Rightarrow> string \<Rightarrow> token_draw \<Rightarrow> int \<Rightarrow> int \<Rightarrow>
     auth_db \<Rightarrow> auth_error + token_bundle \<times> auth_db" where
  "issue_token_from_refresh cfg hash checker refreshToken0 d now0 now db =
     (let refreshToken = trim refreshToken0
      in if refreshToken = [] then Inl InvalidToken
         else case find (\<lambda>r. rs_token_hash r = hash refreshToken) (refresh_sessions db) of
           None \<Rightarrow> Inl InvalidToken
         | Some r \<Rightarrow>
           case find_agent (rs_agent_id r) db of
             None \<Rightarrow> Inl InvalidToken
           | Some a \<Rightarrow>
             if rs_revoked_at r \<noteq> None \<or> rs_replaced_by r \<noteq> None then Inl InvalidToken
             else if now0 > stamp_ns (rs_expires_at r) then Inl InvalidToken
             else if ag_revoked_at a \<noteq> None then Inl AgentRevoked
             else bind_res (check_account checker a) (\<lambda>_.
                  bind_res (issue_token_bundle cfg hash (rs_agent_id r) d now db) (\<lambda>(tb, db1).
                    Inr (tb, db1\<lparr>refresh_sessions := map (\<lambda>s. if rs_id s = rs_id r
                                then s\<lparr>rs_revoked_at := Some (Stamp now), rs_replaced_by := Some (td_refresh_id d)\<rparr>
                                else s) (refresh_sessions db1)\<rparr>))))"

section \<open>Access\<close>

definition authenticate_access_token ::
  "(string \<Rightarrow> string) \<Rightarrow> string \<Rightarrow> int \<Rightarrow> auth_db \<Rightarrow> auth_error + principal" where
  "authenticate_access_token hash accessToken0 now db =
     (let accessToken = trim accessToken0
      in if accessToken = [] then Inl InvalidToken
         else case find (\<lambda>t. at_token_hash t = hash accessToken) (access_tokens db) of
           None \<Rightarrow> Inl InvalidToken
         | Some t \<Rightarrow>
           case find_agent (at_agent_id t) db of
             None \<Rightarrow> Inl InvalidToken
           | Some a \<Rightarrow>
             if at_revoked_at t \<noteq> None then Inl InvalidToken
             else if now > stamp_ns (at_expires_at t) then Inl InvalidToken
             else if ag_revoked_at a \<noteq> None then Inl AgentRevoked
             else Inr \<lparr>pr_agent_id = ag_id a, pr_actor_id = ag_actor_id a, pr_username = ag_username a,
                       pr_kind = trim (principal_kind db a), pr_auth_method = trim (auth_method db a),
                       pr_auth_admin = ag_auth_admin a\<rparr>)"

end
