(* ===== verification/AuthPrincipals.thy ===== *)
theory AuthPrincipals
  imports AuthTokens
begin

text \<open>
  \<open>core/internal/auth/store.go\<close> continued: reading a principal, renaming it, rotating its key, revoking it; and the
  two other ways in, passkeys (\<open>passkeys.go\<close>) and workspace grants (\<open>external_grant_store.go\<close>).
\<close>

section \<open>Reading\<close>

record agent_view =
  av_agent_id :: string
  av_username :: string
  av_actor_id :: string
  av_revoked_at :: "stamp option"
  av_created_at :: stamp
  av_updated_at :: stamp
  av_last_seen_at :: stamp
  av_principal_kind :: string
  av_auth_method :: string
  av_registration :: "agent_registration option"

definition principal_last_seen :: "auth_db \<Rightarrow> agent_row \<Rightarrow> stamp" where
  "principal_last_seen db a =
     (let ts = map at_created_at (filter (\<lambda>t. at_agent_id t = ag_id a) (access_tokens db))
      in if ts = [] then ag_created_at a else fold max (tl ts) (hd ts))"

definition agent_view_of :: "auth_db \<Rightarrow> agent_row \<Rightarrow> agent_view" where
  "agent_view_of db a =
     \<lparr>av_agent_id = ag_id a, av_username = ag_username a, av_actor_id = ag_actor_id a, av_revoked_at = ag_revoked_at a,
      av_created_at = ag_created_at a, av_updated_at = ag_updated_at a, av_last_seen_at = principal_last_seen db a,
      av_principal_kind = principal_kind db a, av_auth_method = auth_method db a,
      av_registration = map_option normalize_agent_registration (ag_registration a)\<rparr>"

lemma agent_view_sel [simp]:
  "av_agent_id (agent_view_of db a) = ag_id a" "av_username (agent_view_of db a) = ag_username a"
  "av_actor_id (agent_view_of db a) = ag_actor_id a" "av_revoked_at (agent_view_of db a) = ag_revoked_at a"
  "av_principal_kind (agent_view_of db a) = principal_kind db a"
  "av_registration (agent_view_of db a) = map_option normalize_agent_registration (ag_registration a)"
  by (simp_all add: agent_view_of_def)

definition principal_summary :: "string \<Rightarrow> auth_db \<Rightarrow> auth_error + agent_view" where
  "principal_summary i db = (case find_agent i db of None \<Rightarrow> Inl AgentNotFound | Some a \<Rightarrow> Inr (agent_view_of db a))"

definition get_principal_summary :: "string \<Rightarrow> auth_db \<Rightarrow> auth_error + agent_view" where
  "get_principal_summary i0 db = (let i = trim i0 in if i = [] then Inl AgentNotFound else principal_summary i db)"

text \<open>\<open>ORDER BY created_at DESC, id DESC\<close>.\<close>

definition list_keys :: "string \<Rightarrow> auth_db \<Rightarrow> auth_error + agent_key_row list" where
  "list_keys i0 db =
     (let i = trim i0
      in if i = [] then Inl AgentNotFound
         else Inr (rev (sort_key (\<lambda>k. (k_created_at k, k_id k)) (rev (filter (\<lambda>k. k_agent_id k = i) (agent_keys db))))))"

definition active_human :: "auth_db \<Rightarrow> agent_row \<Rightarrow> bool" where
  "active_human db a \<longleftrightarrow> ag_revoked_at a = None \<and> principal_kind db a = kind_human"

definition count_active_humans :: "auth_db \<Rightarrow> nat" where
  "count_active_humans db = length (filter (active_human db) (agents db))"

section \<open>Changing a principal\<close>

definition update_agents :: "(agent_row \<Rightarrow> bool) \<Rightarrow> (agent_row \<Rightarrow> agent_row) \<Rightarrow> auth_db \<Rightarrow> auth_db" where
  "update_agents P f db = db\<lparr>agents := map (\<lambda>a. if P a then f a else a) (agents db)\<rparr>"

definition update_username :: "string \<Rightarrow> string \<Rightarrow> int \<Rightarrow> auth_db \<Rightarrow> auth_error + auth_db" where
  "update_username agentID0 username now db =
     (let agentID = trim agentID0
      in if agentID = [] then Inl AgentNotFound
         else bind_res (normalize_username username) (\<lambda>u.
           case find_agent agentID db of
             None \<Rightarrow> Inl AgentNotFound
           | Some a \<Rightarrow>
             if list_ex (\<lambda>b. ag_id b \<noteq> agentID \<and> ag_username b = u) (agents db) then Inl UsernameTaken
             else let db1 = update_agents (\<lambda>b. ag_id b = agentID)
                              (\<lambda>b. b\<lparr>ag_username := u, ag_updated_at := Stamp now\<rparr>) db
                  in Inr (db1\<lparr>actors := map (\<lambda>c. if fst c = ag_actor_id a then (fst c, u) else c) (actors db1)\<rparr>)))"

text \<open>
  \<open>UpdateRegistration\<close>: the registration must be for the user name and the actor the agent has now.  The new registration is
  the answer; the time is given as a text, too.
\<close>

definition update_registration ::
  "string \<Rightarrow> agent_registration \<Rightarrow> string \<Rightarrow> int \<Rightarrow> auth_db \<Rightarrow> auth_error + agent_registration \<times> auth_db" where
  "update_registration agentID0 registration nowText now db =
     (let agentID = trim agentID0
      in if agentID = [] then Inl AgentNotFound
         else case find_agent agentID db of
           None \<Rightarrow> Inl AgentNotFound
         | Some a \<Rightarrow>
             let r = normalize_agent_registration registration;
                 r1 = (if rg_handle r = [] then r\<lparr>rg_handle := trim (ag_username a)\<rparr> else r)
             in if rg_handle r1 \<noteq> trim (ag_username a)
                  then Inl (InvalidRequest ''registration.handle must match the authenticated agent username'')
                else
             let r2 = (if rg_actor_id r1 = [] then r1\<lparr>rg_actor_id := trim (ag_actor_id a)\<rparr> else r1)
             in if rg_actor_id r2 \<noteq> trim (ag_actor_id a)
                  then Inl (InvalidRequest ''registration.actor_id must match the authenticated agent actor_id'')
                else
             let r3 = normalize_agent_registration (r2\<lparr>rg_updated_at := nowText\<rparr>)
             in Inr (r3, update_agents (\<lambda>b. ag_id b = agentID)
                  (\<lambda>b. b\<lparr>ag_registration := Some r3, ag_updated_at := Stamp now\<rparr>) db))"

definition revoke_keys :: "string \<Rightarrow> int \<Rightarrow> auth_db \<Rightarrow> auth_db" where
  "revoke_keys agentID now db = db\<lparr>agent_keys := map (\<lambda>k.
     if k_agent_id k = agentID \<and> k_revoked_at k = None then k\<lparr>k_revoked_at := Some (Stamp now)\<rparr> else k) (agent_keys db)\<rparr>"

definition revoke_sessions :: "string \<Rightarrow> int \<Rightarrow> auth_db \<Rightarrow> auth_db" where
  "revoke_sessions agentID now db = db\<lparr>
     refresh_sessions := map (\<lambda>r. if rs_agent_id r = agentID \<and> rs_revoked_at r = None
                                  then r\<lparr>rs_revoked_at := Some (Stamp now)\<rparr> else r) (refresh_sessions db),
     access_tokens := map (\<lambda>t. if at_agent_id t = agentID \<and> at_revoked_at t = None
                               then t\<lparr>at_revoked_at := Some (Stamp now)\<rparr> else t) (access_tokens db)\<rparr>"

definition rotate_key :: "string \<Rightarrow> string \<Rightarrow> string \<Rightarrow> int \<Rightarrow> auth_db \<Rightarrow> auth_error + agent_key_row \<times> auth_db" where
  "rotate_key agentID0 publicKey keyID now db =
     (let agentID = trim agentID0; key = new_key keyID agentID (trim publicKey) now
      in if agentID = [] then Inl AgentNotFound
         else if decode_ed25519_public_key publicKey = None
           then Inl (InvalidRequest ''public_key must be a base64-encoded ed25519 public key'')
         else case find_agent agentID db of
           None \<Rightarrow> Inl AgentNotFound
         | Some a \<Rightarrow>
           if ag_revoked_at a \<noteq> None then Inl AgentRevoked
           else bind_res (insert_key key (revoke_keys agentID now db)) (\<lambda>db1.
                Inr (key, update_agents (\<lambda>b. ag_id b = agentID) (\<lambda>b. b\<lparr>ag_updated_at := Stamp now\<rparr>)
                            (revoke_sessions agentID now db1))))"

record revoke_input =
  ri_actor_agent_id :: string
  ri_actor_actor_id :: string
  ri_mode :: string
  ri_allow_human_lockout :: bool
  ri_human_lockout_reason :: string

record revoke_result =
  rr_principal :: agent_view
  rr_mode :: string
  rr_already_revoked :: bool
  rr_allow_human_lockout :: bool

definition revoke_event_type :: "string \<Rightarrow> bool \<Rightarrow> string" where
  "revoke_event_type mode lockout =
     (if lockout then ''principal_human_lockout_revoked''
      else if mode = ''self'' then ''principal_self_revoked'' else ''principal_revoked'')"

definition revoke_agent :: "string \<Rightarrow> revoke_input \<Rightarrow> int \<Rightarrow> auth_db \<Rightarrow> auth_error + revoke_result \<times> auth_db" where
  "revoke_agent agentID0 inp now db =
     (let agentID = trim agentID0; byAgent = trim (ri_actor_agent_id inp); byActor = trim (ri_actor_actor_id inp);
          mode = (if trim (ri_mode inp) = [] then ''admin'' else ri_mode inp);
          allow = ri_allow_human_lockout inp; reason = trim (ri_human_lockout_reason inp)
      in if agentID = [] then Inl AgentNotFound
         else if byAgent = [] \<or> byActor = [] then Inl AuthRequired
         else if allow \<and> reason = []
           then Inl (InvalidRequest ''human_lockout_reason is required when allow_human_lockout=true'')
         else if \<not> allow \<and> reason \<noteq> []
           then Inl (InvalidRequest ''human_lockout_reason requires allow_human_lockout=true'')
         else case find_agent agentID db of
           None \<Rightarrow> Inl AgentNotFound
         | Some a \<Rightarrow>
           bind_res (principal_summary agentID db) (\<lambda>p.
           if ag_revoked_at a \<noteq> None
             then Inr (\<lparr>rr_principal = p, rr_mode = mode, rr_already_revoked = True, rr_allow_human_lockout = False\<rparr>, db)
           else let human = (av_principal_kind p = kind_human); last_one = (count_active_humans db = 1);
                    lockout = (human \<and> last_one \<and> allow)
             in if human \<and> last_one \<and> \<not> allow then Inl LastActivePrincipal
                else if allow \<and> \<not> lockout then Inl (InvalidRequest
                  ''allow_human_lockout is only permitted when revoking the last active human principal'')
                else let db1 = record_audit_event (revoke_event_type mode lockout) (Stamp now) byAgent byActor
                                 agentID (ag_actor_id a) []
                                 (revoke_keys agentID now
                                   (update_agents (\<lambda>b. ag_id b = agentID)
                                      (\<lambda>b. b\<lparr>ag_revoked_at := Some (Stamp now), ag_updated_at := Stamp now\<rparr>) db))
                     in bind_res (principal_summary agentID db1) (\<lambda>q.
                          Inr (\<lparr>rr_principal = q, rr_mode = mode, rr_already_revoked = False,
                                rr_allow_human_lockout = lockout\<rparr>, db1))))"

section \<open>Passkeys\<close>

record credential =
  cr_id :: "8 word list"
  cr_public_key :: "8 word list"
  cr_sign_count :: int

definition normalize_passkey_display_name :: "string \<Rightarrow> auth_error + string" where
  "normalize_passkey_display_name raw =
     (let n = trim raw
      in if n = [] then Inl (InvalidRequest ''display_name is required'')
         else if length n > 120 then Inl (InvalidRequest ''display_name must be 120 characters or fewer'')
         else Inr n)"

definition alnum_char :: "char \<Rightarrow> bool" where
  "alnum_char c \<longleftrightarrow> (CHR ''a'' \<le> c \<and> c \<le> CHR ''z'') \<or> (CHR ''0'' \<le> c \<and> c \<le> CHR ''9'')"

text \<open>\<open>regexp.MustCompile(`[^a-z0-9]+`).ReplaceAllString(s, "-")\<close>; \<open>inrun\<close> tells that the run has been replaced.\<close>

fun replace_runs :: "bool \<Rightarrow> string \<Rightarrow> string" where
  "replace_runs inrun [] = []"
| "replace_runs inrun (c # s) =
     (if alnum_char c then c # replace_runs False s
      else if inrun then replace_runs True s else CHR ''-'' # replace_runs True s)"

definition generate_passkey_username :: "string \<Rightarrow> string \<Rightarrow> auth_error + string" where
  "generate_passkey_username displayName hexSuffix =
     (let b1 = trim_char (CHR ''-'') (replace_runs False (to_lower (trim displayName)));
          b2 = trim_char (CHR ''.'') (map (\<lambda>c. if c = CHR ''-'' then CHR ''.'' else c) b1);
          b3 = (if length b2 > 24 then trim_char (CHR ''.'') (take 24 b2) else b2);
          base = (if length b3 < 3 then ''user'' else b3)
      in normalize_username (''passkey.'' @ base @ ''.'' @ hexSuffix))"

definition insert_passkey_credential ::
  "string \<Rightarrow> string \<Rightarrow> credential \<Rightarrow> auth_db \<Rightarrow> auth_error + auth_db" where
  "insert_passkey_credential agentID userHandle cr db =
     (if cr_id cr = [] then Inl (InvalidRequest ''credential id is required'')
      else if cr_public_key cr = [] then Inl (InvalidRequest ''credential public key is required'')
      else if list_ex (\<lambda>p. pc_credential_id p = b64_encode True False (cr_id cr)) (passkeys db) then Inl DatabaseError
      else Inr (db\<lparr>passkeys := passkeys db @
        [\<lparr>pc_credential_id = b64_encode True False (cr_id cr), pc_agent_id = agentID, pc_user_handle = userHandle,
          pc_sign_count = cr_sign_count cr\<rparr>]\<rparr>))"

definition register_passkey_agent ::
  "auth_config \<Rightarrow> (string \<Rightarrow> string) \<Rightarrow> string \<Rightarrow> string \<Rightarrow> credential option \<Rightarrow> string \<Rightarrow> onboarding_claim \<Rightarrow> string \<Rightarrow>
     agent_draw \<Rightarrow> int \<Rightarrow> auth_db \<Rightarrow> auth_error + token_bundle \<times> auth_db" where
  "register_passkey_agent cfg hash displayName0 userHandle cred existingActorID0 claim hexSuffix d now db =
     bind_res (normalize_passkey_display_name displayName0) (\<lambda>displayName.
       if userHandle = [] then Inl (InvalidRequest ''user handle is required'')
       else if length userHandle > 64 then Inl (InvalidRequest ''user handle must be 64 bytes or fewer'')
       else case cred of
         None \<Rightarrow> Inl (InvalidRequest ''passkey credential is required'')
       | Some cr \<Rightarrow>
         let existingActorID = trim existingActorID0; linked = (existingActorID \<noteq> []); agentID = ad_agent_id d;
             actorID = (if linked then existingActorID else agentID)
         in if linked \<and> \<not> allow_linked_actor cfg
              then Inl (InvalidRequest ''existing_actor_id is not enabled for this core instance'')
            else bind_res (generate_passkey_username displayName hexSuffix) (\<lambda>username.
                 bind_res (consume_onboarding_claim cfg claim agentID actorID now db) (\<lambda>db1.
                 bind_res (if linked then ensure_existing_actor_ready actorID db1 else Inr ()) (\<lambda>_.
                 bind_res (insert_agent DatabaseError
                            (new_agent agentID username actorID kind_human ''passkey'' (cl_mode claim = ModeBootstrap) now) db1) (\<lambda>db2.
                 bind_res (if linked then Inr db2 else insert_actor actorID displayName db2) (\<lambda>db3.
                 bind_res (insert_passkey_credential agentID userHandle cr db3) (\<lambda>db4.
                   issue_token_bundle cfg hash agentID (ad_tokens d) now
                     (record_audit_event ''principal_registered'' (Stamp (now + 1)) agentID actorID agentID actorID
                        (cl_invite_id claim) db4))))))))"

definition issue_token_for_passkey ::
  "auth_config \<Rightarrow> (string \<Rightarrow> string) \<Rightarrow> string \<Rightarrow> credential \<Rightarrow> token_draw \<Rightarrow> int \<Rightarrow> auth_db \<Rightarrow> auth_error + token_bundle \<times> auth_db" where
  "issue_token_for_passkey cfg hash agentID0 cr d now db =
     (let agentID = trim agentID0;
          mine = (\<lambda>p. pc_agent_id p = agentID \<and> pc_credential_id p = b64_encode True False (cr_id cr))
      in if agentID = [] then Inl AgentNotFound
         else case find_agent agentID db of
           None \<Rightarrow> Inl AgentNotFound
         | Some a \<Rightarrow>
           if ag_revoked_at a \<noteq> None then Inl AgentRevoked
           else if \<not> list_ex mine (passkeys db) then Inl PasskeyNotFound
           else issue_token_bundle cfg hash agentID d now
                  (db\<lparr>passkeys := map (\<lambda>p. if mine p then p\<lparr>pc_sign_count := cr_sign_count cr\<rparr> else p) (passkeys db)\<rparr>))"

section \<open>Workspace grants\<close>

text \<open>
  The grant's \<open>jti\<close> is spent in a statement of its own, before the transaction: what follows may fail, and the
  \<open>jti\<close> stays spent.  So these operations return the database beside the result.
\<close>

definition consume_workspace_grant_jti :: "string \<Rightarrow> int \<Rightarrow> auth_db \<Rightarrow> auth_error + auth_db" where
  "consume_workspace_grant_jti jti now db =
     (if jti \<in> fst ` set (grant_jtis db) then Inl ExternalGrantReplay
      else Inr (db\<lparr>grant_jtis := grant_jtis db @ [(jti, Stamp now)]\<rparr>))"

definition purge_consumed_grant_jtis :: "int \<Rightarrow> int \<Rightarrow> int \<Rightarrow> auth_db \<Rightarrow> nat \<times> auth_db" where
  "purge_consumed_grant_jtis default_retention retention now db =
     (let r = (if retention \<le> 0 then default_retention else retention);
          gone = (\<lambda>j. snd j < Stamp (now - r))
      in (length (filter gone (grant_jtis db)), db\<lparr>grant_jtis := filter (\<lambda>j. \<not> gone j) (grant_jtis db)\<rparr>))"

definition upsert_actor :: "string \<Rightarrow> string \<Rightarrow> auth_db \<Rightarrow> auth_db" where
  "upsert_actor i name db =
     (if i \<in> fst ` set (actors db)
        then db\<lparr>actors := map (\<lambda>c. if fst c = i then (i, name) else c) (actors db)\<rparr>
      else db\<lparr>actors := actors db @ [(i, name)]\<rparr>)"

text \<open>\<open>ON CONFLICT(id) DO UPDATE\<close> replaces the whole metadata and keeps username, actor and revocation.\<close>

definition upsert_agent :: "agent_row \<Rightarrow> auth_db \<Rightarrow> auth_error + auth_db" where
  "upsert_agent a db =
     (if find_agent (ag_id a) db = None then insert_agent DatabaseError a db
      else Inr (update_agents (\<lambda>b. ag_id b = ag_id a)
        (\<lambda>b. b\<lparr>ag_updated_at := ag_updated_at a, ag_principal_kind := ag_principal_kind a,
               ag_auth_method := ag_auth_method a, ag_auth_admin := ag_auth_admin a,
               ag_external_subject := ag_external_subject a, ag_registration := ag_registration a\<rparr>) db))"

definition grant_transaction ::
  "auth_config \<Rightarrow> (string \<Rightarrow> string) \<Rightarrow> string \<Rightarrow> agent_row \<Rightarrow> token_draw \<Rightarrow> int \<Rightarrow> auth_db \<Rightarrow> auth_error + token_bundle \<times> auth_db" where
  "grant_transaction cfg hash name a d now db =
     bind_res (upsert_agent a (upsert_actor (ag_actor_id a) name db)) (\<lambda>db1.
       case find_agent (ag_id a) db1 of
         None \<Rightarrow> Inl DatabaseError
       | Some b \<Rightarrow> if ag_revoked_at b \<noteq> None then Inl AgentRevoked
                   else issue_token_bundle cfg hash (ag_id a) d now db1)"

definition grant_result :: "auth_error + auth_db \<Rightarrow> (auth_db \<Rightarrow> auth_error + token_bundle \<times> auth_db) \<Rightarrow> auth_db \<Rightarrow>
    (auth_error + token_bundle) \<times> auth_db" where
  "grant_result spent tx db =
     (case spent of
        Inl e \<Rightarrow> (Inl e, db)
      | Inr db1 \<Rightarrow> (case tx db1 of Inl e \<Rightarrow> (Inl e, db1) | Inr (tb, db2) \<Rightarrow> (Inr tb, db2)))"

record grant_identity =
  gi_issuer :: string
  gi_subject :: string
  gi_jti :: string
  gi_email :: string
  gi_display_name :: string
  gi_workspace_id :: string
  gi_organization_id :: string
  gi_slot_id :: string
  gi_slot_name :: string

definition stable_external_ids :: "(string \<Rightarrow> string) \<Rightarrow> string \<Rightarrow> string \<Rightarrow> string \<times> string \<times> string" where
  "stable_external_ids hash issuer subject =
     (let h = hash (trim issuer @ [CHR 0x0A] @ trim subject)
      in (''agent_ext_'' @ h, ''actor_ext_'' @ h, ''external.'' @ take 54 h))"

definition stable_managed_ids ::
  "(string \<Rightarrow> string) \<Rightarrow> string \<Rightarrow> string \<Rightarrow> string \<Rightarrow> string \<Rightarrow> string \<times> string \<times> string" where
  "stable_managed_ids hash issuer workspaceID organizationID slotID =
     (let h = hash (trim issuer @ [CHR 0x0A] @ trim workspaceID @ [CHR 0x0A] @ trim organizationID @ [CHR 0x0A] @ trim slotID)
      in (''agent_managed_'' @ h, ''actor_managed_'' @ h, ''managed.'' @ take 54 h))"

definition pick_display_name :: "string \<Rightarrow> string \<Rightarrow> string \<Rightarrow> string" where
  "pick_display_name name email fallback =
     (let v = first_non_empty [name, email, fallback] in if v = [] then ''external-user'' else v)"

definition human_grant_agent :: "(string \<Rightarrow> string) \<Rightarrow> grant_identity \<Rightarrow> int \<Rightarrow> agent_row" where
  "human_grant_agent hash g now =
     (let (i, c, u) = stable_external_ids hash (gi_issuer g) (gi_subject g)
      in (new_agent i u c kind_human ''external_grant'' False now)\<lparr>ag_external_subject := Some (trim (gi_subject g))\<rparr>)"

definition issue_token_from_human_grant ::
  "auth_config \<Rightarrow> (string \<Rightarrow> string) \<Rightarrow> grant_identity \<Rightarrow> token_draw \<Rightarrow> int \<Rightarrow> auth_db \<Rightarrow> (auth_error + token_bundle) \<times> auth_db" where
  "issue_token_from_human_grant cfg hash g d now db =
     (if trim (gi_subject g) = [] \<or> trim (gi_issuer g) = [] \<or> trim (gi_jti g) = []
        then (Inl (InvalidRequest ''workspace grant subject, issuer, and jti are required''), db)
      else let a = human_grant_agent hash g now
           in grant_result (consume_workspace_grant_jti (trim (gi_jti g)) now db)
                (grant_transaction cfg hash
                   (pick_display_name (gi_display_name g) (gi_email g) (ag_username a)) a d now) db)"

definition managed_grant_agent :: "(string \<Rightarrow> string) \<Rightarrow> grant_identity \<Rightarrow> int \<Rightarrow> agent_row" where
  "managed_grant_agent hash g now =
     (let (i, c, u) = stable_managed_ids hash (gi_issuer g) (gi_workspace_id g) (gi_organization_id g) (gi_slot_id g)
      in (new_agent i u c kind_agent ''managed_grant'' False now)\<lparr>ag_external_subject := Some (trim (gi_subject g))\<rparr>)"

definition issue_token_from_managed_grant ::
  "auth_config \<Rightarrow> (string \<Rightarrow> string) \<Rightarrow> grant_identity \<Rightarrow> token_draw \<Rightarrow> int \<Rightarrow> auth_db \<Rightarrow> (auth_error + token_bundle) \<times> auth_db" where
  "issue_token_from_managed_grant cfg hash g d now db =
     (if trim (gi_issuer g) = [] \<or> trim (gi_workspace_id g) = [] \<or> trim (gi_organization_id g) = [] \<or>
         trim (gi_slot_id g) = [] \<or> trim (gi_jti g) = []
        then (Inl (InvalidRequest
          ''workspace managed agent grant issuer, workspace_id, organization_id, slot_id, and jti are required''), db)
      else let a = managed_grant_agent hash g now
           in grant_result (consume_workspace_grant_jti (trim (gi_jti g)) now db)
                (grant_transaction cfg hash
                   (pick_display_name (gi_slot_name g) (gi_display_name g) (ag_username a)) a d now) db)"

end
