(* ===== verification/AuthSteps.thy ===== *)
theory AuthSteps
  imports AuthPrincipals
begin

text \<open>
  The authentication database as a state machine: one step is one operation of \<open>core/internal/auth\<close> that commits.
  What every step keeps of each table is stated once (\<open>rows_later\<close>, \<open>auth_later\<close>) and used through the locale
  \<open>auth_table\<close>: rows are never removed, their identity never changes, and a dead row stays dead.
\<close>

section \<open>Rows over time\<close>

definition rows_later :: "('r \<Rightarrow> 'k) \<Rightarrow> ('r \<Rightarrow> 'p) \<Rightarrow> ('r \<Rightarrow> bool) \<Rightarrow> 'r list \<Rightarrow> 'r list \<Rightarrow> bool" where
  "rows_later key keep dead rs rs' \<longleftrightarrow>
     (\<exists>f new. rs' = map f rs @ new \<and>
        (\<forall>r\<in>set rs. key (f r) = key r \<and> keep (f r) = keep r \<and> (dead r \<longrightarrow> dead (f r))) \<and>
        key ` set new \<inter> key ` set rs = {} \<and> distinct (map key new))"

lemma rows_later_refl [simp]: "rows_later key keep dead rs rs"
  unfolding rows_later_def by (rule exI [of _ id], rule exI [of _ "[]"]) simp

lemma rows_later_map:
  "(\<And>r. r \<in> set rs \<Longrightarrow> key (f r) = key r \<and> keep (f r) = keep r \<and> (dead r \<longrightarrow> dead (f r))) \<Longrightarrow>
   rows_later key keep dead rs (map f rs)"
  unfolding rows_later_def by (rule exI [of _ f], rule exI [of _ "[]"]) simp

lemma rows_later_append: "\<forall>r\<in>set rs. key r \<noteq> key n \<Longrightarrow> rows_later key keep dead rs (rs @ [n])"
  unfolding rows_later_def by (rule exI [of _ id], rule exI [of _ "[n]"]) auto

lemma rows_later_trans [trans]:
  assumes "rows_later key keep dead a b" "rows_later key keep dead b c"
  shows "rows_later key keep dead a c"
proof -
  obtain f n where f: "b = map f a @ n"
      "\<forall>r\<in>set a. key (f r) = key r \<and> keep (f r) = keep r \<and> (dead r \<longrightarrow> dead (f r))"
      "key ` set n \<inter> key ` set a = {}" "distinct (map key n)"
    using assms(1) by (auto simp: rows_later_def)
  obtain g m where g: "c = map g b @ m"
      "\<forall>r\<in>set b. key (g r) = key r \<and> keep (g r) = keep r \<and> (dead r \<longrightarrow> dead (g r))"
      "key ` set m \<inter> key ` set b = {}" "distinct (map key m)"
    using assms(2) by (auto simp: rows_later_def)
  have kn: "map key (map g n) = map key n" using f(1) g(2) by simp
  have "key ` set (map f a) = key ` set a"
    using f(2) by (simp add: image_image)
  then have kb: "key ` set b = key ` set a \<union> key ` set n"
    using f(1) by (simp add: image_Un)
  have c: "c = map (g \<circ> f) a @ (map g n @ m)" using f(1) g(1) by simp
  moreover have "\<forall>r\<in>set a. key ((g \<circ> f) r) = key r \<and> keep ((g \<circ> f) r) = keep r \<and> (dead r \<longrightarrow> dead ((g \<circ> f) r))"
    using f(1,2) g(2) by simp
  moreover have "key ` set (map g n @ m) \<inter> key ` set a = {}"
  proof -
    have "key ` set (map g n) = key ` set n" by (metis kn list.set_map)
    then show ?thesis using f(3) g(3) kb by auto
  qed
  moreover have "distinct (map key (map g n @ m))"
  proof -
    have "set (map key n) \<inter> set (map key m) = {}" using g(3) kb by auto
    then show ?thesis unfolding map_append distinct_append kn using f(4) g(4) by blast
  qed
  ultimately show ?thesis unfolding rows_later_def by blast
qed

lemma rows_later_distinct:
  "rows_later key keep dead a b \<Longrightarrow> distinct (map key a) \<Longrightarrow> distinct (map key b)"
proof -
  assume "rows_later key keep dead a b" "distinct (map key a)"
  then obtain f n where f: "b = map f a @ n"
      "\<forall>r\<in>set a. key (f r) = key r \<and> keep (f r) = keep r \<and> (dead r \<longrightarrow> dead (f r))"
      "key ` set n \<inter> key ` set a = {}" "distinct (map key n)"
    by (auto simp: rows_later_def)
  have "map key (map f a) = map key a" using f(2) by simp
  moreover have "set (map key n) \<inter> set (map key a) = {}" using f(3) by auto
  ultimately show ?thesis
    using \<open>distinct (map key a)\<close> f(1,4) by (simp only: map_append distinct_append) auto
qed

lemma rows_later_mem:
  "rows_later key keep dead a b \<Longrightarrow> r \<in> set a \<Longrightarrow> \<exists>s\<in>set b. key s = key r \<and> keep s = keep r \<and> (dead r \<longrightarrow> dead s)"
  by (force simp: rows_later_def)

lemma find_map_same: "(\<And>r. P (f r) = P r) \<Longrightarrow> find P (map f rs) = map_option f (find P rs)"
  by (induction rs) auto

text \<open>The row found under a key is found later, with the same identity; dead stays dead.\<close>

lemma rows_later_find:
  assumes "rows_later key keep dead a b" "find (\<lambda>r. key r = k) a = Some r"
  shows "\<exists>s. find (\<lambda>r. key r = k) b = Some s \<and> keep s = keep r \<and> (dead r \<longrightarrow> dead s)"
proof -
  obtain f n where f: "b = map f a @ n"
      "\<forall>r\<in>set a. key (f r) = key r \<and> keep (f r) = keep r \<and> (dead r \<longrightarrow> dead (f r))"
    using assms(1) by (auto simp: rows_later_def)
  have r: "r \<in> set a" using assms(2) by (auto simp: find_Some_iff)
  have "find (\<lambda>r. key r = k) (map f a) = map_option f (find (\<lambda>r. key r = k) a)"
    using f(2) by (induction a) auto
  then have "find (\<lambda>r. key r = k) b = Some (f r)" using f(1) assms(2) by (simp add: find_append)
  then show ?thesis using f(2) r by blast
qed

lemma find_by_key:
  "distinct (map key rs) \<Longrightarrow> r \<in> set rs \<Longrightarrow> find (\<lambda>s. key s = key r) rs = Some r"
  by (induction rs) auto

section \<open>Databases over time\<close>

definition agent_dead :: "agent_row \<Rightarrow> bool" where "agent_dead a \<longleftrightarrow> ag_revoked_at a \<noteq> None"
definition key_dead :: "agent_key_row \<Rightarrow> bool" where "key_dead k \<longleftrightarrow> k_revoked_at k \<noteq> None"
definition session_dead :: "refresh_session \<Rightarrow> bool" where
  "session_dead r \<longleftrightarrow> rs_revoked_at r \<noteq> None \<or> rs_replaced_by r \<noteq> None"
definition token_dead :: "access_token_row \<Rightarrow> bool" where "token_dead t \<longleftrightarrow> at_revoked_at t \<noteq> None"
definition invite_dead :: "invite_row \<Rightarrow> bool" where "invite_dead i \<longleftrightarrow> inv_consumed_at i \<noteq> None"

lemmas dead_defs = agent_dead_def key_dead_def session_dead_def token_dead_def invite_dead_def

abbreviation agents_later :: "auth_db \<Rightarrow> auth_db \<Rightarrow> bool" where
  "agents_later a b \<equiv> rows_later ag_id ag_actor_id agent_dead (agents a) (agents b)"
abbreviation keys_later :: "auth_db \<Rightarrow> auth_db \<Rightarrow> bool" where
  "keys_later a b \<equiv> rows_later k_id (\<lambda>k. (k_agent_id k, k_public_key k)) key_dead (agent_keys a) (agent_keys b)"
abbreviation sessions_later :: "auth_db \<Rightarrow> auth_db \<Rightarrow> bool" where
  "sessions_later a b \<equiv> rows_later rs_token_hash (\<lambda>r. (rs_agent_id r, rs_id r)) session_dead
     (refresh_sessions a) (refresh_sessions b)"
abbreviation tokens_later :: "auth_db \<Rightarrow> auth_db \<Rightarrow> bool" where
  "tokens_later a b \<equiv> rows_later at_token_hash at_agent_id token_dead (access_tokens a) (access_tokens b)"
abbreviation invites_later :: "auth_db \<Rightarrow> auth_db \<Rightarrow> bool" where
  "invites_later a b \<equiv> rows_later inv_id inv_token_hash invite_dead (invites a) (invites b)"

text \<open>The replay memory forgets a use only once the time \<open>t\<close> is close to the end of the skew.\<close>

definition uses_later :: "auth_config \<Rightarrow> int \<Rightarrow> auth_db \<Rightarrow> auth_db \<Rightarrow> bool" where
  "uses_later cfg t a b \<longleftrightarrow>
     (\<forall>u\<in>set (used_assertions a). t - max_assertion_skew cfg + second_ns \<le> stamp_ns (snd u) \<longrightarrow>
        u \<in> set (used_assertions b))"

definition auth_later :: "auth_config \<Rightarrow> int \<Rightarrow> auth_db \<Rightarrow> auth_db \<Rightarrow> bool" where
  "auth_later cfg t a b \<longleftrightarrow>
     agents_later a b \<and> keys_later a b \<and> sessions_later a b \<and> tokens_later a b \<and> invites_later a b \<and>
     (bootstrap a \<noteq> None \<longrightarrow> bootstrap b \<noteq> None) \<and> uses_later cfg t a b"

lemma auth_later_refl [simp]: "auth_later cfg t db db"
  by (simp add: auth_later_def uses_later_def)

lemma auth_later_trans [trans]: "auth_later cfg t a b \<Longrightarrow> auth_later cfg t b c \<Longrightarrow> auth_later cfg t a c"
  unfolding auth_later_def uses_later_def by (auto elim: rows_later_trans)

lemma auth_later_mono: "auth_later cfg t a b \<Longrightarrow> t \<le> t' \<Longrightarrow> auth_later cfg t' a b"
  unfolding auth_later_def uses_later_def by fastforce

text \<open>A change outside these tables, such as an audit event, is no change.\<close>

lemma auth_later_same:
  "agents b = agents a \<Longrightarrow> agent_keys b = agent_keys a \<Longrightarrow> refresh_sessions b = refresh_sessions a \<Longrightarrow>
   access_tokens b = access_tokens a \<Longrightarrow> invites b = invites a \<Longrightarrow> bootstrap b = bootstrap a \<Longrightarrow>
   used_assertions b = used_assertions a \<Longrightarrow> auth_later cfg t a b"
  by (simp add: auth_later_def uses_later_def)

named_theorems later_rules

lemma audit_later [later_rules]: "auth_later cfg t db (record_audit_event ty at a b c d e db)"
  by (rule auth_later_same) simp_all

lemma actors_later [later_rules]: "auth_later cfg t db (db\<lparr>actors := x\<rparr>)"
  by (rule auth_later_same) simp_all

lemma passkeys_later [later_rules]: "auth_later cfg t db (db\<lparr>passkeys := x\<rparr>)"
  by (rule auth_later_same) simp_all

lemma jtis_later [later_rules]: "auth_later cfg t db (db\<lparr>grant_jtis := x\<rparr>)"
  by (rule auth_later_same) simp_all

lemma update_agents_later [later_rules]:
  "(\<And>a. ag_id (f a) = ag_id a \<and> ag_actor_id (f a) = ag_actor_id a \<and> (agent_dead a \<longrightarrow> agent_dead (f a))) \<Longrightarrow>
   auth_later cfg t db (update_agents P f db)"
  by (auto simp: auth_later_def uses_later_def update_agents_def intro: rows_later_map)

lemma update_invites_later [later_rules]:
  "(\<And>i. inv_id (f i) = inv_id i \<and> inv_token_hash (f i) = inv_token_hash i \<and> (invite_dead i \<longrightarrow> invite_dead (f i))) \<Longrightarrow>
   auth_later cfg t db (update_invites P f db)"
  by (auto simp: auth_later_def uses_later_def update_invites_def intro: rows_later_map)

lemma revoke_keys_later [later_rules]: "auth_later cfg t db (revoke_keys i now db)"
  by (auto simp: auth_later_def uses_later_def revoke_keys_def dead_defs intro!: rows_later_map)

lemma revoke_sessions_later [later_rules]: "auth_later cfg t db (revoke_sessions i now db)"
  by (auto simp: auth_later_def uses_later_def revoke_sessions_def dead_defs intro!: rows_later_map)

lemma insert_agent_later [later_rules]: "insert_agent e a db = Inr db' \<Longrightarrow> auth_later cfg t db db'"
  by (auto simp: insert_agent_def auth_later_def uses_later_def list_ex_iff split: if_splits
      intro!: rows_later_append)

lemma insert_actor_later [later_rules]: "insert_actor i n db = Inr db' \<Longrightarrow> auth_later cfg t db db'"
  by (auto simp: insert_actor_def split: if_splits intro: actors_later)

lemma insert_key_later [later_rules]: "insert_key k db = Inr db' \<Longrightarrow> auth_later cfg t db db'"
  by (auto simp: insert_key_def auth_later_def uses_later_def list_ex_iff split: if_splits
      intro!: rows_later_append)

lemma insert_passkey_later [later_rules]: "insert_passkey_credential i h c db = Inr db' \<Longrightarrow> auth_later cfg t db db'"
  by (auto simp: insert_passkey_credential_def split: if_splits intro: passkeys_later)

lemma bundle_later [later_rules]:
  "issue_token_bundle cfg' hash i d now db = Inr (tb, db') \<Longrightarrow> auth_later cfg t db db'"
  by (auto simp: issue_token_bundle_def auth_later_def uses_later_def list_ex_iff split: if_splits
      intro!: rows_later_append)

lemma consume_later [later_rules]:
  "consume_onboarding_claim cfg' claim i c now db = Inr db' \<Longrightarrow> auth_later cfg t db db'"
proof (cases "cl_mode claim")
  case ModeBootstrap
  assume "consume_onboarding_claim cfg' claim i c now db = Inr db'"
  then show ?thesis
    by (auto simp: ModeBootstrap consume_onboarding_claim_def auth_later_def uses_later_def split: if_splits)
next
  case ModeInvite
  assume "consume_onboarding_claim cfg' claim i c now db = Inr db'"
  then have "db' = record_audit_event ''invite_consumed'' (Stamp now) i c i c (cl_invite_id claim)
      (update_invites (consumable now claim) (\<lambda>r. r\<lparr>inv_consumed_at := Some (Stamp now),
         inv_consumed_by_agent_id := Some i, inv_consumed_by_actor_id := Some c\<rparr>) db)"
    by (auto simp: ModeInvite consume_onboarding_claim_def split: if_splits)
  then show ?thesis
    by (auto intro!: auth_later_trans [OF update_invites_later audit_later] simp: dead_defs)
next
  case (ModeOther m)
  moreover assume "consume_onboarding_claim cfg' claim i c now db = Inr db'"
  ultimately show ?thesis by (simp add: consume_onboarding_claim_def)
qed

lemma use_later [later_rules]:
  "record_assertion_use cfg hash m s now db = Inr db' \<Longrightarrow> auth_later cfg now db db'"
proof -
  assume "record_assertion_use cfg hash m s now db = Inr db'"
  then have db': "db' = db\<lparr>used_assertions := filter (\<lambda>u. \<not> snd u < Stamp (now - max_assertion_skew cfg)) (used_assertions db) @
      [(hash_assertion_replay hash m s, Stamp now)]\<rparr>"
    by (auto simp: record_assertion_use_def Let_def split: if_splits)
  have "\<not> u < Stamp (now - max_assertion_skew cfg)" if "now - max_assertion_skew cfg + second_ns \<le> stamp_ns u" for u
    using stamp_less_whole_second [of "now - max_assertion_skew cfg" "stamp_ns u"] that by auto
  then show ?thesis by (auto simp: auth_later_def uses_later_def db')
qed

section \<open>Every operation moves forward\<close>

lemma audited_bundle_later:
  "issue_token_bundle cfg' hash i d now (record_audit_event ty at a b c e f db) = Inr (tb, db') \<Longrightarrow> auth_later cfg t db db'"
  by (rule auth_later_trans [OF audit_later bundle_later])

lemma register_later:
  "register_agent_once cfg' hash u pk claim ex d now db = Inr (tb, db') \<Longrightarrow> auth_later cfg t db db'"
  unfolding register_agent_once_def Let_def
  by (auto simp: bind_res_Inr_iff split: if_splits
      dest!: consume_later [where cfg = cfg and t = t] insert_agent_later [where cfg = cfg and t = t]
             insert_actor_later [where cfg = cfg and t = t] insert_key_later [where cfg = cfg and t = t]
             audited_bundle_later [where cfg = cfg and t = t])
    (meson auth_later_trans)+

lemma register_passkey_later:
  "register_passkey_agent cfg' hash n h cr ex claim sfx d now db = Inr (tb, db') \<Longrightarrow> auth_later cfg t db db'"
  unfolding register_passkey_agent_def Let_def
  by (auto simp: bind_res_Inr_iff split: if_splits option.splits
      dest!: consume_later [where cfg = cfg and t = t] insert_agent_later [where cfg = cfg and t = t]
             insert_actor_later [where cfg = cfg and t = t] insert_passkey_later [where cfg = cfg and t = t]
             audited_bundle_later [where cfg = cfg and t = t])
    (meson auth_later_trans)+

lemma assertion_later:
  "issue_token_from_assertion cfg hash verify i k s g d now db = Inr (tb, db') \<Longrightarrow> auth_later cfg now db db'"
  unfolding issue_token_from_assertion_def Let_def
  by (auto simp: bind_res_Inr_iff split: if_splits option.splits prod.splits
      dest!: use_later bundle_later [where cfg = cfg and t = now] intro: auth_later_trans)

lemma refresh_sessions_map_later:
  "(\<And>r. rs_token_hash (f r) = rs_token_hash r \<and> rs_agent_id (f r) = rs_agent_id r \<and> rs_id (f r) = rs_id r \<and>
        (session_dead r \<longrightarrow> session_dead (f r))) \<Longrightarrow>
   auth_later cfg t db (db\<lparr>refresh_sessions := map f (refresh_sessions db)\<rparr>)"
  by (auto simp: auth_later_def uses_later_def intro!: rows_later_map)

lemma refresh_later:
  "issue_token_from_refresh cfg' hash ck rt d now0 now db = Inr (tb, db') \<Longrightarrow> auth_later cfg t db db'"
  unfolding issue_token_from_refresh_def Let_def
  by (auto simp: bind_res_Inr_iff dead_defs split: if_splits option.splits prod.splits
      dest!: bundle_later [where cfg = cfg and t = t]
      intro!: auth_later_trans [OF _ refresh_sessions_map_later])

lemma passkey_token_later:
  "issue_token_for_passkey cfg' hash i cr d now db = Inr (tb, db') \<Longrightarrow> auth_later cfg t db db'"
  unfolding issue_token_for_passkey_def Let_def
  by (auto split: if_splits option.splits dest!: bundle_later [where cfg = cfg and t = t]
      intro: auth_later_trans [OF passkeys_later])

lemma upsert_actor_later: "auth_later cfg t db (upsert_actor i n db)"
  by (auto simp: upsert_actor_def intro: actors_later)

lemma upsert_agent_later: "upsert_agent a db = Inr db' \<Longrightarrow> auth_later cfg t db db'"
  unfolding upsert_agent_def
  by (auto simp: agent_dead_def split: if_splits intro: insert_agent_later intro!: update_agents_later)

lemma guarded_case_Inr:
  "(case x of None \<Rightarrow> Inl e | Some b \<Rightarrow> if P b then Inl e' else k) = Inr y \<Longrightarrow> k = Inr y"
  by (cases x) (auto split: if_splits)

lemma grant_transaction_later:
  "grant_transaction cfg' hash n a d now db = Inr (tb, db') \<Longrightarrow> auth_later cfg t db db'"
  unfolding grant_transaction_def
  by (auto simp: bind_res_Inr_iff
      dest!: guarded_case_Inr upsert_agent_later [where cfg = cfg and t = t] bundle_later [where cfg = cfg and t = t])
    (meson auth_later_trans upsert_actor_later)

lemma consume_jti_later: "consume_workspace_grant_jti j now db = Inr db' \<Longrightarrow> auth_later cfg t db db'"
  by (auto simp: consume_workspace_grant_jti_def split: if_splits intro: jtis_later)

lemma grant_result_later:
  "grant_result (consume_workspace_grant_jti j now db) (grant_transaction cfg' hash n a d now) db = (res, db') \<Longrightarrow>
   auth_later cfg t db db'"
  unfolding grant_result_def
  by (auto split: sum.splits prod.splits
      dest!: consume_jti_later [where cfg = cfg and t = t] grant_transaction_later [where cfg = cfg and t = t]
      intro: auth_later_trans)

lemma human_grant_later:
  "issue_token_from_human_grant cfg' hash g d now db = (res, db') \<Longrightarrow> auth_later cfg t db db'"
  unfolding issue_token_from_human_grant_def Let_def by (auto split: if_splits dest: grant_result_later)

lemma managed_grant_later:
  "issue_token_from_managed_grant cfg' hash g d now db = (res, db') \<Longrightarrow> auth_later cfg t db db'"
  unfolding issue_token_from_managed_grant_def Let_def by (auto split: if_splits dest: grant_result_later)

lemma create_invite_later:
  "create_invite hash n0 now i tok a c k e db = Inr (r, db') \<Longrightarrow> auth_later cfg t db db'"
  unfolding create_invite_def Let_def
  by (auto simp: auth_later_def uses_later_def list_ex_iff split: option.splits if_splits intro!: rows_later_append)

lemma revoke_invite_later: "revoke_invite now i a c db = Inr (r, db') \<Longrightarrow> auth_later cfg t db db'"
  unfolding revoke_invite_def Let_def
  by (auto simp: bind_res_Inr_iff dead_defs split: if_splits
      intro!: auth_later_trans [OF update_invites_later audit_later])

lemma update_username_later: "update_username i u now db = Inr db' \<Longrightarrow> auth_later cfg t db db'"
  unfolding update_username_def Let_def
  by (auto simp: bind_res_Inr_iff dead_defs split: if_splits option.splits
      intro!: auth_later_trans [OF update_agents_later actors_later])

lemma update_registration_later: "update_registration i r nt now db = Inr (reg, db') \<Longrightarrow> auth_later cfg t db db'"
  unfolding update_registration_def Let_def
  by (auto simp: dead_defs split: if_splits option.splits intro!: update_agents_later)

lemma rotate_key_later: "rotate_key i pk k now db = Inr (r, db') \<Longrightarrow> auth_later cfg t db db'"
  unfolding rotate_key_def Let_def
  by (auto simp: bind_res_Inr_iff dead_defs split: if_splits option.splits
      dest!: insert_key_later [where cfg = cfg and t = t]
      intro!: auth_later_trans [OF auth_later_trans [OF auth_later_trans [OF revoke_keys_later] revoke_sessions_later]
        update_agents_later])

lemma revoke_agent_later: "revoke_agent i inp now db = Inr (r, db') \<Longrightarrow> auth_later cfg t db db'"
  unfolding revoke_agent_def Let_def
  by (auto simp: bind_res_Inr_iff dead_defs split: if_splits option.splits
      intro!: auth_later_trans [OF auth_later_trans [OF update_agents_later revoke_keys_later] audit_later])

end
