(* ===== verification/AuthRuns.thy ===== *)
theory AuthRuns
  imports AuthSteps
begin

text \<open>
  The step relation of the authentication database, its runs, and the locale \<open>auth_table\<close>: the contract every table
  of this database has with the operations, interpreted on agents, keys, sessions, access tokens and invites.
\<close>

section \<open>Steps\<close>

record auth_env =
  en_cfg :: auth_config
  en_hash :: "string \<Rightarrow> string"
  en_verify :: "8 word list \<Rightarrow> string \<Rightarrow> 8 word list \<Rightarrow> bool"
  en_checker :: "(string \<Rightarrow> account_error option) option"

definition registers ::
  "auth_env \<Rightarrow> onboarding_claim \<Rightarrow> string \<Rightarrow> int \<Rightarrow> auth_db \<Rightarrow> token_bundle \<Rightarrow> auth_db \<Rightarrow> bool" where
  "registers env claim agentID now db tb db' \<longleftrightarrow>
     (\<exists>u pk ex d. ad_agent_id d = agentID \<and>
        register_agent_once (en_cfg env) (en_hash env) u pk claim ex d now db = Inr (tb, db')) \<or>
     (\<exists>n h cr ex sfx d. ad_agent_id d = agentID \<and>
        register_passkey_agent (en_cfg env) (en_hash env) n h cr ex claim sfx d now db = Inr (tb, db'))"

lemma registers_key:
  "register_agent_once (en_cfg env) (en_hash env) u pk claim ex d now db = Inr (tb, db') \<Longrightarrow>
   registers env claim (ad_agent_id d) now db tb db'"
  unfolding registers_def by blast

lemma registers_passkey:
  "register_passkey_agent (en_cfg env) (en_hash env) n h cr ex claim sfx d now db = Inr (tb, db') \<Longrightarrow>
   registers env claim (ad_agent_id d) now db tb db'"
  unfolding registers_def by blast

inductive auth_step :: "auth_env \<Rightarrow> int \<Rightarrow> auth_db \<Rightarrow> auth_db \<Rightarrow> bool" for env where
  step_create_invite: "create_invite (en_hash env) n0 now i tok a c k e db = Inr (r, db') \<Longrightarrow> auth_step env now db db'"
| step_revoke_invite: "revoke_invite now i a c db = Inr (r, db') \<Longrightarrow> auth_step env now db db'"
| step_register: "registers env claim i now db tb db' \<Longrightarrow> auth_step env now db db'"
| step_assertion: "issue_token_from_assertion (en_cfg env) (en_hash env) (en_verify env) i k s g d now db = Inr (tb, db') \<Longrightarrow>
    auth_step env now db db'"
| step_refresh: "issue_token_from_refresh (en_cfg env) (en_hash env) (en_checker env) rt d now0 now db = Inr (tb, db') \<Longrightarrow>
    auth_step env now db db'"
| step_passkey: "issue_token_for_passkey (en_cfg env) (en_hash env) i cr d now db = Inr (tb, db') \<Longrightarrow>
    auth_step env now db db'"
| step_human_grant: "issue_token_from_human_grant (en_cfg env) (en_hash env) g d now db = (res, db') \<Longrightarrow>
    auth_step env now db db'"
| step_managed_grant: "issue_token_from_managed_grant (en_cfg env) (en_hash env) g d now db = (res, db') \<Longrightarrow>
    auth_step env now db db'"
| step_purge_jtis: "purge_consumed_grant_jtis dr r now db = (n, db') \<Longrightarrow> auth_step env now db db'"
| step_username: "update_username i u now db = Inr db' \<Longrightarrow> auth_step env now db db'"
| step_registration: "update_registration i r nt now db = Inr (reg, db') \<Longrightarrow> auth_step env now db db'"
| step_rotate: "rotate_key i pk k now db = Inr (row, db') \<Longrightarrow> auth_step env now db db'"
| step_revoke: "revoke_agent i inp now db = Inr (res, db') \<Longrightarrow> auth_step env now db db'"

inductive_cases auth_stepE: "auth_step env now db db'"

text \<open>Several steps, none after the time \<open>t\<close>.\<close>

inductive auth_run :: "auth_env \<Rightarrow> int \<Rightarrow> auth_db \<Rightarrow> auth_db \<Rightarrow> bool" for env t where
  run_refl: "auth_run env t db db"
| run_step: "auth_run env t db db1 \<Longrightarrow> auth_step env now db1 db2 \<Longrightarrow> now \<le> t \<Longrightarrow> auth_run env t db db2"

definition auth_empty :: auth_db where
  "auth_empty = \<lparr>agents = [], actors = [], agent_keys = [], refresh_sessions = [], access_tokens = [],
     used_assertions = [], invites = [], bootstrap = None, audit_events = [], passkeys = [], grant_jtis = []\<rparr>"

lemma registers_later: "registers env claim i now db tb db' \<Longrightarrow> auth_later cfg t db db'"
  unfolding registers_def by (auto dest: register_later register_passkey_later)

lemma auth_step_later: "auth_step env now db db' \<Longrightarrow> auth_later (en_cfg env) now db db'"
  by (erule auth_stepE)
    (auto simp: purge_consumed_grant_jtis_def Let_def intro: jtis_later
      dest: create_invite_later revoke_invite_later registers_later assertion_later refresh_later passkey_token_later
        human_grant_later managed_grant_later update_username_later update_registration_later rotate_key_later revoke_agent_later)

lemma auth_run_later: "auth_run env t db db' \<Longrightarrow> auth_later (en_cfg env) t db db'"
proof (induction rule: auth_run.induct)
  case (run_step db db1 now db2)
  then show ?case by (meson auth_later_mono auth_later_trans auth_step_later)
qed simp

lemma auth_run_trans: "auth_run env t b c \<Longrightarrow> auth_run env t a b \<Longrightarrow> auth_run env t a c"
  by (induction rule: auth_run.induct) (auto intro: auth_run.intros)

lemma auth_run_mono: "auth_run env t a b \<Longrightarrow> t \<le> t' \<Longrightarrow> auth_run env t' a b"
  by (induction rule: auth_run.induct) (auto intro: auth_run.intros)

section \<open>The contract of a table\<close>

locale auth_table =
  fixes rows :: "auth_db \<Rightarrow> 'r list"
    and key :: "'r \<Rightarrow> string"
    and keep :: "'r \<Rightarrow> 'p"
    and dead :: "'r \<Rightarrow> bool"
  assumes moves_forward: "auth_later cfg t db db' \<Longrightarrow> rows_later key keep dead (rows db) (rows db')"
    and starts_empty: "rows auth_empty = []"
begin

lemma unique: "auth_run env t auth_empty db \<Longrightarrow> distinct (map key (rows db))"
proof -
  assume "auth_run env t auth_empty db"
  from rows_later_distinct [OF moves_forward [OF auth_run_later [OF this]]] show ?thesis
    by (simp add: starts_empty)
qed

lemma found_later:
  "auth_run env t db db' \<Longrightarrow> find (\<lambda>r. key r = k) (rows db) = Some r \<Longrightarrow>
   \<exists>s. find (\<lambda>r. key r = k) (rows db') = Some s \<and> keep s = keep r \<and> (dead r \<longrightarrow> dead s)"
  by (rule rows_later_find [OF moves_forward [OF auth_run_later]])

lemma stays_unique: "auth_later cfg t db db' \<Longrightarrow> distinct (map key (rows db)) \<Longrightarrow> distinct (map key (rows db'))"
  by (rule rows_later_distinct [OF moves_forward])

lemma dead_later:
  assumes "auth_run env t db db'" "find (\<lambda>r. key r = k) (rows db) = Some r" "dead r"
    and "find (\<lambda>r. key r = k) (rows db') = Some s"
  shows "dead s"
  using found_later [OF assms(1,2)] assms(3,4) by auto

lemma kept_later:
  assumes "auth_run env t db db'" "find (\<lambda>r. key r = k) (rows db) = Some r"
    and "find (\<lambda>r. key r = k) (rows db') = Some s"
  shows "keep s = keep r"
  using found_later [OF assms(1,2)] assms(3) by auto

end

interpretation agent_table: auth_table agents ag_id ag_actor_id agent_dead
  by unfold_locales (auto simp: auth_later_def auth_empty_def)

interpretation key_table: auth_table agent_keys k_id "\<lambda>k. (k_agent_id k, k_public_key k)" key_dead
  by unfold_locales (auto simp: auth_later_def auth_empty_def)

interpretation session_table: auth_table refresh_sessions rs_token_hash "\<lambda>r. (rs_agent_id r, rs_id r)" session_dead
  by unfold_locales (auto simp: auth_later_def auth_empty_def)

interpretation token_table: auth_table access_tokens at_token_hash at_agent_id token_dead
  by unfold_locales (auto simp: auth_later_def auth_empty_def)

interpretation invite_table: auth_table invites inv_id inv_token_hash invite_dead
  by unfold_locales (auto simp: auth_later_def auth_empty_def)

end
