(* ===== verification/AuthSamples.thy ===== *)
theory AuthSamples
  imports AuthRuns
begin

text \<open>
  A short history of the authentication database, on which the properties are applied: \<open>alice\<close> registers with the
  bootstrap token, invites a human, who registers with a passkey.  The hash is an injective stand-in, and every
  signature verifies.
\<close>

lemma inr_split: "\<not> isl x \<Longrightarrow> x = Inr (fst (projr x), snd (projr x))"
  by (cases x) auto

definition base_time :: int where "base_time = 1700000000 * second_ns"

definition sample_env :: auth_env where
  "sample_env = \<lparr>en_cfg = \<lparr>access_token_ttl = 900 * second_ns, refresh_token_ttl = 2592000 * second_ns,
     max_assertion_skew = 300 * second_ns, bootstrap_token_hash = ''h:boot'', allow_linked_actor = False\<rparr>,
     en_hash = (\<lambda>s. ''h:'' @ s), en_verify = (\<lambda>p m s. True), en_checker = None\<rparr>"

definition sample_draw :: "string \<Rightarrow> token_draw" where
  "sample_draw n = \<lparr>td_refresh_token = ''rt'' @ n, td_access_token = ''at'' @ n, td_refresh_id = ''rs'' @ n,
     td_access_id = ''as'' @ n\<rparr>"

definition sample_agent :: "string \<Rightarrow> agent_draw" where
  "sample_agent n = \<lparr>ad_agent_id = ''agent'' @ n, ad_key_id = ''key'' @ n, ad_tokens = sample_draw n\<rparr>"

definition sample_key :: string where
  "sample_key = b64_encode False True (replicate 32 0)"

definition boot_claim :: onboarding_claim where
  "boot_claim = \<lparr>cl_mode = ModeBootstrap, cl_principal_kind = ''agent'', cl_token_hash = ''h:boot'',
     cl_invite_id = [], cl_invite_kind = []\<rparr>"

definition alice_result :: "auth_error + token_bundle \<times> auth_db" where
  "alice_result = register_agent_once (en_cfg sample_env) (en_hash sample_env) ''alice'' sample_key boot_claim []
     (sample_agent ''1'') base_time auth_empty"

definition alice_tb :: token_bundle where "alice_tb = fst (projr alice_result)"

definition alice_db :: auth_db where "alice_db = snd (projr alice_result)"

definition invite_result :: "auth_error + invite_row \<times> auth_db" where
  "invite_result = create_invite (en_hash sample_env) base_time base_time ''inv1'' ''secret'' ''agent1'' ''agent1'' ''human''
     (Some (base_time + hour_ns)) alice_db"

definition invite_row :: invite_row where "invite_row = fst (projr invite_result)"

definition invite_db :: auth_db where "invite_db = snd (projr invite_result)"

definition invite_claim :: onboarding_claim where
  "invite_claim = \<lparr>cl_mode = ModeInvite, cl_principal_kind = ''human'', cl_token_hash = ''h:secret'',
     cl_invite_id = ''inv1'', cl_invite_kind = ''human''\<rparr>"

definition bob_credential :: credential where
  "bob_credential = \<lparr>cr_id = [1, 2, 3], cr_public_key = [4], cr_sign_count = 0\<rparr>"

definition bob_result :: "auth_error + token_bundle \<times> auth_db" where
  "bob_result = register_passkey_agent (en_cfg sample_env) (en_hash sample_env) ''Bob B.'' ''uh'' (Some bob_credential) []
     invite_claim ''00ff00ff'' (sample_agent ''2'') (base_time + 1) invite_db"

definition bob_tb :: token_bundle where "bob_tb = fst (projr bob_result)"

definition bob_db :: auth_db where "bob_db = snd (projr bob_result)"

lemma alice_ok: "alice_result = Inr (alice_tb, alice_db)"
proof -
  have "\<not> isl alice_result" by code_simp
  then show ?thesis unfolding alice_tb_def alice_db_def by (rule inr_split)
qed

lemma invite_ok: "invite_result = Inr (invite_row, invite_db)"
proof -
  have "\<not> isl invite_result" by code_simp
  then show ?thesis unfolding invite_row_def invite_db_def by (rule inr_split)
qed

lemma bob_ok: "bob_result = Inr (bob_tb, bob_db)"
proof -
  have "\<not> isl bob_result" by code_simp
  then show ?thesis unfolding bob_tb_def bob_db_def by (rule inr_split)
qed

lemma sample_ids [simp]: "ad_agent_id (sample_agent n) = ''agent'' @ n"
  by (simp add: sample_agent_def)

lemma alice_registers: "registers sample_env boot_claim ''agent1'' base_time auth_empty alice_tb alice_db"
  using registers_key [OF alice_ok [unfolded alice_result_def]] by simp

lemma bob_registers: "registers sample_env invite_claim ''agent2'' (base_time + 1) invite_db bob_tb bob_db"
  using registers_passkey [OF bob_ok [unfolded bob_result_def]] by simp

lemma run_to_invite: "auth_run sample_env base_time auth_empty invite_db"
  by (rule run_step [OF run_step [OF run_refl step_register [OF alice_registers]]
        step_create_invite [OF invite_ok [unfolded invite_result_def]]]) simp_all

lemma run_to_bob: "auth_run sample_env (base_time + 1) auth_empty bob_db"
  by (rule run_step [OF auth_run_mono [OF run_to_invite] step_register [OF bob_registers]]) simp_all

end
