(* ===== verification/AuthOnboarding.thy ===== *)
theory AuthOnboarding
  imports AuthSamples
begin

text \<open>
  Who gets in: a registration needs a live grant, a grant admits one principal, resolving a claim agrees with
  consuming it, and only the bootstrap principal is an administrator.
\<close>

section \<open>Consuming\<close>

lemma registers_consumes:
  assumes "registers env claim i now db tb db'"
  obtains actorID db1 where "consume_onboarding_claim (en_cfg env) claim i actorID now db = Inr db1"
    "\<And>cfg t. auth_later cfg t db1 db'"
proof -
  consider (key) u pk ex d where "ad_agent_id d = i"
      "register_agent_once (en_cfg env) (en_hash env) u pk claim ex d now db = Inr (tb, db')"
    | (passkey) n h cr ex sfx d where "ad_agent_id d = i"
      "register_passkey_agent (en_cfg env) (en_hash env) n h cr ex claim sfx d now db = Inr (tb, db')"
    using assms unfolding registers_def by blast
  then show ?thesis
  proof cases
    case key
    let ?c = "if trim ex \<noteq> [] then trim ex else i"
    obtain db1 where c: "consume_onboarding_claim (en_cfg env) claim i ?c now db = Inr db1"
      using key by (auto simp: register_agent_once_def Let_def bind_res_Inr_iff split: if_splits)
    have "auth_later cfg t db1 db'" for cfg t
      using key c unfolding register_agent_once_def Let_def
      by (auto simp: bind_res_Inr_iff split: if_splits
          dest!: insert_agent_later [where cfg = cfg and t = t] insert_actor_later [where cfg = cfg and t = t]
            insert_key_later [where cfg = cfg and t = t] audited_bundle_later [where cfg = cfg and t = t])
        (meson auth_later_trans)+
    with c that show ?thesis by blast
  next
    case passkey
    let ?c = "if trim ex \<noteq> [] then trim ex else i"
    obtain db1 where c: "consume_onboarding_claim (en_cfg env) claim i ?c now db = Inr db1"
      using passkey by (auto simp: register_passkey_agent_def Let_def bind_res_Inr_iff split: if_splits option.splits)
    have "auth_later cfg t db1 db'" for cfg t
      using passkey c unfolding register_passkey_agent_def Let_def
      by (auto simp: bind_res_Inr_iff split: if_splits option.splits
          dest!: insert_agent_later [where cfg = cfg and t = t] insert_actor_later [where cfg = cfg and t = t]
            insert_passkey_later [where cfg = cfg and t = t] audited_bundle_later [where cfg = cfg and t = t])
        (meson auth_later_trans)+
    with c that show ?thesis by blast
  qed
qed

lemma consume_cases:
  assumes "consume_onboarding_claim cfg claim i c now db = Inr db1"
  obtains (boot) "cl_mode claim = ModeBootstrap" "bootstrap db = None" "bootstrap db1 \<noteq> None"
      "cl_token_hash claim = bootstrap_token_hash cfg" "trim (bootstrap_token_hash cfg) \<noteq> []"
    | (inv) r where "cl_mode claim = ModeInvite" "r \<in> set (invites db)" "consumable now claim r"
      "bootstrap db1 = bootstrap db"
      "invites db1 = map (\<lambda>r. if consumable now claim r then r\<lparr>inv_consumed_at := Some (Stamp now),
         inv_consumed_by_agent_id := Some i, inv_consumed_by_actor_id := Some c\<rparr> else r) (invites db)"
proof (cases "cl_mode claim")
  case ModeBootstrap
  with assms boot show ?thesis by (auto simp: consume_onboarding_claim_def split: if_splits)
next
  case ModeInvite
  with assms inv show ?thesis
    by (auto simp: consume_onboarding_claim_def update_invites_def list_ex_iff split: if_splits)
next
  case (ModeOther m)
  with assms show ?thesis by (simp add: consume_onboarding_claim_def)
qed

lemma consumed_invite_dead:
  assumes "consume_onboarding_claim cfg claim i c now db = Inr db1" "cl_mode claim = ModeInvite"
    and "distinct (map inv_id (invites db))"
  shows "\<exists>s. find (\<lambda>r. inv_id r = cl_invite_id claim) (invites db1) = Some s \<and> invite_dead s"
  using assms(1)
proof (cases rule: consume_cases)
  case boot
  with assms(2) show ?thesis by simp
next
  case (inv r)
  have r: "inv_id r = cl_invite_id claim" using inv(3) by (simp add: consumable_def)
  let ?f = "\<lambda>r. if consumable now claim r then r\<lparr>inv_consumed_at := Some (Stamp now),
         inv_consumed_by_agent_id := Some i, inv_consumed_by_actor_id := Some c\<rparr> else r"
  have "find (\<lambda>s. inv_id s = inv_id r) (invites db1) = map_option ?f (find (\<lambda>s. inv_id s = inv_id r) (invites db))"
    unfolding inv(5) by (rule find_map_same) simp
  also have "\<dots> = Some (?f r)" using find_by_key [OF assms(3) inv(2)] by simp
  finally show ?thesis using inv(3) r by (simp add: invite_dead_def)
qed

definition same_grant :: "onboarding_claim \<Rightarrow> onboarding_claim \<Rightarrow> bool" where
  "same_grant c1 c2 \<longleftrightarrow> cl_mode c1 = cl_mode c2 \<and>
     (cl_mode c1 = ModeInvite \<longrightarrow> cl_invite_id c1 = cl_invite_id c2)"

section \<open>Properties\<close>

text \<open>
  C2. A grant admits one principal.  Take any database the code can reach, and a registration (by key or by passkey)
  that succeeds with a claim.  Whatever operations follow, no other registration with the same grant, the bootstrap
  token or the same invite, succeeds.
\<close>

theorem grant_admits_one:
  assumes "auth_run env t1 auth_empty db" "registers env claim i now db tb db1"
    and "auth_run env t db1 db2" "same_grant claim claim2"
  shows "\<not> registers env claim2 i2 now2 db2 tb2 db3"
proof
  assume "registers env claim2 i2 now2 db2 tb2 db3"
  then obtain c2 dbb where second: "consume_onboarding_claim (en_cfg env) claim2 i2 c2 now2 db2 = Inr dbb"
    by (rule registers_consumes)
  obtain c dba where first: "consume_onboarding_claim (en_cfg env) claim i c now db = Inr dba"
      and later: "\<And>cfg t. auth_later cfg t dba db1"
    using assms(2) by (rule registers_consumes) blast
  have later2: "auth_later (en_cfg env) t dba db2"
    by (rule auth_later_trans [OF later auth_run_later [OF assms(3)]])
  have uniq: "distinct (map inv_id (invites db))" by (rule invite_table.unique [OF assms(1)])
  show False using first
  proof (cases rule: consume_cases)
    case boot
    then have "bootstrap db2 \<noteq> None" using later2 by (simp add: auth_later_def)
    moreover have "cl_mode claim2 = ModeBootstrap" using assms(4) boot(1) by (simp add: same_grant_def)
    ultimately show False using second by (auto simp: consume_onboarding_claim_def split: if_splits)
  next
    case inv
    then have m2: "cl_mode claim2 = ModeInvite" "cl_invite_id claim2 = cl_invite_id claim"
      using assms(4) by (simp_all add: same_grant_def)
    obtain s where s: "find (\<lambda>r. inv_id r = cl_invite_id claim) (invites dba) = Some s" "invite_dead s"
      using consumed_invite_dead [OF first inv(1) uniq] by blast
    have uniqa: "distinct (map inv_id (invites dba))"
      by (rule invite_table.stays_unique [OF consume_later [OF first] uniq])
    have uniq2: "distinct (map inv_id (invites db2))"
      by (rule invite_table.stays_unique [OF later2 uniqa])
    obtain s2 where s2: "find (\<lambda>r. inv_id r = cl_invite_id claim) (invites db2) = Some s2" "invite_dead s2"
      using rows_later_find [OF invite_table.moves_forward [OF later2] s(1)] s(2) by blast
    from second show False
    proof (cases rule: consume_cases)
      case boot
      with m2 show False by simp
    next
      case (inv r)
      then have id: "inv_id r = cl_invite_id claim" "\<not> invite_dead r"
        using m2 by (auto simp: consumable_def invite_dead_def)
      have "find (\<lambda>s. inv_id s = inv_id r) (invites db2) = Some r"
        by (rule find_by_key [OF uniq2 inv(2)])
      with id s2 show False by simp
    qed
  qed
qed

text \<open>Alice has used the bootstrap token: nobody registers with it again, not after Bob either.\<close>

theorem grant_admits_one_witness:
  "\<not> registers sample_env boot_claim ''agent3'' (base_time + 2) invite_db bob_tb bob_db \<and>
   \<not> registers sample_env invite_claim ''agent3'' (base_time + 2) bob_db bob_tb bob_db"
proof
  have "auth_run sample_env base_time alice_db invite_db"
    by (rule run_step [OF run_refl step_create_invite [OF invite_ok [unfolded invite_result_def]]]) simp
  then show "\<not> registers sample_env boot_claim ''agent3'' (base_time + 2) invite_db bob_tb bob_db"
    by (rule grant_admits_one [OF run_refl alice_registers]) (simp add: same_grant_def)
  show "\<not> registers sample_env invite_claim ''agent3'' (base_time + 2) bob_db bob_tb bob_db"
    by (rule grant_admits_one [OF run_to_invite bob_registers run_refl]) (simp add: same_grant_def)
qed

text \<open>
  A registration needs a live grant.  It succeeds only with the configured bootstrap token, unused, or with an
  invite that exists under the claim's id and token hash, is not consumed and not revoked, admits the claim's kind, and
  has not expired by a second or more (expiry is compared as text inside one second).
\<close>

theorem registration_needs_grant:
  assumes "registers env claim i now db tb db'"
  shows "(cl_mode claim = ModeBootstrap \<and> bootstrap db = None \<and> trim (bootstrap_token_hash (en_cfg env)) \<noteq> [] \<and>
          cl_token_hash claim = bootstrap_token_hash (en_cfg env)) \<or>
         (cl_mode claim = ModeInvite \<and>
          (\<exists>r\<in>set (invites db). inv_id r = cl_invite_id claim \<and> inv_token_hash r = cl_token_hash claim \<and>
             inv_consumed_at r = None \<and> inv_revoked_at r = None \<and>
             (inv_kind r = cl_principal_kind claim \<or> inv_kind r = kind_any) \<and>
             (case inv_expires_at r of None \<Rightarrow> True | Some e \<Rightarrow> now < stamp_ns e + second_ns)))"
proof -
  obtain c db1 where "consume_onboarding_claim (en_cfg env) claim i c now db = Inr db1"
    using assms by (rule registers_consumes)
  then show ?thesis
  proof (cases rule: consume_cases)
    case (inv r)
    have "now < stamp_ns e + second_ns" if "inv_expires_at r = Some e" for e
      using inv(3) that stamp_less_within [of now "stamp_ns e"] by (simp add: consumable_def)
    then have "case inv_expires_at r of None \<Rightarrow> True | Some e \<Rightarrow> now < stamp_ns e + second_ns"
      by (cases "inv_expires_at r") auto
    then show ?thesis using inv by (auto simp: consumable_def intro!: bexI [of _ r])
  qed simp
qed

theorem registration_needs_grant_witness:
  "cl_mode invite_claim = ModeInvite \<and> (\<exists>r\<in>set (invites invite_db). inv_token_hash r = ''h:secret'')"
  using registration_needs_grant [OF bob_registers] by (auto simp: invite_claim_def)

text \<open>
  Resolving agrees with consuming.  A claim that resolved at \<open>now\<close> is accepted by \<open>consumeOnboardingClaimTx\<close>
  on the same database at any time \<open>now2\<close> at least a second before the invite's expiry, for every principal kind a
  claim can have.
\<close>

theorem resolved_claim_is_accepted:
  assumes "resolve_onboarding_claim cfg hash now bootstrapToken inviteToken kind db = Inr claim"
    and "\<And>r e. r \<in> set (invites db) \<Longrightarrow> inv_id r = cl_invite_id claim \<Longrightarrow> inv_expires_at r = Some e \<Longrightarrow>
           now2 + second_ns \<le> stamp_ns e"
  shows "\<exists>db'. consume_onboarding_claim cfg claim agentID actorID now2 db = Inr db'"
proof (cases "bootstrap_registration_available cfg db")
  case True
  with assms(1) show ?thesis
    by (auto simp: resolve_onboarding_claim_def Let_def consume_onboarding_claim_def bootstrap_registration_available_def
        split: if_splits)
next
  case False
  then have "resolve_invite_claim hash now (trim inviteToken) kind db = Inr claim"
    using assms(1) by (auto simp: resolve_onboarding_claim_def Let_def split: if_splits)
  then obtain r where r: "find (\<lambda>i. inv_token_hash i = hash (trim inviteToken)) (invites db) = Some r"
      "inv_revoked_at r = None" "inv_consumed_at r = None" "inv_kind r = kind_any \<or> inv_kind r = kind"
      and claim: "claim = \<lparr>cl_mode = ModeInvite, cl_principal_kind = kind, cl_token_hash = hash (trim inviteToken),
                    cl_invite_id = inv_id r, cl_invite_kind = inv_kind r\<rparr>"
    by (auto simp: resolve_invite_claim_def split: option.splits if_splits)
  have mem: "r \<in> set (invites db)" "inv_token_hash r = hash (trim inviteToken)"
    using r(1) by (auto simp: find_Some_iff)
  have "Stamp now2 < e" if "inv_expires_at r = Some e" for e
    using assms(2) [OF mem(1) _ that] stamp_less_whole_second [of now2 "stamp_ns e"] claim by simp
  then have "consumable now2 claim r"
    using r mem by (auto simp: consumable_def claim split: option.splits)
  then show ?thesis
    using mem(1) by (auto simp: consume_onboarding_claim_def claim list_ex_iff)
qed

theorem resolved_claim_is_accepted_witness:
  "\<exists>db'. consume_onboarding_claim (en_cfg sample_env) invite_claim ''agent2'' ''agent2'' (base_time + second_ns) invite_db = Inr db'"
proof (rule resolved_claim_is_accepted)
  have "case resolve_onboarding_claim (en_cfg sample_env) (en_hash sample_env) base_time [] ''secret'' ''human'' invite_db of
      Inr c \<Rightarrow> c = invite_claim | Inl _ \<Rightarrow> False" by code_simp
  then show "resolve_onboarding_claim (en_cfg sample_env) (en_hash sample_env) base_time [] ''secret'' ''human'' invite_db =
      Inr invite_claim" by (auto split: sum.splits)
  have "list_all (\<lambda>r. case inv_expires_at r of None \<Rightarrow> True | Some e \<Rightarrow> base_time + second_ns + second_ns \<le> stamp_ns e)
      (invites invite_db)" by code_simp
  then show "base_time + second_ns + second_ns \<le> stamp_ns e" if "r \<in> set (invites invite_db)" "inv_expires_at r = Some e" for r e
    using that by (auto simp: list_all_iff)
qed

section \<open>Administrators\<close>

text \<open>What the parts of an operation leave alone.\<close>

lemma bundle_frame:
  assumes "issue_token_bundle cfg hash i d now db = Inr (tb, db')"
  shows "agents db' = agents db" "actors db' = actors db" "agent_keys db' = agent_keys db" "passkeys db' = passkeys db"
    "bootstrap db' = bootstrap db" "invites db' = invites db" "used_assertions db' = used_assertions db"
  using assms by (auto simp: issue_token_bundle_def split: if_splits)

lemma insert_agent_effect:
  "insert_agent e a db = Inr db' \<longleftrightarrow> db' = db\<lparr>agents := agents db @ [a]\<rparr> \<and>
     (\<forall>b\<in>set (agents db). ag_username b \<noteq> ag_username a \<and> ag_id b \<noteq> ag_id a \<and> ag_actor_id b \<noteq> ag_actor_id a)"
  by (auto simp: insert_agent_def list_ex_iff)

lemma insert_actor_effect:
  "insert_actor i n db = Inr db' \<longleftrightarrow> db' = db\<lparr>actors := actors db @ [(i, n)]\<rparr> \<and> i \<notin> fst ` set (actors db)"
  by (auto simp: insert_actor_def)

lemma insert_key_effect:
  "insert_key k db = Inr db' \<longleftrightarrow> db' = db\<lparr>agent_keys := agent_keys db @ [k]\<rparr> \<and>
     (\<forall>l\<in>set (agent_keys db). k_id l \<noteq> k_id k)"
  by (auto simp: insert_key_def list_ex_iff)

lemma insert_passkey_frame:
  "insert_passkey_credential i h c db = Inr db' \<Longrightarrow> agents db' = agents db \<and> bootstrap db' = bootstrap db"
  by (auto simp: insert_passkey_credential_def split: if_splits)

lemma consume_frame:
  "consume_onboarding_claim cfg claim i c now db = Inr db' \<Longrightarrow>
     agents db' = agents db \<and> actors db' = actors db \<and> agent_keys db' = agent_keys db \<and> passkeys db' = passkeys db \<and>
     access_tokens db' = access_tokens db \<and> refresh_sessions db' = refresh_sessions db"
  by (auto simp: consume_onboarding_claim_def update_invites_def split: onboarding_mode.splits if_splits)

lemma use_frame:
  "record_assertion_use cfg hash m s now db = Inr db' \<Longrightarrow>
     agents db' = agents db \<and> agent_keys db' = agent_keys db \<and> bootstrap db' = bootstrap db"
  by (auto simp: record_assertion_use_def Let_def split: if_splits)

definition admins :: "auth_db \<Rightarrow> agent_row list" where
  "admins db = filter ag_auth_admin (agents db)"

definition admins_ok :: "auth_db \<Rightarrow> bool" where
  "admins_ok db \<longleftrightarrow> length (admins db) \<le> (if bootstrap db = None then 0 else 1)"

definition quiet :: "auth_db \<Rightarrow> auth_db \<Rightarrow> bool" where
  "quiet a b \<longleftrightarrow> length (admins b) \<le> length (admins a) \<and> (bootstrap a \<noteq> None \<longrightarrow> bootstrap b \<noteq> None)"

lemma quiet_trans [trans]: "quiet a b \<Longrightarrow> quiet b c \<Longrightarrow> quiet a c"
  by (auto simp: quiet_def)

lemma quiet_ok: "quiet a b \<Longrightarrow> admins_ok a \<Longrightarrow> admins_ok b"
  by (auto simp: quiet_def admins_ok_def split: if_splits)

lemma quiet_same: "agents b = agents a \<Longrightarrow> bootstrap b = bootstrap a \<Longrightarrow> quiet a b"
  by (simp add: quiet_def admins_def)

lemma filter_map_le: "(\<And>a. P (f a) \<Longrightarrow> P a) \<Longrightarrow> length (filter P (map f as)) \<le> length (filter P as)"
  by (induction as) (auto simp: le_SucI)

lemma quiet_update:
  assumes "\<And>a. ag_auth_admin (f a) \<Longrightarrow> ag_auth_admin a"
  shows "quiet db (update_agents P f db)"
proof -
  have "length (filter ag_auth_admin (map (\<lambda>a. if P a then f a else a) (agents db))) \<le>
      length (filter ag_auth_admin (agents db))"
  proof (rule filter_map_le)
    show "ag_auth_admin (if P a then f a else a) \<Longrightarrow> ag_auth_admin a" for a
      by (cases "P a") (simp_all add: assms)
  qed
  then show ?thesis by (simp add: quiet_def admins_def update_agents_def del: filter_map)
qed

lemma quiet_other:
  "quiet db (db\<lparr>passkeys := p\<rparr>)" "quiet db (db\<lparr>actors := c\<rparr>)" "quiet db (db\<lparr>refresh_sessions := r\<rparr>)"
  "quiet db (db\<lparr>agent_keys := k\<rparr>)" "quiet db (record_audit_event ty at e f g h j db)"
  by (rule quiet_same; simp)+

lemma quiet_insert:
  "\<not> ag_auth_admin a \<Longrightarrow> insert_agent e a db = Inr db' \<Longrightarrow> quiet db db'"
  by (auto simp: insert_agent_effect quiet_def admins_def)

lemma registers_agents:
  assumes "registers env claim i now db tb db'"
  obtains a where "agents db' = agents db @ [a]" "ag_id a = i" "ag_auth_admin a = (cl_mode claim = ModeBootstrap)"
    "ag_revoked_at a = None" "\<forall>b\<in>set (agents db). ag_id b \<noteq> i"
  using assms unfolding registers_def register_agent_once_def register_passkey_agent_def Let_def
  by (auto simp: bind_res_Inr_iff insert_agent_effect insert_actor_effect insert_key_effect new_agent_def
      split: if_splits option.splits dest!: bundle_frame(1) consume_frame insert_passkey_frame)

lemma registers_admins_ok:
  assumes "registers env claim i now db tb db'" "admins_ok db"
  shows "admins_ok db'"
proof -
  obtain a where a: "agents db' = agents db @ [a]" "ag_auth_admin a = (cl_mode claim = ModeBootstrap)"
    using assms(1) by (rule registers_agents)
  obtain c db1 where c: "consume_onboarding_claim (en_cfg env) claim i c now db = Inr db1"
      and later: "\<And>cfg t. auth_later cfg t db1 db'"
    using assms(1) by (rule registers_consumes) blast
  have boot: "bootstrap db1 \<noteq> None \<Longrightarrow> bootstrap db' \<noteq> None" using later by (auto simp: auth_later_def)
  from c show ?thesis
  proof (cases rule: consume_cases)
    case boot
    with assms(2) a \<open>bootstrap db1 \<noteq> None \<Longrightarrow> bootstrap db' \<noteq> None\<close> show ?thesis by (simp add: admins_ok_def admins_def)
  next
    case (inv r)
    with assms(2) a boot show ?thesis by (auto simp: admins_ok_def admins_def split: if_splits)
  qed
qed

lemma grant_quiet:
  assumes "\<not> ag_auth_admin a" "grant_transaction cfg hash n a d now db = Inr (tb, db')"
  shows "quiet db db'"
proof -
  obtain db1 where db1: "upsert_agent a (upsert_actor (ag_actor_id a) n db) = Inr db1"
      "issue_token_bundle cfg hash (ag_id a) d now db1 = Inr (tb, db')"
    using assms(2) by (auto simp: grant_transaction_def bind_res_Inr_iff dest!: guarded_case_Inr)
  have "quiet db (upsert_actor (ag_actor_id a) n db)" by (rule quiet_same) (simp_all add: upsert_actor_def)
  also have "quiet \<dots> db1"
  proof (cases "find_agent (ag_id a) (upsert_actor (ag_actor_id a) n db) = None")
    case True
    with db1(1) assms(1) show ?thesis by (auto simp: upsert_agent_def intro: quiet_insert)
  next
    case False
    with db1(1) assms(1) show ?thesis
      by (auto simp: upsert_agent_def intro!: quiet_update split: if_splits)
  qed
  also have "quiet \<dots> db'" by (rule quiet_same) (simp_all add: bundle_frame [OF db1(2)])
  finally show ?thesis .
qed

lemma jti_quiet: "consume_workspace_grant_jti j now db = Inr db' \<Longrightarrow> quiet db db'"
  by (auto simp: consume_workspace_grant_jti_def split: if_splits intro: quiet_same)

lemma grant_result_quiet:
  "\<not> ag_auth_admin a \<Longrightarrow>
   grant_result (consume_workspace_grant_jti j now db) (grant_transaction cfg hash n a d now) db = (res, db') \<Longrightarrow> quiet db db'"
  unfolding grant_result_def
  by (auto split: sum.splits prod.splits simp: quiet_same dest!: jti_quiet grant_quiet intro: quiet_trans)

lemma bundle_quiet: "issue_token_bundle cfg hash i d now db = Inr (tb, db') \<Longrightarrow> quiet db db'"
  by (rule quiet_same) (simp_all add: bundle_frame)

lemma use_quiet: "record_assertion_use cfg hash m s now db = Inr db' \<Longrightarrow> quiet db db'"
  by (rule quiet_same) (simp_all add: use_frame)

lemma assertion_quiet: "issue_token_from_assertion cfg hash verify i k s g d now db = Inr (tb, db') \<Longrightarrow> quiet db db'"
  unfolding issue_token_from_assertion_def Let_def
  by (auto simp: bind_res_Inr_iff split: if_splits option.splits prod.splits
      dest!: use_quiet bundle_quiet intro: quiet_trans)

lemma refresh_quiet: "issue_token_from_refresh cfg hash ck rt d now0 now db = Inr (tb, db') \<Longrightarrow> quiet db db'"
  unfolding issue_token_from_refresh_def Let_def
  by (auto simp: bind_res_Inr_iff split: if_splits option.splits prod.splits
      dest!: bundle_quiet intro!: quiet_trans [OF _ quiet_other(3)])

lemma passkey_quiet: "issue_token_for_passkey cfg hash i cr d now db = Inr (tb, db') \<Longrightarrow> quiet db db'"
  unfolding issue_token_for_passkey_def Let_def
  by (auto split: if_splits option.splits dest!: bundle_quiet intro: quiet_trans [OF quiet_other(1)])

lemma username_quiet: "update_username i u now db = Inr db' \<Longrightarrow> quiet db db'"
  unfolding update_username_def Let_def
  by (auto simp: bind_res_Inr_iff split: if_splits option.splits
      intro!: quiet_trans [OF quiet_update quiet_other(2)])

lemma registration_quiet: "update_registration i r nt now db = Inr (reg, db') \<Longrightarrow> quiet db db'"
  unfolding update_registration_def Let_def
  by (auto split: if_splits option.splits intro!: quiet_update)

lemma revoke_keys_quiet: "quiet db (revoke_keys i now db)" "quiet db (revoke_sessions i now db)"
  by (rule quiet_same, simp_all add: revoke_keys_def revoke_sessions_def)+

lemma rotate_quiet: "rotate_key i pk k now db = Inr (row, db') \<Longrightarrow> quiet db db'"
  unfolding rotate_key_def Let_def
  by (auto simp: bind_res_Inr_iff insert_key_effect split: if_splits option.splits
      intro!: quiet_trans [OF quiet_trans [OF quiet_trans [OF revoke_keys_quiet(1) quiet_other(4)] revoke_keys_quiet(2)] quiet_update])

lemma revoke_quiet: "revoke_agent i inp now db = Inr (res, db') \<Longrightarrow> quiet db db'"
  unfolding revoke_agent_def Let_def
  by (auto simp: bind_res_Inr_iff quiet_same split: if_splits option.splits
      intro!: quiet_trans [OF quiet_trans [OF quiet_update revoke_keys_quiet(1)] quiet_other(5)])

lemma invite_quiet:
  "create_invite hash n0 now i tok a c k e db = Inr (r, db') \<Longrightarrow> quiet db db'"
  "revoke_invite now i a c db = Inr (r, db') \<Longrightarrow> quiet db db'"
  by (rule quiet_same; auto simp: create_invite_def revoke_invite_def update_invites_def Let_def bind_res_Inr_iff
      split: option.splits if_splits)+

lemma grants_quiet:
  "issue_token_from_human_grant cfg hash g d now db = (res, db') \<Longrightarrow> quiet db db'"
  "issue_token_from_managed_grant cfg hash g d now db = (res, db') \<Longrightarrow> quiet db db'"
  "purge_consumed_grant_jtis dr r now db = (n, db') \<Longrightarrow> quiet db db'"
  unfolding issue_token_from_human_grant_def issue_token_from_managed_grant_def purge_consumed_grant_jtis_def Let_def
  by (auto simp: human_grant_agent_def managed_grant_agent_def new_agent_def quiet_same
      split: if_splits prod.splits dest!: grant_result_quiet [rotated])

lemma auth_step_admins_ok: "auth_step env now db db' \<Longrightarrow> admins_ok db \<Longrightarrow> admins_ok db'"
  by (erule auth_stepE)
    (auto intro: registers_admins_ok
      dest: quiet_ok [OF invite_quiet(1)] quiet_ok [OF invite_quiet(2)] quiet_ok [OF assertion_quiet]
        quiet_ok [OF refresh_quiet] quiet_ok [OF passkey_quiet] quiet_ok [OF grants_quiet(1)]
        quiet_ok [OF grants_quiet(2)] quiet_ok [OF grants_quiet(3)] quiet_ok [OF username_quiet] quiet_ok [OF registration_quiet]
        quiet_ok [OF rotate_quiet] quiet_ok [OF revoke_quiet])



end
