(* ===== verification/AuthIssued.thy ===== *)
theory AuthIssued
  imports AuthRuns
begin

text \<open>
  What is issued to a principal: the access and refresh tokens on record for it, by their hashes.  No operation of the
  store issues one to a principal that is revoked.
\<close>

definition issued_to :: "string \<Rightarrow> auth_db \<Rightarrow> string set \<times> string set" where
  "issued_to i db = (at_token_hash ` {t \<in> set (access_tokens db). at_agent_id t = i},
     rs_token_hash ` {r \<in> set (refresh_sessions db). rs_agent_id r = i})"

text \<open>Nothing that is on record for \<open>i\<close> in \<open>b\<close> was not in \<open>a\<close>.\<close>

definition none_issued :: "string \<Rightarrow> auth_db \<Rightarrow> auth_db \<Rightarrow> bool" where
  "none_issued i a b \<longleftrightarrow> fst (issued_to i b) \<subseteq> fst (issued_to i a) \<and> snd (issued_to i b) \<subseteq> snd (issued_to i a)"

lemma none_issued_refl [simp]: "none_issued i a a" by (simp add: none_issued_def)

lemma none_issued_trans: "none_issued i a b \<Longrightarrow> none_issued i b c \<Longrightarrow> none_issued i a c"
  unfolding none_issued_def by blast

lemma none_issued_same: "access_tokens b = access_tokens a \<Longrightarrow> refresh_sessions b = refresh_sessions a \<Longrightarrow> none_issued i a b"
  by (simp add: none_issued_def issued_to_def)

named_theorems issue_rules

lemma untouched_issue [issue_rules]:
  "none_issued i db (record_audit_event ty at a b c d e db)" "none_issued i db (db\<lparr>actors := x\<rparr>)" "none_issued i db (db\<lparr>passkeys := y\<rparr>)"
  "none_issued i db (db\<lparr>grant_jtis := z\<rparr>)" "none_issued i db (update_agents P f db)" "none_issued i db (update_invites Q g db)"
  "none_issued i db (revoke_keys j now db)" "none_issued i db (upsert_actor k n db)"
  by (rule none_issued_same; simp add: update_agents_def update_invites_def revoke_keys_def upsert_actor_def)+

lemma revoke_sessions_issue [issue_rules]: "none_issued i db (revoke_sessions j now db)"
  by (auto simp: none_issued_def issued_to_def revoke_sessions_def image_iff)

lemma inserts_issue:
  "insert_agent e a db = Inr db' \<Longrightarrow> none_issued i db db'" "insert_actor k n db = Inr db' \<Longrightarrow> none_issued i db db'"
  "insert_key key db = Inr db' \<Longrightarrow> none_issued i db db'" "insert_passkey_credential j h c db = Inr db' \<Longrightarrow> none_issued i db db'"
  "consume_onboarding_claim cfg claim j c' now db = Inr db' \<Longrightarrow> none_issued i db db'"
  "record_assertion_use cfg hash m s now db = Inr db' \<Longrightarrow> none_issued i db db'"
  "upsert_agent a db = Inr db' \<Longrightarrow> none_issued i db db'" "consume_workspace_grant_jti jti now db = Inr db' \<Longrightarrow> none_issued i db db'"
  by (auto simp: insert_agent_def insert_actor_def insert_key_def insert_passkey_credential_def consume_onboarding_claim_def
      record_assertion_use_def upsert_agent_def consume_workspace_grant_jti_def Let_def update_agents_def update_invites_def
      split: if_splits onboarding_mode.splits intro!: none_issued_same)

text \<open>The only operation that issues tokens, on behalf of all others.\<close>

lemma bundle_issue: "issue_token_bundle cfg hash j d now db = Inr (tb, db') \<Longrightarrow> j \<noteq> i \<Longrightarrow> none_issued i db db'"
  by (auto simp: issue_token_bundle_def none_issued_def issued_to_def split: if_splits)

section \<open>Steps\<close>

definition revoked_in :: "string \<Rightarrow> auth_db \<Rightarrow> bool" where
  "revoked_in i db \<longleftrightarrow> (\<exists>a. find_agent i db = Some a \<and> ag_revoked_at a \<noteq> None)"

lemma revoked_later: "revoked_in i a \<Longrightarrow> auth_later cfg t a b \<Longrightarrow> revoked_in i b"
proof -
  assume "revoked_in i a" "auth_later cfg t a b"
  then obtain x where "find (\<lambda>r. ag_id r = i) (agents a) = Some x" "agent_dead x" "agents_later a b"
    by (auto simp: revoked_in_def find_agent_def agent_dead_def auth_later_def)
  from rows_later_find [OF this(3,1)] this(2) show ?thesis
    by (auto simp: revoked_in_def find_agent_def agent_dead_def)
qed

lemma insert_agent_new: "insert_agent e a db = Inr db' \<Longrightarrow> revoked_in i db \<Longrightarrow> ag_id a \<noteq> i"
  by (auto simp: insert_agent_def revoked_in_def find_agent_def find_Some_iff list_ex_iff split: if_splits dest: nth_mem)

lemma audited_bundle_issue:
  "issue_token_bundle cfg hash j d now (record_audit_event ty at a b c e f db) = Inr (tb, db') \<Longrightarrow> j \<noteq> i \<Longrightarrow> none_issued i db db'"
  using none_issued_trans [OF untouched_issue(1) bundle_issue] .

lemma register_issue:
  assumes "register_agent_once cfg hash u pk claim ex d now db = Inr (tb, db')" "revoked_in i db"
  shows "none_issued i db db'"
proof -
  let ?c = "if trim ex \<noteq> [] then trim ex else ad_agent_id d"
  obtain db1 db2 db3 db4 where s: "consume_onboarding_claim cfg claim (ad_agent_id d) ?c now db = Inr db1"
    "insert_agent UsernameTaken (new_agent (ad_agent_id d) u ?c kind_agent ''public_key'' (cl_mode claim = ModeBootstrap) now) db1 = Inr db2"
    "(if trim ex \<noteq> [] then Inr db2 else insert_actor ?c u db2) = Inr db3"
    "insert_key (new_key (ad_key_id d) (ad_agent_id d) pk now) db3 = Inr db4"
    "issue_token_bundle cfg hash (ad_agent_id d) (ad_tokens d) now
       (record_audit_event ''principal_registered'' (Stamp (now + 1)) (ad_agent_id d) ?c (ad_agent_id d) ?c (cl_invite_id claim) db4) = Inr (tb, db')"
    using assms(1) by (auto simp: register_agent_once_def Let_def bind_res_Inr_iff)
  have "revoked_in i db1" using revoked_later [OF assms(2) consume_later [OF s(1), of cfg now]] .
  then have "ad_agent_id d \<noteq> i" using insert_agent_new [OF s(2)] by (simp add: new_agent_def)
  from audited_bundle_issue [OF s(5) this] have "none_issued i db4 db'" .
  moreover have "none_issued i db2 db3" using s(3) inserts_issue(2) by (auto split: if_splits)
  ultimately show ?thesis
    using inserts_issue(5) [OF s(1)] inserts_issue(1) [OF s(2)] inserts_issue(3) [OF s(4)] by (meson none_issued_trans)
qed

lemma register_passkey_issue:
  assumes "register_passkey_agent cfg hash n h cr ex claim sfx d now db = Inr (tb, db')" "revoked_in i db"
  shows "none_issued i db db'"
proof -
  let ?c = "if trim ex \<noteq> [] then trim ex else ad_agent_id d"
  obtain name u r db1 db2 db3 db4 where s: "consume_onboarding_claim cfg claim (ad_agent_id d) ?c now db = Inr db1"
    "insert_agent DatabaseError (new_agent (ad_agent_id d) u ?c kind_human ''passkey'' (cl_mode claim = ModeBootstrap) now) db1 = Inr db2"
    "(if trim ex \<noteq> [] then Inr db2 else insert_actor ?c name db2) = Inr db3"
    "insert_passkey_credential (ad_agent_id d) h r db3 = Inr db4"
    "issue_token_bundle cfg hash (ad_agent_id d) (ad_tokens d) now
       (record_audit_event ''principal_registered'' (Stamp (now + 1)) (ad_agent_id d) ?c (ad_agent_id d) ?c (cl_invite_id claim) db4) = Inr (tb, db')"
    using assms(1) by (auto simp: register_passkey_agent_def Let_def bind_res_Inr_iff split: if_splits option.splits)
  have "revoked_in i db1" using revoked_later [OF assms(2) consume_later [OF s(1), of cfg now]] .
  then have "ad_agent_id d \<noteq> i" using insert_agent_new [OF s(2)] by (simp add: new_agent_def)
  from audited_bundle_issue [OF s(5) this] have "none_issued i db4 db'" .
  moreover have "none_issued i db2 db3" using s(3) inserts_issue(2) by (auto split: if_splits)
  ultimately show ?thesis
    using inserts_issue(5) [OF s(1)] inserts_issue(1) [OF s(2)] inserts_issue(4) [OF s(4)] by (meson none_issued_trans)
qed

text \<open>A principal that is found and not revoked is another one.\<close>

lemma alive_other:
  assumes "find_agent j db = Some b" "ag_revoked_at b = None" "revoked_in i db"
  shows "j \<noteq> i" "ag_id b \<noteq> i"
proof -
  show "j \<noteq> i" using assms by (auto simp: revoked_in_def)
  moreover have "ag_id b = j" using assms(1) by (auto simp: find_agent_def find_Some_iff)
  ultimately show "ag_id b \<noteq> i" by simp
qed

lemma assertion_issue:
  assumes "issue_token_from_assertion cfg hash verify j k s g d now db = Inr (tb, db')" "revoked_in i db"
  shows "none_issued i db db'"
proof -
  obtain a m sig db1 where s: "find_agent (trim j) db = Some a" "ag_revoked_at a = None"
    "record_assertion_use cfg hash m sig now db = Inr db1" "issue_token_bundle cfg hash (ag_id a) d now db1 = Inr (tb, db')"
    using assms(1) unfolding issue_token_from_assertion_def Let_def
    by (auto simp: bind_res_Inr_iff split: if_splits option.splits)
  show ?thesis
    using none_issued_trans [OF inserts_issue(6) [OF s(3)] bundle_issue [OF s(4) alive_other(2) [OF s(1,2) assms(2)]]] .
qed

lemma refresh_issue:
  assumes "issue_token_from_refresh cfg hash ck rt d now0 now db = Inr (tb, db')" "revoked_in i db"
  shows "none_issued i db db'"
proof -
  have marked: "none_issued i db1 (db1\<lparr>refresh_sessions := map (\<lambda>s. if P s then s\<lparr>rs_revoked_at := x, rs_replaced_by := y\<rparr> else s)
      (refresh_sessions db1)\<rparr>)" for db1 P x y
    by (auto simp: none_issued_def issued_to_def image_iff)
  obtain r a where s: "find (\<lambda>r. rs_token_hash r = hash (trim rt)) (refresh_sessions db) = Some r" "find_agent (rs_agent_id r) db = Some a"
    "ag_revoked_at a = None"
    using assms(1) unfolding issue_token_from_refresh_def Let_def by (auto split: if_splits option.splits)
  obtain db1 where b: "issue_token_bundle cfg hash (rs_agent_id r) d now db = Inr (tb, db1)"
    "db' = db1\<lparr>refresh_sessions := map (\<lambda>s. if rs_id s = rs_id r
        then s\<lparr>rs_revoked_at := Some (Stamp now), rs_replaced_by := Some (td_refresh_id d)\<rparr> else s) (refresh_sessions db1)\<rparr>"
    using assms(1) s unfolding issue_token_from_refresh_def Let_def
    by (auto simp: bind_res_Inr_iff split: if_splits)
  show ?thesis unfolding b(2)
    using none_issued_trans [OF bundle_issue [OF b(1) alive_other(1) [OF s(2,3) assms(2)]] marked] .
qed

lemma passkey_issue:
  assumes "issue_token_for_passkey cfg hash j cr d now db = Inr (tb, db')" "revoked_in i db"
  shows "none_issued i db db'"
proof -
  obtain a ps where s: "find_agent (trim j) db = Some a" "ag_revoked_at a = None"
    "issue_token_bundle cfg hash (trim j) d now (db\<lparr>passkeys := ps\<rparr>) = Inr (tb, db')"
    using assms(1) unfolding issue_token_for_passkey_def Let_def by (auto split: if_splits option.splits)
  show ?thesis using none_issued_trans [OF untouched_issue(3) bundle_issue [OF s(3) alive_other(1) [OF s(1,2) assms(2)]]] .
qed

lemma revoked_upsert: "revoked_in i db \<Longrightarrow> revoked_in i (upsert_actor c n db)"
  by (simp add: revoked_in_def upsert_actor_def find_agent_def)

lemma grant_transaction_issue:
  assumes "grant_transaction cfg hash n a d now db = Inr (tb, db')" "revoked_in i db"
  shows "none_issued i db db'" "ag_id a \<noteq> i"
proof -
  obtain db1 b where s: "upsert_agent a (upsert_actor (ag_actor_id a) n db) = Inr db1" "find_agent (ag_id a) db1 = Some b"
    "ag_revoked_at b = None" "issue_token_bundle cfg hash (ag_id a) d now db1 = Inr (tb, db')"
    using assms(1) unfolding grant_transaction_def by (auto simp: bind_res_Inr_iff split: if_splits option.splits)
  have "revoked_in i db1" using revoked_later [OF revoked_upsert [OF assms(2)] upsert_agent_later [OF s(1), of cfg now]] .
  from alive_other(1) [OF s(2,3) this] show other: "ag_id a \<noteq> i" .
  show "none_issued i db db'"
    using none_issued_trans [OF none_issued_trans [OF untouched_issue(8) inserts_issue(7) [OF s(1)]] bundle_issue [OF s(4) other]] .
qed

lemma grant_issue:
  assumes "grant_result (consume_workspace_grant_jti j now db) (grant_transaction cfg hash n a d now) db = (res, db')" "revoked_in i db"
  shows "none_issued i db db'" "ag_id a = i \<Longrightarrow> isl res"
proof -
  have dead: "revoked_in i db1" if "consume_workspace_grant_jti j now db = Inr db1" for db1
    using revoked_later [OF assms(2) consume_jti_later [OF that, of cfg now]] .
  show "none_issued i db db'"
    using assms(1) dead inserts_issue(8) [of j now db _ i] grant_transaction_issue(1) [where i = i]
    unfolding grant_result_def by (auto split: sum.splits prod.splits intro: none_issued_trans)
  show "isl res" if "ag_id a = i"
    using assms(1) dead grant_transaction_issue(2) [where i = i] that
    unfolding grant_result_def by (auto split: sum.splits prod.splits)
qed

lemma human_grant_issue:
  assumes "issue_token_from_human_grant cfg hash g d now db = (res, db')" "revoked_in i db"
  shows "none_issued i db db'" "fst (stable_external_ids hash (gi_issuer g) (gi_subject g)) = i \<Longrightarrow> isl res"
proof -
  have "ag_id (human_grant_agent hash g now) = fst (stable_external_ids hash (gi_issuer g) (gi_subject g))"
    by (simp add: human_grant_agent_def stable_external_ids_def new_agent_def Let_def)
  then show "none_issued i db db'" "fst (stable_external_ids hash (gi_issuer g) (gi_subject g)) = i \<Longrightarrow> isl res"
    using assms grant_issue unfolding issue_token_from_human_grant_def Let_def by (auto split: if_splits)
qed

lemma managed_grant_issue:
  assumes "issue_token_from_managed_grant cfg hash g d now db = (res, db')" "revoked_in i db"
  shows "none_issued i db db'"
    "fst (stable_managed_ids hash (gi_issuer g) (gi_workspace_id g) (gi_organization_id g) (gi_slot_id g)) = i \<Longrightarrow> isl res"
proof -
  have "ag_id (managed_grant_agent hash g now) =
      fst (stable_managed_ids hash (gi_issuer g) (gi_workspace_id g) (gi_organization_id g) (gi_slot_id g))"
    by (simp add: managed_grant_agent_def stable_managed_ids_def new_agent_def Let_def)
  then show "none_issued i db db'"
    "fst (stable_managed_ids hash (gi_issuer g) (gi_workspace_id g) (gi_organization_id g) (gi_slot_id g)) = i \<Longrightarrow> isl res"
    using assms grant_issue unfolding issue_token_from_managed_grant_def Let_def by (auto split: if_splits)
qed

lemma others_issue:
  "create_invite hash n0 now j tok a c k e db = Inr (r, db') \<Longrightarrow> none_issued i db db'"
  "revoke_invite now j a c db = Inr (r', db') \<Longrightarrow> none_issued i db db'"
  "purge_consumed_grant_jtis dr x now db = (n, db') \<Longrightarrow> none_issued i db db'"
  "update_username j u now db = Inr db' \<Longrightarrow> none_issued i db db'"
  "update_registration j y nt now db = Inr (reg, db') \<Longrightarrow> none_issued i db db'"
  "revoke_agent j inp now db = Inr (res, db') \<Longrightarrow> none_issued i db db'"
  unfolding create_invite_def revoke_invite_def purge_consumed_grant_jtis_def update_username_def update_registration_def revoke_agent_def Let_def
  by (auto simp: bind_res_Inr_iff update_agents_def update_invites_def revoke_keys_def split: if_splits option.splits intro!: none_issued_same)

lemma rotate_issue: "rotate_key j pk k now db = Inr (row, db') \<Longrightarrow> none_issued i db db'"
  unfolding rotate_key_def Let_def
  by (auto simp: bind_res_Inr_iff split: if_splits option.splits
      dest!: inserts_issue(3) [where i = i] intro!: none_issued_trans [OF _ none_issued_trans [OF revoke_sessions_issue untouched_issue(5)]]
      intro: none_issued_trans [OF untouched_issue(7)])

lemma step_issue:
  assumes "auth_step env now db db'" "revoked_in i db"
  shows "none_issued i db db'"
  using assms(1)
proof (cases rule: auth_step.cases)
  case (step_register claim j tb)
  then show ?thesis using register_issue register_passkey_issue assms(2) unfolding registers_def by metis
qed (use assms(2) others_issue rotate_issue assertion_issue refresh_issue passkey_issue human_grant_issue(1) managed_grant_issue(1) in metis)+

lemma run_issue: "auth_run env t db db' \<Longrightarrow> revoked_in i db \<Longrightarrow> none_issued i db db' \<and> revoked_in i db'"
proof (induction rule: auth_run.induct)
  case (run_step db db1 now db2)
  then show ?case using step_issue none_issued_trans revoked_later auth_step_later by metis
qed simp

end
