(* ===== verification/AuthSafety.thy ===== *)
theory AuthSafety
  imports AuthOnboarding AuthIssued
begin

text \<open>
  What the tokens guarantee, over every later history: a new pair authenticates, a refresh token works once, a
  revoked principal and a rotated key stay locked out, the last human is kept, an assertion is used once in its window.
\<close>

section \<open>Access\<close>

lemma find_new: "\<forall>x\<in>set xs. \<not> P x \<Longrightarrow> P y \<Longrightarrow> find P (xs @ [y]) = Some y"
  by (induction xs) auto

lemma bundle_effect:
  assumes "issue_token_bundle cfg hash i d now db = Inr (tb, db')"
  shows "tb_access_token tb = td_access_token d" "tb_refresh_token tb = td_refresh_token d"
    "find (\<lambda>t. at_token_hash t = hash (td_access_token d)) (access_tokens db') =
       Some \<lparr>at_id = td_access_id d, at_agent_id = i, at_token_hash = hash (td_access_token d), at_created_at = Stamp now,
             at_expires_at = Stamp (now + access_token_ttl cfg), at_revoked_at = None\<rparr>"
  using assms by (auto simp: issue_token_bundle_def list_ex_iff find_new split: if_splits)

lemma register_chain:
  assumes "register_agent_once cfg hash u pk claim ex d now db = Inr (tb, db')"
  obtains db1 db2 db3 db4 c where
    "consume_onboarding_claim cfg claim (ad_agent_id d) c now db = Inr db1"
    "c = (if trim ex \<noteq> [] then trim ex else ad_agent_id d)"
    "insert_agent UsernameTaken (new_agent (ad_agent_id d) u c kind_agent ''public_key'' (cl_mode claim = ModeBootstrap) now) db1
       = Inr db2"
    "(if trim ex \<noteq> [] then Inr db2 else insert_actor c u db2) = Inr db3"
    "insert_key (new_key (ad_key_id d) (ad_agent_id d) pk now) db3 = Inr db4"
    "issue_token_bundle cfg hash (ad_agent_id d) (ad_tokens d) now
       (record_audit_event ''principal_registered'' (Stamp (now + 1)) (ad_agent_id d) c (ad_agent_id d) c
          (cl_invite_id claim) db4) = Inr (tb, db')"
  using assms unfolding register_agent_once_def Let_def bind_res_Inr_iff
  by (elim exE conjE) (rule that, (assumption | rule refl)+)

text \<open>
  Registration gives a working token.  The access token \<open>registerAgentOnce\<close> returns authenticates, until its
  time to live is over, as exactly the principal registered; it is an administrator iff the claim was the bootstrap
  token.
\<close>

theorem registered_agent_authenticates:
  assumes "register_agent_once cfg hash u pk claim ex d now db = Inr (tb, db')"
    and "trim (td_access_token (ad_tokens d)) = td_access_token (ad_tokens d)" "td_access_token (ad_tokens d) \<noteq> []"
    and "now2 \<le> now + access_token_ttl cfg"
  shows "authenticate_access_token hash (tb_access_token tb) now2 db' =
    Inr \<lparr>pr_agent_id = ad_agent_id d, pr_actor_id = (if trim ex \<noteq> [] then trim ex else ad_agent_id d),
         pr_username = u, pr_kind = ''agent'', pr_auth_method = ''public_key'',
         pr_auth_admin = (cl_mode claim = ModeBootstrap)\<rparr>"
proof -
  let ?a = "new_agent (ad_agent_id d) u (if trim ex \<noteq> [] then trim ex else ad_agent_id d) kind_agent ''public_key''
      (cl_mode claim = ModeBootstrap) now"
  from assms(1) obtain db1 db2 db3 db4 c where chain: "consume_onboarding_claim cfg claim (ad_agent_id d) c now db = Inr db1"
      "c = (if trim ex \<noteq> [] then trim ex else ad_agent_id d)"
      "insert_agent UsernameTaken (new_agent (ad_agent_id d) u c kind_agent ''public_key'' (cl_mode claim = ModeBootstrap) now) db1
         = Inr db2"
      "(if trim ex \<noteq> [] then Inr db2 else insert_actor c u db2) = Inr db3"
      "insert_key (new_key (ad_key_id d) (ad_agent_id d) pk now) db3 = Inr db4"
      and last_step: "issue_token_bundle cfg hash (ad_agent_id d) (ad_tokens d) now
         (record_audit_event ''principal_registered'' (Stamp (now + 1)) (ad_agent_id d) c (ad_agent_id d) c
            (cl_invite_id claim) db4) = Inr (tb, db')"
    by (rule register_chain)
  have fresh: "\<forall>b\<in>set (agents db). ag_id b \<noteq> ad_agent_id d" and all: "agents db4 = agents db @ [?a]"
    using chain consume_frame [OF chain(1)]
    by (auto simp: insert_agent_effect insert_actor_effect insert_key_effect new_agent_def split: if_splits)
  have "find_agent (ad_agent_id d) db' = Some ?a"
    unfolding find_agent_def bundle_frame(1) [OF last_step] audit_frame all
    by (rule find_new) (use fresh in \<open>auto simp: new_agent_def\<close>)
  moreover have "trim ''public_key'' = ''public_key''" "trim ''agent'' = ''agent''" by code_simp+
  ultimately show ?thesis
    using assms(2-4) bundle_effect [OF last_step]
    by (simp add: authenticate_access_token_def new_agent_def principal_kind_def auth_method_def kind_agent_def)
qed

theorem registered_agent_authenticates_witness:
  "\<exists>p. authenticate_access_token (en_hash sample_env) (tb_access_token alice_tb) (base_time + minute_ns) alice_db = Inr p \<and>
     pr_username p = ''alice'' \<and> pr_auth_admin p"
proof -
  have "trim (td_access_token (sample_draw ''1'')) = td_access_token (sample_draw ''1'')" by code_simp
  moreover have "td_access_token (sample_draw ''1'') \<noteq> []" by (simp add: sample_draw_def)
  moreover have "base_time + minute_ns \<le> base_time + access_token_ttl (en_cfg sample_env)"
    by (simp add: sample_env_def duration_defs)
  ultimately show ?thesis
    using registered_agent_authenticates [OF alice_ok [unfolded alice_result_def], of "base_time + minute_ns"]
    by (simp add: sample_agent_def boot_claim_def)
qed

section \<open>Refresh tokens\<close>

lemma refresh_needs_live:
  assumes "issue_token_from_refresh cfg hash ck rt d now0 now db = Inr (tb, db')"
  obtains r a where "find (\<lambda>r. rs_token_hash r = hash (trim rt)) (refresh_sessions db) = Some r"
    "find_agent (rs_agent_id r) db = Some a" "\<not> session_dead r" "ag_revoked_at a = None"
    "now0 \<le> stamp_ns (rs_expires_at r)"
  using assms unfolding issue_token_from_refresh_def Let_def
  by (auto simp: session_dead_def split: if_splits option.splits)

lemma refresh_dead_rejected:
  assumes "find (\<lambda>r. rs_token_hash r = hash (trim rt)) (refresh_sessions db) = Some r" "session_dead r"
  shows "issue_token_from_refresh cfg hash ck rt d now0 now db = Inl InvalidToken"
  using assms unfolding issue_token_from_refresh_def Let_def
  by (auto simp: session_dead_def split: option.splits)

lemma refresh_spends:
  assumes "issue_token_from_refresh cfg hash ck rt d now0 now db = Inr (tb, db')"
  shows "\<exists>r. find (\<lambda>r. rs_token_hash r = hash (trim rt)) (refresh_sessions db') = Some r \<and> session_dead r"
proof -
  obtain r where r: "find (\<lambda>r. rs_token_hash r = hash (trim rt)) (refresh_sessions db) = Some r"
    using assms by (rule refresh_needs_live)
  let ?f = "\<lambda>s. if rs_id s = rs_id r
      then s\<lparr>rs_revoked_at := Some (Stamp now), rs_replaced_by := Some (td_refresh_id d)\<rparr> else s"
  obtain db1 where db1: "issue_token_bundle cfg hash (rs_agent_id r) d now db = Inr (tb, db1)"
      "refresh_sessions db' = map ?f (refresh_sessions db1)"
    using assms r unfolding issue_token_from_refresh_def Let_def
    by (auto simp: bind_res_Inr_iff split: if_splits option.splits prod.splits)
  have "find (\<lambda>r. rs_token_hash r = hash (trim rt)) (refresh_sessions db1) = Some r"
    using db1(1) r by (auto simp: issue_token_bundle_def find_append split: if_splits)
  moreover have "find (\<lambda>r. rs_token_hash r = hash (trim rt)) (map ?f (refresh_sessions db1)) =
      map_option ?f (find (\<lambda>r. rs_token_hash r = hash (trim rt)) (refresh_sessions db1))"
    by (rule find_map_same) simp
  ultimately show ?thesis by (simp add: db1(2) session_dead_def)
qed

text \<open>
  C3. A refresh token works once.  After \<open>IssueTokenFromRefresh\<close> succeeded with a token, the same token is refused
  as invalid after every later history.
\<close>

theorem refresh_token_single_use:
  assumes "issue_token_from_refresh cfg (en_hash env) ck rt d now0 now db = Inr (tb, db1)"
    and "auth_run env t db1 db2"
  shows "issue_token_from_refresh cfg2 (en_hash env) ck2 rt d2 n0 n db2 = Inl InvalidToken"
proof -
  obtain r where r: "find (\<lambda>r. rs_token_hash r = en_hash env (trim rt)) (refresh_sessions db1) = Some r" "session_dead r"
    using refresh_spends [OF assms(1)] by blast
  then obtain s where "find (\<lambda>r. rs_token_hash r = en_hash env (trim rt)) (refresh_sessions db2) = Some s" "session_dead s"
    using session_table.found_later [OF assms(2) r(1)] by blast
  then show ?thesis by (rule refresh_dead_rejected)
qed

definition refresh_result :: "auth_error + token_bundle \<times> auth_db" where
  "refresh_result = issue_token_from_refresh (en_cfg sample_env) (en_hash sample_env) None ''rt1'' (sample_draw ''3'')
     (base_time + hour_ns) (base_time + hour_ns) bob_db"

definition refresh_tb :: token_bundle where "refresh_tb = fst (projr refresh_result)"
definition refresh_db :: auth_db where "refresh_db = snd (projr refresh_result)"

lemma refresh_ok: "refresh_result = Inr (refresh_tb, refresh_db)"
proof -
  have "\<not> isl refresh_result" by code_simp
  then show ?thesis unfolding refresh_tb_def refresh_db_def by (rule inr_split)
qed

theorem refresh_token_single_use_witness:
  "issue_token_from_refresh (en_cfg sample_env) (en_hash sample_env) None ''rt1'' (sample_draw ''4'')
     (base_time + hour_ns + 1) (base_time + hour_ns + 1) refresh_db = Inl InvalidToken"
  by (rule refresh_token_single_use [OF refresh_ok [unfolded refresh_result_def] run_refl])

section \<open>Revocation\<close>

lemma find_agent_update:
  "(\<And>b. ag_id (f b) = ag_id b) \<Longrightarrow>
   find_agent i (update_agents P f db) = map_option (\<lambda>a. if P a then f a else a) (find_agent i db)"
  unfolding find_agent_def update_agents_def by (simp add: find_map_same)

lemma find_agent_id: "find_agent i db = Some a \<Longrightarrow> ag_id a = i"
  by (auto simp: find_agent_def find_Some_iff)

lemma find_agent_frame [simp]:
  "find_agent i (revoke_keys j now db) = find_agent i db"
  "find_agent i (revoke_sessions j now db) = find_agent i db"
  "find_agent i (record_audit_event ty at a b c d e db) = find_agent i db"
  by (simp_all add: find_agent_def revoke_keys_def revoke_sessions_def)

lemma revoke_cases:
  assumes "revoke_agent i0 inp now db = Inr (res, db')"
  obtains (again) a where "find_agent (trim i0) db = Some a" "agent_dead a" "db' = db" "\<not> rr_allow_human_lockout res"
    | (revoked) a ty by1 by2 lockout where "find_agent (trim i0) db = Some a" "\<not> agent_dead a"
      "db' = record_audit_event ty (Stamp now) by1 by2 (trim i0) (ag_actor_id a) [] (revoke_keys (trim i0) now
         (update_agents (\<lambda>b. ag_id b = trim i0) (\<lambda>b. b\<lparr>ag_revoked_at := Some (Stamp now), ag_updated_at := Stamp now\<rparr>) db))"
      "rr_allow_human_lockout res = lockout"
      "lockout = (principal_kind db a = kind_human \<and> count_active_humans db = 1 \<and> ri_allow_human_lockout inp)"
      "principal_kind db a = kind_human \<Longrightarrow> count_active_humans db = 1 \<Longrightarrow> ri_allow_human_lockout inp"
      "lockout \<Longrightarrow> trim (ri_human_lockout_reason inp) \<noteq> []"
  using assms unfolding revoke_agent_def Let_def principal_summary_def
  by (auto simp: bind_res_Inr_iff agent_dead_def split: if_splits option.splits)

lemma revoke_marks:
  assumes "revoke_agent i0 inp now db = Inr (res, db')"
  shows "\<exists>a. find_agent (trim i0) db' = Some a \<and> agent_dead a"
  using assms
proof (cases rule: revoke_cases)
  case (again a)
  then show ?thesis by auto
next
  case (revoked a ty by1 by2 lockout)
  then show ?thesis by (simp add: find_agent_update find_agent_id agent_dead_def)
qed

text \<open>
  C9. A revoked principal stays out.  After \<open>RevokeAgent\<close> succeeded, and after every later history: no access token
  authenticates as that principal; no token of either kind is on record for it that was not there before, whichever operation runs;
  and no assertion, no passkey, none of its refresh tokens and no workspace grant for its identity, human or managed, is answered
  with a new pair.
\<close>

theorem revoked_agent_stays_out:
  assumes "revoke_agent i0 inp now db = Inr (res, db1)" "auth_run env t db1 db2"
  shows "(\<forall>tok n p. authenticate_access_token (en_hash env) tok n db2 = Inr p \<longrightarrow> pr_agent_id p \<noteq> trim i0) \<and>
    none_issued (trim i0) db1 db2 \<and>
    (\<forall>k s g d n. isl (issue_token_from_assertion (en_cfg env) (en_hash env) (en_verify env) i0 k s g d n db2)) \<and>
    (\<forall>cr d n. isl (issue_token_for_passkey (en_cfg env) (en_hash env) i0 cr d n db2)) \<and>
    (\<forall>rt d n0 n r. find (\<lambda>r. rs_token_hash r = en_hash env (trim rt)) (refresh_sessions db2) = Some r \<longrightarrow>
       rs_agent_id r = trim i0 \<longrightarrow>
       isl (issue_token_from_refresh (en_cfg env) (en_hash env) (en_checker env) rt d n0 n db2)) \<and>
    (\<forall>g d n. fst (stable_external_ids (en_hash env) (gi_issuer g) (gi_subject g)) = trim i0 \<longrightarrow>
       isl (fst (issue_token_from_human_grant (en_cfg env) (en_hash env) g d n db2))) \<and>
    (\<forall>g d n. fst (stable_managed_ids (en_hash env) (gi_issuer g) (gi_workspace_id g) (gi_organization_id g) (gi_slot_id g)) = trim i0 \<longrightarrow>
       isl (fst (issue_token_from_managed_grant (en_cfg env) (en_hash env) g d n db2)))"
proof -
  obtain a where a: "find_agent (trim i0) db1 = Some a" "agent_dead a"
    using revoke_marks [OF assms(1)] by blast
  then obtain b where b: "find_agent (trim i0) db2 = Some b" "agent_dead b"
    using agent_table.found_later [OF assms(2), folded find_agent_def] by blast
  have "pr_agent_id p \<noteq> trim i0" if authn: "authenticate_access_token (en_hash env) tok n db2 = Inr p" for tok n p
  proof -
    obtain u j where u: "find_agent j db2 = Some u" "ag_revoked_at u = None" "pr_agent_id p = ag_id u"
      using authn unfolding authenticate_access_token_def Let_def by (auto split: if_splits option.splits)
    then have "ag_id u = j" using find_agent_id by blast
    with u b show ?thesis by (auto simp: agent_dead_def)
  qed
  moreover have "isl (issue_token_from_assertion (en_cfg env) (en_hash env) (en_verify env) i0 k s g d n db2)" for k s g d n
    using b unfolding issue_token_from_assertion_def Let_def by (auto simp: agent_dead_def split: option.splits)
  moreover have "isl (issue_token_for_passkey (en_cfg env) (en_hash env) i0 cr d n db2)" for cr d n
    using b unfolding issue_token_for_passkey_def Let_def by (auto simp: agent_dead_def)
  moreover have "isl (issue_token_from_refresh (en_cfg env) (en_hash env) (en_checker env) rt d n0 n db2)"
    if "find (\<lambda>r. rs_token_hash r = en_hash env (trim rt)) (refresh_sessions db2) = Some r" "rs_agent_id r = trim i0" for rt d n0 n r
    using that b unfolding issue_token_from_refresh_def Let_def by (auto simp: agent_dead_def)
  moreover have "revoked_in (trim i0) db1" using a by (auto simp: revoked_in_def agent_dead_def)
  from run_issue [OF assms(2) this] have issued: "none_issued (trim i0) db1 db2" "revoked_in (trim i0) db2" by simp_all
  moreover have "isl (fst (issue_token_from_human_grant (en_cfg env) (en_hash env) g d n db2))"
    if "fst (stable_external_ids (en_hash env) (gi_issuer g) (gi_subject g)) = trim i0" for g d n
    using human_grant_issue(2) [OF prod.collapse [symmetric] issued(2) that] .
  moreover have "isl (fst (issue_token_from_managed_grant (en_cfg env) (en_hash env) g d n db2))"
    if "fst (stable_managed_ids (en_hash env) (gi_issuer g) (gi_workspace_id g) (gi_organization_id g) (gi_slot_id g)) = trim i0" for g d n
    using managed_grant_issue(2) [OF prod.collapse [symmetric] issued(2) that] .
  ultimately show ?thesis by blast
qed

definition sample_revoke :: revoke_input where
  "sample_revoke = \<lparr>ri_actor_agent_id = ''agent1'', ri_actor_actor_id = ''agent1'', ri_mode = [],
     ri_allow_human_lockout = True, ri_human_lockout_reason = ''leaving''\<rparr>"

definition revoke_sample :: "auth_error + revoke_result \<times> auth_db" where
  "revoke_sample = revoke_agent ''agent2'' sample_revoke (base_time + minute_ns) bob_db"

definition revoked_res :: revoke_result where "revoked_res = fst (projr revoke_sample)"
definition revoked_db :: auth_db where "revoked_db = snd (projr revoke_sample)"

lemma revoke_ok: "revoke_sample = Inr (revoked_res, revoked_db)"
proof -
  have "\<not> isl revoke_sample" by code_simp
  then show ?thesis unfolding revoked_res_def revoked_db_def by (rule inr_split)
qed

theorem revoked_agent_stays_out_witness:
  "isl (issue_token_for_passkey (en_cfg sample_env) (en_hash sample_env) ''agent2'' bob_credential (sample_draw ''5'')
     (base_time + hour_ns) revoked_db)"
  using revoked_agent_stays_out [OF revoke_ok [unfolded revoke_sample_def] run_refl] by blast

section \<open>The last human\<close>

lemma count_update:
  assumes "distinct (map key xs)" "find (\<lambda>x. key x = k) xs = Some a"
    and "\<not> Q (f a)" "\<And>x. key x \<noteq> k \<Longrightarrow> Q x = P x" "\<And>x. key (f x) = key x"
  shows "length (filter Q (map (\<lambda>x. if key x = k then f x else x) xs)) + (if P a then 1 else 0) = length (filter P xs)"
  using assms(1,2)
proof (induction xs)
  case (Cons x xs)
  have same: "filter Q (map (\<lambda>x. if key x = k then f x else x) ys) = filter P ys" if "k \<notin> key ` set ys" for ys
    using that by (induction ys) (auto simp: assms(4))
  show ?case
  proof (cases "key x = k")
    case True
    then have "a = x" "k \<notin> key ` set xs" using Cons.prems by auto
    with True assms(3) same show ?thesis by simp
  next
    case False
    then show ?thesis using Cons by (auto simp: assms(4))
  qed
qed simp

text \<open>
  C13. The last human is kept.  In a reachable database with an active human, revoking a principal leaves an active
  human, except exactly when the result reports a human lockout; and that takes the explicit request with its reason.
\<close>

theorem last_human_kept:
  assumes "auth_run env t auth_empty db" "revoke_agent i0 inp now db = Inr (res, db')" "0 < count_active_humans db"
  shows "(count_active_humans db' = 0 \<longleftrightarrow> rr_allow_human_lockout res) \<and>
    (rr_allow_human_lockout res \<longrightarrow> ri_allow_human_lockout inp \<and> trim (ri_human_lockout_reason inp) \<noteq> [])"
  using assms(2)
proof (cases rule: revoke_cases)
  case (again a)
  then show ?thesis using assms(3) by simp
next
  case (revoked a ty by1 by2 lockout)
  let ?f = "\<lambda>b. b\<lparr>ag_revoked_at := Some (Stamp now), ag_updated_at := Stamp now\<rparr>"
  have kind: "principal_kind db' b = principal_kind db b" for b
    by (simp add: revoked(3) principal_kind_def has_passkey_def revoke_keys_def update_agents_def)
  have "length (filter (active_human db') (map (\<lambda>b. if ag_id b = trim i0 then ?f b else b) (agents db))) +
      (if active_human db a then 1 else 0) = length (filter (active_human db) (agents db))"
    by (rule count_update [OF agent_table.unique [OF assms(1)] revoked(1) [unfolded find_agent_def]])
      (auto simp: active_human_def kind)
  moreover have "agents db' = map (\<lambda>b. if ag_id b = trim i0 then ?f b else b) (agents db)"
    by (simp add: revoked(3) revoke_keys_def update_agents_def)
  ultimately have "count_active_humans db' + (if active_human db a then 1 else 0) = count_active_humans db"
    by (simp add: count_active_humans_def del: filter_map)
  moreover have "active_human db a \<longleftrightarrow> principal_kind db a = kind_human"
    using revoked(2) by (simp add: active_human_def agent_dead_def)
  ultimately show ?thesis using revoked(4-7) assms(3) by (auto split: if_splits)
qed

theorem last_human_kept_witness:
  "count_active_humans revoked_db = 0 \<longleftrightarrow> rr_allow_human_lockout revoked_res"
proof -
  have "0 < count_active_humans bob_db" by code_simp
  then show ?thesis using last_human_kept [OF run_to_bob revoke_ok [unfolded revoke_sample_def]] by blast
qed

end
