(* ===== verification/AuthAssertions.thy ===== *)
theory AuthAssertions
  imports AuthSafety
begin

text \<open>
  Keys and signed assertions: what a key rotation kills, when a signed assertion is accepted twice, and usernames of
  passkey principals.
\<close>

section \<open>Key rotation\<close>

lemma find_key_row:
  assumes "distinct (map k_id (agent_keys db))" "find_agent_key i kid db = Some k"
  shows "find (\<lambda>r. k_id r = kid) (agent_keys db) = Some k \<and> k_agent_id k = i"
proof -
  have "k \<in> set (agent_keys db)" "k_id k = kid" "k_agent_id k = i"
    using assms(2) by (auto simp: find_agent_key_def find_Some_iff)
  with find_by_key [OF assms(1), of k] show ?thesis by simp
qed

lemma rotate_cases:
  assumes "rotate_key i0 pk kid now db = Inr (key, db')"
  obtains "key = new_key kid (trim i0) (trim pk) now"
    "agent_keys db' = agent_keys (revoke_keys (trim i0) now db) @ [key]"
    "refresh_sessions db' = refresh_sessions (revoke_sessions (trim i0) now db)"
    "access_tokens db' = access_tokens (revoke_sessions (trim i0) now db)"
  using assms unfolding rotate_key_def Let_def
  by (auto simp: bind_res_Inr_iff insert_key_effect revoke_keys_def revoke_sessions_def update_agents_def new_key_def
      split: if_splits option.splits)

lemma find_mapped:
  "(\<And>r. key (f r) = key r) \<Longrightarrow> find (\<lambda>r. key r = k) xs = Some r \<Longrightarrow> find (\<lambda>r. key r = k) (map f xs) = Some (f r)"
  by (simp add: find_map_same)

text \<open>What a rotation revokes stays refused.\<close>

lemma rotated_token_refused:
  assumes "rotate_key i0 pk kid now db = Inr (key, db1)" "auth_run env t db1 db2"
    and r: "find (\<lambda>r. at_token_hash r = en_hash env (trim tok)) (access_tokens db) = Some r" "at_agent_id r = trim i0"
  shows "authenticate_access_token (en_hash env) tok n db2 = Inl InvalidToken"
  using assms(1)
proof (cases rule: rotate_cases)
  case 1
  note tokens = 1(4)
  let ?f = "\<lambda>t. if at_agent_id t = trim i0 \<and> at_revoked_at t = None then t\<lparr>at_revoked_at := Some (Stamp now)\<rparr> else t"
  have "find (\<lambda>r. at_token_hash r = en_hash env (trim tok)) (access_tokens db1) = Some (?f r)"
    unfolding tokens revoke_sessions_def using find_mapped [OF _ r(1), of ?f] by simp
  moreover have "token_dead (?f r)" using r(2) by (auto simp: token_dead_def)
  ultimately obtain s where "find (\<lambda>r. at_token_hash r = en_hash env (trim tok)) (access_tokens db2) = Some s" "token_dead s"
    using token_table.found_later [OF assms(2)] by blast
  then show ?thesis
    by (auto simp: authenticate_access_token_def Let_def token_dead_def split: option.splits)
qed

lemma rotated_refresh_refused:
  assumes "rotate_key i0 pk kid now db = Inr (key, db1)" "auth_run env t db1 db2"
    and r: "find (\<lambda>r. rs_token_hash r = en_hash env (trim rt)) (refresh_sessions db) = Some r" "rs_agent_id r = trim i0"
  shows "issue_token_from_refresh (en_cfg env) (en_hash env) (en_checker env) rt d n0 n db2 = Inl InvalidToken"
  using assms(1)
proof (cases rule: rotate_cases)
  case 1
  note sessions = 1(3)
  let ?f = "\<lambda>t. if rs_agent_id t = trim i0 \<and> rs_revoked_at t = None then t\<lparr>rs_revoked_at := Some (Stamp now)\<rparr> else t"
  have "find (\<lambda>r. rs_token_hash r = en_hash env (trim rt)) (refresh_sessions db1) = Some (?f r)"
    unfolding sessions revoke_sessions_def using find_mapped [OF _ r(1), of ?f] by simp
  moreover have "session_dead (?f r)" using r(2) by (auto simp: session_dead_def)
  ultimately obtain s where "find (\<lambda>r. rs_token_hash r = en_hash env (trim rt)) (refresh_sessions db2) = Some s" "session_dead s"
    using session_table.found_later [OF assms(2)] by blast
  then show ?thesis by (rule refresh_dead_rejected)
qed

lemma rotated_key_refused:
  assumes "auth_run env t1 auth_empty db" "rotate_key i0 pk kid now db = Inr (key, db1)" "auth_run env t db1 db2"
    and found: "find_agent_key (trim i0) (trim k) db \<noteq> None"
  shows "isl (issue_token_from_assertion (en_cfg env) (en_hash env) (en_verify env) i0 k s g d n db2)"
  using assms(2)
proof (cases rule: rotate_cases)
  case 1
  note keys = 1(2)
  show ?thesis
  proof (cases "find_agent_key (trim i0) (trim k) db2")
    case None
    then show ?thesis unfolding issue_token_from_assertion_def Let_def by (auto split: option.splits)
  next
    case (Some k2)
    obtain k1 where k1: "find_agent_key (trim i0) (trim k) db = Some k1" using found by blast
    have uniq: "distinct (map k_id (agent_keys db))" by (rule key_table.unique [OF assms(1)])
    let ?f = "\<lambda>k. if k_agent_id k = trim i0 \<and> k_revoked_at k = None then k\<lparr>k_revoked_at := Some (Stamp now)\<rparr> else k"
    have "find (\<lambda>r. k_id r = trim k) (agent_keys db1) = Some (?f k1)"
      unfolding keys find_append revoke_keys_def using find_mapped [OF _ conjunct1 [OF find_key_row [OF uniq k1]], of ?f]
      by simp
    moreover have "key_dead (?f k1)" using find_key_row [OF uniq k1] by (auto simp: key_dead_def)
    ultimately obtain k3 where k3: "find (\<lambda>r. k_id r = trim k) (agent_keys db2) = Some k3" "key_dead k3"
      using key_table.found_later [OF assms(3)] by blast
    have later: "auth_later (en_cfg env) (max t1 now) db db1" by (rule rotate_key_later [OF assms(2)])
    have "distinct (map k_id (agent_keys db2))"
      by (rule key_table.stays_unique [OF auth_run_later [OF assms(3)] key_table.stays_unique [OF later uniq]])
    with k3 find_key_row [OF _ Some] have "key_dead k2" by simp
    then show ?thesis
      using Some unfolding issue_token_from_assertion_def Let_def by (auto simp: key_dead_def split: option.splits)
  qed
qed

text \<open>
  C10. Rotating a key kills what the old one gave.  In a reachable database: right after \<open>RotateKey\<close> the new key is
  the only live key of the principal; and after every later history, every access token and every refresh token the
  principal had is refused as invalid, and no assertion under a key it had gives tokens.
\<close>

theorem rotation_kills_old_credentials:
  assumes "auth_run env t1 auth_empty db" "rotate_key i0 pk kid now db = Inr (key, db1)" "auth_run env t db1 db2"
  shows "filter (\<lambda>k. k_agent_id k = trim i0 \<and> k_revoked_at k = None) (agent_keys db1) = [key] \<and>
    (\<forall>tok n r. find (\<lambda>r. at_token_hash r = en_hash env (trim tok)) (access_tokens db) = Some r \<longrightarrow>
       at_agent_id r = trim i0 \<longrightarrow> authenticate_access_token (en_hash env) tok n db2 = Inl InvalidToken) \<and>
    (\<forall>rt d n0 n r. find (\<lambda>r. rs_token_hash r = en_hash env (trim rt)) (refresh_sessions db) = Some r \<longrightarrow>
       rs_agent_id r = trim i0 \<longrightarrow>
       issue_token_from_refresh (en_cfg env) (en_hash env) (en_checker env) rt d n0 n db2 = Inl InvalidToken) \<and>
    (\<forall>k s g d n. find_agent_key (trim i0) (trim k) db \<noteq> None \<longrightarrow>
       isl (issue_token_from_assertion (en_cfg env) (en_hash env) (en_verify env) i0 k s g d n db2))"
proof -
  have "filter (\<lambda>k. k_agent_id k = trim i0 \<and> k_revoked_at k = None) (agent_keys db1) = [key]"
    using assms(2)
  proof (cases rule: rotate_cases)
    case 1
    then show ?thesis by (auto simp: new_key_def revoke_keys_def filter_empty_conv)
  qed
  then show ?thesis
    using rotated_token_refused [OF assms(2,3)] rotated_refresh_refused [OF assms(2,3)] rotated_key_refused [OF assms] by blast
qed

definition rotate_result :: "auth_error + agent_key_row \<times> auth_db" where
  "rotate_result = rotate_key ''agent1'' sample_key ''key9'' (base_time + minute_ns) bob_db"

definition rotated_key :: agent_key_row where "rotated_key = fst (projr rotate_result)"
definition rotated_db :: auth_db where "rotated_db = snd (projr rotate_result)"

lemma rotate_ok: "rotate_result = Inr (rotated_key, rotated_db)"
proof -
  have "\<not> isl rotate_result" by code_simp
  then show ?thesis unfolding rotated_key_def rotated_db_def by (rule inr_split)
qed

theorem rotation_kills_old_credentials_witness:
  "authenticate_access_token (en_hash sample_env) ''at1'' (base_time + minute_ns) rotated_db = Inl InvalidToken"
proof -
  have "case find (\<lambda>r. at_token_hash r = en_hash sample_env (trim ''at1'')) (access_tokens bob_db) of
      None \<Rightarrow> False | Some r \<Rightarrow> at_agent_id r = trim ''agent1''" by code_simp
  then obtain r where "find (\<lambda>r. at_token_hash r = en_hash sample_env (trim ''at1'')) (access_tokens bob_db) = Some r"
      "at_agent_id r = trim ''agent1''" by (auto split: option.splits)
  then show ?thesis
    using rotation_kills_old_credentials [OF run_to_bob rotate_ok [unfolded rotate_result_def] run_refl] by blast
qed

section \<open>Assertions\<close>

lemma not_isl_Inr_iff: "\<not> isl x \<longleftrightarrow> (\<exists>a b. x = Inr (a, b))"
  by (cases x) auto

definition fresh_draw :: "(string \<Rightarrow> string) \<Rightarrow> token_draw \<Rightarrow> auth_db \<Rightarrow> bool" where
  "fresh_draw hash d db \<longleftrightarrow>
     list_all (\<lambda>r. rs_id r \<noteq> td_refresh_id d \<and> rs_token_hash r \<noteq> hash (td_refresh_token d)) (refresh_sessions db) \<and>
     list_all (\<lambda>t. at_id t \<noteq> td_access_id d \<and> at_token_hash t \<noteq> hash (td_access_token d)) (access_tokens db)"

lemma bundle_fresh: "fresh_draw hash d db \<Longrightarrow> \<not> isl (issue_token_bundle cfg hash i d now db)"
  by (auto simp: fresh_draw_def issue_token_bundle_def list_ex_iff list_all_iff)

definition assertion_hash :: "(string \<Rightarrow> string) \<Rightarrow> string \<Rightarrow> string \<Rightarrow> string \<Rightarrow> string \<Rightarrow> string" where
  "assertion_hash hash i k s g =
     hash_assertion_replay hash (build_assertion_message (trim i) (trim k) (trim s)) (trim g)"

text \<open>Everything an assertion is checked for but the replay.\<close>

definition assertion_valid ::
  "auth_config \<Rightarrow> (8 word list \<Rightarrow> string \<Rightarrow> 8 word list \<Rightarrow> bool) \<Rightarrow> string \<Rightarrow> string \<Rightarrow> string \<Rightarrow> string \<Rightarrow> int \<Rightarrow> auth_db \<Rightarrow> bool" where
  "assertion_valid cfg verify i k s g now db \<longleftrightarrow>
     trim i \<noteq> [] \<and> trim k \<noteq> [] \<and> trim s \<noteq> [] \<and> trim g \<noteq> [] \<and>
     (case parse_rfc3339 (trim s) of None \<Rightarrow> False
      | Some st \<Rightarrow> now - st \<le> max_assertion_skew cfg \<and> st - now \<le> max_assertion_skew cfg) \<and>
     (case (find_agent (trim i) db, find_agent_key (trim i) (trim k) db) of
        (Some a, Some key) \<Rightarrow> ag_revoked_at a = None \<and> k_revoked_at key = None \<and> trim (k_algorithm key) = ''ed25519'' \<and>
          (case (decode_ed25519_public_key (k_public_key key), decode_base64 (trim g)) of
             (Some pub, Some sig) \<Rightarrow> verify pub (build_assertion_message (trim i) (trim k) (trim s)) sig
           | _ \<Rightarrow> False)
      | _ \<Rightarrow> False)"

lemma assertion_split:
  "(if assertion_valid cfg verify i k s g now db
    then issue_token_from_assertion cfg hash verify i k s g d now db =
      bind_res (record_assertion_use cfg hash (build_assertion_message (trim i) (trim k) (trim s)) (trim g) now db)
        (issue_token_bundle cfg hash (trim i) d now)
    else isl (issue_token_from_assertion cfg hash verify i k s g d now db))"
  unfolding issue_token_from_assertion_def assertion_valid_def Let_def
  by (auto split: option.splits if_splits dest: find_agent_id)

definition kept_uses :: "auth_config \<Rightarrow> int \<Rightarrow> auth_db \<Rightarrow> (string \<times> stamp) list" where
  "kept_uses cfg now db = filter (\<lambda>u. \<not> snd u < Stamp (now - max_assertion_skew cfg)) (used_assertions db)"

lemma assertion_accepted_iff:
  assumes "fresh_draw hash d db"
  shows "\<not> isl (issue_token_from_assertion cfg hash verify i k s g d now db) \<longleftrightarrow>
    assertion_valid cfg verify i k s g now db \<and> assertion_hash hash i k s g \<notin> fst ` set (kept_uses cfg now db)"
proof (cases "assertion_valid cfg verify i k s g now db")
  case True
  then have eq: "issue_token_from_assertion cfg hash verify i k s g d now db =
      bind_res (record_assertion_use cfg hash (build_assertion_message (trim i) (trim k) (trim s)) (trim g) now db)
        (issue_token_bundle cfg hash (trim i) d now)"
    using assertion_split [of cfg verify i k s g now db hash d] by simp
  show ?thesis
  proof (cases "assertion_hash hash i k s g \<in> fst ` set (kept_uses cfg now db)")
    case replay: True
    then show ?thesis
      by (simp add: eq record_assertion_use_def kept_uses_def assertion_hash_def Let_def)
  next
    case False
    have "fresh_draw hash d (db\<lparr>used_assertions := u\<rparr>)" for u
      using assms by (simp add: fresh_draw_def)
    from bundle_fresh [OF this] False True show ?thesis
      by (simp add: eq record_assertion_use_def kept_uses_def assertion_hash_def Let_def)
  qed
qed (use assertion_split [of cfg verify i k s g now db hash d] in simp)

lemma assertion_recorded:
  assumes "issue_token_from_assertion cfg hash verify i k s g d now db = Inr (tb, db1)"
  shows "assertion_valid cfg verify i k s g now db" "agents db1 = agents db" "agent_keys db1 = agent_keys db"
    "used_assertions db1 = kept_uses cfg now db @ [(assertion_hash hash i k s g, Stamp now)]"
    "assertion_hash hash i k s g \<notin> fst ` set (kept_uses cfg now db)"
proof -
  show valid: "assertion_valid cfg verify i k s g now db"
    using assertion_split [of cfg verify i k s g now db hash d] assms by (auto split: if_splits)
  then have "bind_res (record_assertion_use cfg hash (build_assertion_message (trim i) (trim k) (trim s)) (trim g) now db)
      (issue_token_bundle cfg hash (trim i) d now) = Inr (tb, db1)"
    using assertion_split [of cfg verify i k s g now db hash d] assms by simp
  then show "agents db1 = agents db" "agent_keys db1 = agent_keys db"
    "used_assertions db1 = kept_uses cfg now db @ [(assertion_hash hash i k s g, Stamp now)]"
    "assertion_hash hash i k s g \<notin> fst ` set (kept_uses cfg now db)"
    by (auto simp: bind_res_Inr_iff record_assertion_use_def kept_uses_def assertion_hash_def Let_def bundle_frame
        split: if_splits dest!: bundle_frame(1,3,7))
qed

text \<open>
  C15. An assertion is used once in its window.  After it gave tokens at \<open>now\<close>, the same agent, key, time and
  signature text is refused in every later history in which no step and not the replay itself comes later than one
  second before \<open>now + maxAssertionSkew\<close>.
\<close>

theorem assertion_single_use:
  assumes "issue_token_from_assertion (en_cfg env) (en_hash env) verify i k s g d now db = Inr (tb, db1)"
    and "auth_run env t db1 db2" "t + second_ns \<le> now + max_assertion_skew (en_cfg env)" "n \<le> t"
  shows "isl (issue_token_from_assertion (en_cfg env) (en_hash env) verify i k s g d2 n db2)"
proof -
  let ?h = "assertion_hash (en_hash env) i k s g"
  have "(?h, Stamp now) \<in> set (used_assertions db1)" by (simp add: assertion_recorded(4) [OF assms(1)])
  then have used: "(?h, Stamp now) \<in> set (used_assertions db2)"
    using auth_run_later [OF assms(2)] assms(3) by (fastforce simp: auth_later_def uses_later_def)
  have "\<not> Stamp now < Stamp (n - max_assertion_skew (en_cfg env))"
    using stamp_less_whole_second [of "n - max_assertion_skew (en_cfg env)" now] assms(3,4) by auto
  with used have "(?h, Stamp now) \<in> set (kept_uses (en_cfg env) n db2)" by (simp add: kept_uses_def)
  then have "?h \<in> fst ` set (kept_uses (en_cfg env) n db2)" by force
  then show ?thesis
    using assertion_split [of "en_cfg env" verify i k s g n db2 "en_hash env" d2]
    by (auto simp: record_assertion_use_def kept_uses_def assertion_hash_def Let_def split: if_splits)
qed

text \<open>
  C27. Exactly when a replay is accepted.  Presented again at \<open>n\<close>, still inside the accepted time window of its
  \<open>signed_at\<close>, an assertion that gave tokens at \<open>now\<close> gives tokens again iff its record has been dropped, that is iff
  the stored time of use sorts before \<open>n - maxAssertionSkew\<close>.  The window is twice as long as the memory, so an
  assertion signed ahead of the server's clock is accepted twice.
\<close>

theorem assertion_replay_exact:
  assumes "issue_token_from_assertion cfg hash verify i k s g d now db = Inr (tb, db1)"
    and "parse_rfc3339 (trim s) = Some st" "n - st \<le> max_assertion_skew cfg" "st - n \<le> max_assertion_skew cfg"
    and "fresh_draw hash d2 db1"
  shows "(\<exists>tb2 db2. issue_token_from_assertion cfg hash verify i k s g d2 n db1 = Inr (tb2, db2)) \<longleftrightarrow>
    Stamp now < Stamp (n - max_assertion_skew cfg)"
proof -
  note rec = assertion_recorded [OF assms(1)]
  have "assertion_valid cfg verify i k s g n db1"
    using rec(1-3) assms(2-4) by (simp add: assertion_valid_def find_agent_def find_agent_key_def)
  then have "\<not> isl (issue_token_from_assertion cfg hash verify i k s g d2 n db1) \<longleftrightarrow>
      assertion_hash hash i k s g \<notin> fst ` set (kept_uses cfg n db1)"
    using assertion_accepted_iff [OF assms(5)] by simp
  also have "\<dots> \<longleftrightarrow> Stamp now < Stamp (n - max_assertion_skew cfg)"
    using rec(5) by (auto simp: kept_uses_def rec(4))
  finally show ?thesis by (auto simp: not_isl_Inr_iff)
qed

text \<open>
  C28. The same signature in another encoding is another assertion.  The replay record hashes the signature's text,
  and \<open>decodeBase64\<close> reads four encodings: a second text of the same signature bytes, not recorded yet, gives tokens
  again at the same moment.
\<close>

theorem reencoded_signature_accepted:
  assumes "issue_token_from_assertion cfg hash verify i k s g d now db = Inr (tb, db1)"
    and "decode_base64 (trim g2) = decode_base64 (trim g)" "trim g2 \<noteq> []"
    and "assertion_hash hash i k s g2 \<notin> fst ` set (used_assertions db1)" "fresh_draw hash d2 db1"
  shows "\<exists>tb2 db2. issue_token_from_assertion cfg hash verify i k s g2 d2 now db1 = Inr (tb2, db2)"
proof -
  note rec = assertion_recorded [OF assms(1)]
  have "assertion_valid cfg verify i k s g2 now db1"
    using rec(1-3) assms(2,3)
    by (simp add: assertion_valid_def find_agent_def find_agent_key_def cong: option.case_cong)
  moreover have "assertion_hash hash i k s g2 \<notin> fst ` set (kept_uses cfg now db1)"
    using assms(4) by (auto simp: kept_uses_def)
  ultimately show ?thesis using assertion_accepted_iff [OF assms(5)] by (auto simp: not_isl_Inr_iff)
qed

section \<open>A sample assertion\<close>

text \<open>Alice signs for \<open>base_time\<close>, and presents the assertion 250 seconds before.\<close>

definition signed_at :: string where "signed_at = ''2023-11-14T22:13:20Z''"

definition assertion_result :: "auth_error + token_bundle \<times> auth_db" where
  "assertion_result = issue_token_from_assertion (en_cfg sample_env) (en_hash sample_env) (en_verify sample_env)
     ''agent1'' ''key1'' signed_at ''QUI='' (sample_draw ''5'') (base_time - 250 * second_ns) bob_db"

definition assertion_tb :: token_bundle where "assertion_tb = fst (projr assertion_result)"
definition assertion_db :: auth_db where "assertion_db = snd (projr assertion_result)"

lemma assertion_ok: "assertion_result = Inr (assertion_tb, assertion_db)"
proof -
  have "\<not> isl assertion_result" by code_simp
  then show ?thesis unfolding assertion_tb_def assertion_db_def by (rule inr_split)
qed

lemma signed_time: "parse_rfc3339 (trim signed_at) = Some base_time"
  by code_simp

lemma sample_fresh: "fresh_draw (en_hash sample_env) (sample_draw ''6'') assertion_db"
  by code_simp

lemma sample_skew: "max_assertion_skew (en_cfg sample_env) = 300 * second_ns"
  by (simp add: sample_env_def)

theorem assertion_single_use_witness:
  "isl (issue_token_from_assertion (en_cfg sample_env) (en_hash sample_env) (en_verify sample_env)
     ''agent1'' ''key1'' signed_at ''QUI='' (sample_draw ''6'') base_time assertion_db)"
  by (rule assertion_single_use [OF assertion_ok [unfolded assertion_result_def] run_refl, of base_time])
    (simp_all add: sample_skew second_ns_def)

theorem assertion_replay_exact_witness:
  "\<exists>tb2 db2. issue_token_from_assertion (en_cfg sample_env) (en_hash sample_env) (en_verify sample_env)
     ''agent1'' ''key1'' signed_at ''QUI='' (sample_draw ''6'') (base_time + 100 * second_ns) assertion_db = Inr (tb2, db2)"
proof -
  have "Stamp (base_time - 250 * second_ns) < Stamp (base_time + 100 * second_ns - max_assertion_skew (en_cfg sample_env))"
    by (rule stamp_less_whole_second) (simp add: sample_skew second_ns_def)
  moreover have "base_time + 100 * second_ns - base_time \<le> max_assertion_skew (en_cfg sample_env)"
    "base_time - (base_time + 100 * second_ns) \<le> max_assertion_skew (en_cfg sample_env)"
    by (simp_all add: sample_skew second_ns_def)
  ultimately show ?thesis
    using assertion_replay_exact [OF assertion_ok [unfolded assertion_result_def] signed_time _ _ sample_fresh] by blast
qed

theorem reencoded_signature_accepted_witness:
  "\<exists>tb2 db2. issue_token_from_assertion (en_cfg sample_env) (en_hash sample_env) (en_verify sample_env)
     ''agent1'' ''key1'' signed_at ''QUI'' (sample_draw ''6'') (base_time - 250 * second_ns) assertion_db = Inr (tb2, db2)"
proof (rule reencoded_signature_accepted [OF assertion_ok [unfolded assertion_result_def] _ _ _ sample_fresh])
  show "decode_base64 (trim ''QUI'') = decode_base64 (trim ''QUI='')" by code_simp
  show "trim ''QUI'' \<noteq> []" by code_simp
  show "assertion_hash (en_hash sample_env) ''agent1'' ''key1'' signed_at ''QUI'' \<notin> fst ` set (used_assertions assertion_db)"
    by code_simp
qed

section \<open>Usernames of passkey principals\<close>

lemma alnum_username: "alnum_char c \<Longrightarrow> username_char c"
  by (auto simp: alnum_char_def username_char_def)

lemma set_replace_runs: "c \<in> set (replace_runs b s) \<Longrightarrow> alnum_char c \<or> c = CHR ''-''"
  by (induction b s rule: replace_runs.induct) (auto split: if_splits)

lemma username_plain: "list_all username_char s \<Longrightarrow> list_all plain_char s"
  by (auto simp: list_all_iff username_char_def plain_char_def less_eq_char_def)

lemma normalize_username_id:
  "list_all username_char s \<Longrightarrow> 3 \<le> length s \<Longrightarrow> length s \<le> 64 \<Longrightarrow> normalize_username s = Inr s"
  by (auto simp: normalize_username_def plain_trim [OF username_plain] plain_lower [OF username_plain])

text \<open>
  A passkey principal always gets a valid username.  Whatever the display name, \<open>generatePasskeyUsername\<close> with
  four random bytes in hex does not fail: the username is between 3 and 64 characters, all of them allowed, and
  normalising it again changes nothing.
\<close>

theorem passkey_username_valid:
  assumes "length hexSuffix = 8" "list_all alnum_char hexSuffix"
  shows "\<exists>u. generate_passkey_username displayName hexSuffix = Inr u \<and> normalize_username u = Inr u \<and>
    3 \<le> length u \<and> length u \<le> 64 \<and> list_all username_char u"
proof -
  define b1 where "b1 = trim_char (CHR ''-'') (replace_runs False (to_lower (trim displayName)))"
  define b2 where "b2 = trim_char (CHR ''.'') (map (\<lambda>c. if c = CHR ''-'' then CHR ''.'' else c) b1)"
  define b3 where "b3 = (if length b2 > 24 then trim_char (CHR ''.'') (take 24 b2) else b2)"
  define base where "base = (if length b3 < 3 then ''user'' else b3)"
  let ?u = "''passkey.'' @ base @ ''.'' @ hexSuffix"
  have "username_char (CHR ''.'')" by (simp add: username_char_def)
  then have "list_all username_char b2"
    unfolding b2_def b1_def list_all_iff
    by (auto dest!: set_trim_char set_replace_runs intro: alnum_username)
  then have "list_all username_char b3"
    unfolding b3_def list_all_iff by (auto dest!: set_trim_char in_set_takeD)
  moreover have "list_all username_char ''user''" "list_all username_char ''passkey.''" by code_simp+
  moreover have "list_all username_char hexSuffix"
    using assms(2) by (auto simp: list_all_iff intro: alnum_username)
  ultimately have chars: "list_all username_char ?u"
    using \<open>username_char (CHR ''.'')\<close> by (simp add: base_def)
  have "length b3 \<le> 24"
    unfolding b3_def using length_trim_char [of "CHR ''.''" "take 24 b2"] by simp
  then have "length base \<le> 24" by (simp add: base_def)
  then have len: "3 \<le> length ?u" "length ?u \<le> 64" using assms(1) by simp_all
  have "generate_passkey_username displayName hexSuffix = normalize_username ?u"
    by (simp only: generate_passkey_username_def Let_def b1_def b2_def b3_def base_def)
  then show ?thesis
    using normalize_username_id [OF chars len] chars len by (intro exI [of _ ?u] conjI) simp_all
qed

theorem passkey_username_valid_witness:
  "\<exists>u. generate_passkey_username ''Bob B.'' ''00ff00ff'' = Inr u \<and> normalize_username u = Inr u \<and>
     3 \<le> length u \<and> length u \<le> 64 \<and> list_all username_char u"
  by (rule passkey_username_valid) code_simp+

end
