(* ===== verification/Handles.thy ===== *)
theory Handles
  imports GoNumbers "HOL-Library.Word" "HOL-Library.Code_Target_Nat"
begin

text \<open>
  \<open>core/internal/handles/handles.go\<close> and \<open>core/internal/primitives/handles.go\<close>: the short names of resources.  A
  handle is made from a title, kept apart from the handles, ids and aliases of its type, and resolved back to the
  resource.
\<close>

section \<open>Runes\<close>

text \<open>\<open>for _, r := range s\<close> over UTF-8; a byte that starts no rune counts as \<open>U+FFFD\<close>.\<close>

definition byte_in :: "nat \<Rightarrow> nat \<Rightarrow> char \<Rightarrow> bool" where
  "byte_in lo hi c \<longleftrightarrow> lo \<le> of_char c \<and> of_char c \<le> hi"

fun runes :: "string \<Rightarrow> nat list" where
  "runes [] = []"
| "runes (a # s) =
     (let v = of_char a in
      if v < 0x80 then v # runes s
      else if byte_in 0xC2 0xDF a then
        (case s of
           b # r \<Rightarrow> if byte_in 0x80 0xBF b then ((v - 0xC0) * 64 + (of_char b - 0x80)) # runes r else 0xFFFD # runes s
         | _ \<Rightarrow> 0xFFFD # runes s)
      else if byte_in 0xE0 0xEF a then
        (case s of
           b # c # r \<Rightarrow>
             if byte_in (if v = 0xE0 then 0xA0 else 0x80) (if v = 0xED then 0x9F else 0xBF) b \<and> byte_in 0x80 0xBF c
             then ((v - 0xE0) * 4096 + (of_char b - 0x80) * 64 + (of_char c - 0x80)) # runes r
             else 0xFFFD # runes s
         | _ \<Rightarrow> 0xFFFD # runes s)
      else if byte_in 0xF0 0xF4 a then
        (case s of
           b # c # d # r \<Rightarrow>
             if byte_in (if v = 0xF0 then 0x90 else 0x80) (if v = 0xF4 then 0x8F else 0xBF) b \<and>
                byte_in 0x80 0xBF c \<and> byte_in 0x80 0xBF d
             then ((v - 0xF0) * 262144 + (of_char b - 0x80) * 4096 + (of_char c - 0x80) * 64 + (of_char d - 0x80)) # runes r
             else 0xFFFD # runes s
         | _ \<Rightarrow> 0xFFFD # runes s)
      else 0xFFFD # runes s)"

section \<open>Making a handle\<close>

definition max_handle_length :: nat where "max_handle_length = 64"

definition slug_char :: "char \<Rightarrow> bool" where
  "slug_char c \<longleftrightarrow> (CHR ''a'' \<le> c \<and> c \<le> CHR ''z'') \<or> (CHR ''0'' \<le> c \<and> c \<le> CHR ''9'')"

text \<open>
  The loop of \<open>Normalize\<close>: every rune that is not a letter or digit is a delimiter, so the bytes of one rune are
  delimiters in a row.  \<open>open\<close> tells that the buffer is not empty and does not end in a dash.
\<close>

fun slug_loop :: "bool \<Rightarrow> string \<Rightarrow> string" where
  "slug_loop opn [] = []"
| "slug_loop opn (c # s) =
     (if slug_char c then c # slug_loop True s
      else if opn then CHR ''-'' # slug_loop False s else slug_loop False s)"

definition reserved_handles :: "string list" where
  "reserved_handles = [''api'', ''attachments'', ''cards'', ''documents'', ''events'', ''new'', ''search'', ''settings'',
     ''threads'', ''topics'', ''trash'', ''uuid'']"

definition is_reserved_handle :: "string \<Rightarrow> bool" where
  "is_reserved_handle h \<longleftrightarrow> trim (to_lower h) \<in> set reserved_handles"

definition hex_char :: "char \<Rightarrow> bool" where
  "hex_char c \<longleftrightarrow> (CHR ''0'' \<le> c \<and> c \<le> CHR ''9'') \<or> (CHR ''a'' \<le> c \<and> c \<le> CHR ''f'') \<or> (CHR ''A'' \<le> c \<and> c \<le> CHR ''F'')"

definition is_uuid_like :: "string \<Rightarrow> bool" where
  "is_uuid_like value =
     (case map (\<lambda>g. if list_all hex_char g then length g else 0) (split_on (CHR ''-'') (trim value)) of
        ns \<Rightarrow> ns = [8, 4, 4, 4, 12])"

definition normalize_handle :: "string \<Rightarrow> string" where
  "normalize_handle raw =
     (let out = trim_char (CHR ''-'') (slug_loop False (trim (to_lower raw)));
          cut = (if length out > max_handle_length then trim_char (CHR ''-'') (take max_handle_length out) else out)
      in if is_reserved_handle cut \<or> is_uuid_like cut then [] else cut)"

definition fallback_adjectives :: "string list" where
  "fallback_adjectives = [''amber'', ''brisk'', ''clear'', ''daring'', ''eager'', ''fresh'', ''gentle'', ''honest'']"

definition fallback_nouns :: "string list" where
  "fallback_nouns = [''anchor'', ''beacon'', ''canvas'', ''delta'', ''ember'', ''focus'', ''harbor'', ''signal'']"

text \<open>The seed's number wraps around in 64 bits; a blank seed draws \<open>rnd\<close>.\<close>

definition seed_number :: "string \<Rightarrow> 64 word" where
  "seed_number seed = fold (\<lambda>r n. n * 131 + word_of_nat r) (runes seed) 0"

definition fallback_handle :: "64 word \<Rightarrow> string \<Rightarrow> string" where
  "fallback_handle rnd seed0 =
     (let seed = trim seed0;
          n = (if seed \<noteq> [] then seed_number seed else rnd);
          adj = fallback_adjectives ! (unat (n mod 8)); n1 = n div 8;
          noun = fallback_nouns ! (unat (n1 mod 8)); n2 = n1 div 8
      in adj @ ''-'' @ noun @ ''-'' @ dec_digits (unat (n2 mod 10000)))"

definition handle_candidate :: "64 word \<Rightarrow> string \<Rightarrow> string \<Rightarrow> string" where
  "handle_candidate rnd raw fallbackSeed =
     (let h = normalize_handle raw in if h \<noteq> [] then h else fallback_handle rnd fallbackSeed)"

section \<open>The tables\<close>

record handle_row =
  hr_type :: string
  hr_id :: string
  hr_handle :: "string option"

record handle_alias =
  ha_type :: string
  ha_handle :: string
  ha_resource_id :: string
  ha_canonical :: string

record revision_row =
  rv_type :: string
  rv_id :: string
  rv_parent_id :: string
  rv_number :: nat

record handle_db =
  handle_rows :: "handle_row list"
  handle_aliases :: "handle_alias list"
  revision_rows :: "revision_row list"

definition resource_types :: "string list" where
  "resource_types = [''topic'', ''board'', ''card'', ''document'', ''artifact'', ''event'', ''thread'']"

definition handle_taken :: "string \<Rightarrow> string \<Rightarrow> handle_db \<Rightarrow> bool" where
  "handle_taken typ h db \<longleftrightarrow>
     list_ex (\<lambda>r. hr_type r = typ \<and> (hr_handle r = Some h \<or> hr_id r = h)) (handle_rows db) \<or>
     list_ex (\<lambda>a. ha_type a = typ \<and> ha_handle a = h) (handle_aliases db)"

text \<open>The \<open>i\<close>-th try of \<open>uniqueHandleTx\<close>: the base, then the base cut to leave room for \<open>-2\<close>, \<open>-3\<close>, ...\<close>

definition numbered_handle :: "string \<Rightarrow> nat \<Rightarrow> string" where
  "numbered_handle base i =
     (if i = 0 then base
      else let suffix = ''-'' @ dec_digits (i + 1);
               cut = (if max_handle_length - length suffix < 1 then 1 else max_handle_length - length suffix)
           in if length base > cut then trim_right_char (CHR ''-'') (take cut base) @ suffix else base @ suffix)"

definition max_handle_tries :: nat where "max_handle_tries = 1000"

function (sequential) free_handle_from :: "string \<Rightarrow> string \<Rightarrow> handle_db \<Rightarrow> nat \<Rightarrow> string option" where
  "free_handle_from typ base db i =
     (if i < max_handle_tries
      then if \<not> handle_taken typ (numbered_handle base i) db then Some (numbered_handle base i)
           else free_handle_from typ base db (i + 1)
      else None)"
  by pat_completeness auto

termination
  by (relation "measure (\<lambda>(_, _, _, i). max_handle_tries - i)") auto

declare free_handle_from.simps [simp del]

definition unique_handle :: "64 word \<Rightarrow> string \<Rightarrow> string \<Rightarrow> string \<Rightarrow> handle_db \<Rightarrow> string option" where
  "unique_handle rnd typ desired fallbackSeed db =
     (if typ \<notin> set resource_types then None
      else free_handle_from typ (handle_candidate rnd desired fallbackSeed) db 0)"

text \<open>The loop finds the first free name of a list.\<close>

lemma free_handle_find:
  "free_handle_from typ base db i = find (\<lambda>h. \<not> handle_taken typ h db) (map (numbered_handle base) [i..<max_handle_tries])"
proof (induction "max_handle_tries - i" arbitrary: i)
  case 0
  then show ?case by (subst free_handle_from.simps) simp
next
  case (Suc n)
  then have i: "i < max_handle_tries" "n = max_handle_tries - (i + 1)" by simp_all
  show ?case
    using Suc.hyps(1) [OF i(2)] i(1) by (subst free_handle_from.simps) (simp add: upt_conv_Cons)
qed

lemma unique_handle_find:
  "unique_handle rnd typ desired fallbackSeed db =
     (if typ \<notin> set resource_types then None
      else let base = handle_candidate rnd desired fallbackSeed
           in find (\<lambda>h. \<not> handle_taken typ h db) (map (numbered_handle base) [0..<max_handle_tries]))"
  by (simp only: unique_handle_def free_handle_find Let_def)

section \<open>Resolving\<close>

datatype ref_error = InvalidResourceRef | RefNotFound

record resolved_ref =
  rf_type :: string
  rf_id :: string
  rf_handle :: string
  rf_canonical :: string
  rf_from_alias :: bool

text \<open>\<open>schema.SplitTypedRef\<close>.\<close>

definition split_schema_ref :: "string \<Rightarrow> (string \<times> string) option" where
  "split_schema_ref ref =
     (let p = takeWhile (\<lambda>c. c \<noteq> CHR '':'') ref; rest = dropWhile (\<lambda>c. c \<noteq> CHR '':'') ref
      in if rest = [] \<or> p = [] \<or> tl rest = [] then None
         else if trim p = [] \<or> trim (tl rest) = [] then None
         else Some (trim p, trim (tl rest)))"

definition resolve_by :: "(handle_row \<Rightarrow> bool) \<Rightarrow> string \<Rightarrow> handle_db \<Rightarrow> ref_error + resolved_ref" where
  "resolve_by P typ db =
     (case find (\<lambda>r. hr_type r = typ \<and> P r) (handle_rows db) of
        None \<Rightarrow> Inl RefNotFound
      | Some r \<Rightarrow>
          let h = trim (null_text (hr_handle r))
          in Inr \<lparr>rf_type = typ, rf_id = hr_id r, rf_handle = h,
                  rf_canonical = typ @ '':'' @ (if h \<noteq> [] then h else hr_id r), rf_from_alias = False\<rparr>)"

definition resolve_by_id :: "string \<Rightarrow> string \<Rightarrow> handle_db \<Rightarrow> ref_error + resolved_ref" where
  "resolve_by_id typ i db = resolve_by (\<lambda>r. hr_id r = i) typ db"

definition resolve_by_handle :: "string \<Rightarrow> string \<Rightarrow> handle_db \<Rightarrow> ref_error + resolved_ref" where
  "resolve_by_handle typ h db = resolve_by (\<lambda>r. hr_handle r = Some h) typ db"

text \<open>
  A revision is named after its parent: the parent's handle, or its id, and the number.  A document revision may have
  lost its document; a card revision without its card is not found.
\<close>

definition revision_handle :: "string \<Rightarrow> nat \<Rightarrow> string" where
  "revision_handle parent n = trim parent @ ''-r'' @ dec_digits n"

definition revision_parent :: "handle_db \<Rightarrow> revision_row \<Rightarrow> string option" where
  "revision_parent db v =
     (let typ = (if rv_type v = ''document_revision'' then ''document'' else ''card'')
      in case find (\<lambda>r. hr_type r = typ \<and> hr_id r = rv_parent_id v) (handle_rows db) of
           Some r \<Rightarrow> Some (case hr_handle r of Some h \<Rightarrow> h | None \<Rightarrow> hr_id r)
         | None \<Rightarrow> if typ = ''document'' then Some (rv_parent_id v) else None)"

text \<open>SQL \<open>lower\<close> changes ASCII letters only.\<close>

definition resolve_revision :: "string \<Rightarrow> string \<Rightarrow> handle_db \<Rightarrow> ref_error + resolved_ref" where
  "resolve_revision typ value0 db =
     (let value = trim value0; normalized = normalize_handle value;
          answer = (\<lambda>i v. case revision_parent db v of
             None \<Rightarrow> Inl RefNotFound
           | Some p \<Rightarrow> Inr \<lparr>rf_type = typ, rf_id = i, rf_handle = revision_handle p (rv_number v),
               rf_canonical = typ @ '':'' @ revision_handle p (rv_number v), rf_from_alias = False\<rparr>);
          named = (\<lambda>v. rv_type v = typ \<and> (case revision_parent db v of None \<Rightarrow> False
             | Some p \<Rightarrow> map lower_char (p @ ''-r'' @ dec_digits (rv_number v)) = normalized))
      in if value = [] then Inl InvalidResourceRef
         else case (if normalized = [] then None else find named (revision_rows db)) of
           Some v \<Rightarrow> answer (rv_id v) v
         | None \<Rightarrow>
             (case find (\<lambda>v. rv_type v = typ \<and> rv_id v = value \<and> revision_parent db v \<noteq> None) (revision_rows db) of
                Some v \<Rightarrow> answer value v
              | None \<Rightarrow> Inl RefNotFound))"

definition resolve_alias :: "string \<Rightarrow> string \<Rightarrow> handle_db \<Rightarrow> (ref_error + resolved_ref) option" where
  "resolve_alias typ normalized db =
     (case find (\<lambda>a. ha_type a = typ \<and> ha_handle a = normalized) (handle_aliases db) of
        None \<Rightarrow> None
      | Some a \<Rightarrow> Some (bind_res (resolve_by_id typ (ha_resource_id a) db) (\<lambda>r.
          let c = trim (ha_canonical a); r1 = r\<lparr>rf_from_alias := True\<rparr>
          in Inr (if c \<noteq> [] then r1\<lparr>rf_handle := c, rf_canonical := typ @ '':'' @ c\<rparr> else r1))))"

definition resolve_typed :: "string \<Rightarrow> string \<Rightarrow> handle_db \<Rightarrow> ref_error + resolved_ref" where
  "resolve_typed typ value db =
     (if typ = ''document_revision'' \<or> typ = ''card_revision'' then resolve_revision typ value db
      else if typ \<notin> set resource_types then Inl InvalidResourceRef
      else
        let normalized = normalize_handle value;
            by_id = (if is_uuid_like value \<or> list_ex (\<lambda>r. hr_type r = typ \<and> hr_id r = trim value) (handle_rows db)
                     then resolve_by_id typ value db else Inl RefNotFound)
        in if normalized = [] then by_id
           else case resolve_by_handle typ normalized db of
               Inr r \<Rightarrow> Inr r
             | Inl e \<Rightarrow> (case resolve_alias typ normalized db of Some a \<Rightarrow> a | None \<Rightarrow> by_id))"

definition resolve_resource_ref :: "string \<Rightarrow> string \<Rightarrow> handle_db \<Rightarrow> ref_error + resolved_ref" where
  "resolve_resource_ref typ0 ref db =
     (let typ = trim typ0; value = trim ref
      in if value = [] then Inl InvalidResourceRef
         else if CHR '':'' \<in> set value then
           (case split_schema_ref value of
              None \<Rightarrow> Inl InvalidResourceRef
            | Some (p, v) \<Rightarrow> if typ \<noteq> [] \<and> typ \<noteq> p then Inl InvalidResourceRef else resolve_typed p v db)
         else resolve_typed typ value db)"

section \<open>The shape of a handle\<close>

definition dash :: char where "dash = CHR ''-''"

definition handle_shape :: "string \<Rightarrow> bool" where
  "handle_shape s \<longleftrightarrow> list_all (\<lambda>c. slug_char c \<or> c = dash) s \<and> (s \<noteq> [] \<longrightarrow> hd s \<noteq> dash \<and> last s \<noteq> dash) \<and>
     successively (\<lambda>a b. a \<noteq> dash \<or> b \<noteq> dash) s"

lemma slug_dash [simp]: "\<not> slug_char dash"
  by (simp add: slug_char_def dash_def less_eq_char_def)

lemma slug_loop_shape:
  "list_all (\<lambda>c. slug_char c \<or> c = dash) (slug_loop opn s) \<and> successively (\<lambda>a b. a \<noteq> dash \<or> b \<noteq> dash) (slug_loop opn s) \<and>
   (\<not> opn \<longrightarrow> slug_loop opn s \<noteq> [] \<longrightarrow> hd (slug_loop opn s) \<noteq> dash)"
  by (induction opn s rule: slug_loop.induct)
    (auto simp: dash_def [symmetric] successively_Cons)

lemma slug_loop_id:
  "list_all (\<lambda>c. slug_char c \<or> c = dash) s \<Longrightarrow> successively (\<lambda>a b. a \<noteq> dash \<or> b \<noteq> dash) s \<Longrightarrow>
   (s \<noteq> [] \<Longrightarrow> \<not> opn \<Longrightarrow> hd s \<noteq> dash) \<Longrightarrow> slug_loop opn s = s"
  by (induction opn s rule: slug_loop.induct) (auto simp: dash_def [symmetric] successively_Cons)

lemma shape_prefix:
  assumes "prefix p s" "list_all (\<lambda>c. slug_char c \<or> c = dash) s" "successively (\<lambda>a b. a \<noteq> dash \<or> b \<noteq> dash) s"
    "s \<noteq> [] \<Longrightarrow> hd s \<noteq> dash"
  shows "handle_shape (trim_char dash p)" "handle_shape (trim_right_char dash p)"
proof -
  have p: "list_all (\<lambda>c. slug_char c \<or> c = dash) p" "successively (\<lambda>a b. a \<noteq> dash \<or> b \<noteq> dash) p" "p \<noteq> [] \<Longrightarrow> hd p \<noteq> dash"
    using assms by (auto simp: prefix_def successively_append_iff)
  obtain q where q: "p = trim_right_char dash p @ q" using prefix_trim_right_char prefix_def by metis
  have hd: "trim_right_char dash p \<noteq> [] \<Longrightarrow> hd (trim_right_char dash p) = hd p"
    by (metis q hd_append2)
  show right: "handle_shape (trim_right_char dash p)"
    unfolding handle_shape_def
  proof (intro conjI impI)
    show "list_all (\<lambda>c. slug_char c \<or> c = dash) (trim_right_char dash p)"
      using p(1) by (metis q list_all_append)
    show "successively (\<lambda>a b. a \<noteq> dash \<or> b \<noteq> dash) (trim_right_char dash p)"
      using p(2) by (metis q successively_append_iff)
  qed (use hd p(3) q last_trim_right_char in auto)
  have "dropWhile (\<lambda>a. a = dash) p = p" using p(3) by (cases p) auto
  with right show "handle_shape (trim_char dash p)" by (simp add: trim_char_def)
qed

lemma shape_plain: "handle_shape h \<Longrightarrow> list_all plain_char h"
  by (auto simp: handle_shape_def list_all_iff slug_char_def plain_char_def dash_def less_eq_char_def)

lemma shape_fixed:
  assumes "handle_shape h"
  shows "trim h = h" "to_lower h = h" "slug_loop False h = h" "trim_char dash h = h"
  using assms plain_trim plain_lower shape_plain slug_loop_id [of h False]
  by (auto simp: handle_shape_def intro: trim_char_id)

lemma normalize_shape: "handle_shape (normalize_handle raw)" "length (normalize_handle raw) \<le> max_handle_length"
proof -
  let ?s = "slug_loop False (trim (to_lower raw))"
  let ?out = "trim_char dash ?s"
  let ?cut = "if length ?out > max_handle_length then trim_char dash (take max_handle_length ?out) else ?out"
  have s: "list_all (\<lambda>c. slug_char c \<or> c = dash) ?s" "successively (\<lambda>a b. a \<noteq> dash \<or> b \<noteq> dash) ?s" "?s \<noteq> [] \<Longrightarrow> hd ?s \<noteq> dash"
    using slug_loop_shape by blast+
  have out: "handle_shape ?out" by (rule shape_prefix(1) [OF prefix_order.refl s])
  have "handle_shape (trim_char dash (take max_handle_length ?out))"
    by (rule shape_prefix(1) [OF take_is_prefix]) (use out in \<open>auto simp: handle_shape_def\<close>)
  with out have cut: "handle_shape ?cut" by simp
  have len: "length ?cut \<le> max_handle_length"
    using length_trim_char [of dash "take max_handle_length ?out"] by auto
  have n: "normalize_handle raw = (if is_reserved_handle ?cut \<or> is_uuid_like ?cut then [] else ?cut)"
    by (simp only: normalize_handle_def Let_def dash_def)
  have "handle_shape []" by (simp add: handle_shape_def)
  with cut len n show "handle_shape (normalize_handle raw)" "length (normalize_handle raw) \<le> max_handle_length" by simp_all
qed

lemma normalize_fixed:
  "handle_shape h \<Longrightarrow> length h \<le> max_handle_length \<Longrightarrow>
   normalize_handle h = (if is_reserved_handle h \<or> is_uuid_like h then [] else h)"
  by (simp add: normalize_handle_def shape_fixed dash_def [symmetric] Let_def)

lemma normalize_not_special:
  "normalize_handle raw \<noteq> [] \<Longrightarrow> \<not> is_reserved_handle (normalize_handle raw) \<and> \<not> is_uuid_like (normalize_handle raw)"
  by (auto simp: normalize_handle_def Let_def)

lemma normalize_idem: "normalize_handle (normalize_handle raw) = normalize_handle raw"
proof -
  have "is_reserved_handle [] = False" "is_uuid_like [] = False" by code_simp+
  then show ?thesis
    using normalize_not_special [of raw] normalize_fixed [OF normalize_shape, of raw]
    by (cases "normalize_handle raw = []") simp_all
qed

text \<open>
  C39. Normalising is idempotent.  Whatever the text, \<open>Normalize\<close> answers with nothing or with at most 64 lower-case
  letters and digits in groups joined by single dashes, which is neither a reserved word nor the form of a UUID; and
  normalising the answer again changes nothing.
\<close>

theorem normalize_handle_canonical:
  "handle_shape (normalize_handle raw) \<and> length (normalize_handle raw) \<le> 64 \<and>
   (normalize_handle raw = [] \<or> \<not> is_reserved_handle (normalize_handle raw) \<and> \<not> is_uuid_like (normalize_handle raw)) \<and>
   normalize_handle (normalize_handle raw) = normalize_handle raw"
  using normalize_shape [of raw] normalize_not_special [of raw] normalize_idem [of raw]
  by (auto simp: max_handle_length_def)

section \<open>Allocation\<close>

lemma length_dec_digits: "n < 10 ^ Suc k \<Longrightarrow> length (dec_digits n) \<le> Suc k"
proof (induction k arbitrary: n)
  case (Suc k)
  have "n div 10 < 10 ^ Suc k" using Suc.prems by (simp add: div_less_iff_less_mult mult.commute)
  from Suc.IH [OF this] show ?case by (subst dec_digits.simps) simp
qed (simp add: dec_digits.simps)

lemma digits_slug: "list_all is_digit ds \<Longrightarrow> list_all slug_char ds"
  by (auto simp: list_all_iff is_digit_def slug_char_def)

lemma slug_no_dash: "list_all slug_char ds \<Longrightarrow> dash \<notin> set ds"
  by (auto simp: list_all_iff)

lemma slug_successively: "list_all slug_char ds \<Longrightarrow> successively (\<lambda>a b. a \<noteq> dash \<or> b \<noteq> dash) ds"
  by (induction ds) (auto simp: successively_Cons)

lemma slug_shape: "list_all slug_char ds \<Longrightarrow> handle_shape ds"
proof -
  assume ds: "list_all slug_char ds"
  then have "dash \<notin> set ds" by (rule slug_no_dash)
  then have "ds \<noteq> [] \<longrightarrow> hd ds \<noteq> dash \<and> last ds \<noteq> dash" using hd_in_set last_in_set by metis
  then show ?thesis
    unfolding handle_shape_def using slug_successively [OF ds] ds by (auto simp: list_all_iff)
qed

lemma shape_join:
  assumes "handle_shape a" "handle_shape b" "a \<noteq> []" "b \<noteq> []"
  shows "handle_shape (a @ dash # b)"
  using assms by (auto simp: handle_shape_def successively_append_iff successively_Cons)

lemma split_on_last: "c \<notin> set q \<Longrightarrow> split_on c (p @ c # q) = split_on c p @ [q]"
proof (induction p)
  case Nil
  have "split_on c q = [q]" using Nil by (induction q) auto
  then show ?case by simp
next
  case (Cons a p)
  obtain g gs where "split_on c p = g # gs" by (cases "split_on c p") auto
  with Cons show ?case by simp
qed

lemma numbered_not_special:
  assumes "handle_shape (p @ dash # ds)" "list_all slug_char ds" "length ds < 12"
  shows "\<not> is_reserved_handle (p @ dash # ds)" "\<not> is_uuid_like (p @ dash # ds)"
proof -
  have "list_all (\<lambda>h. dash \<notin> set h) reserved_handles" by code_simp
  moreover have "trim (to_lower (p @ dash # ds)) = p @ dash # ds" by (simp add: shape_fixed [OF assms(1)])
  ultimately show "\<not> is_reserved_handle (p @ dash # ds)"
    by (auto simp: is_reserved_handle_def list_all_iff)
  have "split_on dash (p @ dash # ds) = split_on dash p @ [ds]"
    by (rule split_on_last [OF slug_no_dash [OF assms(2)]])
  moreover have "xs @ [n] = [8, 4, 4, 4, 12] \<Longrightarrow> n = 12" for xs n by (cases xs rule: rev_cases) auto
  ultimately show "\<not> is_uuid_like (p @ dash # ds)"
    using assms(3) by (auto simp: is_uuid_like_def shape_fixed [OF assms(1)] dash_def [symmetric] split: if_splits)
qed

text \<open>A base handle: what a candidate is made of.\<close>

definition base_handle :: "string \<Rightarrow> bool" where
  "base_handle h \<longleftrightarrow> handle_shape h \<and> h \<noteq> [] \<and> length h \<le> max_handle_length \<and> normalize_handle h = h"

lemma numbered_base:
  assumes "handle_shape p" "p \<noteq> []" "list_all slug_char ds" "ds \<noteq> []" "length ds < 12"
    "length (p @ dash # ds) \<le> max_handle_length"
  shows "base_handle (p @ dash # ds)"
proof -
  have "handle_shape (p @ dash # ds)" by (rule shape_join [OF assms(1) slug_shape [OF assms(3)] assms(2,4)])
  then show ?thesis
    using numbered_not_special [OF _ assms(3,5)] assms(6) by (simp add: base_handle_def normalize_fixed)
qed

lemma fallback_base: "base_handle (fallback_handle rnd seed)"
proof -
  have adj: "\<forall>a\<in>set fallback_adjectives. list_all slug_char a \<and> a \<noteq> [] \<and> length a \<le> 6" by code_simp
  have noun: "\<forall>a\<in>set fallback_nouns. list_all slug_char a \<and> a \<noteq> [] \<and> length a \<le> 7" by code_simp
  have len: "length fallback_adjectives = 8" "length fallback_nouns = 8" by code_simp+
  have small: "unat (n mod 8) < 8" for n :: "64 word"
    by (simp add: unat_mod_distrib)
  have digits: "length (dec_digits (unat (n mod 10000))) \<le> 4" for n :: "64 word"
    using length_dec_digits [of "unat (n mod 10000)" 3] by (simp add: unat_mod_distrib)
  obtain a b n where h: "fallback_handle rnd seed = a @ dash # b @ dash # dec_digits (unat ((n :: 64 word) mod 10000))"
      "a \<in> set fallback_adjectives" "b \<in> set fallback_nouns"
    unfolding fallback_handle_def Let_def dash_def [symmetric] using small nth_mem len
    by (metis append_Cons append_Nil)
  have ab: "list_all slug_char a" "a \<noteq> []" "length a \<le> 6" "list_all slug_char b" "b \<noteq> []" "length b \<le> 7"
    using adj noun h(2,3) by blast+
  have "handle_shape (a @ dash # b)"
    using ab by (intro shape_join slug_shape)
  moreover have "length ((a @ dash # b) @ dash # dec_digits (unat (n mod 10000))) \<le> max_handle_length"
    using digits [of n] ab(3,6) by (simp add: max_handle_length_def)
  moreover have "length (dec_digits (unat (n mod 10000))) < 12" using digits [of n] by simp
  ultimately have "base_handle ((a @ dash # b) @ dash # dec_digits (unat (n mod 10000)))"
    by (intro numbered_base) (simp_all add: digits_slug dec_digits_digits)
  then show ?thesis by (simp add: h(1))
qed

lemma candidate_base: "base_handle (handle_candidate rnd raw seed)"
  using normalize_idem [of raw] normalize_shape [of raw] fallback_base by (auto simp: handle_candidate_def base_handle_def Let_def)

lemma numbered_handle_form:
  assumes "base_handle b" "0 < i" "i < 1000"
  obtains p where "numbered_handle b i = p @ dash # dec_digits (i + 1)" "handle_shape p" "p \<noteq> []"
    "length (p @ dash # dec_digits (i + 1)) \<le> max_handle_length"
proof -
  have ds: "length (dec_digits (i + 1)) \<le> 4" "dec_digits (i + 1) \<noteq> []"
    using length_dec_digits [of "i + 1" 3] assms(3) by simp_all
  let ?cut = "max_handle_length - length (dash # dec_digits (i + 1))"
  have cut: "1 \<le> ?cut" "?cut + length (dash # dec_digits (i + 1)) = max_handle_length"
    using ds(1) by (simp_all add: max_handle_length_def)
  show ?thesis
  proof (cases "length b > ?cut")
    case True
    let ?p = "trim_right_char dash (take ?cut b)"
    have shape: "handle_shape ?p"
      by (rule shape_prefix(2) [OF take_is_prefix]) (use assms(1) in \<open>auto simp: base_handle_def handle_shape_def\<close>)
    have "take ?cut b \<noteq> []" "hd (take ?cut b) \<noteq> dash"
      using cut(1) assms(1) by (auto simp: base_handle_def handle_shape_def)
    then have "?p \<noteq> []"
      using hd_in_set [of "take ?cut b"] by (auto simp: trim_right_char_def simp del: hd_take)
    moreover have "length ?p \<le> ?cut"
      using length_trim_right_char [of dash "take ?cut b"] by simp
    moreover have "numbered_handle b i = ?p @ dash # dec_digits (i + 1)"
      using True cut(1) assms(2) by (auto simp: numbered_handle_def dash_def [symmetric] Let_def)
    ultimately show ?thesis using that shape cut(2) by (metis add_le_mono1 length_append)
  next
    case False
    moreover have "numbered_handle b i = b @ dash # dec_digits (i + 1)"
      using False cut(1) assms(2) by (auto simp: numbered_handle_def dash_def [symmetric] Let_def)
    ultimately show ?thesis using that [of b] assms(1) cut(2) by (simp add: base_handle_def)
  qed
qed

lemma numbered_handle_base: "base_handle b \<Longrightarrow> i < 1000 \<Longrightarrow> base_handle (numbered_handle b i)"
proof (cases "i = 0")
  case False
  assume b: "base_handle b" "i < 1000"
  then obtain p where p: "numbered_handle b i = p @ dash # dec_digits (i + 1)" "handle_shape p" "p \<noteq> []"
      "length (p @ dash # dec_digits (i + 1)) \<le> max_handle_length"
    using False numbered_handle_form by blast
  then show ?thesis
    using length_dec_digits [of "i + 1" 3] b(2) by (auto intro!: numbered_base simp: digits_slug dec_digits_digits)
qed (simp add: numbered_handle_def)

lemma numbered_handle_inj:
  assumes "base_handle b" "0 < i" "i < 1000" "0 < j" "j < 1000" "numbered_handle b i = numbered_handle b j"
  shows "i = j"
proof -
  obtain p q where pq: "numbered_handle b i = p @ dash # dec_digits (i + 1)" "numbered_handle b j = q @ dash # dec_digits (j + 1)"
    using numbered_handle_form assms by meson
  have "split_on dash (p @ dash # dec_digits (i + 1)) = split_on dash p @ [dec_digits (i + 1)]"
    "split_on dash (q @ dash # dec_digits (j + 1)) = split_on dash q @ [dec_digits (j + 1)]"
    by (rule split_on_last [OF slug_no_dash [OF digits_slug [OF dec_digits_digits]]])+
  then have "split_on dash p @ [dec_digits (i + 1)] = split_on dash q @ [dec_digits (j + 1)]"
    using pq assms(6) by metis
  then have "digits_val 0 (dec_digits (i + 1)) = digits_val 0 (dec_digits (j + 1))" by simp
  then show ?thesis by (simp only: digits_val_dec)
qed

definition taken_handles :: "string \<Rightarrow> handle_db \<Rightarrow> string set" where
  "taken_handles typ db = {h. handle_taken typ h db}"

lemma taken_handles_rows:
  "taken_handles typ db \<subseteq> (\<Union>r\<in>set (handle_rows db). set_option (hr_handle r) \<union> {hr_id r}) \<union> ha_handle ` set (handle_aliases db)"
  by (auto simp: taken_handles_def handle_taken_def list_ex_iff)

lemma finite_taken_handles: "finite (taken_handles typ db)"
  by (rule finite_subset [OF taken_handles_rows]) simp

lemma unique_handle_Some:
  assumes "unique_handle rnd typ desired seed db = Some h"
  shows "typ \<in> set resource_types" "\<not> handle_taken typ h db" "base_handle h"
proof -
  let ?base = "handle_candidate rnd desired seed"
  have known: "typ \<in> set resource_types" using assms unfolding unique_handle_find by (metis option.distinct(1))
  then have "find (\<lambda>h. \<not> handle_taken typ h db) (map (numbered_handle ?base) [0..<max_handle_tries]) = Some h"
    using assms by (simp only: unique_handle_find Let_def not_True_eq_False if_False)
  then have "\<not> handle_taken typ h db \<and> h \<in> set (map (numbered_handle ?base) [0..<max_handle_tries])"
    by (metis find_Some_iff nth_mem)
  then show "typ \<in> set resource_types" "\<not> handle_taken typ h db" and "base_handle h"
    using known numbered_handle_base [OF candidate_base] by (auto simp: max_handle_tries_def [symmetric])
qed

lemma unique_handle_total:
  assumes "typ \<in> set resource_types" "card (taken_handles typ db) < 999"
  shows "\<exists>h. unique_handle rnd typ desired seed db = Some h"
proof -
  let ?num = "numbered_handle (handle_candidate rnd desired seed)"
  have "inj_on ?num {1..<1000}"
    using numbered_handle_inj [OF candidate_base] by (intro inj_onI) auto
  then have "card (?num ` {1..<1000}) = 999" by (simp add: card_image)
  then have "\<not> ?num ` {1..<1000} \<subseteq> taken_handles typ db"
    using card_mono [OF finite_taken_handles] assms(2) by (metis not_less)
  then have "\<exists>i\<in>{1..<1000}. \<not> handle_taken typ (?num i) db" by (simp add: taken_handles_def image_subset_iff)
  then have "find (\<lambda>h. \<not> handle_taken typ h db) (map ?num [0..<max_handle_tries]) \<noteq> None"
    by (auto simp: find_None_iff max_handle_tries_def)
  then show ?thesis using assms(1) by (simp add: unique_handle_find Let_def)
qed

lemma unique_handle_first:
  assumes "typ \<in> set resource_types" "\<not> handle_taken typ (handle_candidate rnd desired seed) db"
  shows "unique_handle rnd typ desired seed db = Some (handle_candidate rnd desired seed)"
proof -
  have "[0..<max_handle_tries] = 0 # [Suc 0..<max_handle_tries]" by (rule upt_conv_Cons) (simp add: max_handle_tries_def)
  moreover have "numbered_handle b 0 = b" for b by (simp add: numbered_handle_def)
  ultimately show ?thesis
    using assms by (simp only: unique_handle_find Let_def list.map find.simps not_True_eq_False if_False if_True not_False_eq_True simp_thms)
qed

text \<open>
  C37. Allocation of handles.  While fewer than 999 names of the type are in use, \<open>uniqueHandleTx\<close> finds a handle;
  it is neither a handle, an id nor an alias of the type, it is a well-formed handle of at most 64 characters which
  \<open>Normalize\<close> keeps, and it is the candidate itself when that one is free.
\<close>

theorem unique_handle_correct:
  assumes "typ \<in> set resource_types" "card (taken_handles typ db) < 999"
  shows "\<exists>h. unique_handle rnd typ desired seed db = Some h \<and> \<not> handle_taken typ h db \<and> handle_shape h \<and> h \<noteq> [] \<and>
    length h \<le> 64 \<and> normalize_handle h = h \<and>
    (\<not> handle_taken typ (handle_candidate rnd desired seed) db \<longrightarrow> h = handle_candidate rnd desired seed)"
proof -
  obtain h where h: "unique_handle rnd typ desired seed db = Some h" using unique_handle_total [OF assms] by blast
  have "base_handle h" by (rule unique_handle_Some [OF h])
  with h show ?thesis
    using unique_handle_Some(2) [OF h] unique_handle_first [OF assms(1), of rnd desired seed db]
    by (auto simp: base_handle_def max_handle_length_def)
qed

section \<open>References\<close>

definition add_handle_row :: "string \<Rightarrow> string \<Rightarrow> string \<Rightarrow> handle_db \<Rightarrow> handle_db" where
  "add_handle_row typ i h db = db\<lparr>handle_rows := handle_rows db @ [\<lparr>hr_type = typ, hr_id = i, hr_handle = Some h\<rparr>]\<rparr>"

definition handle_ref :: "string \<Rightarrow> string \<Rightarrow> string \<Rightarrow> resolved_ref" where
  "handle_ref typ i h = \<lparr>rf_type = typ, rf_id = i, rf_handle = h, rf_canonical = typ @ '':'' @ h, rf_from_alias = False\<rparr>"

lemma resolve_by_add_Some: "resolve_by P typ db = Inr x \<Longrightarrow> resolve_by P typ (add_handle_row t i h db) = Inr x"
  by (auto simp: resolve_by_def add_handle_row_def find_append split: option.splits)

lemma resolve_by_add_new:
  assumes "base_handle h" "\<forall>r\<in>set (handle_rows db). hr_type r = typ \<longrightarrow> \<not> P r"
    "P \<lparr>hr_type = typ, hr_id = i, hr_handle = Some h\<rparr>"
  shows "resolve_by P typ (add_handle_row typ i h db) = Inr (handle_ref typ i h)"
proof -
  have "find (\<lambda>r. hr_type r = typ \<and> P r) (handle_rows db) = None"
    using assms(2) by (auto simp: find_None_iff)
  moreover have "trim h = h" "h \<noteq> []" using assms(1) by (auto simp: base_handle_def shape_fixed)
  ultimately show ?thesis
    using assms(3) by (simp add: resolve_by_def add_handle_row_def find_append handle_ref_def null_text_def Let_def)
qed

lemma resolve_by_add_other:
  "\<not> (t = typ \<and> P \<lparr>hr_type = t, hr_id = i, hr_handle = Some h\<rparr>) \<Longrightarrow>
   resolve_by P typ (add_handle_row t i h db) = resolve_by P typ db"
  by (auto simp: resolve_by_def add_handle_row_def find_append split: option.splits)

text \<open>A new row leaves revisions alone, unless one of them names it as its parent.\<close>

lemma find_map_cong: "(\<And>x. x \<in> set xs \<Longrightarrow> P x = Q x) \<Longrightarrow> find P xs = find Q xs"
  by (induction xs) auto

lemma revision_parent_add:
  "rv_parent_id v \<noteq> i \<Longrightarrow> revision_parent (add_handle_row t i h db) v = revision_parent db v"
  by (auto simp: revision_parent_def add_handle_row_def find_append Let_def split: option.splits)

lemma resolve_revision_add:
  assumes "\<forall>v\<in>set (revision_rows db). rv_parent_id v \<noteq> i"
  shows "resolve_revision typ value (add_handle_row t i h db) = resolve_revision typ value db"
proof -
  let ?db = "add_handle_row t i h db"
  have rows: "revision_rows ?db = revision_rows db" by (simp add: add_handle_row_def)
  have "find (\<lambda>v. P v (revision_parent ?db v)) (revision_rows db) = find (\<lambda>v. P v (revision_parent db v)) (revision_rows db)" for P
    using assms revision_parent_add by (intro find_map_cong) metis
  note found = this [of "\<lambda>v p. rv_type v = typ \<and> (case p of None \<Rightarrow> False
       | Some p \<Rightarrow> map lower_char (p @ ''-r'' @ dec_digits (rv_number v)) = normalize_handle (trim value))"]
    this [of "\<lambda>v p. rv_type v = typ \<and> rv_id v = trim value \<and> p \<noteq> None"]
  have parent: "find Q (revision_rows db) = Some v \<Longrightarrow> revision_parent ?db v = revision_parent db v" for Q v
    using assms revision_parent_add by (metis find_Some_iff nth_mem)
  show ?thesis
    unfolding resolve_revision_def Let_def rows found by (auto split: option.split dest: parent)
qed

lemma resolve_alias_add:
  assumes "resolve_alias typ g db = Some (Inr x)"
  shows "resolve_alias typ g (add_handle_row t i h db) = Some (Inr x)"
proof -
  obtain a where a: "find (\<lambda>a. ha_type a = typ \<and> ha_handle a = g) (handle_aliases db) = Some a"
    using assms by (auto simp: resolve_alias_def split: option.splits)
  with assms obtain r where "resolve_by_id typ (ha_resource_id a) db = Inr r"
    by (auto simp: resolve_alias_def bind_res_Inr_iff)
  moreover from this have "resolve_by_id typ (ha_resource_id a) (add_handle_row t i h db) = Inr r"
    by (simp add: resolve_by_id_def resolve_by_add_Some)
  moreover have "handle_aliases (add_handle_row t i h db) = handle_aliases db" by (simp add: add_handle_row_def)
  ultimately show ?thesis using assms a by (simp add: resolve_alias_def)
qed

lemma resolve_alias_None:
  "handle_aliases db' = handle_aliases db \<Longrightarrow> resolve_alias typ g db = None \<longleftrightarrow> resolve_alias typ g db' = None"
  by (simp add: resolve_alias_def split: option.splits)

text \<open>A reference keeps its meaning when a row is added, unless it normalises to the new handle.\<close>

lemma resolve_typed_add:
  assumes "resolve_typed typ value db = Inr x" "typ \<noteq> t \<or> normalize_handle value \<noteq> h"
    "\<forall>v\<in>set (revision_rows db). rv_parent_id v \<noteq> i"
  shows "resolve_typed typ value (add_handle_row t i h db) = Inr x"
proof (cases "typ = ''document_revision'' \<or> typ = ''card_revision''")
  case True
  then show ?thesis using assms(1) resolve_revision_add [OF assms(3)] by (simp add: resolve_typed_def)
next
  case False
  let ?db = "add_handle_row t i h db" and ?g = "normalize_handle value"
  have h: "resolve_by_handle typ ?g ?db = resolve_by_handle typ ?g db"
    unfolding resolve_by_handle_def using assms(2) by (intro resolve_by_add_other) auto
  have aliases: "resolve_alias typ ?g db = None \<longleftrightarrow> resolve_alias typ ?g ?db = None"
    by (rule resolve_alias_None) (simp add: add_handle_row_def)
  have id: "resolve_by_id typ value db = Inr x \<Longrightarrow> resolve_by_id typ value ?db = Inr x"
    by (simp add: resolve_by_id_def resolve_by_add_Some)
  have seen: "list_ex P (handle_rows db) \<Longrightarrow> list_ex P (handle_rows ?db)" for P
    by (simp add: add_handle_row_def)
  show ?thesis
    using assms(1) False h aliases id seen resolve_alias_add [of "typ" ?g db x t i h]
    by (auto simp: resolve_typed_def Let_def split: if_splits sum.splits option.splits)
qed

text \<open>The new handle is found, under the type and inside a typed reference.\<close>

lemma resolve_typed_new:
  assumes "base_handle h" "typ \<in> set resource_types" "\<not> handle_taken typ h db"
  shows "normalize_handle v = h \<Longrightarrow> resolve_typed typ v (add_handle_row typ i h db) = Inr (handle_ref typ i h)"
proof -
  assume v: "normalize_handle v = h"
  have "resolve_by_handle typ h (add_handle_row typ i h db) = Inr (handle_ref typ i h)"
    unfolding resolve_by_handle_def
    using assms(1,3) by (intro resolve_by_add_new) (auto simp: handle_taken_def list_ex_iff)
  moreover have "typ \<noteq> ''document_revision''" "typ \<noteq> ''card_revision''" using assms(2) by (auto simp: resource_types_def)
  moreover have "h \<noteq> []" using assms(1) by (simp add: base_handle_def)
  ultimately show ?thesis using assms(2) v by (simp add: resolve_typed_def Let_def)
qed

lemma colon_split: "c \<notin> set p \<Longrightarrow> takeWhile (\<lambda>x. x \<noteq> c) (p @ c # r) = p \<and> dropWhile (\<lambda>x. x \<noteq> c) (p @ c # r) = c # r"
  by (induction p) auto

lemma split_new_ref:
  assumes "base_handle h" "typ \<in> set resource_types"
  shows "trim (typ @ '':'' @ h) = typ @ '':'' @ h" "split_schema_ref (typ @ '':'' @ h) = Some (typ, h)"
proof -
  have types: "\<forall>t\<in>set resource_types. list_all plain_char t \<and> CHR '':'' \<notin> set t \<and> t \<noteq> [] \<and> trim t = t" by code_simp
  then have t: "list_all plain_char typ" "CHR '':'' \<notin> set typ" "typ \<noteq> []" "trim typ = typ" using assms(2) by blast+
  have h: "list_all plain_char h" "trim h = h" "h \<noteq> []"
    using assms(1) by (auto simp: base_handle_def shape_plain shape_fixed)
  have "plain_char (CHR '':'')" by code_simp
  then show "trim (typ @ '':'' @ h) = typ @ '':'' @ h" using t(1) h(1) by (intro plain_trim) simp
  have "takeWhile (\<lambda>c. c \<noteq> CHR '':'') (typ @ '':'' @ h) = typ" "dropWhile (\<lambda>c. c \<noteq> CHR '':'') (typ @ '':'' @ h) = '':'' @ h"
    using colon_split [OF t(2)] by simp_all
  then show "split_schema_ref (typ @ '':'' @ h) = Some (typ, h)"
    using t h by (simp only: split_schema_ref_def Let_def) simp
qed

lemma handle_no_colon: "base_handle h \<Longrightarrow> CHR '':'' \<notin> set h"
  by (auto simp: base_handle_def handle_shape_def list_all_iff slug_char_def dash_def less_eq_char_def)

text \<open>
  C38. Handles resolve.  Once a row is inserted with the handle that was allocated for it, the handle under its type
  and the typed reference \<open>type:handle\<close> resolve to that row, and so does every text of the type that normalises to
  the handle (even the exact id of an older row: the handle is tried first).  Every other reference that resolved
  before resolves to the same resource, provided the new id is no revision's parent.
\<close>

theorem allocated_handle_resolves:
  assumes "unique_handle rnd typ desired seed db = Some h" "\<forall>v\<in>set (revision_rows db). rv_parent_id v \<noteq> i"
  shows "let db' = add_handle_row typ i h db in
    resolve_resource_ref typ h db' = Inr (handle_ref typ i h) \<and>
    resolve_resource_ref [] (typ @ '':'' @ h) db' = Inr (handle_ref typ i h) \<and>
    (\<forall>v. normalize_handle v = h \<longrightarrow> resolve_typed typ v db' = Inr (handle_ref typ i h)) \<and>
    (\<forall>t v x. resolve_typed t v db = Inr x \<longrightarrow> t \<noteq> typ \<or> normalize_handle v \<noteq> h \<longrightarrow> resolve_typed t v db' = Inr x)"
proof -
  note h = unique_handle_Some [OF assms(1)]
  have shape: "handle_shape h" "h \<noteq> []" "normalize_handle h = h" using h(3) by (simp_all add: base_handle_def)
  have "\<forall>t\<in>set resource_types. trim t = t" by code_simp
  then have t: "trim typ = typ" using h(1) by blast
  note new = resolve_typed_new [OF h(3,1,2)]
  have "resolve_resource_ref typ h (add_handle_row typ i h db) = Inr (handle_ref typ i h)"
    using shape t new [OF shape(3)] handle_no_colon [OF h(3)] by (simp add: resolve_resource_ref_def shape_fixed)
  moreover have "resolve_resource_ref [] (typ @ '':'' @ h) (add_handle_row typ i h db) = Inr (handle_ref typ i h)"
    unfolding resolve_resource_ref_def Let_def split_new_ref [OF h(3,1)] using new [OF shape(3)] by simp
  ultimately show ?thesis
    using new resolve_typed_add assms(2) by (metis (no_types, lifting))
qed

text \<open>
  A thousand names.  \<open>allocate_all\<close> creates resources one after the other with one desired text, as the store does for
  the artifacts of document revisions (\<open>document-revision\<close>), those of card revisions (\<open>card-revision\<close>) and the events
  of one type.
\<close>

fun allocate_all :: "64 word \<Rightarrow> string \<Rightarrow> string \<Rightarrow> (string \<times> string) list \<Rightarrow> handle_db \<Rightarrow> handle_db option" where
  "allocate_all rnd typ desired [] db = Some db"
| "allocate_all rnd typ desired ((i, seed) # rest) db =
     (case unique_handle rnd typ desired seed db of
        None \<Rightarrow> None
      | Some h \<Rightarrow> allocate_all rnd typ desired rest (add_handle_row typ i h db))"

lemma taken_add: "insert h (taken_handles typ db) \<subseteq> taken_handles typ (add_handle_row typ i h db)"
  by (auto simp: taken_handles_def handle_taken_def add_handle_row_def)

lemma allocate_all_counts:
  assumes "normalize_handle desired \<noteq> []" "allocate_all rnd typ desired ids db = Some db'"
  shows "length ids \<le> card (taken_handles typ db' \<inter> numbered_handle (normalize_handle desired) ` {..<max_handle_tries})"
proof -
  let ?names = "numbered_handle (normalize_handle desired) ` {..<max_handle_tries}"
  let ?n = "\<lambda>db. card (taken_handles typ db \<inter> ?names)"
  have "?n db + length ids \<le> ?n db'"
    using assms(2)
  proof (induction ids arbitrary: db)
    case (Cons p ids)
    obtain i seed where p: "p = (i, seed)" by force
    from Cons.prems obtain h where h: "unique_handle rnd typ desired seed db = Some h"
      and rest: "allocate_all rnd typ desired ids (add_handle_row typ i h db) = Some db'"
      by (auto simp: p split: option.splits)
    let ?db = "add_handle_row typ i h db"
    have "find (\<lambda>h. \<not> handle_taken typ h db) (map (numbered_handle (normalize_handle desired)) [0..<max_handle_tries]) = Some h"
      using h assms(1) by (simp add: unique_handle_find handle_candidate_def Let_def split: if_splits)
    then have "h \<in> set (map (numbered_handle (normalize_handle desired)) [0..<max_handle_tries])"
      by (metis find_Some_iff nth_mem)
    then have "h \<in> ?names" by auto
    then have "insert h (taken_handles typ db \<inter> ?names) \<subseteq> taken_handles typ ?db \<inter> ?names"
      using taken_add by fastforce
    then have "card (insert h (taken_handles typ db \<inter> ?names)) \<le> ?n ?db"
      by (intro card_mono) (simp_all add: finite_taken_handles)
    moreover have "h \<notin> taken_handles typ db" using unique_handle_Some(2) [OF h] by (simp add: taken_handles_def)
    ultimately have "Suc (?n db) \<le> ?n ?db" by (simp add: finite_taken_handles)
    with Cons.IH [OF rest] show ?case by simp
  qed simp
  then show ?thesis by simp
qed

text \<open>
  C36. The names of one text run out.  Creating more than a thousand resources of one type from one text that
  normalises to a handle fails: the store cannot create the 1001st document revision, card revision or event of one
  type of a workspace.
\<close>

theorem handles_run_out:
  assumes "normalize_handle desired \<noteq> []" "1000 < length ids"
  shows "allocate_all rnd typ desired ids db = None"
proof (rule ccontr)
  assume "allocate_all rnd typ desired ids db \<noteq> None"
  then obtain db' where "allocate_all rnd typ desired ids db = Some db'" by blast
  note allocate_all_counts [OF assms(1) this]
  also have "card (taken_handles typ db' \<inter> numbered_handle (normalize_handle desired) ` {..<max_handle_tries}) \<le>
      card (numbered_handle (normalize_handle desired) ` {..<max_handle_tries})"
    by (rule card_mono) simp_all
  also have "\<dots> \<le> 1000" using card_image_le [of "{..<max_handle_tries}"] by (simp add: max_handle_tries_def)
  finally show False using assms(2) by simp
qed

definition no_handles :: handle_db where
  "no_handles = \<lparr>handle_rows = [], handle_aliases = [], revision_rows = []\<rparr>"

lemma handles_run_out_witness:
  "allocate_all 0 ''artifact'' ''document-revision'' (replicate 1001 (''rev'', ''seed'')) no_handles = None"
proof -
  have "normalize_handle ''document-revision'' \<noteq> []" by code_simp
  then show ?thesis by (rule handles_run_out) (simp only: length_replicate)
qed

lemma no_handles_free: "typ \<in> set resource_types \<Longrightarrow>
   unique_handle rnd typ desired seed no_handles = Some (handle_candidate rnd desired seed)"
  by (rule unique_handle_first) (simp_all add: handle_taken_def no_handles_def)

lemma unique_handle_correct_witness:
  "\<exists>h. unique_handle 0 ''topic'' ''Road Map'' ''s'' no_handles = Some h \<and> normalize_handle h = h"
proof -
  have "taken_handles ''topic'' no_handles = {}" by (simp add: taken_handles_def handle_taken_def no_handles_def)
  then show ?thesis
    using unique_handle_correct [of "''topic''" no_handles 0 "''Road Map''" "''s''"] by (auto simp: resource_types_def)
qed

text \<open>The id \<open>Road_Map\<close> of one topic means another topic, once that one is called ``Road Map''.\<close>

definition one_topic :: handle_db where
  "one_topic = \<lparr>handle_rows = [\<lparr>hr_type = ''topic'', hr_id = ''Road_Map'', hr_handle = Some ''plan''\<rparr>], handle_aliases = [],
     revision_rows = []\<rparr>"

lemma allocated_handle_resolves_witness:
  "unique_handle 0 ''topic'' ''Road Map'' ''s'' one_topic = Some ''road-map'' \<and>
   resolve_typed ''topic'' ''Road_Map'' one_topic = Inr (handle_ref ''topic'' ''Road_Map'' ''plan'') \<and>
   resolve_typed ''topic'' ''Road_Map'' (add_handle_row ''topic'' ''t2'' ''road-map'' one_topic) =
     Inr (handle_ref ''topic'' ''t2'' ''road-map'') \<and>
   resolve_resource_ref [] ''topic:road-map'' (add_handle_row ''topic'' ''t2'' ''road-map'' one_topic) =
     Inr (handle_ref ''topic'' ''t2'' ''road-map'')"
proof -
  have c: "handle_candidate 0 ''Road Map'' ''s'' = ''road-map''" by code_simp
  have "\<not> handle_taken ''topic'' ''road-map'' one_topic" by code_simp
  then have u: "unique_handle 0 ''topic'' ''Road Map'' ''s'' one_topic = Some ''road-map''"
    using unique_handle_first [of "''topic''" 0 "''Road Map''" "''s''" one_topic] by (simp add: c resource_types_def)
  have "\<forall>v\<in>set (revision_rows one_topic). rv_parent_id v \<noteq> ''t2''" by (simp add: one_topic_def)
  note new = allocated_handle_resolves [OF u this, unfolded Let_def]
  have "normalize_handle ''Road_Map'' = ''road-map''" by code_simp
  moreover have "resolve_typed ''topic'' ''Road_Map'' one_topic = Inr (handle_ref ''topic'' ''Road_Map'' ''plan'')" by code_simp
  moreover have "''topic'' @ '':'' @ ''road-map'' = ''topic:road-map''" by simp
  ultimately show ?thesis using u conjunct1 [OF conjunct2 [OF new]] conjunct1 [OF conjunct2 [OF conjunct2 [OF new]]] by simp
qed

end
