(* ===== verification/Workspace.thy ===== *)
theory Workspace
  imports Handles BoardTables
begin

text \<open>
  The tables that documents share with the other resources, and what every write to them does
  (\<open>core/internal/primitives/resource_helpers.go\<close>, \<open>store.go\<close>): the edges of typed references, and events.
  Texts that the code only stores and gives back (provenance) stay texts; JSON lists of strings are lists.
\<close>

section \<open>Rows\<close>

record document_row =
  d_id :: string
  d_handle :: "string option"
  d_thread_id :: "string option"
  d_title :: "string option"
  d_summary :: string
  d_slug :: "string option"
  d_supersedes :: "string list"
  d_refs :: "string list"
  d_provenance :: string
  d_head_revision_id :: string
  d_head_revision_number :: nat
  d_created_at :: string
  d_created_by :: string
  d_updated_at :: string
  d_updated_by :: string
  d_trashed_at :: "string option"
  d_trashed_by :: "string option"
  d_trash_reason :: "string option"
  d_archived_at :: "string option"
  d_archived_by :: "string option"

record document_revision_row =
  dr_revision_id :: string
  dr_document_id :: string
  dr_number :: nat
  dr_prev_revision_id :: "string option"
  dr_artifact_id :: string
  dr_thread_id :: "string option"
  dr_refs :: "string list"
  dr_hash :: string
  dr_created_at :: string
  dr_created_by :: string

record doc_artifact =
  da_id :: string
  da_handle :: "string option"
  da_kind :: string
  da_thread_id :: "string option"
  da_created_at :: string
  da_created_by :: string
  da_content_type :: string
  da_content_hash :: string
  da_refs :: "string list"
  da_metadata :: "(string \<times> string) list"
  da_archived_at :: "string option"
  da_archived_by :: "string option"
  da_trashed_at :: "string option"
  da_trashed_by :: "string option"
  da_trash_reason :: "string option"

text \<open>A thread's body: the members its readers look at; the others are computed from the columns on every read.\<close>

record thread_body =
  tb_subject_ref :: string
  tb_topic_ref :: string
  tb_title :: string
  tb_current_summary :: "string option"
  tb_key_artifacts :: "string option"

record thread_row =
  th_id :: string
  th_handle :: "string option"
  th_kind :: string
  th_thread_id :: "string option"
  th_updated_at :: string
  th_updated_by :: string
  th_body :: thread_body
  th_provenance :: string

record event_row =
  ev_id :: string
  ev_handle :: "string option"
  ev_type :: string
  ev_ts :: string
  ev_actor_id :: string
  ev_thread_id :: string
  ev_refs :: "string list"
  ev_summary :: string
  ev_payload :: "(string \<times> string) list"
  ev_archived_at :: "string option"
  ev_archived_by :: "string option"
  ev_trashed_at :: "string option"
  ev_trashed_by :: "string option"
  ev_trash_reason :: "string option"

text \<open>The rows of topics, boards and cards count as names only.  A blob is found by its hash.\<close>

record ws_db =
  ws_documents :: "document_row list"
  ws_revisions :: "document_revision_row list"
  ws_artifacts :: "doc_artifact list"
  ws_threads :: "thread_row list"
  ws_events :: "event_row list"
  ws_edges :: "ref_edge list"
  ws_named :: "handle_row list"
  ws_aliases :: "handle_alias list"
  ws_card_revisions :: "revision_row list"
  ws_ledger :: blob_ledger
  ws_blobs :: "(string \<times> string) list"

abbreviation blob_of :: "ws_db \<Rightarrow> string \<Rightarrow> string option" where
  "blob_of db \<equiv> map_of (ws_blobs db)"

definition named_row :: "string \<Rightarrow> string \<Rightarrow> string option \<Rightarrow> handle_row" where
  "named_row typ i h = \<lparr>hr_type = typ, hr_id = i, hr_handle = h\<rparr>"

definition handle_view :: "ws_db \<Rightarrow> handle_db" where
  "handle_view db =
     \<lparr>handle_rows =
        map (\<lambda>d. named_row ''document'' (d_id d) (d_handle d)) (ws_documents db) @
        map (\<lambda>a. named_row ''artifact'' (da_id a) (da_handle a)) (ws_artifacts db) @
        map (\<lambda>t. named_row ''thread'' (th_id t) (th_handle t)) (ws_threads db) @
        map (\<lambda>e. named_row ''event'' (ev_id e) (ev_handle e)) (ws_events db) @ ws_named db,
      handle_aliases = ws_aliases db,
      revision_rows =
        map (\<lambda>r. \<lparr>rv_type = ''document_revision'', rv_id = dr_revision_id r, rv_parent_id = dr_document_id r,
                   rv_number = dr_number r\<rparr>) (ws_revisions db) @
        map (\<lambda>v. v\<lparr>rv_type := ''card_revision''\<rparr>) (ws_card_revisions db)\<rparr>"

datatype doc_error = InvalidDocument | DocNotFound | DocConflict | DocAlreadyTrashed | DocNotArchived | DocNotTrashed
  | DocQuota quota_violation | NoHandle | EdgeSourceRequired

text \<open>The seed of a fallback name is never blank here, so no random number is drawn.\<close>

definition allocate_handle :: "string \<Rightarrow> string \<Rightarrow> string \<Rightarrow> ws_db \<Rightarrow> doc_error + string" where
  "allocate_handle typ desired seed db =
     (case unique_handle 0 typ desired seed (handle_view db) of None \<Rightarrow> Inl NoHandle | Some h \<Rightarrow> Inr h)"

section \<open>Edges of references\<close>

type_synonym edge_target = "string \<times> string \<times> string"

definition ref_edge_type_ref :: string where "ref_edge_type_ref = ''ref''"
definition ref_edge_type_document_thread :: string where "ref_edge_type_document_thread = ''thread''"

fun typed_ref_targets :: "string \<Rightarrow> edge_target list \<Rightarrow> string list \<Rightarrow> edge_target list" where
  "typed_ref_targets e seen [] = []"
| "typed_ref_targets e seen (r # rs) =
     (case normalize_typed_ref r of
        None \<Rightarrow> typed_ref_targets e seen rs
      | Some (ty, i) \<Rightarrow>
          if (ty, i, e) \<in> set seen then typed_ref_targets e seen rs
          else (ty, i, e) # typed_ref_targets e ((ty, i, e) # seen) rs)"

definition typed_ref_edge_targets :: "string \<Rightarrow> string list \<Rightarrow> edge_target list" where
  "typed_ref_edge_targets e refs = typed_ref_targets e [] refs"

definition append_ref_edge_target :: "edge_target list \<Rightarrow> string \<Rightarrow> string \<Rightarrow> string \<Rightarrow> edge_target list" where
  "append_ref_edge_target targets e ty i =
     (if trim ty = [] \<or> trim i = [] then targets else targets @ [(trim ty, trim i, trim e)])"

text \<open>\<open>resolveResourceByTypedValue\<close>: the id and the public reference.\<close>

definition resolve_by_typed_value :: "string \<Rightarrow> string \<Rightarrow> ws_db \<Rightarrow> ref_error + string \<times> string" where
  "resolve_by_typed_value ty v db =
     (let answer = (\<lambda>r. bind_res r (\<lambda>x. Inr (rf_id x, rf_canonical x))); n = trim v
      in if ty = ''document_revision'' \<or> ty = ''card_revision'' then answer (resolve_revision ty v (handle_view db))
         else if ty \<notin> set resource_types then Inr (n, ty @ '':'' @ n)
         else if n = [] then Inl InvalidResourceRef
         else case resolve_by_handle ty n (handle_view db) of
             Inr x \<Rightarrow> Inr (rf_id x, rf_canonical x)
           | Inl _ \<Rightarrow> answer (resolve_by_id ty n (handle_view db)))"

fun edge_rows :: "ws_db \<Rightarrow> string \<Rightarrow> string \<Rightarrow> edge_target list \<Rightarrow> edge_target list \<Rightarrow> ref_edge list" where
  "edge_rows db st si seen [] = []"
| "edge_rows db st si seen ((ty0, i0, e0) # ts) =
     (let ty = trim ty0; i1 = trim i0; e = trim e0
      in if ty = [] \<or> i1 = [] \<or> e = [] then edge_rows db st si seen ts
         else let (i, pub) = (case resolve_by_typed_value ty i1 db of Inr p \<Rightarrow> p | Inl _ \<Rightarrow> (i1, ty @ '':'' @ i1))
              in if (ty, i, e) \<in> set seen then edge_rows db st si seen ts
                 else \<lparr>e_source_type = st, e_source_id = si, e_target_type = ty, e_target_id = i, e_edge_type = e,
                       e_metadata = [(''target_ref'', pub), (''resolved_target_id'', i)]\<rparr>
                      # edge_rows db st si ((ty, i, e) # seen) ts)"

definition replace_ref_edges :: "string \<Rightarrow> string \<Rightarrow> edge_target list \<Rightarrow> ws_db \<Rightarrow> doc_error + ws_db" where
  "replace_ref_edges st0 si0 targets db =
     (let st = trim st0; si = trim si0
      in if st = [] \<or> si = [] then Inl EdgeSourceRequired
         else Inr (db\<lparr>ws_edges := filter (\<lambda>e. \<not> (e_source_type e = st \<and> e_source_id e = si)) (ws_edges db) @
                               edge_rows db st si [] targets\<rparr>))"

section \<open>Events\<close>

record event_draft =
  ed_type :: string
  ed_thread_id :: string
  ed_refs :: "string list"
  ed_summary :: string
  ed_payload :: "(string \<times> string) list"

text \<open>\<open>prepareEventForInsert\<close> and \<open>insertPreparedEvent\<close>: the stored row.\<close>

definition insert_event :: "string \<Rightarrow> string \<Rightarrow> string \<Rightarrow> event_draft \<Rightarrow> ws_db \<Rightarrow> doc_error + ws_db" where
  "insert_event actorID eventID ts ev db =
     bind_res (allocate_handle ''event'' (ed_type ev) (''event-'' @ eventID) db) (\<lambda>h.
     if eventID \<in> ev_id ` set (ws_events db) then Inl DocConflict
     else replace_ref_edges ''event'' eventID (typed_ref_edge_targets ref_edge_type_ref (ed_refs ev))
       (db\<lparr>ws_events := ws_events db @
          [\<lparr>ev_id = eventID, ev_handle = Some h, ev_type = ed_type ev, ev_ts = ts, ev_actor_id = actorID,
            ev_thread_id = trim (ed_thread_id ev), ev_refs = ed_refs ev, ev_summary = ed_summary ev,
            ev_payload = ed_payload ev, ev_archived_at = None, ev_archived_by = None, ev_trashed_at = None,
            ev_trashed_by = None, ev_trash_reason = None\<rparr>]\<rparr>))"

text \<open>\<open>uniqueStrings\<close> keeps the first of equal texts, \<open>sortStringsStable\<close> is an insertion sort.\<close>

definition unique_strings :: "string list \<Rightarrow> string list" where
  "unique_strings xs = rev (remdups (rev xs))"

definition sort_strings_stable :: "string list \<Rightarrow> string list" where
  "sort_strings_stable xs = sort xs"

section \<open>What edges and events leave alone\<close>

lemma replace_ref_edges_Inr:
  "replace_ref_edges st si ts db = Inr db' \<Longrightarrow> \<exists>es. db' = db\<lparr>ws_edges := es\<rparr>"
  by (auto simp: replace_ref_edges_def Let_def split: if_splits)

lemma insert_event_Inr:
  "insert_event actorID i ts ev db = Inr db' \<Longrightarrow>
   \<exists>e es. db' = db\<lparr>ws_events := ws_events db @ [e], ws_edges := es\<rparr> \<and> ev_type e = ed_type ev \<and> ev_id e = i"
  by (auto simp: insert_event_def bind_res_Inr_iff split: if_splits dest!: replace_ref_edges_Inr)

end
