(* ===== verification/Documents.thy ===== *)
theory Documents
  imports Workspace
begin

text \<open>
  \<open>core/internal/primitives/docs_store.go\<close>: documents.  A document has a chain of revisions, each an artifact with its
  content in the blob store, a backing thread, and a lifecycle.  An operation reads the database, then writes it in one
  transaction; where the code reads outside the transaction the model takes two databases, \<open>db0\<close> that was read and \<open>db\<close>
  that is written, so that other operations can come in between.
\<close>

section \<open>Parameters and inputs\<close>

text \<open>SHA-256 in hexadecimal, the quota, and the measured size of the database files.\<close>

record doc_env =
  de_hash :: "string \<Rightarrow> string"
  de_quota :: workspace_quota
  de_db_bytes :: int

text \<open>What a call draws: \<open>uuid.NewString()\<close> and the clock.\<close>

record doc_draw =
  dw_document_id :: string
  dw_artifact_id :: string
  dw_event_id :: string
  dw_now :: string
  dw_event_ts :: string

datatype list_field = Absent | NotStrings | Strings "string list"

record document_input =
  di_document_id :: "string option"
  di_id :: "string option"
  di_thread_id :: "string option"
  di_title :: "string option"
  di_slug :: "string option"
  di_summary :: "string option"
  di_has_labels :: bool
  di_supersedes :: list_field
  di_has_status :: bool
  di_has_state :: bool
  di_refs :: list_field
  di_provenance :: "string option"

record document_patch =
  dp_has_id :: bool
  dp_thread_id :: "string option"
  dp_title :: "string option"
  dp_summary :: "string option"
  dp_slug :: "string option"
  dp_has_status :: bool
  dp_has_labels :: bool
  dp_supersedes :: list_field
  dp_refs :: list_field
  dp_provenance :: "string option"

definition validate_document_id :: "string \<Rightarrow> bool" where
  "validate_document_id raw \<longleftrightarrow>
     (let i = trim raw
      in i \<noteq> [] \<and> \<not> has_prefix i ''/'' \<and> i \<noteq> ''.'' \<and> i \<noteq> ''..'' \<and> CHR ''/'' \<notin> set i \<and>
         \<not> contains_str [CHR 0x5C, CHR 0x5C] i)"

definition normalize_document_content_type :: "string \<Rightarrow> doc_error + string" where
  "normalize_document_content_type raw =
     (let c = trim raw in if c = ''text'' \<or> c = ''structured'' \<or> c = ''binary'' then Inr c else Inl InvalidDocument)"

definition optional_string :: "string option \<Rightarrow> string" where
  "optional_string x = trim (null_text x)"

definition optional_list :: "list_field \<Rightarrow> doc_error + string list" where
  "optional_list f = (case f of Absent \<Rightarrow> Inr [] | NotStrings \<Rightarrow> Inl InvalidDocument | Strings xs \<Rightarrow> Inr xs)"

definition inferred_provenance :: string where
  "inferred_provenance = ''{\"sources\":[\"inferred\"]}''"

definition compute_revision_hash :: "(string \<Rightarrow> string) \<Rightarrow> string \<Rightarrow> string \<Rightarrow> string \<Rightarrow> nat \<Rightarrow> string \<Rightarrow> string \<Rightarrow> string" where
  "compute_revision_hash H contentHash prevHash documentID n createdAt createdBy =
     H (''content_hash:'' @ contentHash @ [CHR 0x0A] @ ''prev_revision_hash:'' @ prevHash @ [CHR 0x0A] @
        ''document_id:'' @ documentID @ [CHR 0x0A] @ ''revision_number:'' @ dec_digits n @ [CHR 0x0A] @
        ''created_at:'' @ createdAt @ [CHR 0x0A] @ ''created_by:'' @ createdBy @ [CHR 0x0A])"

section \<open>The backing thread\<close>

definition normalize_document_backing_thread_id :: "string \<Rightarrow> string \<Rightarrow> string" where
  "normalize_document_backing_thread_id documentID threadID = (let t = trim threadID in if t \<noteq> [] then t else trim documentID)"

definition document_backing_thread_title :: "string \<Rightarrow> string \<Rightarrow> string" where
  "document_backing_thread_title documentID title =
     (if trim title \<noteq> [] then trim title
      else if trim documentID \<noteq> [] then ''Document '' @ trim documentID else ''Document'')"

definition build_document_backing_thread_body :: "string \<Rightarrow> string \<Rightarrow> thread_body" where
  "build_document_backing_thread_body documentID title =
     \<lparr>tb_subject_ref = ''document:'' @ trim documentID, tb_topic_ref = [],
      tb_title = document_backing_thread_title documentID title, tb_current_summary = None, tb_key_artifacts = None\<rparr>"

text \<open>\<open>ToThreadMap\<close>: where an old body names a topic, that is the subject.\<close>

definition to_thread_body :: "thread_body \<Rightarrow> thread_body" where
  "to_thread_body b =
     (let old = trim (tb_topic_ref b)
      in b\<lparr>tb_subject_ref := (if trim (tb_subject_ref b) = [] \<and> old \<noteq> [] then old else tb_subject_ref b), tb_topic_ref := []\<rparr>)"

definition thread_subject_ref :: "thread_body \<Rightarrow> string" where
  "thread_subject_ref b = trim (tb_subject_ref b)"

definition kept_provenance :: "string \<Rightarrow> string" where
  "kept_provenance p = (if trim p = [] \<or> trim p = ''{}'' then inferred_provenance else p)"

definition find_thread :: "string \<Rightarrow> ws_db \<Rightarrow> thread_row option" where
  "find_thread i db = find (\<lambda>t. th_id t = i) (ws_threads db)"

definition update_thread :: "string \<Rightarrow> (thread_row \<Rightarrow> thread_row) \<Rightarrow> ws_db \<Rightarrow> ws_db" where
  "update_thread i f db = db\<lparr>ws_threads := map (\<lambda>t. if th_id t = i then f t else t) (ws_threads db)\<rparr>"

definition ensure_document_backing_thread ::
  "string \<Rightarrow> string \<Rightarrow> string \<Rightarrow> string \<Rightarrow> string \<Rightarrow> ws_db \<Rightarrow> doc_error + string \<times> ws_db" where
  "ensure_document_backing_thread actorID documentID threadID0 title updatedAt db =
     (let threadID = normalize_document_backing_thread_id documentID threadID0;
          subject = ''document:'' @ trim documentID;
          edges = typed_ref_edge_targets ref_edge_type_ref [subject];
          body = build_document_backing_thread_body documentID title
      in if threadID = [] then Inl InvalidDocument
         else case find_thread threadID db of
           None \<Rightarrow>
             bind_res (allocate_handle ''thread'' title (''thread-'' @ threadID) db) (\<lambda>h.
             bind_res (replace_ref_edges ''thread'' threadID edges
               (db\<lparr>ws_threads := ws_threads db @
                  [\<lparr>th_id = threadID, th_handle = Some h, th_kind = ''thread'', th_thread_id = Some threadID,
                    th_updated_at = updatedAt, th_updated_by = actorID, th_body = body,
                    th_provenance = inferred_provenance\<rparr>]\<rparr>)) (\<lambda>db1.
             Inr (threadID, db1)))
         | Some row \<Rightarrow>
             let bound = thread_subject_ref (to_thread_body (th_body row))
             in if bound \<noteq> [] \<and> bound \<noteq> subject then Inl InvalidDocument
             else
               let body1 = body\<lparr>tb_current_summary := tb_current_summary (th_body row),
                                tb_key_artifacts := tb_key_artifacts (th_body row)\<rparr>
               in bind_res (replace_ref_edges ''thread'' threadID edges
                    (update_thread threadID (\<lambda>t. t\<lparr>th_thread_id := Some threadID, th_updated_at := updatedAt,
                        th_updated_by := actorID, th_body := body1, th_provenance := kept_provenance (th_provenance row)\<rparr>) db))
                    (\<lambda>db1. Inr (threadID, db1)))"

definition clear_document_backing_thread_subject :: "string \<Rightarrow> string \<Rightarrow> string \<Rightarrow> string \<Rightarrow> ws_db \<Rightarrow> doc_error + ws_db" where
  "clear_document_backing_thread_subject actorID threadID0 documentID updatedAt db =
     (let threadID = trim threadID0
      in if threadID = [] then Inr db
         else case find_thread threadID db of
           None \<Rightarrow> Inr db
         | Some row \<Rightarrow>
             if thread_subject_ref (to_thread_body (th_body row)) \<noteq> ''document:'' @ trim documentID then Inr db
             else replace_ref_edges ''thread'' threadID []
               (update_thread threadID (\<lambda>t. t\<lparr>th_updated_at := updatedAt, th_updated_by := actorID,
                  th_body := (to_thread_body (th_body row))\<lparr>tb_subject_ref := []\<rparr>,
                  th_provenance := kept_provenance (th_provenance row)\<rparr>) db))"

section \<open>Reading\<close>

definition find_document :: "string \<Rightarrow> ws_db \<Rightarrow> document_row option" where
  "find_document i db = find (\<lambda>d. d_id d = i) (ws_documents db)"

definition load_document_row :: "string \<Rightarrow> ws_db \<Rightarrow> doc_error + document_row" where
  "load_document_row documentID db =
     bind_res (guard_res (validate_document_id documentID) InvalidDocument) (\<lambda>_.
     case find_document (trim documentID) db of None \<Rightarrow> Inl DocNotFound | Some d \<Rightarrow> Inr d)"

definition find_artifact :: "string \<Rightarrow> ws_db \<Rightarrow> doc_artifact option" where
  "find_artifact i db = find (\<lambda>a. da_id a = i) (ws_artifacts db)"

type_synonym loaded_revision = "document_revision_row \<times> doc_artifact \<times> string option"

definition load_document_revision :: "string \<Rightarrow> string \<Rightarrow> bool \<Rightarrow> ws_db \<Rightarrow> doc_error + loaded_revision" where
  "load_document_revision documentID revisionID includeContent db =
     bind_res (guard_res (validate_document_id documentID \<and> trim revisionID \<noteq> []) InvalidDocument) (\<lambda>_.
     case find (\<lambda>r. dr_document_id r = trim documentID \<and> dr_revision_id r = trim revisionID \<and> find_artifact (dr_artifact_id r) db \<noteq> None)
            (ws_revisions db) of
       None \<Rightarrow> Inl DocNotFound
     | Some r \<Rightarrow>
         let a = the (find_artifact (dr_artifact_id r) db)
         in if \<not> includeContent then Inr (r, a, None)
            else case blob_of db (da_content_hash a) of None \<Rightarrow> Inl DocNotFound | Some c \<Rightarrow> Inr (r, a, Some c))"

definition get_document :: "string \<Rightarrow> ws_db \<Rightarrow> doc_error + document_row \<times> loaded_revision" where
  "get_document documentID db =
     bind_res (load_document_row documentID db) (\<lambda>d.
     bind_res (load_document_revision documentID (d_head_revision_id d) True db) (\<lambda>r.
     Inr (d, r)))"

definition get_document_revision_by_id :: "string \<Rightarrow> ws_db \<Rightarrow> doc_error + loaded_revision" where
  "get_document_revision_by_id revisionID db =
     (if trim revisionID = [] then Inl InvalidDocument
      else case find (\<lambda>r. dr_revision_id r = trim revisionID) (ws_revisions db) of
             None \<Rightarrow> Inl DocNotFound
           | Some r \<Rightarrow> load_document_revision (dr_document_id r) (trim revisionID) False db)"

fun load_all_revisions :: "string \<Rightarrow> ws_db \<Rightarrow> document_revision_row list \<Rightarrow> doc_error + loaded_revision list" where
  "load_all_revisions documentID db [] = Inr []"
| "load_all_revisions documentID db (r # rs) =
     bind_res (load_document_revision documentID (dr_revision_id r) False db) (\<lambda>x.
     bind_res (load_all_revisions documentID db rs) (\<lambda>xs. Inr (x # xs)))"

definition list_document_history :: "string \<Rightarrow> ws_db \<Rightarrow> doc_error + loaded_revision list" where
  "list_document_history documentID db =
     bind_res (load_document_row documentID db) (\<lambda>_.
     load_all_revisions documentID db
       (sort_key dr_number (filter (\<lambda>r. dr_document_id r = documentID) (ws_revisions db))))"

text \<open>The state and the public references of \<open>documentRow.toMap\<close>.\<close>

definition document_state :: "document_row \<Rightarrow> string" where
  "document_state d = canonical_lifecycle_state (d_archived_at d) (d_trashed_at d)"

definition document_handle :: "document_row \<Rightarrow> string" where
  "document_handle d = first_non_empty [null_text (d_handle d), d_id d]"

definition head_revision_ref :: "document_row \<Rightarrow> string" where
  "head_revision_ref d = ''document_revision:'' @ revision_handle (document_handle d) (d_head_revision_number d)"

section \<open>Blobs and quota\<close>

definition blob_stat :: "ws_db \<Rightarrow> string \<Rightarrow> int option" where
  "blob_stat db h = map_option (\<lambda>c. int (length c)) (blob_of db h)"

definition ws_hashes :: "ws_db \<Rightarrow> string option list" where
  "ws_hashes db = map (\<lambda>a. Some (da_content_hash a)) (ws_artifacts db)"

definition ws_counts :: "ws_db \<Rightarrow> table_counts" where
  "ws_counts db =
     \<lparr>n_artifacts = int (length (ws_artifacts db)), n_documents = int (length (ws_documents db)),
      n_doc_revisions = int (length (ws_revisions db)), n_card_revisions = int (length (ws_card_revisions db)),
      n_events = int (length (ws_events db))\<rparr>"

text \<open>The plan for a content and the quota check, on the database as it is read.\<close>

definition plan_content :: "doc_env \<Rightarrow> string \<Rightarrow> write_delta \<Rightarrow> ws_db \<Rightarrow> doc_error + write_plan" where
  "plan_content env content delta db =
     (let n = int (length content);
          (p, L) = prepare_blob_ledger_write_plan (blob_stat db) (ws_hashes db) (de_hash env content) n (ws_ledger db);
          (u, _) = current_workspace_usage (blob_stat db) (ws_hashes db) (de_db_bytes env) (ws_counts db)
                     (max_blob_bytes (de_quota env) > 0) L
      in case check_workspace_write_quota (de_quota env) u n delta p of
           Inl v \<Rightarrow> Inl (DocQuota v)
         | Inr _ \<Rightarrow> Inr p)"

text \<open>
  At the end of the transaction the ledger takes the plan, and the staged content is put into the blob store.  The
  totals were there before the transaction began: the plan saw to it.
\<close>

definition store_content :: "doc_env \<Rightarrow> string \<Rightarrow> write_plan \<Rightarrow> ws_db \<Rightarrow> ws_db" where
  "store_content env content p db =
     db\<lparr>ws_ledger := apply_blob_ledger_write_plan p (ensure_ledger_initialized (blob_stat db) (ws_hashes db) (ws_ledger db)),
        ws_blobs := (de_hash env content, content) # ws_blobs db\<rparr>"

section \<open>Writing rows\<close>

definition insert_artifact :: "doc_artifact \<Rightarrow> ws_db \<Rightarrow> doc_error + ws_db" where
  "insert_artifact a db =
     (if da_id a \<in> da_id ` set (ws_artifacts db) then Inl DocConflict
      else Inr (db\<lparr>ws_artifacts := ws_artifacts db @ [a]\<rparr>))"

definition insert_document :: "document_row \<Rightarrow> ws_db \<Rightarrow> doc_error + ws_db" where
  "insert_document d db =
     (if d_id d \<in> d_id ` set (ws_documents db) then Inl DocConflict
      else Inr (db\<lparr>ws_documents := ws_documents db @ [d]\<rparr>))"

text \<open>The primary key is the revision id; a document has one revision of each number.\<close>

definition insert_revision :: "document_revision_row \<Rightarrow> ws_db \<Rightarrow> doc_error + ws_db" where
  "insert_revision r db =
     (if dr_revision_id r \<in> dr_revision_id ` set (ws_revisions db) \<or>
         list_ex (\<lambda>x. dr_document_id x = dr_document_id r \<and> dr_number x = dr_number r) (ws_revisions db)
      then Inl DocConflict
      else Inr (db\<lparr>ws_revisions := ws_revisions db @ [r]\<rparr>))"

definition update_document_rows :: "(document_row \<Rightarrow> bool) \<Rightarrow> (document_row \<Rightarrow> document_row) \<Rightarrow> ws_db \<Rightarrow> ws_db" where
  "update_document_rows P f db = db\<lparr>ws_documents := map (\<lambda>d. if P d then f d else d) (ws_documents db)\<rparr>"

definition document_resource_ref_edge_targets :: "string \<Rightarrow> string list \<Rightarrow> edge_target list" where
  "document_resource_ref_edge_targets threadID refs =
     append_ref_edge_target [] ref_edge_type_document_thread ''thread'' (trim threadID) @
     typed_ref_edge_targets ref_edge_type_ref refs"

definition revision_refs :: "string list \<Rightarrow> string \<Rightarrow> string list" where
  "revision_refs refs threadID =
     sort_strings_stable (unique_strings (refs @ (if threadID \<noteq> [] then [''thread:'' @ threadID] else [])))"

definition document_event_summary :: "string \<Rightarrow> string" where
  "document_event_summary ty =
     (if ty = ''document_created'' then ''Document created'' else if ty = ''document_revised'' then ''Document revised''
      else if ty = ''document_trashed'' then ''Document trashed'' else if ty = ''document_restored'' then ''Document restored''
      else ''Document lifecycle event'')"

definition build_document_lifecycle_event ::
  "string \<Rightarrow> string \<Rightarrow> string \<Rightarrow> string \<Rightarrow> string \<Rightarrow> nat \<Rightarrow> string \<Rightarrow> (string \<times> string) list \<Rightarrow> event_draft" where
  "build_document_lifecycle_event ty threadID documentID revisionID artifactID n title extra =
     \<lparr>ed_type = ty, ed_thread_id = threadID,
      ed_refs = sort_strings_stable (unique_strings ([''document:'' @ documentID, ''document_revision:'' @ revisionID] @
        (if threadID \<noteq> [] then [''thread:'' @ threadID] else []) @ (if artifactID \<noteq> [] then [''artifact:'' @ artifactID] else []))),
      ed_summary = document_event_summary ty @ '': '' @ (if trim title \<noteq> [] then trim title else documentID),
      ed_payload = [(''document_id'', documentID), (''revision_id'', revisionID), (''artifact_id'', artifactID),
        (''revision_number'', dec_digits n)] @ extra\<rparr>"

text \<open>The artifact of a revision; a member whose value is \<open>null\<close> is left out of the metadata,
  and its \<open>refs\<close> are in the column of that name.\<close>

definition revision_artifact ::
  "string \<Rightarrow> string \<Rightarrow> string \<Rightarrow> string \<Rightarrow> string \<Rightarrow> string \<Rightarrow> string \<Rightarrow> string \<Rightarrow> string list \<Rightarrow> string \<Rightarrow> nat \<Rightarrow>
     string option \<Rightarrow> string \<Rightarrow> string option \<Rightarrow> doc_artifact" where
  "revision_artifact i handle threadID now actorID contentType contentHash documentID refs revisionID n prev title prov =
     \<lparr>da_id = i, da_handle = Some handle, da_kind = ''doc'', da_thread_id = nullable_string threadID, da_created_at = now,
      da_created_by = actorID, da_content_type = contentType, da_content_hash = contentHash, da_refs = refs,
      da_metadata = [(''id'', i), (''kind'', ''doc''), (''created_at'', now), (''created_by'', actorID),
        (''content_type'', contentType), (''content_hash'', contentHash), (''document_id'', documentID),
        (''revision_id'', revisionID), (''revision_number'', dec_digits n)] @
        (case prev of None \<Rightarrow> [] | Some p \<Rightarrow> [(''prev_revision_id'', p)]) @
        (if title \<noteq> [] then [(''summary'', title)] else []) @
        (case prov of None \<Rightarrow> [] | Some p \<Rightarrow> [(''provenance'', p)]),
      da_archived_at = None, da_archived_by = None, da_trashed_at = None, da_trashed_by = None, da_trash_reason = None\<rparr>"

section \<open>Creating a document\<close>

text \<open>The part before the transaction: the checked input and the row to be.\<close>

definition prepare_new_document ::
  "doc_env \<Rightarrow> string \<Rightarrow> document_input \<Rightarrow> string list \<Rightarrow> doc_draw \<Rightarrow> doc_error + document_row" where
  "prepare_new_document env actorID inp refs dw =
     (let i0 = optional_string (di_document_id inp); i1 = (if i0 \<noteq> [] then i0 else optional_string (di_id inp));
          documentID = (if i1 \<noteq> [] then i1 else dw_document_id dw);
          threadID = normalize_document_backing_thread_id documentID (optional_string (di_thread_id inp));
          title = optional_string (di_title inp); slug = optional_string (di_slug inp)
      in if \<not> validate_document_id documentID then Inl InvalidDocument
         else if di_has_labels inp then Inl InvalidDocument
         else bind_res (optional_list (di_supersedes inp)) (\<lambda>supersedes.
           if di_has_status inp \<or> di_has_state inp then Inl InvalidDocument
           else bind_res (case di_refs inp of
                  Absent \<Rightarrow> Inr (revision_refs refs threadID)
                | f \<Rightarrow> bind_res (optional_list f) (\<lambda>rs. Inr (sort_strings_stable (unique_strings rs)))) (\<lambda>docRefs.
           Inr \<lparr>d_id = documentID, d_handle = None, d_thread_id = nullable_string threadID, d_title = nullable_string title,
                d_summary = optional_string (di_summary inp), d_slug = nullable_string slug, d_supersedes = supersedes,
                d_refs = docRefs, d_provenance = (case di_provenance inp of None \<Rightarrow> inferred_provenance | Some p \<Rightarrow> p),
                d_head_revision_id = dw_artifact_id dw, d_head_revision_number = 1, d_created_at = dw_now dw,
                d_created_by = actorID, d_updated_at = dw_now dw, d_updated_by = actorID, d_trashed_at = None,
                d_trashed_by = None, d_trash_reason = None, d_archived_at = None, d_archived_by = None\<rparr>)))"

definition first_revision :: "doc_env \<Rightarrow> string \<Rightarrow> document_row \<Rightarrow> string list \<Rightarrow> string \<Rightarrow> doc_draw \<Rightarrow> document_revision_row" where
  "first_revision env actorID d refs content dw =
     \<lparr>dr_revision_id = dw_artifact_id dw, dr_document_id = d_id d, dr_number = 1, dr_prev_revision_id = None,
      dr_artifact_id = dw_artifact_id dw, dr_thread_id = d_thread_id d, dr_refs = refs,
      dr_hash = compute_revision_hash (de_hash env) (de_hash env content) [] (d_id d) 1 (dw_now dw) actorID,
      dr_created_at = dw_now dw, dr_created_by = actorID\<rparr>"

definition create_document ::
  "doc_env \<Rightarrow> string \<Rightarrow> document_input \<Rightarrow> string \<Rightarrow> string \<Rightarrow> string list \<Rightarrow> doc_draw \<Rightarrow> ws_db \<Rightarrow> ws_db \<Rightarrow>
     doc_error + document_row \<times> document_revision_row \<times> ws_db" where
  "create_document env actorID0 inp content contentType0 refs dw db0 db =
     (let actorID = trim actorID0; now = dw_now dw; H = de_hash env
      in if actorID = [] then Inl InvalidDocument
         else
     bind_res (normalize_document_content_type contentType0) (\<lambda>contentType.
     bind_res (prepare_new_document env actorID inp refs dw) (\<lambda>d.
     bind_res (plan_content env content
        \<lparr>delta_artifacts = 1, delta_documents = 1, delta_revisions = 1, delta_db_bytes = 0\<rparr> db0) (\<lambda>plan.
     let revRefs = revision_refs refs (null_text (d_thread_id d)); hash = H content; artifactID = dw_artifact_id dw;
         revisionID = artifactID; title = null_text (d_title d); rev = first_revision env actorID d revRefs content dw
     in bind_res (ensure_document_backing_thread actorID (d_id d) (null_text (d_thread_id d)) title now db) (\<lambda>(threadID, db1).
        bind_res (allocate_handle ''artifact'' ''document-revision'' (''artifact-'' @ artifactID) db1) (\<lambda>artHandle.
        bind_res (allocate_handle ''document'' (first_non_empty [null_text (d_slug d), title]) (''document-'' @ d_id d) db1) (\<lambda>docHandle.
        bind_res (insert_artifact (revision_artifact artifactID artHandle threadID now actorID contentType hash (d_id d)
                    revRefs revisionID 1 None title None) db1) (\<lambda>db2.
        bind_res (replace_ref_edges ''artifact'' artifactID (typed_ref_edge_targets ref_edge_type_ref revRefs) db2) (\<lambda>db3.
        let row = d\<lparr>d_handle := Some docHandle\<rparr> in
        bind_res (insert_document row db3) (\<lambda>db4.
        bind_res (replace_ref_edges ''document'' (d_id d) (document_resource_ref_edge_targets threadID (d_refs d)) db4) (\<lambda>db5.
        bind_res (insert_revision rev db5) (\<lambda>db6.
        bind_res (replace_ref_edges ''document_revision'' revisionID (typed_ref_edge_targets ref_edge_type_ref revRefs) db6) (\<lambda>db7.
        bind_res (insert_event actorID (dw_event_id dw) (dw_event_ts dw)
          (build_document_lifecycle_event ''document_created'' threadID (d_id d) revisionID artifactID 1 title []) db7) (\<lambda>db8.
        Inr (row, rev, store_content env content plan db8)))))))))))))))"

section \<open>Changing a document\<close>

definition patch_document :: "string \<Rightarrow> string \<Rightarrow> string \<Rightarrow> string option \<Rightarrow> string \<Rightarrow> ws_db \<Rightarrow> ws_db \<Rightarrow>
     doc_error + (document_row \<times> loaded_revision) \<times> ws_db" where
  "patch_document actorID0 documentID0 summary ifUpdatedAt now db0 db =
     (let actorID = trim actorID0; documentID = trim documentID0
      in if actorID = [] \<or> \<not> validate_document_id documentID0 then Inl InvalidDocument
         else
     bind_res (load_document_row documentID db0) (\<lambda>doc.
     if (case ifUpdatedAt of None \<Rightarrow> False | Some u \<Rightarrow> trim (d_updated_at doc) \<noteq> trim u) then Inl DocConflict
     else
       let here = (\<lambda>d. d_id d = documentID \<and> d_updated_at d = d_updated_at doc)
       in if \<not> list_ex here (ws_documents db) then Inl DocConflict
          else let db' = update_document_rows here
                 (\<lambda>d. d\<lparr>d_summary := trim summary, d_updated_at := now, d_updated_by := actorID\<rparr>) db
               in bind_res (get_document documentID db') (\<lambda>x. Inr (x, db'))))"

text \<open>The columns of the next row, from the stored row and the patch.\<close>

definition patched_text :: "string option \<Rightarrow> string \<Rightarrow> string" where
  "patched_text p old = (case p of None \<Rightarrow> old | Some v \<Rightarrow> trim v)"

definition patched_list :: "(string list \<Rightarrow> string list) \<Rightarrow> list_field \<Rightarrow> string list \<Rightarrow> doc_error + string list" where
  "patched_list f p old = (case p of Absent \<Rightarrow> Inr old | NotStrings \<Rightarrow> Inl InvalidDocument | Strings xs \<Rightarrow> Inr (f xs))"

definition apply_document_patch :: "document_patch \<Rightarrow> document_row \<Rightarrow> doc_error + document_row" where
  "apply_document_patch p d =
     (if dp_has_id p then Inl InvalidDocument
      else if (case dp_thread_id p of None \<Rightarrow> False | Some t \<Rightarrow> trim t = []) then Inl InvalidDocument
      else if dp_has_status p \<or> dp_has_labels p then Inl InvalidDocument
      else bind_res (patched_list id (dp_supersedes p) (d_supersedes d)) (\<lambda>supersedes.
           bind_res (patched_list (\<lambda>xs. sort_strings_stable (unique_strings xs)) (dp_refs p) (d_refs d)) (\<lambda>refs.
           Inr (d\<lparr>d_thread_id := Some (patched_text (dp_thread_id p) (trim (null_text (d_thread_id d)))),
                d_title := Some (patched_text (dp_title p) (trim (null_text (d_title d)))),
                d_summary := patched_text (dp_summary p) (trim (d_summary d)),
                d_slug := Some (patched_text (dp_slug p) (trim (null_text (d_slug d)))),
                d_supersedes := supersedes, d_refs := refs,
                d_provenance := (case dp_provenance p of Some v \<Rightarrow> v
                   | None \<Rightarrow> (if trim (d_provenance d) = [] then inferred_provenance else trim (d_provenance d)))\<rparr>))))"

definition no_patch :: document_patch where
  "no_patch = \<lparr>dp_has_id = False, dp_thread_id = None, dp_title = None, dp_summary = None, dp_slug = None,
     dp_has_status = False, dp_has_labels = False, dp_supersedes = Absent, dp_refs = Absent, dp_provenance = None\<rparr>"

definition drop_prefix :: "string \<Rightarrow> string \<Rightarrow> string" where
  "drop_prefix p s = (if has_prefix s p then drop (length p) s else s)"

text \<open>\<open>if_base_revision\<close>: a revision's reference, its handle or its id.\<close>

definition resolve_base_revision :: "string \<Rightarrow> ws_db \<Rightarrow> string" where
  "resolve_base_revision base db =
     (case resolve_revision ''document_revision'' (drop_prefix ''document_revision:'' base) (handle_view db) of
        Inr x \<Rightarrow> rf_id x | Inl _ \<Rightarrow> base)"

definition previous_revision_hash :: "string \<Rightarrow> string \<Rightarrow> ws_db \<Rightarrow> string" where
  "previous_revision_hash documentID revisionID db =
     (case find (\<lambda>r. dr_document_id r = documentID \<and> dr_revision_id r = revisionID) (ws_revisions db) of
        None \<Rightarrow> [] | Some r \<Rightarrow> dr_hash r)"

text \<open>
  The transaction of \<open>UpdateDocument\<close>: \<open>old\<close> is the row that was read, \<open>d\<close> the row to be, \<open>base\<close> the revision the caller
  builds on.  The row it answers with is built anew, without the lifecycle columns.
\<close>

definition next_revision ::
  "doc_env \<Rightarrow> string \<Rightarrow> string \<Rightarrow> document_row \<Rightarrow> string \<Rightarrow> string list \<Rightarrow> string \<Rightarrow> string \<Rightarrow> doc_draw \<Rightarrow>
     document_revision_row" where
  "next_revision env actorID documentID old threadID refs prevHash content dw =
     \<lparr>dr_revision_id = dw_artifact_id dw, dr_document_id = documentID, dr_number = d_head_revision_number old + 1,
      dr_prev_revision_id = Some (d_head_revision_id old), dr_artifact_id = dw_artifact_id dw,
      dr_thread_id = nullable_string threadID, dr_refs = refs,
      dr_hash = compute_revision_hash (de_hash env) (de_hash env content) prevHash documentID (d_head_revision_number old + 1)
        (dw_now dw) actorID,
      dr_created_at = dw_now dw, dr_created_by = actorID\<rparr>"

definition write_document_head :: "string \<Rightarrow> string \<Rightarrow> document_row \<Rightarrow> document_row \<Rightarrow> doc_draw \<Rightarrow> document_row \<Rightarrow> document_row" where
  "write_document_head actorID threadID old d dw x =
     x\<lparr>d_thread_id := nullable_string threadID, d_title := nullable_string (null_text (d_title d)), d_summary := d_summary d,
       d_slug := nullable_string (null_text (d_slug d)), d_supersedes := d_supersedes d, d_refs := d_refs d,
       d_provenance := d_provenance d, d_head_revision_id := dw_artifact_id dw,
       d_head_revision_number := d_head_revision_number old + 1, d_updated_at := dw_now dw, d_updated_by := actorID\<rparr>"

definition commit_revision ::
  "doc_env \<Rightarrow> string \<Rightarrow> string \<Rightarrow> document_row \<Rightarrow> document_row \<Rightarrow> string \<Rightarrow> string \<Rightarrow> string \<Rightarrow> string \<Rightarrow> string list \<Rightarrow>
     string option \<Rightarrow> write_plan \<Rightarrow> doc_draw \<Rightarrow> ws_db \<Rightarrow> doc_error + document_row \<times> document_revision_row \<times> ws_db" where
  "commit_revision env actorID documentID old d base prevHash content contentType revRefs prov plan dw db =
     (let now = dw_now dw; H = de_hash env; hash = H content; artifactID = dw_artifact_id dw; revisionID = artifactID;
          n = d_head_revision_number old + 1; title = null_text (d_title d); prev = d_head_revision_id old
      in
     bind_res (ensure_document_backing_thread actorID documentID (null_text (d_thread_id d)) title now db) (\<lambda>(threadID, db1).
     bind_res (allocate_handle ''artifact'' ''document-revision'' (''artifact-'' @ artifactID) db1) (\<lambda>artHandle.
     bind_res (insert_artifact (revision_artifact artifactID artHandle threadID now actorID contentType hash documentID
                 revRefs revisionID n (Some prev) title prov) db1) (\<lambda>db2.
     bind_res (replace_ref_edges ''artifact'' artifactID (typed_ref_edge_targets ref_edge_type_ref revRefs) db2) (\<lambda>db3.
     let rev = next_revision env actorID documentID old threadID revRefs prevHash content dw;
         here = (\<lambda>x. d_id x = documentID \<and> d_head_revision_id x = base);
         write = write_document_head actorID threadID old d dw
     in
     bind_res (insert_revision rev db3) (\<lambda>db4.
     bind_res (replace_ref_edges ''document_revision'' revisionID (typed_ref_edge_targets ref_edge_type_ref revRefs) db4) (\<lambda>db5.
     bind_res (insert_event actorID (dw_event_id dw) (dw_event_ts dw)
       (build_document_lifecycle_event ''document_revised'' threadID documentID revisionID artifactID n title
          [(''prev_revision_id'', prev)]) db5) (\<lambda>db6.
     if \<not> list_ex here (ws_documents db6) then Inl DocConflict
     else let db7 = update_document_rows here write db6 in
     bind_res (replace_ref_edges ''document'' documentID (document_resource_ref_edge_targets threadID (d_refs d)) db7) (\<lambda>db8.
     bind_res (if trim (null_text (d_thread_id old)) \<noteq> threadID
               then clear_document_backing_thread_subject actorID (null_text (d_thread_id old)) documentID now db8
               else Inr db8) (\<lambda>db9.
     Inr ((write old)\<lparr>d_trashed_at := None, d_trashed_by := None, d_trash_reason := None, d_archived_at := None,
        d_archived_by := None\<rparr>, rev, store_content env content plan db9)))))))))))"

definition update_document ::
  "doc_env \<Rightarrow> string \<Rightarrow> string \<Rightarrow> document_patch \<Rightarrow> string \<Rightarrow> string \<Rightarrow> string \<Rightarrow> string list \<Rightarrow> string option \<Rightarrow> doc_draw \<Rightarrow>
     ws_db \<Rightarrow> ws_db \<Rightarrow> doc_error + document_row \<times> document_revision_row \<times> ws_db" where
  "update_document env actorID0 documentID patch base0 content contentType0 refs prov dw db0 db =
     (let actorID = trim actorID0; base1 = trim base0
      in if actorID = [] \<or> base1 = [] then Inl InvalidDocument
         else
     bind_res (normalize_document_content_type contentType0) (\<lambda>contentType.
     bind_res (load_document_row documentID db0) (\<lambda>doc.
     let base = resolve_base_revision base1 db0
     in if d_head_revision_id doc \<noteq> base then Inl DocConflict
        else
     bind_res (apply_document_patch patch doc) (\<lambda>next.
     bind_res (plan_content env content
        \<lparr>delta_artifacts = 1, delta_documents = 0, delta_revisions = 1, delta_db_bytes = 0\<rparr> db0) (\<lambda>plan.
     let thread = normalize_document_backing_thread_id documentID (null_text (d_thread_id next))
     in commit_revision env actorID documentID doc (next\<lparr>d_thread_id := Some thread\<rparr>) base
          (previous_revision_hash documentID (d_head_revision_id doc) db0) content contentType
          (revision_refs refs (null_text (d_thread_id next))) prov plan dw db)))))"

section \<open>Lifecycle\<close>

definition archive_document_row :: "string \<Rightarrow> string \<Rightarrow> document_row \<Rightarrow> document_row" where
  "archive_document_row now actorID d = d\<lparr>d_archived_at := Some now, d_archived_by := Some actorID\<rparr>"

definition unarchive_document_row :: "document_row \<Rightarrow> document_row" where
  "unarchive_document_row d = d\<lparr>d_archived_at := None, d_archived_by := None\<rparr>"

definition trash_document_row :: "string \<Rightarrow> string \<Rightarrow> string \<Rightarrow> document_row \<Rightarrow> document_row" where
  "trash_document_row now actorID reason d =
     d\<lparr>d_trashed_at := Some now, d_trashed_by := Some actorID, d_trash_reason := Some reason, d_archived_at := None,
       d_archived_by := None\<rparr>"

definition untrash_document_row :: "document_row \<Rightarrow> document_row" where
  "untrash_document_row d = d\<lparr>d_trashed_at := None, d_trashed_by := None, d_trash_reason := None\<rparr>"

text \<open>The reads every lifecycle operation starts with: the row and its head revision with the content.\<close>

definition open_document :: "string \<Rightarrow> string \<Rightarrow> ws_db \<Rightarrow> doc_error + document_row" where
  "open_document actorID documentID db =
     (if trim actorID = [] \<or> trim documentID = [] then Inl InvalidDocument else load_document_row documentID db)"

definition head_revision :: "document_row \<Rightarrow> ws_db \<Rightarrow> doc_error + loaded_revision" where
  "head_revision d db = load_document_revision (d_id d) (d_head_revision_id d) True db"

definition trash_document ::
  "string \<Rightarrow> string \<Rightarrow> string \<Rightarrow> doc_draw \<Rightarrow> ws_db \<Rightarrow> ws_db \<Rightarrow> doc_error + document_row \<times> ws_db" where
  "trash_document actorID documentID reason dw db0 db =
     bind_res (open_document actorID documentID db0) (\<lambda>d.
     bind_res (head_revision d db0) (\<lambda>(r, a, _).
     if is_set (d_trashed_at d) then Inr (d, db)
     else let f = trash_document_row (dw_now dw) (trim actorID) (trim reason);
              db1 = update_document_rows (\<lambda>x. d_id x = d_id d) f db
          in bind_res (insert_event (trim actorID) (dw_event_id dw) (dw_event_ts dw)
               (build_document_lifecycle_event ''document_trashed'' (trim (null_text (d_thread_id d))) (d_id d)
                  (d_head_revision_id d) (da_id a) (dr_number r) (trim (null_text (d_title d))) [(''reason'', trim reason)]) db1)
               (\<lambda>db2. Inr (f d, db2))))"

definition archive_document :: "string \<Rightarrow> string \<Rightarrow> string \<Rightarrow> ws_db \<Rightarrow> ws_db \<Rightarrow> doc_error + document_row \<times> ws_db" where
  "archive_document actorID documentID now db0 db =
     bind_res (open_document actorID documentID db0) (\<lambda>d.
     if is_set (d_trashed_at d) then Inl DocAlreadyTrashed
     else bind_res (head_revision d db0) (\<lambda>_.
     if is_set (d_archived_at d) then Inr (d, db)
     else let f = archive_document_row now (trim actorID)
          in Inr (f d, update_document_rows (\<lambda>x. d_id x = d_id d) f db)))"

definition unarchive_document :: "string \<Rightarrow> string \<Rightarrow> ws_db \<Rightarrow> ws_db \<Rightarrow> doc_error + document_row \<times> ws_db" where
  "unarchive_document actorID documentID db0 db =
     bind_res (open_document actorID documentID db0) (\<lambda>d.
     if \<not> is_set (d_archived_at d) then Inl DocNotArchived
     else bind_res (head_revision d db0) (\<lambda>_.
     Inr (unarchive_document_row d, update_document_rows (\<lambda>x. d_id x = d_id d) unarchive_document_row db)))"

definition restore_document ::
  "string \<Rightarrow> string \<Rightarrow> string \<Rightarrow> doc_draw \<Rightarrow> ws_db \<Rightarrow> ws_db \<Rightarrow> doc_error + document_row \<times> ws_db" where
  "restore_document actorID documentID reason dw db0 db =
     bind_res (open_document actorID documentID db0) (\<lambda>d.
     if \<not> is_set (d_trashed_at d) then Inl DocNotTrashed
     else bind_res (head_revision d db0) (\<lambda>(r, a, _).
     bind_res (insert_event (trim actorID) (dw_event_id dw) (dw_event_ts dw)
       (build_document_lifecycle_event ''document_restored'' (trim (null_text (d_thread_id d))) (d_id d)
          (d_head_revision_id d) (da_id a) (dr_number r) (trim (null_text (d_title d))) [(''reason'', trim reason)])
       (update_document_rows (\<lambda>x. d_id x = d_id d) untrash_document_row db))
       (\<lambda>db1. Inr (untrash_document_row d, db1))))"

section \<open>Purge\<close>

text \<open>The revisions of the document, with the artifacts that are theirs; a revision without its artifact is not listed.\<close>

definition owned_revisions :: "string \<Rightarrow> ws_db \<Rightarrow> (string \<times> string \<times> string) list" where
  "owned_revisions documentID db =
     concat (map (\<lambda>r. if dr_document_id r = documentID
       then map (\<lambda>a. (trim (dr_revision_id r), trim (da_id a), trim (da_content_hash a)))
              (filter (\<lambda>a. da_id a = dr_artifact_id r) (ws_artifacts db))
       else []) (ws_revisions db))"

definition delete_edges_of :: "string \<Rightarrow> string \<Rightarrow> ws_db \<Rightarrow> ws_db" where
  "delete_edges_of ty i db =
     db\<lparr>ws_edges := filter (\<lambda>e. \<not> (e_source_type e = ty \<and> e_source_id e = i) \<and> \<not> (e_target_type e = ty \<and> e_target_id e = i))
                      (ws_edges db)\<rparr>"

definition delete_owned_edges :: "string \<times> string \<times> string \<Rightarrow> ws_db \<Rightarrow> ws_db" where
  "delete_owned_edges item db =
     (case item of (revID, art, _) \<Rightarrow>
        let db1 = (if revID \<noteq> [] then delete_edges_of ''document_revision'' revID db else db)
        in if art \<noteq> [] then delete_edges_of ''artifact'' art db1 else db1)"

text \<open>The transaction, and the blobs to delete after it; the blobs go one by one, without the lock of a transaction.\<close>

definition purge_document_rows :: "string \<Rightarrow> ws_db \<Rightarrow> doc_error + string list \<times> ws_db" where
  "purge_document_rows documentID0 db =
     (let documentID = trim documentID0
      in if \<not> validate_document_id documentID then Inl InvalidDocument
         else case find_document documentID db of
           None \<Rightarrow> Inl DocNotFound
         | Some d \<Rightarrow>
             if d_trashed_at d = None then Inl DocNotTrashed
             else
               let owned = owned_revisions documentID db;
                   db1 = fold delete_owned_edges owned (delete_edges_of ''document'' documentID db);
                   arts = filter (\<lambda>i. i \<noteq> []) (map (fst \<circ> snd) owned);
                   db2 = db1\<lparr>ws_revisions := filter (\<lambda>r. dr_document_id r \<noteq> documentID) (ws_revisions db1),
                             ws_artifacts := filter (\<lambda>a. da_id a \<notin> set arts) (ws_artifacts db1)\<rparr>;
                   hashes = remdups (filter (\<lambda>h. h \<noteq> []) (map (snd \<circ> snd) owned));
                   gone = filter (\<lambda>h. \<not> list_ex (\<lambda>a. da_content_hash a = h) (ws_artifacts db2)) hashes
               in Inr (gone, db2\<lparr>ws_ledger := fold remove_blob_ledger_entry gone (ws_ledger db2),
                                ws_documents := filter (\<lambda>x. d_id x \<noteq> documentID) (ws_documents db2)\<rparr>))"

definition delete_blobs :: "string list \<Rightarrow> ws_db \<Rightarrow> ws_db" where
  "delete_blobs hs db = db\<lparr>ws_blobs := filter (\<lambda>p. fst p \<notin> set hs) (ws_blobs db)\<rparr>"

definition purge_document :: "string \<Rightarrow> ws_db \<Rightarrow> doc_error + ws_db" where
  "purge_document documentID db =
     bind_res (purge_document_rows documentID db) (\<lambda>(gone, db1). Inr (delete_blobs gone db1))"

lemma blobs_without: "map_of (filter (\<lambda>p. fst p \<notin> A) xs) h = (if h \<in> A then None else map_of xs h)"
  by (induction xs) auto

lemma delete_blobs_of: "blob_of (delete_blobs hs db) h = (if h \<in> set hs then None else blob_of db h)"
  by (simp add: delete_blobs_def blobs_without)

lemma delete_blobs_artifacts [simp]: "ws_artifacts (delete_blobs hs db) = ws_artifacts db"
  by (simp add: delete_blobs_def)

end
