(* ===== verification/DocumentChains.thy ===== *)
theory DocumentChains
  imports Documents
begin

text \<open>
  What the document operations keep: the revisions of a document form a chain with its head at the end, ids are not
  used twice, every content is in the blob store.  The histories let operations act on what they read earlier.
\<close>

section \<open>Effects of the parts\<close>

lemma ensure_thread_Inr:
  assumes "ensure_document_backing_thread actorID documentID threadID title now db = Inr (t, db')"
  shows "t = normalize_document_backing_thread_id documentID threadID \<and> t \<noteq> [] \<and> (\<exists>ts es. db' = db\<lparr>ws_threads := ts, ws_edges := es\<rparr>)"
proof (cases "find_thread (normalize_document_backing_thread_id documentID threadID) db")
  case None
  with assms show ?thesis
    by (auto simp: ensure_document_backing_thread_def Let_def bind_res_Inr_iff split: if_splits dest!: replace_ref_edges_Inr)
next
  case (Some row)
  with assms show ?thesis
    by (auto simp: ensure_document_backing_thread_def Let_def bind_res_Inr_iff update_thread_def split: if_splits
        dest!: replace_ref_edges_Inr)
qed

lemma clear_thread_Inr:
  assumes "clear_document_backing_thread_subject actorID threadID documentID now db = Inr db'"
  shows "\<exists>ts es. db' = db\<lparr>ws_threads := ts, ws_edges := es\<rparr>"
proof -
  have "\<exists>ts es. db = db\<lparr>ws_threads := ts, ws_edges := es\<rparr>"
    by (rule exI [of _ "ws_threads db"], rule exI [of _ "ws_edges db"]) simp
  with assms show ?thesis
    by (auto simp: clear_document_backing_thread_subject_def Let_def update_thread_def split: if_splits option.splits
        dest!: replace_ref_edges_Inr)
qed

lemma allocate_handle_Inr:
  "allocate_handle typ desired seed db = Inr h \<Longrightarrow> unique_handle 0 typ desired seed (handle_view db) = Some h"
  by (auto simp: allocate_handle_def split: option.splits)

lemma document_handle_fresh:
  assumes "allocate_handle ''document'' desired seed db = Inr h"
  shows "base_handle h" "Some h \<notin> d_handle ` set (ws_documents db)"
proof -
  note u = unique_handle_Some [OF allocate_handle_Inr [OF assms]]
  show "base_handle h" by (rule u(3))
  have "d_handle x \<noteq> Some h" if "x \<in> set (ws_documents db)" for x
  proof -
    have "named_row ''document'' (d_id x) (d_handle x) \<in> set (handle_rows (handle_view db))"
      using that by (simp add: handle_view_def)
    then show ?thesis using u(2) by (auto simp: handle_taken_def list_ex_iff named_row_def)
  qed
  then show "Some h \<notin> d_handle ` set (ws_documents db)" by (metis imageE)
qed

text \<open>Both operations that make a revision: what they add.\<close>

definition adds_revision :: "doc_env \<Rightarrow> string \<Rightarrow> string \<Rightarrow> document_revision_row \<Rightarrow> doc_artifact \<Rightarrow> ws_db \<Rightarrow> ws_db \<Rightarrow> bool" where
  "adds_revision env i content r a db db' \<longleftrightarrow>
     ws_revisions db' = ws_revisions db @ [r] \<and> ws_artifacts db' = ws_artifacts db @ [a] \<and>
     blob_of db' = (blob_of db)(de_hash env content \<mapsto> content) \<and>
     dr_revision_id r \<notin> dr_revision_id ` set (ws_revisions db) \<and> da_id a \<notin> da_id ` set (ws_artifacts db) \<and>
     dr_document_id r = i \<and> dr_artifact_id r = dr_revision_id r \<and> da_id a = dr_revision_id r \<and>
     da_content_hash a = de_hash env content"

lemma if_Inl_iff: "(if b then Inl e else m) = Inr y \<longleftrightarrow> \<not> b \<and> m = Inr y"
  by simp

lemmas chain_iffs = bind_res_Inr_iff if_Inl_iff split_paired_Ex case_prod_conv

lemma create_steps:
  assumes "create_document env actorID inp content ct refs dw db0 db = Inr (row, r, db')"
  obtains contentType d plan threadID db1 artHandle docHandle db2 db3 db4 db5 db6 db7 db8 where
    "prepare_new_document env (trim actorID) inp refs dw = Inr d"
    "ensure_document_backing_thread (trim actorID) (d_id d) (null_text (d_thread_id d)) (null_text (d_title d)) (dw_now dw) db
       = Inr (threadID, db1)"
    "allocate_handle ''document'' (first_non_empty [null_text (d_slug d), null_text (d_title d)]) (''document-'' @ d_id d) db1
       = Inr docHandle"
    "insert_artifact (revision_artifact (dw_artifact_id dw) artHandle threadID (dw_now dw) (trim actorID) contentType
       (de_hash env content) (d_id d) (revision_refs refs (null_text (d_thread_id d))) (dw_artifact_id dw) 1 None
       (null_text (d_title d)) None) db1 = Inr db2"
    "replace_ref_edges ''artifact'' (dw_artifact_id dw)
       (typed_ref_edge_targets ref_edge_type_ref (revision_refs refs (null_text (d_thread_id d)))) db2 = Inr db3"
    "insert_document (d\<lparr>d_handle := Some docHandle\<rparr>) db3 = Inr db4"
    "replace_ref_edges ''document'' (d_id d) (document_resource_ref_edge_targets threadID (d_refs d)) db4 = Inr db5"
    "insert_revision (first_revision env (trim actorID) d (revision_refs refs (null_text (d_thread_id d))) content dw) db5 = Inr db6"
    "replace_ref_edges ''document_revision'' (dw_artifact_id dw)
       (typed_ref_edge_targets ref_edge_type_ref (revision_refs refs (null_text (d_thread_id d)))) db6 = Inr db7"
    "insert_event (trim actorID) (dw_event_id dw) (dw_event_ts dw)
       (build_document_lifecycle_event ''document_created'' threadID (d_id d) (dw_artifact_id dw) (dw_artifact_id dw) 1
         (null_text (d_title d)) []) db7 = Inr db8"
    "d\<lparr>d_handle := Some docHandle\<rparr> = row"
    "first_revision env (trim actorID) d (revision_refs refs (null_text (d_thread_id d))) content dw = r"
    "store_content env content plan db8 = db'"
  using assms [unfolded create_document_def Let_def, unfolded chain_iffs sum.inject prod.inject]
  by (elim exE conjE) (rule that; assumption)

lemma commit_steps:
  assumes "commit_revision env actorID documentID old d base prevHash content ct revRefs prov plan dw db = Inr (row, r, db')"
  obtains threadID db1 artHandle db2 db3 db4 db5 db6 db8 db9 where
    "ensure_document_backing_thread actorID documentID (null_text (d_thread_id d)) (null_text (d_title d)) (dw_now dw) db
       = Inr (threadID, db1)"
    "insert_artifact (revision_artifact (dw_artifact_id dw) artHandle threadID (dw_now dw) actorID ct
       (de_hash env content) documentID revRefs (dw_artifact_id dw) (d_head_revision_number old + 1)
       (Some (d_head_revision_id old)) (null_text (d_title d)) prov) db1 = Inr db2"
    "replace_ref_edges ''artifact'' (dw_artifact_id dw) (typed_ref_edge_targets ref_edge_type_ref revRefs) db2 = Inr db3"
    "insert_revision (next_revision env actorID documentID old threadID revRefs prevHash content dw) db3 = Inr db4"
    "replace_ref_edges ''document_revision'' (dw_artifact_id dw) (typed_ref_edge_targets ref_edge_type_ref revRefs) db4 = Inr db5"
    "insert_event actorID (dw_event_id dw) (dw_event_ts dw)
       (build_document_lifecycle_event ''document_revised'' threadID documentID (dw_artifact_id dw) (dw_artifact_id dw)
         (d_head_revision_number old + 1) (null_text (d_title d)) [(''prev_revision_id'', d_head_revision_id old)]) db5 = Inr db6"
    "\<not> \<not> list_ex (\<lambda>x. d_id x = documentID \<and> d_head_revision_id x = base) (ws_documents db6)"
    "replace_ref_edges ''document'' documentID (document_resource_ref_edge_targets threadID (d_refs d))
       (update_document_rows (\<lambda>x. d_id x = documentID \<and> d_head_revision_id x = base)
          (write_document_head actorID threadID old d dw) db6) = Inr db8"
    "(if trim (null_text (d_thread_id old)) \<noteq> threadID
      then clear_document_backing_thread_subject actorID (null_text (d_thread_id old)) documentID (dw_now dw) db8
      else Inr db8) = Inr db9"
    "(write_document_head actorID threadID old d dw old)\<lparr>d_trashed_at := None, d_trashed_by := None, d_trash_reason := None,
       d_archived_at := None, d_archived_by := None\<rparr> = row"
    "next_revision env actorID documentID old threadID revRefs prevHash content dw = r"
    "store_content env content plan db9 = db'"
  using assms [unfolded commit_revision_def Let_def, unfolded chain_iffs sum.inject prod.inject]
  by (elim exE conjE) (rule that; assumption)

lemma insert_artifact_Inr:
  "insert_artifact a db = Inr db' \<Longrightarrow> da_id a \<notin> da_id ` set (ws_artifacts db) \<and> db' = db\<lparr>ws_artifacts := ws_artifacts db @ [a]\<rparr>"
  by (auto simp: insert_artifact_def split: if_splits)

lemma insert_document_Inr:
  "insert_document d db = Inr db' \<Longrightarrow> d_id d \<notin> d_id ` set (ws_documents db) \<and> db' = db\<lparr>ws_documents := ws_documents db @ [d]\<rparr>"
  by (auto simp: insert_document_def split: if_splits)

lemma insert_revision_Inr:
  "insert_revision r db = Inr db' \<Longrightarrow>
   dr_revision_id r \<notin> dr_revision_id ` set (ws_revisions db) \<and> db' = db\<lparr>ws_revisions := ws_revisions db @ [r]\<rparr>"
  by (auto simp: insert_revision_def split: if_splits)

lemma prepare_facts:
  "prepare_new_document env actorID inp refs dw = Inr d \<Longrightarrow>
   validate_document_id (d_id d) \<and> d_head_revision_id d = dw_artifact_id dw \<and> d_head_revision_number d = 1 \<and>
   d_archived_at d = None \<and> d_trashed_at d = None \<and>
   (trim (dw_document_id dw) = dw_document_id dw \<longrightarrow> trim (d_id d) = d_id d)"
  by (auto simp: prepare_new_document_def Let_def bind_res_Inr_iff optional_string_def split: if_splits)

lemma create_effect:
  assumes "create_document env actorID inp content ct refs dw db0 db = Inr (row, r, db')"
  obtains a where "adds_revision env (d_id row) content r a db db'"
    "ws_documents db' = ws_documents db @ [row]" "d_id row \<notin> d_id ` set (ws_documents db)"
    "validate_document_id (d_id row)" "dr_revision_id r = dw_artifact_id dw" "dr_number r = 1" "dr_prev_revision_id r = None"
    "dr_hash r = compute_revision_hash (de_hash env) (de_hash env content) [] (d_id row) 1 (dr_created_at r) (dr_created_by r)"
    "d_head_revision_id row = dw_artifact_id dw" "d_head_revision_number row = 1"
    "d_archived_at row = None" "d_trashed_at row = None"
    "\<exists>h. d_handle row = Some h \<and> base_handle h \<and> Some h \<notin> d_handle ` set (ws_documents db)"
    "trim (dw_document_id dw) = dw_document_id dw \<longrightarrow> trim (d_id row) = d_id row"
proof -
  obtain contentType d plan threadID db1 artHandle docHandle db2 db3 db4 db5 db6 db7 db8 where
    d: "prepare_new_document env (trim actorID) inp refs dw = Inr d"
    and 1: "ensure_document_backing_thread (trim actorID) (d_id d) (null_text (d_thread_id d)) (null_text (d_title d)) (dw_now dw) db
       = Inr (threadID, db1)"
    and h: "allocate_handle ''document'' (first_non_empty [null_text (d_slug d), null_text (d_title d)]) (''document-'' @ d_id d) db1
       = Inr docHandle"
    and 2: "insert_artifact (revision_artifact (dw_artifact_id dw) artHandle threadID (dw_now dw) (trim actorID) contentType
       (de_hash env content) (d_id d) (revision_refs refs (null_text (d_thread_id d))) (dw_artifact_id dw) 1 None
       (null_text (d_title d)) None) db1 = Inr db2"
    and 3: "replace_ref_edges ''artifact'' (dw_artifact_id dw)
       (typed_ref_edge_targets ref_edge_type_ref (revision_refs refs (null_text (d_thread_id d)))) db2 = Inr db3"
    and 4: "insert_document (d\<lparr>d_handle := Some docHandle\<rparr>) db3 = Inr db4"
    and 5: "replace_ref_edges ''document'' (d_id d) (document_resource_ref_edge_targets threadID (d_refs d)) db4 = Inr db5"
    and 6: "insert_revision (first_revision env (trim actorID) d (revision_refs refs (null_text (d_thread_id d))) content dw) db5 = Inr db6"
    and 7: "replace_ref_edges ''document_revision'' (dw_artifact_id dw)
       (typed_ref_edge_targets ref_edge_type_ref (revision_refs refs (null_text (d_thread_id d)))) db6 = Inr db7"
    and 8: "insert_event (trim actorID) (dw_event_id dw) (dw_event_ts dw)
       (build_document_lifecycle_event ''document_created'' threadID (d_id d) (dw_artifact_id dw) (dw_artifact_id dw) 1
         (null_text (d_title d)) []) db7 = Inr db8"
    and row: "d\<lparr>d_handle := Some docHandle\<rparr> = row"
    and r: "first_revision env (trim actorID) d (revision_refs refs (null_text (d_thread_id d))) content dw = r"
    and db': "store_content env content plan db8 = db'"
    by (rule create_steps [OF assms]) (rule that)
  note thread = ensure_thread_Inr [OF 1] and art = insert_artifact_Inr [OF 2] and e3 = replace_ref_edges_Inr [OF 3]
    and doc = insert_document_Inr [OF 4] and e5 = replace_ref_edges_Inr [OF 5] and rev = insert_revision_Inr [OF 6]
    and e7 = replace_ref_edges_Inr [OF 7] and ev = insert_event_Inr [OF 8]
  have frame: "ws_documents db8 = ws_documents db @ [row]" "ws_revisions db8 = ws_revisions db @ [r]"
    "\<exists>a. ws_artifacts db8 = ws_artifacts db @ [a] \<and> da_id a = dw_artifact_id dw \<and> da_content_hash a = de_hash env content \<and>
       da_id a \<notin> da_id ` set (ws_artifacts db)"
    "ws_blobs db8 = ws_blobs db" "dr_revision_id r \<notin> dr_revision_id ` set (ws_revisions db)"
    "d_id row \<notin> d_id ` set (ws_documents db)"
    using thread art e3 doc e5 rev e7 ev row r by (auto simp: revision_artifact_def)
  then obtain a where "adds_revision env (d_id row) content r a db db'"
    using db' row r by (auto simp: adds_revision_def store_content_def first_revision_def)
  moreover have "ws_documents db' = ws_documents db @ [row]" using frame(1) by (simp add: store_content_def db' [symmetric])
  moreover have "\<exists>h. d_handle row = Some h \<and> base_handle h \<and> Some h \<notin> d_handle ` set (ws_documents db)"
    using document_handle_fresh [OF h] thread row by auto
  ultimately show thesis
    using that frame(6) prepare_facts [OF d] row r by (auto simp: first_revision_def)
qed

lemma commit_effect:
  assumes "commit_revision env actorID i old d base prevHash content ct revRefs prov plan dw db = Inr (row, r, db')"
  obtains a threadID where "adds_revision env i content r a db db'"
    "ws_documents db' = map (\<lambda>x. if d_id x = i \<and> d_head_revision_id x = base
       then write_document_head actorID threadID old d dw x else x) (ws_documents db)"
    "\<exists>x\<in>set (ws_documents db). d_id x = i \<and> d_head_revision_id x = base"
    "dr_revision_id r = dw_artifact_id dw" "dr_number r = d_head_revision_number old + 1"
    "dr_prev_revision_id r = Some (d_head_revision_id old)"
    "dr_hash r = compute_revision_hash (de_hash env) (de_hash env content) prevHash i (dr_number r) (dr_created_at r) (dr_created_by r)"
proof -
  obtain threadID db1 artHandle db2 db3 db4 db5 db6 db8 db9 where
    1: "ensure_document_backing_thread actorID i (null_text (d_thread_id d)) (null_text (d_title d)) (dw_now dw) db
       = Inr (threadID, db1)"
    and 2: "insert_artifact (revision_artifact (dw_artifact_id dw) artHandle threadID (dw_now dw) actorID ct
       (de_hash env content) i revRefs (dw_artifact_id dw) (d_head_revision_number old + 1)
       (Some (d_head_revision_id old)) (null_text (d_title d)) prov) db1 = Inr db2"
    and 3: "replace_ref_edges ''artifact'' (dw_artifact_id dw) (typed_ref_edge_targets ref_edge_type_ref revRefs) db2 = Inr db3"
    and 4: "insert_revision (next_revision env actorID i old threadID revRefs prevHash content dw) db3 = Inr db4"
    and 5: "replace_ref_edges ''document_revision'' (dw_artifact_id dw) (typed_ref_edge_targets ref_edge_type_ref revRefs) db4 = Inr db5"
    and 6: "insert_event actorID (dw_event_id dw) (dw_event_ts dw)
       (build_document_lifecycle_event ''document_revised'' threadID i (dw_artifact_id dw) (dw_artifact_id dw)
         (d_head_revision_number old + 1) (null_text (d_title d)) [(''prev_revision_id'', d_head_revision_id old)]) db5 = Inr db6"
    and here: "\<not> \<not> list_ex (\<lambda>x. d_id x = i \<and> d_head_revision_id x = base) (ws_documents db6)"
    and 8: "replace_ref_edges ''document'' i (document_resource_ref_edge_targets threadID (d_refs d))
       (update_document_rows (\<lambda>x. d_id x = i \<and> d_head_revision_id x = base)
          (write_document_head actorID threadID old d dw) db6) = Inr db8"
    and 9: "(if trim (null_text (d_thread_id old)) \<noteq> threadID
      then clear_document_backing_thread_subject actorID (null_text (d_thread_id old)) i (dw_now dw) db8
      else Inr db8) = Inr db9"
    and r: "next_revision env actorID i old threadID revRefs prevHash content dw = r"
    and db': "store_content env content plan db9 = db'"
    by (rule commit_steps [OF assms]) (rule that)
  have e9: "\<exists>ts es. db9 = db8\<lparr>ws_threads := ts, ws_edges := es\<rparr>"
  proof (cases "trim (null_text (d_thread_id old)) \<noteq> threadID")
    case False
    then have "db9 = db8\<lparr>ws_threads := ws_threads db8, ws_edges := ws_edges db8\<rparr>" using 9 by simp
    then show ?thesis by blast
  qed (use 9 clear_thread_Inr in auto)
  note frame = ensure_thread_Inr [OF 1] insert_artifact_Inr [OF 2] replace_ref_edges_Inr [OF 3]
    insert_revision_Inr [OF 4] replace_ref_edges_Inr [OF 5] insert_event_Inr [OF 6] replace_ref_edges_Inr [OF 8] e9
  have docs6: "ws_documents db6 = ws_documents db"
    using frame(1-6) by auto
  have frame9: "ws_documents db9 = map (\<lambda>x. if d_id x = i \<and> d_head_revision_id x = base
       then write_document_head actorID threadID old d dw x else x) (ws_documents db)"
    using frame(7,8) docs6 by (auto simp: update_document_rows_def)
  have rest: "ws_revisions db9 = ws_revisions db @ [r]" "ws_blobs db9 = ws_blobs db"
    "\<exists>a. ws_artifacts db9 = ws_artifacts db @ [a] \<and> da_id a = dw_artifact_id dw \<and> da_content_hash a = de_hash env content \<and>
       da_id a \<notin> da_id ` set (ws_artifacts db)"
    "dr_revision_id r \<notin> dr_revision_id ` set (ws_revisions db)"
    using frame r by (auto simp: revision_artifact_def update_document_rows_def)
  then obtain a where a: "adds_revision env i content r a db db'"
    by (auto simp: adds_revision_def store_content_def db' [symmetric] r [symmetric] next_revision_def)
  have docs: "ws_documents db' = map (\<lambda>x. if d_id x = i \<and> d_head_revision_id x = base
       then write_document_head actorID threadID old d dw x else x) (ws_documents db)"
    using frame9 by (simp add: store_content_def db' [symmetric])
  have ex: "\<exists>x\<in>set (ws_documents db). d_id x = i \<and> d_head_revision_id x = base"
    using here docs6 by (simp add: list_ex_iff)
  show thesis by (rule that [OF a docs ex]) (simp_all add: r [symmetric] next_revision_def)
qed

lemma load_document_row_Inr:
  "load_document_row i db = Inr d \<Longrightarrow> validate_document_id i \<and> find_document (trim i) db = Some d \<and> d_id d = trim i \<and>
     d \<in> set (ws_documents db)"
  by (auto simp: load_document_row_def bind_res_Inr_iff guard_res_Inr_iff find_document_def find_Some_iff split: option.splits)

lemma update_steps:
  assumes "update_document env actorID i patch base0 content ct0 refs prov dw db0 db = Inr (row, r, db')"
  obtains ct doc d plan revRefs where "load_document_row i db0 = Inr doc"
    "d_head_revision_id doc = resolve_base_revision (trim base0) db0"
    "commit_revision env (trim actorID) i doc d (resolve_base_revision (trim base0) db0)
       (previous_revision_hash i (d_head_revision_id doc) db0) content ct revRefs prov plan dw db = Inr (row, r, db')"
  using assms [unfolded update_document_def Let_def, unfolded chain_iffs]
  by (elim exE conjE) (rule that; (assumption | simp only: not_not))

section \<open>Chains\<close>

definition revisions_of :: "string \<Rightarrow> ws_db \<Rightarrow> document_revision_row list" where
  "revisions_of i db = filter (\<lambda>r. dr_document_id r = i) (ws_revisions db)"

definition content_hash_of :: "ws_db \<Rightarrow> document_revision_row \<Rightarrow> string" where
  "content_hash_of db r = (case find_artifact (dr_artifact_id r) db of Some a \<Rightarrow> da_content_hash a | None \<Rightarrow> [])"

text \<open>From number \<open>n\<close> on, each revision names the one before it and its hash takes in the hash of that one.\<close>

fun chain :: "doc_env \<Rightarrow> (document_revision_row \<Rightarrow> string) \<Rightarrow> string \<Rightarrow> string option \<Rightarrow> string \<Rightarrow> nat \<Rightarrow>
    document_revision_row list \<Rightarrow> bool" where
  "chain env ch i prev prevHash n [] \<longleftrightarrow> True"
| "chain env ch i prev prevHash n (r # rs) \<longleftrightarrow>
     dr_number r = n \<and> dr_prev_revision_id r = prev \<and>
     dr_hash r = compute_revision_hash (de_hash env) (ch r) prevHash i n (dr_created_at r) (dr_created_by r) \<and>
     chain env ch i (Some (dr_revision_id r)) (dr_hash r) (n + 1) rs"

lemma chain_snoc:
  "chain env ch i prev h n (rs @ [r]) \<longleftrightarrow> chain env ch i prev h n rs \<and> dr_number r = n + length rs \<and>
     dr_prev_revision_id r = (if rs = [] then prev else Some (dr_revision_id (last rs))) \<and>
     dr_hash r = compute_revision_hash (de_hash env) (ch r) (if rs = [] then h else dr_hash (last rs)) i (n + length rs)
       (dr_created_at r) (dr_created_by r)"
  by (induction rs arbitrary: prev h n) auto

lemma chain_numbers: "chain env ch i prev h n rs \<Longrightarrow> map dr_number rs = [n..<n + length rs]"
  by (induction rs arbitrary: prev h n) (auto simp: upt_conv_Cons simp del: upt_Suc)

lemma chain_cong: "(\<And>r. r \<in> set rs \<Longrightarrow> ch r = ch' r) \<Longrightarrow> chain env ch i prev h n rs = chain env ch' i prev h n rs"
  by (induction rs arbitrary: prev h n) auto

text \<open>A revision is in order: its artifact is there, with the same id, and the content with the recorded hash.\<close>

definition revision_ok :: "doc_env \<Rightarrow> ws_db \<Rightarrow> document_revision_row \<Rightarrow> bool" where
  "revision_ok env db r \<longleftrightarrow>
     dr_artifact_id r = dr_revision_id r \<and> trim (dr_revision_id r) = dr_revision_id r \<and> dr_revision_id r \<noteq> [] \<and>
     find_artifact (dr_artifact_id r) db \<noteq> None \<and> dr_document_id r \<in> d_id ` set (ws_documents db)"

definition artifact_ok :: "doc_env \<Rightarrow> ws_db \<Rightarrow> doc_artifact \<Rightarrow> bool" where
  "artifact_ok env db a \<longleftrightarrow> trim (da_id a) = da_id a \<and>
     (\<exists>c. blob_of db (da_content_hash a) = Some c \<and> de_hash env c = da_content_hash a)"

definition document_ok :: "doc_env \<Rightarrow> ws_db \<Rightarrow> document_row \<Rightarrow> bool" where
  "document_ok env db d \<longleftrightarrow>
     validate_document_id (d_id d) \<and> trim (d_id d) = d_id d \<and>
     (let rs = revisions_of (d_id d) db
      in rs \<noteq> [] \<and> d_head_revision_id d = dr_revision_id (last rs) \<and> d_head_revision_number d = length rs \<and>
         chain env (content_hash_of db) (d_id d) None [] 1 rs)"

definition docs_ok :: "doc_env \<Rightarrow> ws_db \<Rightarrow> bool" where
  "docs_ok env db \<longleftrightarrow>
     distinct (map d_id (ws_documents db)) \<and> distinct (map dr_revision_id (ws_revisions db)) \<and>
     distinct (map da_id (ws_artifacts db)) \<and> (\<forall>d\<in>set (ws_documents db). document_ok env db d) \<and>
     (\<forall>r\<in>set (ws_revisions db). revision_ok env db r) \<and> (\<forall>a\<in>set (ws_artifacts db). artifact_ok env db a)"

section \<open>Adding a revision\<close>

lemma find_artifact_append:
  "find_artifact i (db\<lparr>ws_artifacts := ws_artifacts db @ as\<rparr>) =
     (case find_artifact i db of None \<Rightarrow> find (\<lambda>a. da_id a = i) as | Some a \<Rightarrow> Some a)"
  by (simp add: find_artifact_def find_append)

lemma adds_frame:
  assumes ok: "docs_ok env db" and add: "adds_revision env i content r a db db'"
  shows "revisions_of j db' = revisions_of j db @ (if j = i then [r] else [])"
    and "x \<in> set (ws_revisions db) \<Longrightarrow> content_hash_of db' x = content_hash_of db x"
    and "content_hash_of db' r = de_hash env content"
    and "find_artifact k db \<noteq> None \<Longrightarrow> find_artifact k db' = find_artifact k db"
    and "find_artifact (dr_artifact_id r) db' = Some a"
    and "b \<in> set (ws_artifacts db) \<Longrightarrow> artifact_ok env db' b"
    and "distinct (map dr_revision_id (ws_revisions db'))" "distinct (map da_id (ws_artifacts db'))"
proof -
  have arts: "ws_artifacts db' = ws_artifacts db @ [a]" and revs: "ws_revisions db' = ws_revisions db @ [r]"
    and new: "da_id a = dr_artifact_id r" "da_id a \<notin> da_id ` set (ws_artifacts db)" "da_content_hash a = de_hash env content"
    and blobs: "blob_of db' = (blob_of db)(de_hash env content \<mapsto> content)"
    using add unfolding adds_revision_def by auto
  have find: "find_artifact k db' = (case find_artifact k db of None \<Rightarrow> (if da_id a = k then Some a else None) | Some b \<Rightarrow> Some b)" for k
    by (simp add: find_artifact_def arts find_append split: option.split)
  show "revisions_of j db' = revisions_of j db @ (if j = i then [r] else [])"
    using add by (simp add: revisions_of_def adds_revision_def)
  show "find_artifact k db \<noteq> None \<Longrightarrow> find_artifact k db' = find_artifact k db" for k
    by (auto simp: find)
  have "find_artifact (dr_artifact_id r) db = None"
    using new(1,2) by (force simp: find_artifact_def find_None_iff)
  with new(1) show f: "find_artifact (dr_artifact_id r) db' = Some a" by (simp add: find)
  then show "content_hash_of db' r = de_hash env content" by (simp add: content_hash_of_def new(3))
  show "x \<in> set (ws_revisions db) \<Longrightarrow> content_hash_of db' x = content_hash_of db x"
    using ok by (auto simp: docs_ok_def revision_ok_def content_hash_of_def find)
  show "b \<in> set (ws_artifacts db) \<Longrightarrow> artifact_ok env db' b"
    using ok by (auto simp: docs_ok_def artifact_ok_def blobs)
  show "distinct (map dr_revision_id (ws_revisions db'))" "distinct (map da_id (ws_artifacts db'))"
    using ok add new by (auto simp: docs_ok_def adds_revision_def)
qed

text \<open>What is known of the other rows stays true.\<close>

lemma adds_others:
  assumes ok: "docs_ok env db" and add: "adds_revision env i content r a db db'"
  shows "d \<in> set (ws_documents db) \<Longrightarrow> d_id d \<noteq> i \<Longrightarrow> document_ok env db' d"
    and "chain env (content_hash_of db') j prev h n (revisions_of j db) = chain env (content_hash_of db) j prev h n (revisions_of j db)"
    and "d_id ` set (ws_documents db) \<subseteq> d_id ` set (ws_documents db') \<Longrightarrow> x \<in> set (ws_revisions db) \<Longrightarrow> revision_ok env db' x"
    and "trim (dr_revision_id r) = dr_revision_id r \<Longrightarrow> dr_revision_id r \<noteq> [] \<Longrightarrow> i \<in> d_id ` set (ws_documents db') \<Longrightarrow> revision_ok env db' r"
    and "trim (dr_revision_id r) = dr_revision_id r \<Longrightarrow> artifact_ok env db' a"
proof -
  note frame = adds_frame [OF ok add]
  have "content_hash_of db' x = content_hash_of db x" if "x \<in> set (revisions_of j db)" for x j
    using frame(2) that by (simp add: revisions_of_def)
  then show ch: "chain env (content_hash_of db') j prev h n (revisions_of j db) = chain env (content_hash_of db) j prev h n (revisions_of j db)" for j prev h n
    by (rule chain_cong)
  show "d \<in> set (ws_documents db) \<Longrightarrow> d_id d \<noteq> i \<Longrightarrow> document_ok env db' d"
    using ok ch by (simp add: docs_ok_def document_ok_def frame(1))
  show "d_id ` set (ws_documents db) \<subseteq> d_id ` set (ws_documents db') \<Longrightarrow> x \<in> set (ws_revisions db) \<Longrightarrow> revision_ok env db' x"
    using ok frame(4) by (auto simp: docs_ok_def revision_ok_def)
  show "trim (dr_revision_id r) = dr_revision_id r \<Longrightarrow> dr_revision_id r \<noteq> [] \<Longrightarrow> i \<in> d_id ` set (ws_documents db') \<Longrightarrow> revision_ok env db' r"
    using frame(5) add by (simp add: revision_ok_def adds_revision_def)
  show "trim (dr_revision_id r) = dr_revision_id r \<Longrightarrow> artifact_ok env db' a"
    using add by (simp add: artifact_ok_def adds_revision_def)
qed

lemma docs_ok_added:
  assumes ok: "docs_ok env db" and add: "adds_revision env i content r a db db'"
    and id: "trim (dr_revision_id r) = dr_revision_id r" "dr_revision_id r \<noteq> []"
    and docs: "distinct (map d_id (ws_documents db'))" "d_id ` set (ws_documents db) \<subseteq> d_id ` set (ws_documents db')"
      "i \<in> d_id ` set (ws_documents db')"
    and here: "\<And>d. d \<in> set (ws_documents db') \<Longrightarrow> d_id d = i \<Longrightarrow> document_ok env db' d"
    and there: "\<And>d. d \<in> set (ws_documents db') \<Longrightarrow> d_id d \<noteq> i \<Longrightarrow> d \<in> set (ws_documents db)"
  shows "docs_ok env db'"
proof -
  note frame = adds_frame [OF ok add] and others = adds_others [OF ok add]
  have "document_ok env db' d" if "d \<in> set (ws_documents db')" for d
    using here [OF that] there [OF that] others(1) by (cases "d_id d = i") auto
  moreover have "revision_ok env db' x" if "x \<in> set (ws_revisions db')" for x
    using that add others(3) [OF docs(2)] others(4) [OF id docs(3)] by (auto simp: adds_revision_def)
  moreover have "artifact_ok env db' b" if "b \<in> set (ws_artifacts db')" for b
    using that add frame(6) others(5) [OF id(1)] by (auto simp: adds_revision_def)
  ultimately show ?thesis using docs(1) frame(7,8) by (simp add: docs_ok_def)
qed

lemma create_keeps_ok:
  assumes ok: "docs_ok env db" and new: "trim (dw_artifact_id dw) = dw_artifact_id dw" "dw_artifact_id dw \<noteq> []"
    and create: "create_document env actorID inp content ct refs dw db0 db = Inr (row, r, db')"
    and trimmed: "trim (dw_document_id dw) = dw_document_id dw"
  shows "docs_ok env db'"
proof -
  obtain a where a: "adds_revision env (d_id row) content r a db db'"
    and docs: "ws_documents db' = ws_documents db @ [row]" "d_id row \<notin> d_id ` set (ws_documents db)"
    and row: "validate_document_id (d_id row)" "d_head_revision_id row = dw_artifact_id dw" "d_head_revision_number row = 1"
    and r: "dr_revision_id r = dw_artifact_id dw" "dr_number r = 1" "dr_prev_revision_id r = None"
      "dr_hash r = compute_revision_hash (de_hash env) (de_hash env content) [] (d_id row) 1 (dr_created_at r) (dr_created_by r)"
    and id: "trim (dw_document_id dw) = dw_document_id dw \<longrightarrow> trim (d_id row) = d_id row"
    by (rule create_effect [OF create]) (rule that)
  have none: "revisions_of (d_id row) db = []"
    using ok docs(2) unfolding revisions_of_def filter_empty_conv docs_ok_def revision_ok_def by metis
  have "document_ok env db' row"
    using row r trimmed id adds_frame(1,3) [OF ok a] none by (simp add: document_ok_def)
  then have "document_ok env db' d" if "d \<in> set (ws_documents db')" "d_id d = d_id row" for d
    using that docs by (metis UnE image_eqI list.set(1) list.set(2) set_append singletonD)
  then show ?thesis
    using ok docs new r(1) by (intro docs_ok_added [OF ok a]) (auto simp: docs_ok_def)
qed

lemma update_keeps_ok:
  assumes ok: "docs_ok env db" and new: "trim (dw_artifact_id dw) = dw_artifact_id dw" "dw_artifact_id dw \<noteq> []"
    and commit: "commit_revision env actorID i old d base prevHash content ct revRefs prov plan dw db = Inr (row, r, db')"
    and old: "d_head_revision_id old = base"
    and same: "\<And>x. x \<in> set (ws_documents db) \<Longrightarrow> d_id x = i \<Longrightarrow> d_head_revision_id x = base \<Longrightarrow>
       d_head_revision_number old = length (revisions_of i db) \<and> prevHash = dr_hash (last (revisions_of i db))"
  shows "docs_ok env db'"
proof -
  obtain a threadID where a: "adds_revision env i content r a db db'"
    and docs: "ws_documents db' = map (\<lambda>x. if d_id x = i \<and> d_head_revision_id x = base
       then write_document_head actorID threadID old d dw x else x) (ws_documents db)"
    and ex: "\<exists>x\<in>set (ws_documents db). d_id x = i \<and> d_head_revision_id x = base"
    and r: "dr_revision_id r = dw_artifact_id dw" "dr_number r = d_head_revision_number old + 1"
    "dr_prev_revision_id r = Some (d_head_revision_id old)"
    "dr_hash r = compute_revision_hash (de_hash env) (de_hash env content) prevHash i (dr_number r) (dr_created_at r) (dr_created_by r)"
    by (rule commit_effect [OF commit]) (rule that)
  obtain x where x: "x \<in> set (ws_documents db)" "d_id x = i" "d_head_revision_id x = base" using ex by blast
  let ?rs = "revisions_of i db"
  let ?upd = "write_document_head actorID threadID old d dw"
  have okx: "document_ok env db x" using ok x(1) by (simp add: docs_ok_def)
  then have rs: "?rs \<noteq> []" "base = dr_revision_id (last ?rs)" "chain env (content_hash_of db) i None [] 1 ?rs"
    using x by (auto simp: document_ok_def Let_def)
  have ids: "map d_id (ws_documents db') = map d_id (ws_documents db)"
    by (simp add: docs write_document_head_def comp_def)
  have "document_ok env db' (?upd x)"
    using okx x(2) r rs same [OF x] old adds_frame(1,3) [OF ok a] adds_others(2) [OF ok a]
    by (simp add: document_ok_def write_document_head_def chain_snoc Let_def)
  moreover have "y = x" if "y \<in> set (ws_documents db)" "d_id y = i" for y
    using ok that x by (auto simp: docs_ok_def distinct_map inj_on_def)
  ultimately have here: "document_ok env db' y" if "y \<in> set (ws_documents db')" "d_id y = i" for y
    using that x(3) by (auto simp: docs split: if_splits)
  show ?thesis
  proof (rule docs_ok_added [OF ok a])
    show "distinct (map d_id (ws_documents db'))" using ids ok by (simp add: docs_ok_def)
    show "d_id ` set (ws_documents db) \<subseteq> d_id ` set (ws_documents db')" "i \<in> d_id ` set (ws_documents db')"
      using ids x(1,2) by (metis list.set_map order_refl, metis image_eqI list.set_map)
    show "y \<in> set (ws_documents db)" if "y \<in> set (ws_documents db')" "d_id y \<noteq> i" for y
      using that by (auto simp: docs write_document_head_def split: if_splits)
  qed (use new r(1) here in auto)
qed

section \<open>The other operations\<close>

lemma docs_ok_same:
  assumes "docs_ok env db" "ws_documents db' = map f (ws_documents db)"
    "\<And>d. d_id (f d) = d_id d \<and> d_head_revision_id (f d) = d_head_revision_id d \<and> d_head_revision_number (f d) = d_head_revision_number d"
    "ws_revisions db' = ws_revisions db" "ws_artifacts db' = ws_artifacts db" "ws_blobs db' = ws_blobs db"
  shows "docs_ok env db'"
proof -
  have find: "find_artifact k db' = find_artifact k db" for k using assms(5) by (simp add: find_artifact_def)
  have ch: "content_hash_of db' = content_hash_of db" by (rule ext) (simp add: content_hash_of_def find)
  have ids: "map d_id (ws_documents db') = map d_id (ws_documents db)" using assms(2,3) by simp
  then have set_ids: "d_id ` set (ws_documents db') = d_id ` set (ws_documents db)" by (metis list.set_map)
  have revs: "revisions_of i db' = revisions_of i db" for i by (simp add: revisions_of_def assms(4))
  have doc: "document_ok env db' (f d) = document_ok env db d" for d
    by (simp add: document_ok_def revs ch assms(3))
  have rev: "revision_ok env db' r = revision_ok env db r" for r by (simp add: revision_ok_def find set_ids)
  have art: "artifact_ok env db' a = artifact_ok env db a" for a by (simp add: artifact_ok_def assms(6))
  show ?thesis
    using assms(1) unfolding docs_ok_def ids assms(4,5) rev art by (simp add: assms(2) doc)
qed

text \<open>The operations on the row of a document alone, or with an event.\<close>

definition touches_rows :: "ws_db \<Rightarrow> ws_db \<Rightarrow> bool" where
  "touches_rows db db' \<longleftrightarrow>
     ws_revisions db' = ws_revisions db \<and> ws_artifacts db' = ws_artifacts db \<and> ws_blobs db' = ws_blobs db \<and>
     (\<exists>f. ws_documents db' = map f (ws_documents db) \<and>
        (\<forall>d. d_id (f d) = d_id d \<and> d_head_revision_id (f d) = d_head_revision_id d \<and>
             d_head_revision_number (f d) = d_head_revision_number d \<and> d_handle (f d) = d_handle d))"

lemma touches_ok: "docs_ok env db \<Longrightarrow> touches_rows db db' \<Longrightarrow> docs_ok env db'"
  by (auto simp: touches_rows_def intro: docs_ok_same)

lemma touches_refl: "ws_revisions db' = ws_revisions db \<Longrightarrow> ws_artifacts db' = ws_artifacts db \<Longrightarrow>
    ws_blobs db' = ws_blobs db \<Longrightarrow> ws_documents db' = ws_documents db \<Longrightarrow> touches_rows db db'"
  unfolding touches_rows_def by (auto intro: exI [of _ "\<lambda>d. d"])

lemma touches_update:
  assumes "\<And>d. d_id (f d) = d_id d \<and> d_head_revision_id (f d) = d_head_revision_id d \<and> d_head_revision_number (f d) = d_head_revision_number d \<and>
    d_handle (f d) = d_handle d"
  shows "touches_rows db (update_document_rows P f db)"
  unfolding touches_rows_def update_document_rows_def
  using assms by (auto intro!: exI [of _ "\<lambda>d. if P d then f d else d"])

lemma touches_event: "insert_event actorID i ts ev db1 = Inr db2 \<Longrightarrow> touches_rows db db1 \<Longrightarrow> touches_rows db db2"
  by (auto simp: touches_rows_def dest!: insert_event_Inr)

lemmas lifecycle_rows = trash_document_row_def archive_document_row_def unarchive_document_row_def untrash_document_row_def

lemma trash_touches: "trash_document actorID i reason dw db0 db = Inr (d, db') \<Longrightarrow> touches_rows db db'"
  unfolding trash_document_def Let_def bind_res_Inr_iff
  by (auto simp: bind_res_Inr_iff lifecycle_rows intro: touches_refl touches_event [OF _ touches_update] split: if_splits)

lemma archive_touches: "archive_document actorID i now db0 db = Inr (d, db') \<Longrightarrow> touches_rows db db'"
  unfolding archive_document_def Let_def
  by (auto simp: bind_res_Inr_iff lifecycle_rows intro: touches_refl touches_update split: if_splits)

lemma unarchive_touches: "unarchive_document actorID i db0 db = Inr (d, db') \<Longrightarrow> touches_rows db db'"
  unfolding unarchive_document_def
  by (auto simp: bind_res_Inr_iff lifecycle_rows intro: touches_update split: if_splits)

lemma restore_touches: "restore_document actorID i reason dw db0 db = Inr (d, db') \<Longrightarrow> touches_rows db db'"
  unfolding restore_document_def
  by (auto simp: bind_res_Inr_iff lifecycle_rows intro: touches_event [OF _ touches_update] split: if_splits)

lemma patch_touches: "patch_document actorID i summary upd now db0 db = Inr (x, db') \<Longrightarrow> touches_rows db db'"
  unfolding patch_document_def Let_def
  by (auto simp: bind_res_Inr_iff intro: touches_update split: if_splits)

section \<open>Purging\<close>

lemma fold_owned_edges:
  "\<exists>es. fold delete_owned_edges items db = db\<lparr>ws_edges := es\<rparr>"
proof (induction items arbitrary: db)
  case Nil
  show ?case by (rule exI [of _ "ws_edges db"]) simp
next
  case (Cons item items)
  have "\<exists>es. delete_owned_edges item db = db\<lparr>ws_edges := es\<rparr>"
    by (cases item) (auto simp: delete_owned_edges_def delete_edges_of_def Let_def intro: exI [of _ "ws_edges db"])
  then obtain es where "delete_owned_edges item db = db\<lparr>ws_edges := es\<rparr>" by blast
  with Cons.IH [of "db\<lparr>ws_edges := es\<rparr>"] show ?case by auto
qed

lemma purge_rows_effect:
  assumes "purge_document_rows i0 db = Inr (gone, db')"
  obtains d arts where "find_document (trim i0) db = Some d" "d_trashed_at d \<noteq> None"
    "ws_documents db' = filter (\<lambda>d. d_id d \<noteq> trim i0) (ws_documents db)"
    "ws_revisions db' = filter (\<lambda>r. dr_document_id r \<noteq> trim i0) (ws_revisions db)"
    "ws_artifacts db' = filter (\<lambda>a. da_id a \<notin> arts) (ws_artifacts db)"
    "arts = (fst \<circ> snd) ` set (owned_revisions (trim i0) db) - {[]}"
    "ws_blobs db' = ws_blobs db" "\<And>h a. h \<in> set gone \<Longrightarrow> a \<in> set (ws_artifacts db') \<Longrightarrow> da_content_hash a \<noteq> h"
    "ws_ledger db' = fold remove_blob_ledger_entry gone (ws_ledger db)" "ws_threads db' = ws_threads db" "ws_events db' = ws_events db"
proof -
  let ?i = "trim i0"
  obtain es where es: "fold delete_owned_edges (owned_revisions ?i db) (delete_edges_of ''document'' ?i db) =
      (delete_edges_of ''document'' ?i db)\<lparr>ws_edges := es\<rparr>"
    using fold_owned_edges by blast
  obtain d where d: "find_document ?i db = Some d" "d_trashed_at d \<noteq> None"
    using assms by (auto simp: purge_document_rows_def Let_def split: if_splits option.splits)
  show thesis
    using assms d es
    by (intro that [OF d, of "(fst \<circ> snd) ` set (owned_revisions ?i db) - {[]}"])
      (auto simp: purge_document_rows_def Let_def delete_edges_of_def list_ex_iff split: if_splits intro!: filter_cong)
qed

lemma find_filter: "(\<And>x. x \<in> set xs \<Longrightarrow> P x \<Longrightarrow> Q x) \<Longrightarrow> find P (filter Q xs) = find P xs"
  by (induction xs) auto

lemma owned_ids_iff:
  "x \<in> (fst \<circ> snd) ` set (owned_revisions i db) \<longleftrightarrow>
     (\<exists>r\<in>set (revisions_of i db). \<exists>a\<in>set (ws_artifacts db). da_id a = dr_artifact_id r \<and> x = trim (da_id a))"
proof
  assume "x \<in> (fst \<circ> snd) ` set (owned_revisions i db)"
  then show "\<exists>r\<in>set (revisions_of i db). \<exists>a\<in>set (ws_artifacts db). da_id a = dr_artifact_id r \<and> x = trim (da_id a)"
    by (fastforce simp: owned_revisions_def revisions_of_def split: if_splits)
next
  assume "\<exists>r\<in>set (revisions_of i db). \<exists>a\<in>set (ws_artifacts db). da_id a = dr_artifact_id r \<and> x = trim (da_id a)"
  then obtain r a where "r \<in> set (ws_revisions db)" "dr_document_id r = i" "a \<in> set (ws_artifacts db)"
    "da_id a = dr_artifact_id r" "x = trim (da_id a)" by (auto simp: revisions_of_def)
  then have "(trim (dr_revision_id r), x, trim (da_content_hash a)) \<in> set (owned_revisions i db)"
    by (auto simp: owned_revisions_def intro!: bexI [of _ r])
  then show "x \<in> (fst \<circ> snd) ` set (owned_revisions i db)" by force
qed

lemma owned_artifact_ids:
  assumes "docs_ok env db"
  shows "(fst \<circ> snd) ` set (owned_revisions i db) - {[]} = dr_revision_id ` set (revisions_of i db)"
proof (rule set_eqI)
  fix x
  have ok: "dr_artifact_id r = dr_revision_id r" "dr_revision_id r \<noteq> []" "trim (dr_revision_id r) = dr_revision_id r"
    "find_artifact (dr_revision_id r) db \<noteq> None" if "r \<in> set (revisions_of i db)" for r
    using assms that by (auto simp: revisions_of_def docs_ok_def revision_ok_def)
  have art: "\<exists>a\<in>set (ws_artifacts db). da_id a = dr_revision_id r" if "r \<in> set (revisions_of i db)" for r
    using ok(4) [OF that] by (auto simp: find_artifact_def find_None_iff simp del: not_None_eq)
  show "x \<in> (fst \<circ> snd) ` set (owned_revisions i db) - {[]} \<longleftrightarrow> x \<in> dr_revision_id ` set (revisions_of i db)"
  proof
    assume "x \<in> dr_revision_id ` set (revisions_of i db)"
    then obtain r where r: "r \<in> set (revisions_of i db)" "x = dr_revision_id r" by blast
    obtain a where "a \<in> set (ws_artifacts db)" "da_id a = dr_revision_id r" using art [OF r(1)] by blast
    then show "x \<in> (fst \<circ> snd) ` set (owned_revisions i db) - {[]}"
      using r ok [OF r(1)] unfolding Diff_iff owned_ids_iff by (metis singletonD)
  qed (use ok in \<open>unfold Diff_iff owned_ids_iff, auto\<close>)
qed

text \<open>A purge takes the revisions and artifacts of one document; the others are as they were, with their contents.\<close>

lemma purge_rows_ok:
  assumes ok: "docs_ok env db" and purge: "purge_document_rows i0 db = Inr (gone, db')"
  shows "docs_ok env (delete_blobs gone db')" "docs_ok env db'"
    "ws_documents db' = filter (\<lambda>d. d_id d \<noteq> trim i0) (ws_documents db)"
    "ws_revisions db' = filter (\<lambda>r. dr_document_id r \<noteq> trim i0) (ws_revisions db)"
    "ws_artifacts db' = filter (\<lambda>a. da_id a \<notin> dr_revision_id ` set (revisions_of (trim i0) db)) (ws_artifacts db)"
    "\<exists>d\<in>set (ws_documents db). d_id d = trim i0 \<and> d_trashed_at d \<noteq> None"
    "j \<noteq> trim i0 \<Longrightarrow> revisions_of j db' = revisions_of j db"
    "r \<in> set (ws_revisions db') \<Longrightarrow> find_artifact (dr_artifact_id r) db' = find_artifact (dr_artifact_id r) db"
proof -
  let ?i = "trim i0"
  obtain d arts where d: "find_document ?i db = Some d" "d_trashed_at d \<noteq> None"
    and docs: "ws_documents db' = filter (\<lambda>d. d_id d \<noteq> ?i) (ws_documents db)"
    and revs: "ws_revisions db' = filter (\<lambda>r. dr_document_id r \<noteq> ?i) (ws_revisions db)"
    and arts: "ws_artifacts db' = filter (\<lambda>a. da_id a \<notin> arts) (ws_artifacts db)"
    and owned: "arts = (fst \<circ> snd) ` set (owned_revisions ?i db) - {[]}"
    and blobs: "ws_blobs db' = ws_blobs db"
    and gone: "\<And>h a. h \<in> set gone \<Longrightarrow> a \<in> set (ws_artifacts db') \<Longrightarrow> da_content_hash a \<noteq> h"
    by (rule purge_rows_effect [OF purge]) (rule that)
  have ids: "arts = dr_revision_id ` set (revisions_of ?i db)" unfolding owned by (rule owned_artifact_ids [OF ok])
  show "ws_documents db' = filter (\<lambda>d. d_id d \<noteq> ?i) (ws_documents db)"
    "ws_revisions db' = filter (\<lambda>r. dr_document_id r \<noteq> ?i) (ws_revisions db)"
    "ws_artifacts db' = filter (\<lambda>a. da_id a \<notin> dr_revision_id ` set (revisions_of ?i db)) (ws_artifacts db)"
    by (simp_all add: docs revs arts ids)
  show "\<exists>d\<in>set (ws_documents db). d_id d = ?i \<and> d_trashed_at d \<noteq> None"
    using d by (auto simp: find_document_def find_Some_iff intro: nth_mem)
  show rest: "revisions_of j db' = revisions_of j db" if "j \<noteq> ?i" for j
    using that by (auto simp: revisions_of_def revs intro: filter_cong)
  have unique: "inj_on dr_revision_id (set (ws_revisions db))" using ok by (simp add: docs_ok_def distinct_map)
  have kept: "dr_artifact_id r \<notin> arts" if "r \<in> set (ws_revisions db')" for r
    using that ok unique by (auto simp: revs ids revisions_of_def docs_ok_def revision_ok_def dest: inj_onD)
  show find: "find_artifact (dr_artifact_id r) db' = find_artifact (dr_artifact_id r) db" if "r \<in> set (ws_revisions db')" for r
    using kept [OF that] by (auto simp: find_artifact_def arts intro: find_filter)
  have ch: "content_hash_of db' r = content_hash_of db r" if "r \<in> set (ws_revisions db')" for r
    by (simp add: content_hash_of_def find [OF that])
  have doc: "document_ok env db' x" if x: "x \<in> set (ws_documents db')" for x
  proof -
    have x': "document_ok env db x" "d_id x \<noteq> ?i" using ok x by (auto simp: docs docs_ok_def)
    have "chain env (content_hash_of db') (d_id x) None [] 1 (revisions_of (d_id x) db) =
        chain env (content_hash_of db) (d_id x) None [] 1 (revisions_of (d_id x) db)"
      using ch rest [OF x'(2)] by (intro chain_cong) (metis filter_is_subset revisions_of_def subsetD)
    with x' rest [OF x'(2)] show ?thesis by (simp add: document_ok_def Let_def)
  qed
  have rev: "revision_ok env db' x" if "x \<in> set (ws_revisions db')" for x
    using that ok find [OF that] by (auto simp: docs_ok_def revision_ok_def revs docs)
  have art: "artifact_ok env (delete_blobs gone db') a" "artifact_ok env db' a" if "a \<in> set (ws_artifacts db')" for a
    using that ok gone [OF _ that] by (auto simp: docs_ok_def artifact_ok_def arts delete_blobs_of blobs)
  have dist: "distinct (map d_id (ws_documents db'))" "distinct (map dr_revision_id (ws_revisions db'))" "distinct (map da_id (ws_artifacts db'))"
    using ok by (simp_all add: docs_ok_def docs revs arts distinct_map_filter)
  with doc rev art show ok': "docs_ok env db'" by (simp add: docs_ok_def)
  have same: "ws_documents (delete_blobs gone db') = ws_documents db'" "ws_revisions (delete_blobs gone db') = ws_revisions db'"
    "ws_artifacts (delete_blobs gone db') = ws_artifacts db'" by (simp_all add: delete_blobs_def)
  have "document_ok env (delete_blobs gone db') x = document_ok env db' x" "revision_ok env (delete_blobs gone db') y = revision_ok env db' y" for x y
    by (simp_all add: document_ok_def revision_ok_def revisions_of_def content_hash_of_def find_artifact_def same [simplified] cong: chain_cong)
  with doc rev art dist show "docs_ok env (delete_blobs gone db')" by (simp add: docs_ok_def same)
qed

end
