(* ===== verification/DocumentHistories.thy ===== *)
theory DocumentHistories
  imports DocumentChains
begin

text \<open>
  Histories of document operations.  The newest database is the head of a history; an operation writes it and may have
  read any of the earlier ones.  New ids are UUIDs, which the history has not used before.
\<close>

section \<open>Steps\<close>

definition used_ids :: "ws_db list \<Rightarrow> string set" where
  "used_ids hist = (\<Union>db\<in>set hist. dr_revision_id ` set (ws_revisions db) \<union> da_id ` set (ws_artifacts db))"

definition fresh_draw :: "ws_db list \<Rightarrow> doc_draw \<Rightarrow> bool" where
  "fresh_draw hist dw \<longleftrightarrow> trim (dw_artifact_id dw) = dw_artifact_id dw \<and> dw_artifact_id dw \<noteq> [] \<and>
     dw_artifact_id dw \<notin> used_ids hist \<and> trim (dw_document_id dw) = dw_document_id dw"

text \<open>
  A purge that nothing disturbs is one step, its transaction and its deletions of blobs; the transaction and the deletions
  are also steps of their own, between which any others can come, a deletion when nothing refers to the blob.  Where a blob is
  in use again by then is the subject of \<open>DocumentRaces\<close>.  The last step is any change to the other tables (threads, events, edges, names, the ledger) and to artifacts that are not
  those of a revision, as long as every artifact keeps its content.
\<close>

definition owned_kept :: "ws_db \<Rightarrow> ws_db \<Rightarrow> bool" where
  "owned_kept db db' \<longleftrightarrow>
     (\<forall>r\<in>set (ws_revisions db). r \<in> set (ws_revisions db') \<longrightarrow>
        find_artifact (dr_artifact_id r) db' = find_artifact (dr_artifact_id r) db)"

definition artifacts_ok :: "doc_env \<Rightarrow> ws_db \<Rightarrow> bool" where
  "artifacts_ok env db \<longleftrightarrow> distinct (map da_id (ws_artifacts db)) \<and> (\<forall>a\<in>set (ws_artifacts db). artifact_ok env db a)"

inductive doc_step :: "doc_env \<Rightarrow> ws_db list \<Rightarrow> ws_db \<Rightarrow> ws_db \<Rightarrow> bool" for env hist where
  step_create: "db0 \<in> set hist \<Longrightarrow> fresh_draw hist dw \<Longrightarrow>
     create_document env actorID inp content ct refs dw db0 db = Inr (row, r, db') \<Longrightarrow> doc_step env hist db db'"
| step_update: "db0 \<in> set hist \<Longrightarrow> fresh_draw hist dw \<Longrightarrow>
     update_document env actorID i patch base content ct refs prov dw db0 db = Inr (row, r, db') \<Longrightarrow> doc_step env hist db db'"
| step_patch: "patch_document actorID i summary upd now db0 db = Inr (x, db') \<Longrightarrow> doc_step env hist db db'"
| step_trash: "trash_document actorID i reason dw db0 db = Inr (d, db') \<Longrightarrow> doc_step env hist db db'"
| step_archive: "archive_document actorID i now db0 db = Inr (d, db') \<Longrightarrow> doc_step env hist db db'"
| step_unarchive: "unarchive_document actorID i db0 db = Inr (d, db') \<Longrightarrow> doc_step env hist db db'"
| step_restore: "restore_document actorID i reason dw db0 db = Inr (d, db') \<Longrightarrow> doc_step env hist db db'"
| step_purge: "purge_document i db = Inr db' \<Longrightarrow> doc_step env hist db db'"
| step_commit: "purge_document_rows i db = Inr (gone, db') \<Longrightarrow> doc_step env hist db db'"
| step_delete: "\<forall>a\<in>set (ws_artifacts db). da_content_hash a \<notin> set hs \<Longrightarrow> doc_step env hist db (delete_blobs hs db)"
| step_other: "ws_documents db' = ws_documents db \<Longrightarrow> ws_revisions db' = ws_revisions db \<Longrightarrow>
     owned_kept db db' \<Longrightarrow> artifacts_ok env db' \<Longrightarrow> doc_step env hist db db'"

inductive doc_history :: "doc_env \<Rightarrow> ws_db list \<Rightarrow> bool" for env where
  history_start: "ws_documents db = [] \<Longrightarrow> ws_revisions db = [] \<Longrightarrow> ws_artifacts db = [] \<Longrightarrow> doc_history env [db]"
| history_step: "doc_history env hist \<Longrightarrow> doc_step env hist (hd hist) db' \<Longrightarrow> doc_history env (db' # hist)"

inductive_cases doc_historyE: "doc_history env hist"

text \<open>
  All databases of a history are in order, and the id of a revision stands for the same row, with the same artifact, in all of
  them.
\<close>

definition agree :: "ws_db \<Rightarrow> ws_db \<Rightarrow> bool" where
  "agree a b \<longleftrightarrow>
     (\<forall>r\<in>set (ws_revisions a). \<forall>s\<in>set (ws_revisions b). dr_revision_id r = dr_revision_id s \<longrightarrow> r = s) \<and>
     owned_kept a b"

definition history_ok :: "doc_env \<Rightarrow> ws_db list \<Rightarrow> bool" where
  "history_ok env hist \<longleftrightarrow> hist \<noteq> [] \<and> (\<forall>db\<in>set hist. docs_ok env db) \<and> (\<forall>a\<in>set hist. \<forall>b\<in>set hist. agree a b)"

text \<open>What a step does to the revisions: it adds a fresh one, takes those of one document, or leaves them.\<close>

definition revisions_move :: "ws_db list \<Rightarrow> ws_db \<Rightarrow> ws_db \<Rightarrow> bool" where
  "revisions_move hist db db' \<longleftrightarrow>
     (ws_revisions db' = ws_revisions db \<or>
      (\<exists>r. ws_revisions db' = ws_revisions db @ [r] \<and> dr_revision_id r \<notin> used_ids hist) \<or>
      (\<exists>i. ws_revisions db' = filter (\<lambda>r. dr_document_id r \<noteq> i) (ws_revisions db))) \<and>
     owned_kept db db'"

lemma purge_document_Inr:
  "purge_document i db = Inr db' \<Longrightarrow> \<exists>gone db1. purge_document_rows i db = Inr (gone, db1) \<and> db' = delete_blobs gone db1"
  by (auto simp: purge_document_def bind_res_Inr_iff)

lemma owned_kept_same: "ws_artifacts db' = ws_artifacts db \<Longrightarrow> owned_kept db db'"
  by (simp add: owned_kept_def find_artifact_def)

lemma owned_kept_append:
  assumes "docs_ok env db" "ws_artifacts db' = ws_artifacts db @ as"
  shows "owned_kept db db'"
  using assms by (auto simp: owned_kept_def find_artifact_def find_append docs_ok_def revision_ok_def split: option.split)

lemma touches_move: "touches_rows db db' \<Longrightarrow> revisions_move hist db db'"
  by (simp add: touches_rows_def revisions_move_def owned_kept_same)

lemma other_ok:
  assumes "docs_ok env db" "ws_documents db' = ws_documents db" "ws_revisions db' = ws_revisions db" "owned_kept db db'"
    "artifacts_ok env db'"
  shows "docs_ok env db'"
proof -
  have find: "find_artifact (dr_artifact_id r) db' = find_artifact (dr_artifact_id r) db" if "r \<in> set (ws_revisions db)" for r
    using that assms(3,4) by (simp add: owned_kept_def)
  have revs: "revisions_of i db' = revisions_of i db" for i by (simp add: revisions_of_def assms(3))
  have "document_ok env db' d" if "d \<in> set (ws_documents db)" for d
  proof -
    have "chain env (content_hash_of db') (d_id d) None [] 1 (revisions_of (d_id d) db) =
        chain env (content_hash_of db) (d_id d) None [] 1 (revisions_of (d_id d) db)"
      using find by (intro chain_cong) (auto simp: content_hash_of_def revisions_of_def)
    then show ?thesis using that assms(1) by (auto simp: docs_ok_def document_ok_def Let_def revs)
  qed
  moreover have "revision_ok env db' r" if "r \<in> set (ws_revisions db)" for r
    using that assms(1,2) find [OF that] by (auto simp: docs_ok_def revision_ok_def)
  ultimately show ?thesis using assms by (simp add: docs_ok_def artifacts_ok_def)
qed

lemma head_facts:
  assumes "docs_ok env db" "d \<in> set (ws_documents db)"
  shows "last (revisions_of (d_id d) db) \<in> set (ws_revisions db)" "dr_document_id (last (revisions_of (d_id d) db)) = d_id d"
    "dr_revision_id (last (revisions_of (d_id d) db)) = d_head_revision_id d"
    "dr_number (last (revisions_of (d_id d) db)) = d_head_revision_number d"
    "d_head_revision_number d = length (revisions_of (d_id d) db)" "revisions_of (d_id d) db \<noteq> []"
proof -
  let ?rs = "revisions_of (d_id d) db"
  have rs: "?rs \<noteq> []" "d_head_revision_id d = dr_revision_id (last ?rs)" "d_head_revision_number d = length ?rs"
    "chain env (content_hash_of db) (d_id d) None [] 1 ?rs"
    using assms unfolding docs_ok_def document_ok_def Let_def by blast+
  have "last ?rs \<in> set ?rs" using rs(1) by simp
  then show "last ?rs \<in> set (ws_revisions db)" "dr_document_id (last ?rs) = d_id d" by (auto simp: revisions_of_def)
  have "dr_number (last ?rs) = last (map dr_number ?rs)" using rs(1) by (simp add: last_map)
  also have "\<dots> = length ?rs"
    using rs(1) unfolding chain_numbers [OF rs(4)] by (cases "revisions_of (d_id d) db") (simp_all add: last_upt)
  finally show "dr_number (last ?rs) = d_head_revision_number d" unfolding rs(3) .
  show "dr_revision_id (last ?rs) = d_head_revision_id d" "d_head_revision_number d = length ?rs" "?rs \<noteq> []"
    using rs(1-3) by simp_all
qed

text \<open>The head that an update read, and the row it writes, agree on the number and the hash of that revision.\<close>

lemma same_head:
  assumes hist: "history_ok env hist" and db: "db0 \<in> set hist" "db \<in> set hist"
    and old: "load_document_row i db0 = Inr old"
    and x: "x \<in> set (ws_documents db)" "d_id x = i" "d_head_revision_id x = d_head_revision_id old"
  shows "d_head_revision_number old = length (revisions_of i db)"
    "previous_revision_hash i (d_head_revision_id old) db0 = dr_hash (last (revisions_of i db))"
proof -
  have ok: "docs_ok env db0" "docs_ok env db" using hist db by (auto simp: history_ok_def)
  have o: "old \<in> set (ws_documents db0)" "d_id old = trim i" using load_document_row_Inr [OF old] by auto
  have "trim i = i" using ok(2) x(1,2) by (auto simp: docs_ok_def document_ok_def)
  with o have oi: "d_id old = i" by simp
  note f0 = head_facts [OF ok(1) o(1), unfolded oi] and f = head_facts [OF ok(2) x(1), unfolded x(2)]
  have same: "last (revisions_of i db0) = last (revisions_of i db)"
    using hist db f0(1,3) f(1,3) x(3) unfolding history_ok_def agree_def by metis
  then show "d_head_revision_number old = length (revisions_of i db)" using f0(4) f(4,5) by simp
  have "find (\<lambda>r. dr_document_id r = i \<and> dr_revision_id r = d_head_revision_id old) (ws_revisions db0) = Some (last (revisions_of i db0))"
  proof -
    have "\<exists>r. find (\<lambda>r. dr_document_id r = i \<and> dr_revision_id r = d_head_revision_id old) (ws_revisions db0) = Some r"
      using f0(1-3) by (metis (mono_tags, lifting) find_None_iff not_Some_eq)
    then obtain r where r: "find (\<lambda>r. dr_document_id r = i \<and> dr_revision_id r = d_head_revision_id old) (ws_revisions db0) = Some r" ..
    then have "r \<in> set (ws_revisions db0)" "dr_revision_id r = d_head_revision_id old" by (auto simp: find_Some_iff)
    with f0(1,3) have "r = last (revisions_of i db0)" using ok(1) by (auto simp: docs_ok_def distinct_map inj_on_def)
    with r show ?thesis by simp
  qed
  then show "previous_revision_hash i (d_head_revision_id old) db0 = dr_hash (last (revisions_of i db))"
    by (simp add: previous_revision_hash_def same)
qed

lemma adds_move:
  "docs_ok env db \<Longrightarrow> adds_revision env i content r a db db' \<Longrightarrow> dr_revision_id r \<notin> used_ids hist \<Longrightarrow>
   revisions_move hist db db'"
  unfolding adds_revision_def revisions_move_def using owned_kept_append by blast

lemma step_ok:
  assumes hist: "history_ok env hist" and "doc_step env hist db db'" and db: "db \<in> set hist"
  shows "docs_ok env db' \<and> revisions_move hist db db'"
proof -
  have ok: "docs_ok env db" using hist db by (auto simp: history_ok_def)
  have rows: ?thesis if "touches_rows db db'" using touches_ok [OF ok that] touches_move [OF that] by blast
  show ?thesis
    using assms(2)
  proof cases
    case (step_create db0 dw actorID inp content ct refs row r)
    have fresh: "trim (dw_artifact_id dw) = dw_artifact_id dw" "dw_artifact_id dw \<noteq> []" "dw_artifact_id dw \<notin> used_ids hist"
      "trim (dw_document_id dw) = dw_document_id dw" using step_create(2) by (simp_all add: fresh_draw_def)
    obtain a where "adds_revision env (d_id row) content r a db db'" "dr_revision_id r = dw_artifact_id dw"
      by (rule create_effect [OF step_create(3)]) (rule that)
    then show ?thesis
      using create_keeps_ok [OF ok fresh(1,2) step_create(3) fresh(4)] adds_move [OF ok] fresh(3) by metis
  next
    case (step_update db0 dw actorID i patch base content ct refs prov row r)
    have fresh: "trim (dw_artifact_id dw) = dw_artifact_id dw" "dw_artifact_id dw \<noteq> []" "dw_artifact_id dw \<notin> used_ids hist"
      using step_update(2) by (simp_all add: fresh_draw_def)
    obtain ct' doc d plan revRefs where doc: "load_document_row i db0 = Inr doc"
      "d_head_revision_id doc = resolve_base_revision (trim base) db0"
      and commit: "commit_revision env (trim actorID) i doc d (resolve_base_revision (trim base) db0)
         (previous_revision_hash i (d_head_revision_id doc) db0) content ct' revRefs prov plan dw db = Inr (row, r, db')"
      by (rule update_steps [OF step_update(3)]) (rule that)
    have "docs_ok env db'"
      by (rule update_keeps_ok [OF ok fresh(1,2) commit doc(2)])
        (use same_head [OF hist step_update(1) db doc(1)] doc(2) in \<open>simp add: doc(2)\<close>)
    moreover obtain a where "adds_revision env i content r a db db'" "dr_revision_id r = dw_artifact_id dw"
      by (rule commit_effect [OF commit]) (rule that)
    ultimately show ?thesis using adds_move [OF ok] fresh(3) by metis
  next
    case (step_purge i)
    then obtain gone db1 where p: "purge_document_rows i db = Inr (gone, db1)" "db' = delete_blobs gone db1"
      using purge_document_Inr by blast
    have "ws_revisions db' = filter (\<lambda>r. dr_document_id r \<noteq> trim i) (ws_revisions db)"
      using purge_rows_ok(4) [OF ok p(1)] p(2) by (simp add: delete_blobs_def)
    moreover have "owned_kept db db'"
      using purge_rows_ok(8) [OF ok p(1)] p(2) by (simp add: owned_kept_def delete_blobs_def find_artifact_def)
    ultimately have "revisions_move hist db db'" unfolding revisions_move_def by blast
    then show ?thesis using purge_rows_ok(1) [OF ok p(1)] p(2) by simp
  next
    case (step_commit i gone)
    note p = purge_rows_ok [OF ok step_commit]
    have "owned_kept db db'" using p(8) by (simp add: owned_kept_def find_artifact_def)
    then show ?thesis using p(2,4) unfolding revisions_move_def by blast
  next
    case (step_delete hs)
    have "artifacts_ok env db'"
      using ok step_delete(2) by (auto simp: step_delete(1) artifacts_ok_def docs_ok_def artifact_ok_def delete_blobs_of)
    moreover have "ws_documents db' = ws_documents db" "ws_revisions db' = ws_revisions db" "ws_artifacts db' = ws_artifacts db"
      by (simp_all add: step_delete(1) delete_blobs_def)
    ultimately show ?thesis using other_ok [OF ok] by (simp add: revisions_move_def owned_kept_same)
  next
    case step_other
    then show ?thesis using other_ok [OF ok step_other] by (simp add: revisions_move_def)
  next
    case step_patch
    then show ?thesis by (intro rows) (rule patch_touches)
  next
    case step_trash
    then show ?thesis by (intro rows) (rule trash_touches)
  next
    case step_archive
    then show ?thesis by (intro rows) (rule archive_touches)
  next
    case step_unarchive
    then show ?thesis by (intro rows) (rule unarchive_touches)
  next
    case step_restore
    then show ?thesis by (intro rows) (rule restore_touches)
  qed
qed

lemma revisions_move_known:
  assumes "revisions_move hist db db'"
  shows "r \<in> set (ws_revisions db') \<Longrightarrow> r \<in> set (ws_revisions db) \<or> dr_revision_id r \<notin> used_ids hist"
    and "owned_kept db db'"
  using assms by (auto simp: revisions_move_def)

lemma agree_self: "docs_ok env db \<Longrightarrow> agree db db"
  by (auto simp: agree_def docs_ok_def distinct_map inj_on_def owned_kept_same)

lemma agree_sym: "agree a b \<Longrightarrow> agree b a"
  unfolding agree_def owned_kept_def by metis

lemma agree_later:
  assumes "history_ok env hist" "db \<in> set hist" "b \<in> set hist" "revisions_move hist db db'"
  shows "agree db' b"
  unfolding agree_def
proof (intro conjI ballI impI)
  have old: "agree db b" using assms(1-3) by (auto simp: history_ok_def)
  show "r = s" if "r \<in> set (ws_revisions db')" "s \<in> set (ws_revisions b)" "dr_revision_id r = dr_revision_id s" for r s
  proof -
    have "dr_revision_id r \<in> used_ids hist" using that(2,3) assms(3) by (force simp: used_ids_def)
    with revisions_move_known(1) [OF assms(4) that(1)] old that(2,3) show ?thesis by (auto simp: agree_def)
  qed
  show "owned_kept db' b"
    unfolding owned_kept_def
  proof (intro ballI impI)
    fix r assume r: "r \<in> set (ws_revisions db')" "r \<in> set (ws_revisions b)"
    then have "dr_revision_id r \<in> used_ids hist" using assms(3) by (force simp: used_ids_def)
    then have "r \<in> set (ws_revisions db)" using revisions_move_known(1) [OF assms(4) r(1)] by blast
    then show "find_artifact (dr_artifact_id r) b = find_artifact (dr_artifact_id r) db'"
      using old revisions_move_known(2) [OF assms(4)] r by (simp add: agree_def owned_kept_def)
  qed
qed

lemma history_ok: "doc_history env hist \<Longrightarrow> history_ok env hist"
proof (induction rule: doc_history.induct)
  case (history_start db)
  then show ?case by (auto simp: history_ok_def docs_ok_def agree_def owned_kept_def)
next
  case (history_step hist db')
  have hd: "hd hist \<in> set hist" using history_step.IH by (cases hist) (auto simp: history_ok_def)
  note step = step_ok [OF history_step.IH history_step.hyps(2) hd]
  have new: "agree db' b" if "b \<in> set hist" for b
    using agree_later [OF history_step.IH hd that] step by blast
  have "agree a b" if "a \<in> set (db' # hist)" "b \<in> set (db' # hist)" for a b
    using that new agree_sym agree_self step history_step.IH unfolding history_ok_def by (metis set_ConsD)
  then show ?case using history_step.IH step by (simp add: history_ok_def)
qed

end
