(* ===== verification/DocumentSamples.thy ===== *)
theory DocumentSamples
  imports DocumentHistories
begin

text \<open>A short history of documents, to which the theorems are applied: a plan, revised once, and a note.\<close>

text \<open>The sample hash cuts a text; the theorems hold for any hash.\<close>

definition doc_sample_env :: doc_env where
  "doc_sample_env = \<lparr>de_hash = take 9,
     de_quota = \<lparr>max_blob_bytes = 0, max_artifacts = 0, max_documents = 0, max_revisions = 0, max_upload_bytes = 0\<rparr>,
     de_db_bytes = 0\<rparr>"

definition ws_empty :: ws_db where
  "ws_empty = \<lparr>ws_documents = [], ws_revisions = [], ws_artifacts = [], ws_threads = [], ws_events = [], ws_edges = [],
     ws_named = [], ws_aliases = [], ws_card_revisions = [], ws_ledger = \<lparr>entries = [], totals = None\<rparr>,
     ws_blobs = []\<rparr>"

definition sample_input :: "string \<Rightarrow> document_input" where
  "sample_input title = \<lparr>di_document_id = None, di_id = None, di_thread_id = None, di_title = Some title, di_slug = None,
     di_summary = None, di_has_labels = False, di_supersedes = Absent, di_has_status = False, di_has_state = False,
     di_refs = Absent, di_provenance = None\<rparr>"

definition doc_draw_of :: "string \<Rightarrow> doc_draw" where
  "doc_draw_of k = \<lparr>dw_document_id = ''doc'' @ k, dw_artifact_id = ''rev'' @ k, dw_event_id = ''ev'' @ k,
     dw_now = ''2026-01-0'' @ k @ ''T00:00:00Z'', dw_event_ts = ''2026-01-0'' @ k @ ''T00:00:01Z''\<rparr>"

definition plan_result :: "doc_error + document_row \<times> document_revision_row \<times> ws_db" where
  "plan_result = create_document doc_sample_env ''ann'' (sample_input ''Plan'') ''one'' ''text'' [] (doc_draw_of ''1'') ws_empty ws_empty"

definition plan_row :: document_row where
  "plan_row = \<lparr>d_id = ''doc1'', d_handle = Some ''plan'', d_thread_id = Some ''doc1'', d_title = Some ''Plan'', d_summary =
     [], d_slug = None, d_supersedes = [], d_refs = [''thread:doc1''], d_provenance = inferred_provenance,
     d_head_revision_id = ''rev1'', d_head_revision_number = 1, d_created_at = ''2026-01-01T00:00:00Z'', d_created_by
     = ''ann'', d_updated_at = ''2026-01-01T00:00:00Z'', d_updated_by = ''ann'', d_trashed_at = None, d_trashed_by =
     None, d_trash_reason = None, d_archived_at = None, d_archived_by = None\<rparr>"

definition plan_rev :: document_revision_row where
  "plan_rev = \<lparr>dr_revision_id = ''rev1'', dr_document_id = ''doc1'', dr_number = 1, dr_prev_revision_id = None,
     dr_artifact_id = ''rev1'', dr_thread_id = Some ''doc1'', dr_refs = [''thread:doc1''], dr_hash = ''content_h'',
     dr_created_at = ''2026-01-01T00:00:00Z'', dr_created_by = ''ann''\<rparr>"

definition sample_edge :: "string \<Rightarrow> string \<Rightarrow> string \<Rightarrow> string \<Rightarrow> string \<Rightarrow> string \<Rightarrow> ref_edge" where
  "sample_edge st si tt ti e pub = \<lparr>e_source_type = st, e_source_id = si, e_target_type = tt, e_target_id = ti, e_edge_type = e,
     e_metadata = [(''target_ref'', pub), (''resolved_target_id'', ti)]\<rparr>"

definition thread_edge :: "string \<Rightarrow> string \<Rightarrow> string \<Rightarrow> ref_edge" where
  "thread_edge st si e = sample_edge st si ''thread'' ''doc1'' e ''thread:plan''"

definition event_edges :: "string \<Rightarrow> string \<Rightarrow> string \<Rightarrow> string \<Rightarrow> ref_edge list" where
  "event_edges k rv art_handle rev_handle =
     [sample_edge ''event'' k ''artifact'' rv ''ref'' (''artifact:'' @ art_handle),
      sample_edge ''event'' k ''document'' ''doc1'' ''ref'' ''document:plan'',
      sample_edge ''event'' k ''document_revision'' rv ''ref'' (''document_revision:'' @ rev_handle),
      thread_edge ''event'' k ''ref'']"

definition sample_event :: "string \<Rightarrow> string \<Rightarrow> string \<Rightarrow> string \<Rightarrow> string \<Rightarrow> string \<Rightarrow> string \<Rightarrow> (string \<times> string) list \<Rightarrow> event_row" where
  "sample_event k rv actor handle ty summary number extra =
     \<lparr>ev_id = ''ev'' @ k, ev_handle = Some handle, ev_type = ty, ev_ts = ''2026-01-0'' @ k @ ''T00:00:01Z'', ev_actor_id = actor,
      ev_thread_id = ''doc1'', ev_refs = [''artifact:'' @ rv, ''document:doc1'', ''document_revision:'' @ rv, ''thread:doc1''],
      ev_summary = summary,
      ev_payload = [(''document_id'', ''doc1''), (''revision_id'', rv), (''artifact_id'', rv), (''revision_number'', number)] @ extra,
      ev_archived_at = None, ev_archived_by = None, ev_trashed_at = None, ev_trashed_by = None, ev_trash_reason = None\<rparr>"

definition sample_artifact :: "string \<Rightarrow> string \<Rightarrow> string \<Rightarrow> string \<Rightarrow> (string \<times> string) list \<Rightarrow> doc_artifact" where
  "sample_artifact k actor handle content extra =
     \<lparr>da_id = ''rev'' @ k, da_handle = Some handle, da_kind = ''doc'', da_thread_id = Some ''doc1'',
      da_created_at = ''2026-01-0'' @ k @ ''T00:00:00Z'', da_created_by = actor, da_content_type = ''text'', da_content_hash = content,
      da_refs = [''thread:doc1''],
      da_metadata = [(''id'', ''rev'' @ k), (''kind'', ''doc''), (''created_at'', ''2026-01-0'' @ k @ ''T00:00:00Z''),
        (''created_by'', actor), (''content_type'', ''text''), (''content_hash'', content), (''document_id'', ''doc1''),
        (''revision_id'', ''rev'' @ k), (''revision_number'', k)] @ extra @ [(''summary'', ''Plan'')],
      da_archived_at = None, da_archived_by = None, da_trashed_at = None, da_trashed_by = None, da_trash_reason = None\<rparr>"

definition sample_thread :: "string \<Rightarrow> string \<Rightarrow> thread_row" where
  "sample_thread now actor =
     \<lparr>th_id = ''doc1'', th_handle = Some ''plan'', th_kind = ''thread'', th_thread_id = Some ''doc1'', th_updated_at = now,
      th_updated_by = actor,
      th_body = \<lparr>tb_subject_ref = ''document:doc1'', tb_topic_ref = [], tb_title = ''Plan'', tb_current_summary = None,
        tb_key_artifacts = None\<rparr>,
      th_provenance = inferred_provenance\<rparr>"

definition plan_db :: ws_db where
  "plan_db =
     \<lparr>ws_documents = [plan_row], ws_revisions = [plan_rev],
      ws_artifacts = [sample_artifact ''1'' ''ann'' ''document-revision'' ''one'' []],
      ws_threads = [sample_thread ''2026-01-01T00:00:00Z'' ''ann''],
      ws_events = [sample_event ''1'' ''rev1'' ''ann'' ''document-created'' ''document_created'' ''Document created: Plan'' ''1'' []],
      ws_edges = [sample_edge ''thread'' ''doc1'' ''document'' ''doc1'' ''ref'' ''document:doc1'', thread_edge ''artifact'' ''rev1'' ''ref'',
        thread_edge ''document'' ''doc1'' ''thread'', thread_edge ''document'' ''doc1'' ''ref'',
        thread_edge ''document_revision'' ''rev1'' ''ref''] @ event_edges ''ev1'' ''rev1'' ''document-revision'' ''plan-r1'',
      ws_named = [], ws_aliases = [], ws_card_revisions = [], ws_ledger = \<lparr>entries = [(''one'', 3)], totals = Some (3, 1)\<rparr>,
      ws_blobs = [(''one'', ''one'')]\<rparr>"

lemma plan_ok: "plan_result = Inr (plan_row, plan_rev, plan_db)"
  by code_simp

lemma plan_history: "doc_history doc_sample_env [plan_db, ws_empty]"
proof -
  have "doc_history doc_sample_env [ws_empty]" by (rule history_start) (simp_all add: ws_empty_def)
  moreover have "fresh_draw [ws_empty] (doc_draw_of ''1'')" by code_simp
  then have "doc_step doc_sample_env [ws_empty] (hd [ws_empty]) plan_db"
    using plan_ok unfolding plan_result_def by (intro step_create) auto
  ultimately show ?thesis by (rule history_step)
qed

text \<open>The plan is revised by the published reference of its head.\<close>

definition revise :: "string \<Rightarrow> string \<Rightarrow> ws_db \<Rightarrow> ws_db \<Rightarrow> doc_error + document_row \<times> document_revision_row \<times> ws_db" where
  "revise k content = update_document doc_sample_env ''bob'' ''doc1'' no_patch ''document_revision:plan-r1'' content ''text'' [] None
     (doc_draw_of k)"

definition revised_row :: document_row where
  "revised_row = plan_row\<lparr>d_head_revision_id := ''rev2'', d_head_revision_number := 2, d_updated_at := ''2026-01-02T00:00:00Z'',
     d_updated_by := ''bob''\<rparr>"

definition revised_rev :: document_revision_row where
  "revised_rev = \<lparr>dr_revision_id = ''rev2'', dr_document_id = ''doc1'', dr_number = 2, dr_prev_revision_id = Some ''rev1'',
     dr_artifact_id = ''rev2'', dr_thread_id = Some ''doc1'', dr_refs = [''thread:doc1''], dr_hash = ''content_h'',
     dr_created_at = ''2026-01-02T00:00:00Z'', dr_created_by = ''bob''\<rparr>"

definition revised_db :: ws_db where
  "revised_db = plan_db\<lparr>
     ws_documents := [revised_row], ws_revisions := [plan_rev, revised_rev],
     ws_artifacts := ws_artifacts plan_db @
       [sample_artifact ''2'' ''bob'' ''document-revision-2'' ''two'' [(''prev_revision_id'', ''rev1'')]],
     ws_threads := [sample_thread ''2026-01-02T00:00:00Z'' ''bob''],
     ws_events := ws_events plan_db @ [sample_event ''2'' ''rev2'' ''bob'' ''document-revised'' ''document_revised''
       ''Document revised: Plan'' ''2'' [(''prev_revision_id'', ''rev1'')]],
     ws_edges := [thread_edge ''artifact'' ''rev1'' ''ref'', thread_edge ''document_revision'' ''rev1'' ''ref''] @
       event_edges ''ev1'' ''rev1'' ''document-revision'' ''plan-r1'' @
       [sample_edge ''thread'' ''doc1'' ''document'' ''doc1'' ''ref'' ''document:plan'', thread_edge ''artifact'' ''rev2'' ''ref'',
        thread_edge ''document_revision'' ''rev2'' ''ref''] @
       event_edges ''ev2'' ''rev2'' ''document-revision-2'' ''plan-r2'' @
       [thread_edge ''document'' ''doc1'' ''thread'', thread_edge ''document'' ''doc1'' ''ref''],
     ws_ledger := \<lparr>entries = [(''one'', 3), (''two'', 3)], totals = Some (6, 2)\<rparr>,
     ws_blobs := [(''two'', ''two''), (''one'', ''one'')]\<rparr>"

lemma revise_ok: "revise ''2'' ''two'' plan_db plan_db = Inr (revised_row, revised_rev, revised_db)"
  by code_simp

lemma revise_fresh: "fresh_draw [plan_db, ws_empty] (doc_draw_of ''2'')"
  by code_simp

lemma revised_history: "doc_history doc_sample_env [revised_db, plan_db, ws_empty]"
proof -
  have "doc_step doc_sample_env [plan_db, ws_empty] (hd [plan_db, ws_empty]) revised_db"
    using revise_ok revise_fresh unfolding revise_def by (intro step_update) auto
  with plan_history show ?thesis by (rule history_step)
qed

lemma revised_rows: "revised_row \<in> set (ws_documents revised_db)" "revised_rev \<in> set (ws_revisions revised_db)"
  "plan_rev \<in> set (ws_revisions revised_db)" "d_id revised_row = ''doc1''" "dr_document_id revised_rev = ''doc1''"
  "dr_document_id plan_rev = ''doc1''"
  by (simp_all add: revised_db_def revised_row_def revised_rev_def plan_rev_def plan_row_def)

text \<open>The plan in the trash.\<close>

definition trashed_row :: document_row where
  "trashed_row = plan_row\<lparr>d_trashed_at := Some ''2026-01-03T00:00:00Z'', d_trashed_by := Some ''ann'', d_trash_reason := Some ''old''\<rparr>"

definition trashed_db :: ws_db where
  "trashed_db = plan_db\<lparr>ws_documents := [trashed_row],
     ws_events := ws_events plan_db @ [sample_event ''3'' ''rev1'' ''ann'' ''document-trashed'' ''document_trashed''
       ''Document trashed: Plan'' ''1'' [(''reason'', ''old'')]],
     ws_edges := ws_edges plan_db @ event_edges ''ev3'' ''rev1'' ''document-revision'' ''plan-r1''\<rparr>"

lemma trash_ok: "trash_document ''ann'' ''doc1'' ''old'' (doc_draw_of ''3'') plan_db plan_db = Inr (trashed_row, trashed_db)"
  by code_simp

lemma trashed_history: "doc_history doc_sample_env [trashed_db, plan_db, ws_empty]"
proof -
  have "doc_step doc_sample_env [plan_db, ws_empty] (hd [plan_db, ws_empty]) trashed_db"
    using trash_ok by (intro step_trash) simp
  with plan_history show ?thesis by (rule history_step)
qed

end
