(* ===== verification/DocumentSafety.thy ===== *)
theory DocumentSafety
  imports DocumentSamples
begin

text \<open>What holds over every history of documents: revisions, contents, optimistic updates, purges.\<close>

section \<open>Revisions\<close>

lemma chain_prevs:
  "chain env ch i prev h n rs \<Longrightarrow> map dr_prev_revision_id rs = take (length rs) (prev # map (Some \<circ> dr_revision_id) rs)"
  by (induction rs arbitrary: prev h n) (auto simp: take_Cons')

lemma chain_hashes:
  "chain env ch i prev h n rs \<Longrightarrow> k < length rs \<Longrightarrow>
   dr_hash (rs ! k) = compute_revision_hash (de_hash env) (ch (rs ! k)) (if k = 0 then h else dr_hash (rs ! (k - 1))) i (n + k)
     (dr_created_at (rs ! k)) (dr_created_by (rs ! k))"
proof (induction rs arbitrary: prev h n k)
  case (Cons r rs)
  then show ?case
  proof (cases k)
    case (Suc m)
    with Cons.IH [of "Some (dr_revision_id r)" "dr_hash r" "n + 1" m] Cons.prems show ?thesis by (cases m) auto
  qed auto
qed simp

lemma newest_ok: "doc_history env (db # hist) \<Longrightarrow> docs_ok env db"
  by (drule history_ok) (simp add: history_ok_def)

text \<open>
  C4. The revisions of a document form one chain.  In every history, with operations that act on stale reads: the
  revisions of a document are numbered 1, 2, ... without a gap, each names the one before it, each hash takes in its
  content's hash and the hash before it, and the head is the last of them.
\<close>

theorem documents_stay_chained:
  assumes "doc_history env (db # hist)" "d \<in> set (ws_documents db)"
  shows "let rs = revisions_of (d_id d) db in
    rs \<noteq> [] \<and> map dr_number rs = [1..<Suc (length rs)] \<and>
    map dr_prev_revision_id rs = None # map (Some \<circ> dr_revision_id) (butlast rs) \<and>
    d_head_revision_id d = dr_revision_id (last rs) \<and> d_head_revision_number d = length rs \<and>
    (\<forall>k<length rs. dr_hash (rs ! k) = compute_revision_hash (de_hash env) (content_hash_of db (rs ! k))
       (if k = 0 then [] else dr_hash (rs ! (k - 1))) (d_id d) (k + 1) (dr_created_at (rs ! k)) (dr_created_by (rs ! k)))"
proof -
  let ?rs = "revisions_of (d_id d) db"
  have ok: "document_ok env db d" using newest_ok [OF assms(1)] assms(2) by (simp add: docs_ok_def)
  then have ch: "chain env (content_hash_of db) (d_id d) None [] 1 ?rs" and ne: "?rs \<noteq> []"
    unfolding document_ok_def Let_def by blast+
  have "map dr_prev_revision_id ?rs = None # map (Some \<circ> dr_revision_id) (butlast ?rs)"
    using chain_prevs [OF ch] ne by (cases "length ?rs") (simp_all add: butlast_conv_take take_map)
  moreover have "map dr_number ?rs = [1..<Suc (length ?rs)]" using chain_numbers [OF ch] by simp
  ultimately show ?thesis
    using ok ne chain_hashes [OF ch] unfolding document_ok_def Let_def by (simp add: add.commute)
qed

theorem documents_stay_chained_witness:
  "length (revisions_of ''doc1'' revised_db) = 2 \<and> map dr_number (revisions_of ''doc1'' revised_db) = [1, 2] \<and>
   d_head_revision_id revised_row = dr_revision_id (last (revisions_of ''doc1'' revised_db))"
proof -
  have n: "length (revisions_of ''doc1'' revised_db) = 2" by code_simp
  show ?thesis using documents_stay_chained [OF revised_history revised_rows(1)]
    by (simp add: Let_def revised_rows(4) n upt_rec numeral_2_eq_2)
qed

lemma load_revision_row:
  assumes ok: "docs_ok env db" and r: "r \<in> set (ws_revisions db)"
    and a: "find_artifact (dr_artifact_id r) db = Some a" and c: "blob_of db (da_content_hash a) = Some c"
  shows "load_document_revision (dr_document_id r) (dr_revision_id r) True db = Inr (r, a, Some c)"
proof -
  have rok: "revision_ok env db r" using ok r by (simp add: docs_ok_def)
  obtain d where d: "d \<in> set (ws_documents db)" "dr_document_id r = d_id d" using rok by (auto simp: revision_ok_def)
  then have vd: "validate_document_id (d_id d)" "trim (d_id d) = d_id d" using ok by (auto simp: docs_ok_def document_ok_def)
  let ?P = "\<lambda>s. dr_document_id s = dr_document_id r \<and> dr_revision_id s = dr_revision_id r \<and> find_artifact (dr_artifact_id s) db \<noteq> None"
  have "?P r" using a by simp
  then have "find ?P (ws_revisions db) \<noteq> None" using r unfolding find_None_iff by blast
  then obtain s where s: "find ?P (ws_revisions db) = Some s" by blast
  then have "s \<in> set (ws_revisions db)" "dr_revision_id s = dr_revision_id r" by (auto simp: find_Some_iff)
  then have "s = r" using ok r by (auto simp: docs_ok_def distinct_map inj_on_def)
  with s have "find ?P (ws_revisions db) = Some r" by simp
  then show ?thesis using rok vd a c d(2) by (simp add: load_document_revision_def revision_ok_def)
qed

text \<open>
  In the histories of \<open>DocumentHistories\<close>, where no deletion of a blob comes late and the other tables' operations leave the
  artifacts of revisions alone, a revision can be read, and it and its artifact are what they were in every earlier database.
\<close>

lemma revision_content:
  assumes "doc_history env (db # hist)" "r \<in> set (ws_revisions db)"
  shows "\<exists>a c. load_document_revision (dr_document_id r) (dr_revision_id r) True db = Inr (r, a, Some c) \<and>
    de_hash env c = da_content_hash a \<and>
    (\<forall>old\<in>set hist. \<forall>s\<in>set (ws_revisions old). dr_revision_id s = dr_revision_id r \<longrightarrow>
       s = r \<and> find_artifact (dr_artifact_id s) old = Some a)"
proof -
  have hist: "history_ok env (db # hist)" by (rule history_ok [OF assms(1)])
  then have ok: "docs_ok env db" by (simp add: history_ok_def)
  then have r: "revision_ok env db r" using assms(2) by (simp add: docs_ok_def)
  then obtain a where a: "find_artifact (dr_artifact_id r) db = Some a" by (auto simp: revision_ok_def)
  then have am: "a \<in> set (ws_artifacts db)" "da_id a = dr_artifact_id r" by (auto simp: find_artifact_def find_Some_iff)
  then obtain c where c: "blob_of db (da_content_hash a) = Some c" "de_hash env c = da_content_hash a"
    using ok by (auto simp: docs_ok_def artifact_ok_def)
  note load = load_revision_row [OF ok assms(2) a c(1)]
  have earlier: "s = r \<and> find_artifact (dr_artifact_id s) old = Some a"
    if old: "old \<in> set hist" "s \<in> set (ws_revisions old)" "dr_revision_id s = dr_revision_id r" for old s
  proof -
    have ag: "agree old db" using hist old(1) by (auto simp: history_ok_def)
    then have "s = r" using old assms(2) unfolding agree_def by blast
    moreover have "find_artifact (dr_artifact_id r) db = find_artifact (dr_artifact_id r) old"
      using ag(1) old(2) assms(2) \<open>s = r\<close> by (simp add: agree_def owned_kept_def)
    ultimately show ?thesis using a by simp
  qed
  show ?thesis using load c(2) earlier by blast
qed

section \<open>Updates\<close>

lemma history_tail:
  assumes "doc_history env (x # ys)" "ys \<noteq> []"
  shows "doc_history env ys \<and> doc_step env ys (hd ys) x"
  using assms by (cases rule: doc_history.cases) auto

lemma history_suffix: "doc_history env (xs @ ys) \<Longrightarrow> ys \<noteq> [] \<Longrightarrow> doc_history env ys"
proof (induction xs)
  case (Cons x xs)
  have "doc_history env (xs @ ys)" using history_tail [of env x "xs @ ys"] Cons.prems by simp
  then show ?case using Cons by simp
qed simp

lemma revision_numbers:
  assumes "docs_ok env db" "d \<in> set (ws_documents db)"
  shows "map dr_number (revisions_of (d_id d) db) = [1..<Suc (length (revisions_of (d_id d) db))]"
proof -
  have "chain env (content_hash_of db) (d_id d) None [] 1 (revisions_of (d_id d) db)"
    using assms unfolding docs_ok_def document_ok_def Let_def by blast
  from chain_numbers [OF this] show ?thesis by simp
qed

lemma find_document_row:
  assumes "docs_ok env db" "d \<in> set (ws_documents db)"
  shows "find_document (d_id d) db = Some d"
proof -
  have "find_document (d_id d) db \<noteq> None" using assms(2) by (auto simp: find_document_def find_None_iff)
  then obtain e where e: "find_document (d_id d) db = Some e" by blast
  then have "e \<in> set (ws_documents db)" "d_id e = d_id d" by (auto simp: find_document_def find_Some_iff)
  then have "e = d" using assms by (auto simp: docs_ok_def distinct_map inj_on_def)
  with e show ?thesis by simp
qed

text \<open>The transaction of an accepted update, on the database it writes.\<close>

lemma update_on_head:
  assumes hist: "doc_history env hist" "db0 \<in> set hist" "db \<in> set hist"
    and update: "update_document env actorID i patch base content ct refs prov dw db0 db = Inr (row, r, db')"
  obtains d a f where "d \<in> set (ws_documents db)" "d_id d = i" "d_head_revision_id d = resolve_base_revision (trim base) db0"
    "adds_revision env i content r a db db'" "dr_prev_revision_id r = Some (d_head_revision_id d)"
    "dr_number r = d_head_revision_number d + 1" "dr_revision_id r = dw_artifact_id dw"
    "f d \<in> set (ws_documents db')" "d_id (f d) = i" "d_head_revision_id (f d) = dr_revision_id r"
proof -
  obtain ct' doc e plan revRefs where doc: "load_document_row i db0 = Inr doc"
    "d_head_revision_id doc = resolve_base_revision (trim base) db0"
    and commit: "commit_revision env (trim actorID) i doc e (resolve_base_revision (trim base) db0)
       (previous_revision_hash i (d_head_revision_id doc) db0) content ct' revRefs prov plan dw db = Inr (row, r, db')"
    by (rule update_steps [OF update]) (rule that)
  obtain a threadID where a: "adds_revision env i content r a db db'"
    and docs: "ws_documents db' = map (\<lambda>x. if d_id x = i \<and> d_head_revision_id x = resolve_base_revision (trim base) db0
       then write_document_head (trim actorID) threadID doc e dw x else x) (ws_documents db)"
    and ex: "\<exists>x\<in>set (ws_documents db). d_id x = i \<and> d_head_revision_id x = resolve_base_revision (trim base) db0"
    and r: "dr_revision_id r = dw_artifact_id dw" "dr_number r = d_head_revision_number doc + 1"
      "dr_prev_revision_id r = Some (d_head_revision_id doc)"
    by (rule commit_effect [OF commit]) (rule that)
  obtain d where d: "d \<in> set (ws_documents db)" "d_id d = i" "d_head_revision_id d = resolve_base_revision (trim base) db0"
    using ex by blast
  have ok: "docs_ok env db" using history_ok [OF hist(1)] hist(3) by (simp add: history_ok_def)
  have "d_head_revision_number doc = d_head_revision_number d"
    using same_head(1) [OF history_ok [OF hist(1)] hist(2,3) doc(1) d(1,2)] d(3) doc(2) head_facts(5) [OF ok d(1)] d(2) by simp
  then show thesis
    using d a r doc(2) docs
    by (intro that [of d a "write_document_head (trim actorID) threadID doc e dw"])
      (auto simp: write_document_head_def)
qed

text \<open>
  C17. An update extends the head it was based on.  In every history, whatever ran between its reads and its
  transaction: an accepted update found the document's head still to be the revision the caller named; the new
  revision comes right after that one, no revision is lost, and the document then reads as the content given.
\<close>

theorem update_extends_head:
  assumes "doc_history env (db # hist)" "db0 \<in> set (db # hist)" "fresh_draw (db # hist) dw"
    "update_document env actorID i patch base content ct refs prov dw db0 db = Inr (row, r, db')"
  shows "(\<exists>d\<in>set (ws_documents db). d_id d = i \<and> d_head_revision_id d = resolve_base_revision (trim base) db0 \<and>
      dr_prev_revision_id r = Some (d_head_revision_id d) \<and> dr_number r = d_head_revision_number d + 1) \<and>
    ws_revisions db' = ws_revisions db @ [r] \<and>
    (\<exists>d a. get_document i db' = Inr (d, r, a, Some content) \<and> d_head_revision_id d = dr_revision_id r)"
proof -
  obtain d a f where d: "d \<in> set (ws_documents db)" "d_id d = i" "d_head_revision_id d = resolve_base_revision (trim base) db0"
    and a: "adds_revision env i content r a db db'"
    and r: "dr_prev_revision_id r = Some (d_head_revision_id d)" "dr_number r = d_head_revision_number d + 1"
    and f: "f d \<in> set (ws_documents db')" "d_id (f d) = i" "d_head_revision_id (f d) = dr_revision_id r"
    by (rule update_on_head [OF assms(1,2) list.set_intros(1) assms(4)]) (rule that)
  have "doc_step env (db # hist) db db'" by (rule step_update [OF assms(2-4)])
  then have ok: "docs_ok env db'" using step_ok [OF history_ok [OF assms(1)]] by simp
  have i: "validate_document_id i" "trim i = i" using ok f(1,2) by (auto simp: docs_ok_def document_ok_def)
  have adds: "ws_revisions db' = ws_revisions db @ [r]" "dr_document_id r = i" "da_id a = dr_artifact_id r"
    "a \<in> set (ws_artifacts db')" "blob_of db' (da_content_hash a) = Some content"
    using a by (auto simp: adds_revision_def)
  have "find_artifact (dr_artifact_id r) db' = Some a"
    using adds_frame(5) [OF newest_ok [OF assms(1)] a] .
  then have "load_document_revision i (dr_revision_id r) True db' = Inr (r, a, Some content)"
    using load_revision_row [OF ok _ _ adds(5), of r] adds(1,2) by simp
  moreover have "load_document_row i db' = Inr (f d)"
    using find_document_row [OF ok f(1)] f(2) i by (simp add: load_document_row_def)
  ultimately have "get_document i db' = Inr (f d, r, a, Some content)" using f(3) by (simp add: get_document_def)
  then show ?thesis using d r adds(1) f(3) by blast
qed

theorem update_extends_head_witness:
  "ws_revisions revised_db = ws_revisions plan_db @ [revised_rev] \<and>
   (\<exists>d a. get_document ''doc1'' revised_db = Inr (d, revised_rev, a, Some ''two''))"
  using update_extends_head [OF plan_history list.set_intros(1) revise_fresh revise_ok [unfolded revise_def]] by blast

text \<open>While a revision is there, so is the one that was put after it in the same document.\<close>

lemma successor_stays:
  assumes "doc_history env (later @ db1 # rest)" "q \<in> set (ws_revisions db1)" "r \<in> set (ws_revisions db1)"
    "dr_document_id q = dr_document_id r" "q \<in> set (ws_revisions (hd (later @ db1 # rest)))"
  shows "r \<in> set (ws_revisions (hd (later @ db1 # rest)))"
  using assms
proof (induction later)
  case (Cons s later)
  let ?hist = "later @ db1 # rest"
  have tail: "doc_history env ?hist" "doc_step env ?hist (hd ?hist) s" using history_tail Cons.prems(1) by auto
  have hist: "history_ok env ?hist" by (rule history_ok [OF tail(1)])
  have hd: "hd ?hist \<in> set ?hist" by (cases later) auto
  have ok: "docs_ok env s" and move: "revisions_move ?hist (hd ?hist) s" using step_ok [OF hist tail(2) hd] by simp_all
  have known: "dr_revision_id q \<in> used_ids ?hist" using assms(2) by (auto simp: used_ids_def)
  have q: "q \<in> set (ws_revisions s)" using Cons.prems(5) by simp
  then have "q \<in> set (ws_revisions (hd ?hist))" using revisions_move_known(1) [OF move q] known by blast
  then have "r \<in> set (ws_revisions (hd ?hist))" using Cons.IH [OF tail(1) assms(2-4)] by simp
  then show ?case using move q assms(4) by (auto simp: revisions_move_def)
qed simp

text \<open>
  C6. A second writer on the same base is refused.  After an accepted update, in every later history, an update that
  names the same base revision fails, whatever it read: no accepted revision is ever overwritten.
\<close>

theorem stale_update_refused:
  assumes "doc_history env (later @ db1 # db # hist)" "db0 \<in> set (db # hist)" "fresh_draw (db # hist) dw"
    "update_document env actorID i patch base content ct refs prov dw db0 db = Inr (row, r, db1)"
    "read \<in> set (later @ db1 # db # hist)"
    "resolve_base_revision (trim base') read = resolve_base_revision (trim base) db0"
  shows "isl (update_document env actor' i patch' base' content' ct' refs' prov' dw' read (hd (later @ db1 # db # hist)))"
proof (rule ccontr)
  let ?hist = "later @ db1 # db # hist"
  let ?base = "resolve_base_revision (trim base) db0"
  assume "\<not> ?thesis"
  then obtain x where x: "update_document env actor' i patch' base' content' ct' refs' prov' dw' read (hd ?hist) = Inr x"
    using not_isl_projr by metis
  obtain row' r' db' where "x = (row', r', db')" by (cases x)
  note second = x [unfolded this]
  have hd: "hd ?hist \<in> set ?hist" by (cases later) auto
  have early: "doc_history env (db # hist)"
    using history_suffix [of env "later @ [db1]" "db # hist"] assms(1) by simp
  have ok: "history_ok env ?hist" by (rule history_ok [OF assms(1)])
  obtain d a f where d: "d \<in> set (ws_documents db)" "d_id d = i" "d_head_revision_id d = ?base"
    and a: "adds_revision env i content r a db db1" and r: "dr_number r = d_head_revision_number d + 1"
    by (rule update_on_head [OF early assms(2) list.set_intros(1) assms(4)]) (rule that)
  obtain e where e: "e \<in> set (ws_documents (hd ?hist))" "d_id e = i" "d_head_revision_id e = ?base"
    by (rule update_on_head [OF assms(1,5) hd second]) (use assms(6) in auto)
  have dok: "docs_ok env db" "docs_ok env (hd ?hist)" "agree db (hd ?hist)" using ok hd by (auto simp: history_ok_def)
  note q = head_facts [OF dok(1) d(1), unfolded d(2)] and p = head_facts [OF dok(2) e(1), unfolded e(2)]
  have same: "last (revisions_of i db) = last (revisions_of i (hd ?hist))"
    using dok(3) q(1,3) p(1,3) d(3) e(3) unfolding agree_def by metis
  have add: "ws_revisions db1 = ws_revisions db @ [r]" "dr_document_id r = i" using a by (auto simp: adds_revision_def)
  have "r \<in> set (ws_revisions (hd ?hist))"
    by (rule successor_stays [OF assms(1), of "last (revisions_of i db)"]) (use q(1,2) p(1) same add in auto)
  then have "r \<in> set (revisions_of i (hd ?hist))" using add(2) by (simp add: revisions_of_def)
  then have "dr_number r \<in> set (map dr_number (revisions_of i (hd ?hist)))" by simp
  then have "dr_number r \<in> set [1..<Suc (length (revisions_of i (hd ?hist)))]"
    unfolding revision_numbers [OF dok(2) e(1), unfolded e(2)] .
  then have "dr_number r \<le> length (revisions_of i (hd ?hist))" by (simp del: upt_Suc)
  then show False using r q(4) p(4,5) same by simp
qed

theorem stale_update_refused_witness:
  "isl (update_document doc_sample_env ''cy'' ''doc1'' no_patch ''document_revision:plan-r1'' ''three'' ''text'' [] None
     (doc_draw_of ''4'') plan_db revised_db)"
  using stale_update_refused [of doc_sample_env "[]" revised_db plan_db "[ws_empty]" plan_db, OF _ list.set_intros(1) revise_fresh
      revise_ok [unfolded revise_def], of plan_db "''document_revision:plan-r1''"] revised_history
  by simp

section \<open>Purges\<close>

text \<open>
  C18. A purge takes one trashed document.  In every history: the document was in the trash; its row, its revisions and
  their artifacts go; every other document keeps its row and its revisions, and all of those can still be read with
  their contents.
\<close>

theorem purge_takes_trashed_document:
  assumes "doc_history env (db # hist)" "purge_document i db = Inr db'"
  shows "(\<exists>d\<in>set (ws_documents db). d_id d = trim i \<and> d_trashed_at d \<noteq> None) \<and>
    ws_documents db' = filter (\<lambda>d. d_id d \<noteq> trim i) (ws_documents db) \<and>
    ws_revisions db' = filter (\<lambda>r. dr_document_id r \<noteq> trim i) (ws_revisions db) \<and>
    ws_artifacts db' = filter (\<lambda>a. da_id a \<notin> dr_revision_id ` set (revisions_of (trim i) db)) (ws_artifacts db) \<and>
    (\<forall>r\<in>set (ws_revisions db'). \<exists>a c. find_artifact (dr_artifact_id r) db = Some a \<and>
       load_document_revision (dr_document_id r) (dr_revision_id r) True db' = Inr (r, a, Some c) \<and> de_hash env c = da_content_hash a)"
proof -
  obtain gone db1 where p: "purge_document_rows i db = Inr (gone, db1)" "db' = delete_blobs gone db1"
    using purge_document_Inr [OF assms(2)] by blast
  note purge = purge_rows_ok [OF newest_ok [OF assms(1)] p(1)]
  have same: "ws_documents db' = ws_documents db1" "ws_revisions db' = ws_revisions db1" "ws_artifacts db' = ws_artifacts db1"
    by (simp_all add: p(2) delete_blobs_def)
  have ok: "docs_ok env db'" using purge(1) p(2) by simp
  have "\<exists>a c. find_artifact (dr_artifact_id r) db = Some a \<and>
      load_document_revision (dr_document_id r) (dr_revision_id r) True db' = Inr (r, a, Some c) \<and> de_hash env c = da_content_hash a"
    if r: "r \<in> set (ws_revisions db')" for r
  proof -
    obtain a where a: "find_artifact (dr_artifact_id r) db' = Some a" using ok r by (auto simp: docs_ok_def revision_ok_def)
    then have "a \<in> set (ws_artifacts db')" by (auto simp: find_artifact_def find_Some_iff)
    then obtain c where c: "blob_of db' (da_content_hash a) = Some c" "de_hash env c = da_content_hash a"
      using ok by (auto simp: docs_ok_def artifact_ok_def)
    have "find_artifact (dr_artifact_id r) db = Some a"
      using purge(8) [of r] r a same by (simp add: find_artifact_def)
    then show ?thesis using load_revision_row [OF ok r a c(1)] c(2) by blast
  qed
  then show ?thesis using purge(3-6) same by simp
qed

theorem purge_takes_trashed_document_witness:
  "\<not> isl (purge_document ''doc1'' trashed_db) \<and> ws_documents (projr (purge_document ''doc1'' trashed_db)) = [] \<and>
   (\<exists>d\<in>set (ws_documents trashed_db). d_id d = ''doc1'' \<and> d_trashed_at d \<noteq> None)"
proof -
  have ok: "\<not> isl (purge_document ''doc1'' trashed_db)" "trim ''doc1'' = ''doc1''" by code_simp+
  have "d_id trashed_row = ''doc1''" by code_simp
  then show ?thesis
    using purge_takes_trashed_document [OF trashed_history not_isl_projr [OF ok(1)]] ok by (simp add: trashed_db_def)
qed

end
