(* ===== verification/DocumentRefs.thy ===== *)
theory DocumentRefs
  imports DocumentSafety
begin

text \<open>
  The references to revisions that the API publishes: \<open>document_revision:<handle>-r<n>\<close>.  They resolve to their revision,
  as long as the handle leaves room for the number.
\<close>

section \<open>Handles of documents\<close>

definition handles_ok :: "ws_db \<Rightarrow> bool" where
  "handles_ok db \<longleftrightarrow> (\<forall>d\<in>set (ws_documents db). \<exists>h. d_handle d = Some h \<and> base_handle h) \<and> distinct (map d_handle (ws_documents db))"

lemma handles_ok_map:
  assumes "handles_ok db" "ws_documents db' = map f (ws_documents db)" "\<And>d. d_handle (f d) = d_handle d"
  shows "handles_ok db'"
proof -
  have "map d_handle (ws_documents db') = map d_handle (ws_documents db)" using assms(2,3) by simp
  then have "distinct (map d_handle (ws_documents db'))" using assms(1) by (simp add: handles_ok_def)
  then show ?thesis using assms by (auto simp: handles_ok_def)
qed

lemma handles_ok_touches: "handles_ok db \<Longrightarrow> touches_rows db db' \<Longrightarrow> handles_ok db'"
  by (auto simp: touches_rows_def intro: handles_ok_map)

lemma step_handles:
  assumes "doc_step env hist db db'" "handles_ok db" "docs_ok env db"
  shows "handles_ok db'"
  using assms(1)
proof cases
  case (step_create db0 dw actorID inp content ct refs row r)
  obtain a where "ws_documents db' = ws_documents db @ [row]"
    "\<exists>h. d_handle row = Some h \<and> base_handle h \<and> Some h \<notin> d_handle ` set (ws_documents db)"
    by (rule create_effect [OF step_create(3)]) (rule that)
  then obtain h where docs: "ws_documents db' = ws_documents db @ [row]"
    and h: "d_handle row = Some h" "base_handle h" "Some h \<notin> d_handle ` set (ws_documents db)" by blast
  then have "distinct (map d_handle (ws_documents db'))" using assms(2) by (simp add: handles_ok_def)
  then show ?thesis using assms(2) docs h(1,2) by (auto simp: handles_ok_def)
next
  case (step_update db0 dw actorID i patch base content ct refs prov row r)
  obtain ct' doc d plan revRefs where
    commit: "commit_revision env (trim actorID) i doc d (resolve_base_revision (trim base) db0)
         (previous_revision_hash i (d_head_revision_id doc) db0) content ct' revRefs prov plan dw db = Inr (row, r, db')"
    by (rule update_steps [OF step_update(3)]) (rule that)
  obtain threadID where "ws_documents db' = map (\<lambda>x. if d_id x = i \<and> d_head_revision_id x = resolve_base_revision (trim base) db0
       then write_document_head (trim actorID) threadID doc d dw x else x) (ws_documents db)"
    by (rule commit_effect [OF commit]) (rule that)
  then show ?thesis by (rule handles_ok_map [OF assms(2)]) (simp add: write_document_head_def)
next
  case (step_purge i)
  then obtain gone db1 where p: "purge_document_rows i db = Inr (gone, db1)" "db' = delete_blobs gone db1"
    using purge_document_Inr by blast
  then have "ws_documents db' = filter (\<lambda>d. d_id d \<noteq> trim i) (ws_documents db)"
    using purge_rows_ok(3) [OF assms(3) p(1)] by (simp add: delete_blobs_def)
  then show ?thesis using assms(2) by (auto simp: handles_ok_def distinct_map_filter)
next
  case (step_commit i gone)
  have "ws_documents db' = filter (\<lambda>d. d_id d \<noteq> trim i) (ws_documents db)" by (rule purge_rows_ok(3) [OF assms(3) step_commit])
  then show ?thesis using assms(2) by (auto simp: handles_ok_def distinct_map_filter)
next
  case step_delete
  then show ?thesis using assms(2) by (simp add: handles_ok_def delete_blobs_def)
next
  case step_other
  then show ?thesis using assms(2) by (simp add: handles_ok_def)
next
  case step_patch
  then show ?thesis by (intro handles_ok_touches [OF assms(2)]) (rule patch_touches)
next
  case step_trash
  then show ?thesis by (intro handles_ok_touches [OF assms(2)]) (rule trash_touches)
next
  case step_archive
  then show ?thesis by (intro handles_ok_touches [OF assms(2)]) (rule archive_touches)
next
  case step_unarchive
  then show ?thesis by (intro handles_ok_touches [OF assms(2)]) (rule unarchive_touches)
next
  case step_restore
  then show ?thesis by (intro handles_ok_touches [OF assms(2)]) (rule restore_touches)
qed

lemma history_handles: "doc_history env hist \<Longrightarrow> handles_ok (hd hist)"
proof (induction rule: doc_history.induct)
  case (history_step hist db')
  have "hd hist \<in> set hist" using history_ok [OF history_step.hyps(1)] by (cases hist) (auto simp: history_ok_def)
  then have "docs_ok env (hd hist)" using history_ok [OF history_step.hyps(1)] by (simp add: history_ok_def)
  then show ?case using step_handles [OF history_step.hyps(2) history_step.IH] by simp
qed (simp add: handles_ok_def)

section \<open>Texts of revision handles\<close>

lemma revision_handle_text: "base_handle h \<Longrightarrow> revision_handle h n = h @ dash # CHR ''r'' # dec_digits n"
  by (simp add: revision_handle_def base_handle_def shape_fixed dash_def)

lemma revision_group: "list_all slug_char (CHR ''r'' # dec_digits n)"
  by (simp add: digits_slug dec_digits_digits slug_char_def less_eq_char_def)

lemma revision_handle_inj:
  assumes "base_handle h" "base_handle g" "revision_handle h n = revision_handle g m"
  shows "h = g \<and> n = m"
proof -
  let ?d = "\<lambda>n. CHR ''r'' # dec_digits n"
  have len: "n = m \<Longrightarrow> h = g" using assms by (simp add: revision_handle_text)
  have split: "split_on dash (h @ dash # ?d n) = split_on dash h @ [?d n]" for h n
    by (rule split_on_last [OF slug_no_dash [OF revision_group]])
  have "split_on dash h @ [?d n] = split_on dash g @ [?d m]"
    using assms(3) split [of h n] split [of g m] unfolding revision_handle_text [OF assms(1)] revision_handle_text [OF assms(2)] by simp
  then have "digits_val 0 (dec_digits n) = digits_val 0 (dec_digits m)" by simp
  then have "n = m" by (simp only: digits_val_dec)
  with len show ?thesis by simp
qed

lemma revision_handle_shape: "base_handle h \<Longrightarrow> handle_shape (revision_handle h n)"
  unfolding base_handle_def revision_handle_text [unfolded base_handle_def]
  by (auto intro: shape_join slug_shape [OF revision_group])

lemma lower_revision_handle:
  assumes "base_handle h"
  shows "map lower_char (h @ ''-r'' @ dec_digits n) = revision_handle h n"
proof -
  have "list_all plain_char (revision_handle h n)" by (rule shape_plain [OF revision_handle_shape [OF assms]])
  then have "map lower_char (revision_handle h n) = revision_handle h n"
    by (auto simp: list_all_iff dest: plain_char_facts intro: map_idI)
  then show ?thesis using assms by (simp add: revision_handle_text dash_def)
qed

lemma normalize_revision_handle:
  assumes "base_handle h" "length (revision_handle h n) \<le> max_handle_length"
  shows "normalize_handle (revision_handle h n) = revision_handle h n"
proof -
  have shape: "handle_shape (h @ dash # CHR ''r'' # dec_digits n)"
    using revision_handle_shape [OF assms(1)] by (simp add: revision_handle_text [OF assms(1)])
  have dashed: "dash \<in> set (revision_handle h n)" by (simp add: revision_handle_text [OF assms(1)])
  have "list_all (\<lambda>h. dash \<notin> set h) reserved_handles" by code_simp
  then have "\<not> is_reserved_handle (revision_handle h n)"
    using dashed by (auto simp: is_reserved_handle_def list_all_iff shape_fixed [OF revision_handle_shape [OF assms(1)]])
  moreover have "split_on dash (revision_handle h n) = split_on dash h @ [CHR ''r'' # dec_digits n]"
    unfolding revision_handle_text [OF assms(1)] by (rule split_on_last [OF slug_no_dash [OF revision_group]])
  moreover have "\<not> hex_char (CHR ''r'')" by code_simp
  moreover have "xs @ [0] \<noteq> [8, 4, 4, 4, 12]" for xs :: "nat list" by (cases xs rule: rev_cases) auto
  ultimately show ?thesis
    using revision_handle_shape [OF assms(1)] assms(2)
    by (simp add: normalize_fixed is_uuid_like_def shape_fixed dash_def [symmetric])
qed

section \<open>Published references\<close>

lemma handle_view_document:
  assumes "d \<in> set (ws_documents db)" "docs_ok env db"
  shows "find (\<lambda>r. hr_type r = ''document'' \<and> hr_id r = d_id d) (handle_rows (handle_view db)) =
    Some (named_row ''document'' (d_id d) (d_handle d))"
proof -
  have "find (\<lambda>r. hr_type r = ''document'' \<and> hr_id r = d_id d) (map (\<lambda>d. named_row ''document'' (d_id d) (d_handle d)) ds) =
      map_option (\<lambda>d. named_row ''document'' (d_id d) (d_handle d)) (find (\<lambda>e. d_id e = d_id d) ds)" for ds
    by (induction ds) (auto simp: named_row_def)
  from this [of "ws_documents db"]
  have "find (\<lambda>r. hr_type r = ''document'' \<and> hr_id r = d_id d) (map (\<lambda>d. named_row ''document'' (d_id d) (d_handle d)) (ws_documents db)) =
      Some (named_row ''document'' (d_id d) (d_handle d))"
    using find_document_row [OF assms(2,1)] by (simp add: find_document_def)
  then show ?thesis unfolding handle_view_def handle_db.simps find_append by simp
qed

lemma document_revision_parent:
  assumes "docs_ok env db" "handles_ok db" "r \<in> set (ws_revisions db)"
  shows "\<exists>d h. d \<in> set (ws_documents db) \<and> d_id d = dr_document_id r \<and> d_handle d = Some h \<and> base_handle h \<and>
    revision_parent (handle_view db) \<lparr>rv_type = ''document_revision'', rv_id = dr_revision_id r, rv_parent_id = dr_document_id r,
      rv_number = dr_number r\<rparr> = Some h"
proof -
  obtain d where d: "d \<in> set (ws_documents db)" "d_id d = dr_document_id r"
    using assms(1,3) by (force simp: docs_ok_def revision_ok_def)
  obtain h where "d_handle d = Some h" "base_handle h" using assms(2) d(1) by (auto simp: handles_ok_def)
  with d handle_view_document [OF d(1) assms(1)] show ?thesis
    by (auto simp: revision_parent_def Let_def named_row_def)
qed

lemma find_in_map: "find P (map f xs) = map_option f (find (P \<circ> f) xs)"
  by (induction xs) auto

lemma find_unique_row: "x \<in> set xs \<Longrightarrow> P x \<Longrightarrow> (\<And>y. y \<in> set xs \<Longrightarrow> P y \<Longrightarrow> y = x) \<Longrightarrow> find P xs = Some x"
  by (metis (no_types, lifting) find_None_iff find_Some_iff not_None_eq nth_mem)

lemma resolve_named_revision:
  assumes ok: "docs_ok env db" "handles_ok db" and d: "d \<in> set (ws_documents db)" "d_handle d = Some h"
    and r: "r \<in> set (ws_revisions db)" "dr_document_id r = d_id d"
    and v: "normalize_handle v = revision_handle h (dr_number r)" "trim v = v"
  shows "\<exists>x. resolve_revision ''document_revision'' v (handle_view db) = Inr x \<and> rf_id x = dr_revision_id r"
proof -
  let ?row = "\<lambda>r. \<lparr>rv_type = ''document_revision'', rv_id = dr_revision_id r, rv_parent_id = dr_document_id r, rv_number = dr_number r\<rparr>"
  let ?named = "\<lambda>v. rv_type v = ''document_revision'' \<and> (case revision_parent (handle_view db) v of None \<Rightarrow> False
       | Some p \<Rightarrow> map lower_char (p @ ''-r'' @ dec_digits (rv_number v)) = revision_handle h (dr_number r))"
  have h: "base_handle h" using ok(2) d by (auto simp: handles_ok_def)
  have parent: "revision_parent (handle_view db) (?row r) = Some h"
  proof -
    obtain e g where "e \<in> set (ws_documents db)" "d_id e = dr_document_id r" "d_handle e = Some g"
      "revision_parent (handle_view db) (?row r) = Some g" using document_revision_parent [OF ok r(1)] by blast
    moreover from this have "e = d" using ok(1) d(1) r(2) by (auto simp: docs_ok_def distinct_map inj_on_def)
    ultimately show ?thesis using d(2) by simp
  qed
  have one: "s = r" if s: "s \<in> set (ws_revisions db)" "(?named \<circ> ?row) s" for s
  proof -
    obtain e g where e: "e \<in> set (ws_documents db)" "d_id e = dr_document_id s" "d_handle e = Some g" "base_handle g"
      "revision_parent (handle_view db) (?row s) = Some g" using document_revision_parent [OF ok s(1)] by blast
    with s(2) have "revision_handle g (dr_number s) = revision_handle h (dr_number r)"
      by (simp add: lower_revision_handle [simplified])
    then have "g = h" "dr_number s = dr_number r" using revision_handle_inj e(4) h by blast+
    then have "e = d" using ok(2) e(1,3) d by (auto simp: handles_ok_def distinct_map inj_on_def)
    with e(2) r(2) have "s \<in> set (revisions_of (d_id d) db)" "r \<in> set (revisions_of (d_id d) db)"
      using s(1) r(1) by (simp_all add: revisions_of_def)
    moreover have "distinct (map dr_number (revisions_of (d_id d) db))" unfolding revision_numbers [OF ok(1) d(1)] by simp
    ultimately show ?thesis using \<open>dr_number s = dr_number r\<close> by (auto simp: distinct_map inj_on_def)
  qed
  have "(?named \<circ> ?row) r" using parent h by (simp add: lower_revision_handle [simplified])
  then have "find (?named \<circ> ?row) (ws_revisions db) = Some r" using find_unique_row [OF r(1)] one by blast
  then have found: "find ?named (revision_rows (handle_view db)) = Some (?row r)"
    unfolding handle_view_def handle_db.simps find_append find_in_map by simp
  have ne: "revision_handle h (dr_number r) \<noteq> []" by (simp add: revision_handle_text [OF h])
  have "normalize_handle [] = []" by code_simp
  then have "v \<noteq> []" using v(1) ne by metis
  then show ?thesis unfolding resolve_revision_def Let_def v found using ne parent by simp
qed

lemma document_handle_base: "d_handle d = Some h \<Longrightarrow> base_handle h \<Longrightarrow> document_handle d = h"
  by (simp add: document_handle_def null_text_def base_handle_def shape_fixed Let_def)

lemma revision_ref_parts:
  assumes "base_handle h"
  shows "resolve_resource_ref [] (''document_revision:'' @ revision_handle h n) db =
      resolve_revision ''document_revision'' (revision_handle h n) db"
    and "trim (''document_revision:'' @ revision_handle h n) = ''document_revision:'' @ revision_handle h n"
    and "drop_prefix ''document_revision:'' (''document_revision:'' @ revision_handle h n) = revision_handle h n"
    and "trim (revision_handle h n) = revision_handle h n"
proof -
  let ?h = "revision_handle h n" and ?t = "''document_revision''"
  have plain: "list_all plain_char ?h" by (rule shape_plain [OF revision_handle_shape [OF assms]])
  have "list_all plain_char ''document_revision:''" by code_simp
  with plain show trimmed: "trim (''document_revision:'' @ ?h) = ''document_revision:'' @ ?h" by (intro plain_trim) simp
  show "trim ?h = ?h" by (rule plain_trim [OF plain])
  show "drop_prefix ''document_revision:'' (''document_revision:'' @ ?h) = ?h"
    by (simp add: drop_prefix_def has_prefix_def)
  have ne: "?h \<noteq> []" by (simp add: revision_handle_text [OF assms])
  have "trim ?t = ?t" "CHR '':'' \<notin> set ?t" "?t \<noteq> []" by code_simp+
  then have "split_schema_ref (?t @ CHR '':'' # ?h) = Some (?t, ?h)"
    using colon_split [of "CHR '':''" ?t ?h] plain_trim [OF plain] ne unfolding split_schema_ref_def Let_def by simp
  moreover have "''document_revision:'' @ ?h = ?t @ CHR '':'' # ?h" by simp
  ultimately show "resolve_resource_ref [] (''document_revision:'' @ ?h) db = resolve_revision ?t ?h db"
    using trimmed unfolding resolve_resource_ref_def Let_def by (simp add: resolve_typed_def)
qed

text \<open>
  Published references resolve.  In every history: the reference \<open>document_revision:<handle>-r<n>\<close> that the API
  gives for a revision resolves to that revision whenever its handle has at most 64 characters; the published
  reference of the head is then accepted as the base of an update.
\<close>

theorem published_revision_resolves:
  assumes "doc_history env (db # hist)" "d \<in> set (ws_documents db)" "r \<in> set (ws_revisions db)" "dr_document_id r = d_id d"
    "length (revision_handle (document_handle d) (dr_number r)) \<le> 64"
  shows "(\<exists>x. resolve_resource_ref [] (''document_revision:'' @ revision_handle (document_handle d) (dr_number r)) (handle_view db) =
       Inr x \<and> rf_id x = dr_revision_id r) \<and>
    (dr_revision_id r = d_head_revision_id d \<longrightarrow> resolve_base_revision (trim (head_revision_ref d)) db = d_head_revision_id d)"
proof -
  have ok: "docs_ok env db" "handles_ok db" using newest_ok [OF assms(1)] history_handles [OF assms(1)] by simp_all
  obtain h where h: "d_handle d = Some h" "base_handle h" using ok(2) assms(2) by (auto simp: handles_ok_def)
  note dh = document_handle_base [OF h]
  have "normalize_handle (revision_handle h (dr_number r)) = revision_handle h (dr_number r)"
    using normalize_revision_handle [OF h(2)] assms(5) dh by (simp add: max_handle_length_def)
  then obtain x where x: "resolve_revision ''document_revision'' (revision_handle h (dr_number r)) (handle_view db) = Inr x"
    "rf_id x = dr_revision_id r"
    using resolve_named_revision [OF ok assms(2) h(1) assms(3,4)] revision_ref_parts(4) [OF h(2)] by blast
  have "resolve_base_revision (trim (head_revision_ref d)) db = d_head_revision_id d" if head: "dr_revision_id r = d_head_revision_id d"
  proof -
    note f = head_facts [OF ok(1) assms(2)]
    have "r = last (revisions_of (d_id d) db)"
      using ok(1) assms(3) f(1,3) head by (auto simp: docs_ok_def distinct_map inj_on_def)
    then have "head_revision_ref d = ''document_revision:'' @ revision_handle h (dr_number r)"
      unfolding head_revision_ref_def dh using f(4) by simp
    then show ?thesis using x head revision_ref_parts [OF h(2)] by (simp add: resolve_base_revision_def)
  qed
  then show ?thesis using x revision_ref_parts(1) [OF h(2)] dh by auto
qed

theorem published_revision_resolves_witness:
  "\<exists>x. resolve_resource_ref [] ''document_revision:plan-r2'' (handle_view revised_db) = Inr x \<and> rf_id x = ''rev2''"
proof -
  have h: "revision_handle (document_handle revised_row) (dr_number revised_rev) = ''plan-r2''" by code_simp
  show ?thesis
    using published_revision_resolves [OF revised_history revised_rows(1,2)]
    by (simp add: h revised_rows(4,5)) (simp add: revised_rev_def)
qed

section \<open>Handles without room for a number\<close>

lemma normalize_long_revision_handle:
  assumes h: "base_handle h" "length h = 62"
  shows "normalize_handle (revision_handle h n) = h @ dash # ''r''"
proof -
  let ?t = "revision_handle h n"
  have group: "list_all slug_char ''r''" by code_simp
  have shape: "handle_shape (h @ dash # ''r'')"
    using h(1) by (intro shape_join slug_shape [OF group]) (auto simp: base_handle_def)
  have t: "handle_shape ?t" by (rule revision_handle_shape [OF h(1)])
  obtain c cs where "dec_digits n = c # cs" by (cases "dec_digits n") auto
  then have "length ?t > 64" "take 64 ?t = h @ dash # ''r''" using h by (simp_all add: revision_handle_text)
  then have "normalize_handle ?t =
      (if is_reserved_handle (h @ dash # ''r'') \<or> is_uuid_like (h @ dash # ''r'') then [] else h @ dash # ''r'')"
    using shape_fixed [OF shape] shape_fixed [OF t]
    by (simp add: normalize_handle_def Let_def max_handle_length_def dash_def [symmetric])
  moreover have "\<not> is_reserved_handle (h @ dash # ''r'')" "\<not> is_uuid_like (h @ dash # ''r'')"
    using numbered_not_special [OF shape group] by simp_all
  ultimately show ?thesis by simp
qed

lemma resolve_revision_none:
  assumes ok: "docs_ok env db" "handles_ok db"
    and norm: "normalize_handle v = h @ dash # ''r''" and v: "trim v = v" "v \<noteq> []"
    and ids: "\<forall>r\<in>set (ws_revisions db). dr_revision_id r \<noteq> v"
  shows "resolve_revision ''document_revision'' v (handle_view db) = Inl RefNotFound"
proof -
  let ?db = "handle_view db"
  let ?row = "\<lambda>r. \<lparr>rv_type = ''document_revision'', rv_id = dr_revision_id r, rv_parent_id = dr_document_id r, rv_number = dr_number r\<rparr>"
  have rows: "v \<in> set (revision_rows ?db) \<Longrightarrow> rv_type v = ''document_revision'' \<Longrightarrow> \<exists>r\<in>set (ws_revisions db). v = ?row r" for v
    by (auto simp: handle_view_def)
  have other: "revision_handle g n \<noteq> h @ dash # ''r''" if g: "base_handle g" for g n
  proof
    assume "revision_handle g n = h @ dash # ''r''"
    moreover have "split_on dash (g @ dash # CHR ''r'' # dec_digits n) = split_on dash g @ [CHR ''r'' # dec_digits n]"
      by (rule split_on_last [OF slug_no_dash [OF revision_group]])
    moreover have "split_on dash (h @ dash # ''r'') = split_on dash h @ [''r'']"
      by (rule split_on_last) (simp add: dash_def)
    ultimately show False using not_sym [OF dec_digits_not_Nil [of n]] by (simp add: revision_handle_text [OF g])
  qed
  have "find (\<lambda>v. rv_type v = ''document_revision'' \<and> (case revision_parent ?db v of None \<Rightarrow> False
       | Some p \<Rightarrow> map lower_char (p @ ''-r'' @ dec_digits (rv_number v)) = h @ dash # ''r'')) (revision_rows ?db) = None"
    unfolding find_None_iff
  proof (rule notI, elim exE conjE)
    fix w
    assume w: "w \<in> set (revision_rows ?db)" "rv_type w = ''document_revision''"
      "case revision_parent ?db w of None \<Rightarrow> False | Some p \<Rightarrow> map lower_char (p @ ''-r'' @ dec_digits (rv_number w)) = h @ dash # ''r''"
    obtain r where r: "r \<in> set (ws_revisions db)" "w = ?row r" using rows [OF w(1,2)] by blast
    obtain g where g: "base_handle g" "revision_parent ?db (?row r) = Some g" using document_revision_parent [OF ok r(1)] by blast
    show False using w(3) other [OF g(1)] unfolding r(2) g(2) option.case lower_revision_handle [OF g(1)] by blast
  qed
  moreover have "find (\<lambda>w. rv_type w = ''document_revision'' \<and> rv_id w = v \<and> revision_parent ?db w \<noteq> None) (revision_rows ?db) = None"
    unfolding find_None_iff using rows ids by fastforce
  ultimately show ?thesis unfolding resolve_revision_def Let_def norm v(1) using v(2) by simp
qed

text \<open>
  Long handles lose their revisions.  In every history: when a document's handle has 62 characters (a title of that
  length is enough), no reference to its revisions resolves, the published one of the head included, and an update that
  names the head by it is refused.
\<close>

theorem long_handle_loses_revisions:
  assumes "doc_history env (db # hist)" "d \<in> set (ws_documents db)" "d_handle d = Some h" "length h = 62"
    "\<forall>r\<in>set (ws_revisions db). (\<forall>n. dr_revision_id r \<noteq> revision_handle h n) \<and> dr_revision_id r \<noteq> head_revision_ref d"
  shows "(\<forall>n. resolve_resource_ref [] (''document_revision:'' @ revision_handle h n) (handle_view db) = Inl RefNotFound) \<and>
    isl (update_document env actorID i patch (head_revision_ref d) content ct refs prov dw db db)"
proof -
  have ok: "docs_ok env db" "handles_ok db" using newest_ok [OF assms(1)] history_handles [OF assms(1)] by simp_all
  have h: "base_handle h" using ok(2) assms(2,3) by (auto simp: handles_ok_def)
  note parts = revision_ref_parts [OF h] and norm = normalize_long_revision_handle [OF h assms(4)]
  have none: "resolve_revision ''document_revision'' (revision_handle h n) (handle_view db) = Inl RefNotFound" for n
    by (rule resolve_revision_none [OF ok norm parts(4)]) (use assms(5) in \<open>auto simp: revision_handle_text [OF h]\<close>)
  have base: "resolve_base_revision (trim (head_revision_ref d)) db = head_revision_ref d"
    using none parts(2,3) unfolding head_revision_ref_def document_handle_base [OF assms(3) h] by (simp add: resolve_base_revision_def)
  have "isl (update_document env actorID i patch (head_revision_ref d) content ct refs prov dw db db)"
  proof (rule ccontr)
    assume "\<not> ?thesis"
    then obtain x where x: "update_document env actorID i patch (head_revision_ref d) content ct refs prov dw db db = Inr x"
      using not_isl_projr by metis
    obtain row r db' where "x = (row, r, db')" by (cases x)
    note update = x [unfolded this]
    obtain e where e: "e \<in> set (ws_documents db)" "d_head_revision_id e = head_revision_ref d"
      by (rule update_on_head [OF assms(1) _ _ update]) (simp_all add: base)
    then show False using head_facts(1,3) [OF ok(1) e(1)] assms(5) by metis
  qed
  then show ?thesis using none parts(1) by simp
qed

theorem long_handle_loses_revisions_witness:
  "\<exists>row r db. create_document doc_sample_env ''ann'' (sample_input (replicate 62 CHR ''a'')) ''one'' ''text'' [] (doc_draw_of ''1'')
     ws_empty ws_empty = Inr (row, r, db) \<and>
   isl (update_document doc_sample_env ''ann'' (d_id row) no_patch (head_revision_ref row) ''two'' ''text'' [] None (doc_draw_of ''2'') db db)"
proof -
  define made where "made = create_document doc_sample_env ''ann'' (sample_input (replicate 62 CHR ''a'')) ''one'' ''text'' []
    (doc_draw_of ''1'') ws_empty ws_empty"
  have ev: "\<not> isl made" "ws_documents (snd (snd (projr made))) = [fst (projr made)]"
    "d_handle (fst (projr made)) = Some (replicate 62 CHR ''a'')"
    "map dr_revision_id (ws_revisions (snd (snd (projr made)))) = [''rev1'']"
    unfolding made_def by code_simp+
  obtain row r db where made: "made = Inr (row, r, db)" using inr_triple [OF ev(1)] by blast
  have start: "doc_history doc_sample_env [ws_empty]" by (rule history_start) (simp_all add: ws_empty_def)
  have "fresh_draw [ws_empty] (doc_draw_of ''1'')" by code_simp
  with made [unfolded made_def] have "doc_step doc_sample_env [ws_empty] (hd [ws_empty]) db" by (intro step_create) auto
  with start have hist: "doc_history doc_sample_env [db, ws_empty]" by (rule history_step)
  have row: "row \<in> set (ws_documents db)" "d_handle row = Some (replicate 62 CHR ''a'')" using ev(2,3) made by simp_all
  have ids: "dr_revision_id s = ''rev1''" if "s \<in> set (ws_revisions db)" for s using ev(4) that made by (auto simp: map_eq_Cons_conv)
  have "trim (replicate 62 CHR ''a'') = replicate 62 CHR ''a''" by code_simp
  then have no: "\<forall>s\<in>set (ws_revisions db). (\<forall>n. dr_revision_id s \<noteq> revision_handle (replicate 62 CHR ''a'') n) \<and>
      dr_revision_id s \<noteq> head_revision_ref row"
    by (auto dest!: ids arg_cong [where f = length] simp: revision_handle_def head_revision_ref_def)
  show ?thesis
    using long_handle_loses_revisions [OF hist row _ no] made unfolding made_def by (metis length_replicate)
qed

end
