(* ===== verification/DocumentRaces.thy ===== *)
theory DocumentRaces
  imports DocumentRefs
begin

text \<open>
  Where the store reads outside the transaction that writes: what two operations at once can do to a document.  The
  lifecycle columns provide the contract \<open>soft_delete\<close>.
\<close>

interpretation document_lanes:
  soft_delete d_archived_at d_trashed_at archive_document_row trash_document_row unarchive_document_row untrash_document_row
  by unfold_locales (simp_all add: lifecycle_rows)

definition document_one_lane :: "document_row \<Rightarrow> bool" where
  "document_one_lane d \<longleftrightarrow> col_ok (d_archived_at d) \<and> col_ok (d_trashed_at d) \<and> \<not> (is_set (d_archived_at d) \<and> is_set (d_trashed_at d))"

lemma document_one_lane: "document_one_lane = document_lanes.one_lane"
  by (rule ext) (simp add: document_one_lane_def document_lanes.one_lane_def)

lemma archive_document_steps:
  assumes "archive_document actorID i now db0 db = Inr (row, db')"
  obtains d where "load_document_row i db0 = Inr d" "\<not> is_set (d_trashed_at d)"
    "(is_set (d_archived_at d) \<and> db' = db) \<or>
     (\<not> is_set (d_archived_at d) \<and> db' = update_document_rows (\<lambda>x. d_id x = d_id d) (archive_document_row now (trim actorID)) db)"
  using assms unfolding archive_document_def open_document_def Let_def
  by (auto simp: bind_res_Inr_iff split: if_splits)

text \<open>
  Archiving on a stale read.  \<open>ArchiveDocument\<close> reads the row, and then writes the archive columns without a
  transaction or a condition.  It leaves the document in one lane exactly when the document is not in the trash at the
  time of the write; if it went there in between, it is archived and trashed at once.
\<close>

theorem archive_keeps_one_lane_iff:
  assumes "archive_document actorID i now db0 db = Inr (row, db')" "trim now \<noteq> []"
    "find_document (trim i) db0 = Some d" "\<not> is_set (d_archived_at d)"
    "x \<in> set (ws_documents db)" "d_id x = trim i" "document_one_lane x"
  shows "archive_document_row now (trim actorID) x \<in> set (ws_documents db') \<and>
    (document_one_lane (archive_document_row now (trim actorID) x) \<longleftrightarrow> \<not> is_set (d_trashed_at x))"
proof -
  obtain e where e: "load_document_row i db0 = Inr e"
    "(is_set (d_archived_at e) \<and> db' = db) \<or>
     (\<not> is_set (d_archived_at e) \<and> db' = update_document_rows (\<lambda>x. d_id x = d_id e) (archive_document_row now (trim actorID)) db)"
    by (rule archive_document_steps [OF assms(1)]) (rule that)
  have "e = d" "d_id e = trim i" using load_document_row_Inr [OF e(1)] assms(3) by auto
  with e(2) assms(4-6) have "archive_document_row now (trim actorID) x \<in> set (ws_documents db')"
    by (auto simp: update_document_rows_def)
  moreover have "document_lanes.one_lane (archive_document_row now (trim actorID) x) \<longleftrightarrow> \<not> is_set (d_trashed_at x)"
    using assms(2,7) document_lanes.archive_lane [of x now "trim actorID"]
    unfolding document_one_lane by (auto simp: document_lanes.one_lane_def)
  ultimately show ?thesis by (simp add: document_one_lane)
qed

theorem archive_keeps_one_lane_iff_witness:
  "\<exists>row db'. archive_document ''bob'' ''doc1'' ''2026-01-04T00:00:00Z'' plan_db trashed_db = Inr (row, db') \<and>
     (\<exists>x\<in>set (ws_documents db'). is_set (d_archived_at x) \<and> is_set (d_trashed_at x) \<and> \<not> document_one_lane x)"
proof -
  let ?now = "''2026-01-04T00:00:00Z''"
  have "\<not> isl (archive_document ''bob'' ''doc1'' ?now plan_db trashed_db)" by code_simp
  then obtain row db' where ok: "archive_document ''bob'' ''doc1'' ?now plan_db trashed_db = Inr (row, db')"
    by (metis not_isl_projr prod.collapse)
  have facts: "trim ?now \<noteq> []" "find_document (trim ''doc1'') plan_db = Some plan_row" "\<not> is_set (d_archived_at plan_row)"
    "d_id trashed_row = trim ''doc1''" "document_one_lane trashed_row" "is_set (d_trashed_at trashed_row)"
    "is_set (Some ?now)"
    by code_simp+
  have "trashed_row \<in> set (ws_documents trashed_db)" by (simp add: trashed_db_def)
  from archive_keeps_one_lane_iff [OF ok facts(1-3) this facts(4,5)] facts(6,7)
  have "archive_document_row ?now (trim ''bob'') trashed_row \<in> set (ws_documents db')"
    "\<not> document_one_lane (archive_document_row ?now (trim ''bob'') trashed_row)" by blast+
  moreover have "is_set (d_archived_at (archive_document_row ?now (trim ''bob'') trashed_row))"
    "is_set (d_trashed_at (archive_document_row ?now (trim ''bob'') trashed_row))"
    using facts(6,7) by (simp_all add: archive_document_row_def)
  ultimately show ?thesis using ok by blast
qed

text \<open>
  C29. A purge can delete a living document's content.  \<open>PurgeDocument\<close> commits, and deletes the blobs that nothing
  refers to only afterwards.  A document created in between with one of these contents is committed, and loses its
  content to the deletion: it cannot be read any more.
\<close>

theorem purge_deletes_new_content:
  assumes "doc_history env (db # hist)" "purge_document_rows i db = Inr (gone, db1)"
    "fresh_draw (db # hist) dw" "create_document env actorID inp content ct refs dw db1 db1 = Inr (row, r, db2)"
    "de_hash env content \<in> set gone"
  shows "(\<exists>a. get_document (d_id row) db2 = Inr (row, r, a, Some content)) \<and>
    get_document (d_id row) (delete_blobs gone db2) = Inl DocNotFound"
proof -
  have new: "trim (dw_artifact_id dw) = dw_artifact_id dw" "dw_artifact_id dw \<noteq> []" "trim (dw_document_id dw) = dw_document_id dw"
    using assms(3) by (simp_all add: fresh_draw_def)
  have ok1: "docs_ok env db1" by (rule purge_rows_ok(2) [OF newest_ok [OF assms(1)] assms(2)])
  have ok: "docs_ok env db2" by (rule create_keeps_ok [OF ok1 new(1,2) assms(4) new(3)])
  obtain a where a: "adds_revision env (d_id row) content r a db1 db2"
    and docs: "ws_documents db2 = ws_documents db1 @ [row]" "validate_document_id (d_id row)"
      "dr_revision_id r = dw_artifact_id dw" "d_head_revision_id row = dw_artifact_id dw"
    by (rule create_effect [OF assms(4)]) (rule that)
  have row: "row \<in> set (ws_documents db2)" using docs(1) by simp
  have tr: "trim (d_id row) = d_id row" using ok row by (auto simp: docs_ok_def document_ok_def)
  have adds: "r \<in> set (ws_revisions db2)" "dr_document_id r = d_id row" "da_content_hash a = de_hash env content"
    "blob_of db2 (da_content_hash a) = Some content"
    using a by (auto simp: adds_revision_def)
  have art: "find_artifact (dr_artifact_id r) db2 = Some a" by (rule adds_frame(5) [OF ok1 a])
  have loadr: "load_document_row (d_id row) db2 = Inr row"
    using find_document_row [OF ok row] tr docs(2) by (simp add: load_document_row_def)
  have load: "load_document_revision (d_id row) (d_head_revision_id row) True db2 = Inr (r, a, Some content)"
    using load_revision_row [OF ok adds(1) art adds(4)] adds(2) docs(3,4) by simp
  have same: "load_document_row (d_id row) (delete_blobs gone db2) = load_document_row (d_id row) db2"
    by (simp add: load_document_row_def find_document_def delete_blobs_def)
  have rows: "ws_revisions (delete_blobs gone db2) = ws_revisions db2" by (simp add: delete_blobs_def)
  have "load_document_revision (d_id row) (d_head_revision_id row) True (delete_blobs gone db2) = Inl DocNotFound"
    using load adds(3) assms(5)
    by (auto simp: load_document_revision_def delete_blobs_of rows find_artifact_def Let_def bind_res_Inr_iff guard_res_Inr_iff split: option.splits)
  then show ?thesis using loadr load same by (simp add: get_document_def)
qed

theorem purge_deletes_new_content_witness:
  "\<exists>gone db1 row r db2. purge_document_rows ''doc1'' trashed_db = Inr (gone, db1) \<and>
     create_document doc_sample_env ''bob'' (sample_input ''Note'') ''one'' ''text'' [] (doc_draw_of ''4'') db1 db1 = Inr (row, r, db2) \<and>
     get_document (d_id row) (delete_blobs gone db2) = Inl DocNotFound"
proof -
  define gone where "gone = fst (projr (purge_document_rows ''doc1'' trashed_db))"
  define db1 where "db1 = snd (projr (purge_document_rows ''doc1'' trashed_db))"
  have purge: "purge_document_rows ''doc1'' trashed_db = Inr (gone, db1)"
  proof -
    have "\<not> isl (purge_document_rows ''doc1'' trashed_db)" by code_simp
    then show ?thesis unfolding gone_def db1_def by (metis not_isl_projr prod.collapse)
  qed
  have "\<not> isl (create_document doc_sample_env ''bob'' (sample_input ''Note'') ''one'' ''text'' [] (doc_draw_of ''4'') db1 db1)"
    unfolding db1_def by code_simp
  then obtain row r db2 where new:
    "create_document doc_sample_env ''bob'' (sample_input ''Note'') ''one'' ''text'' [] (doc_draw_of ''4'') db1 db1 = Inr (row, r, db2)"
    by (metis inr_triple)
  have "fresh_draw [trashed_db, plan_db, ws_empty] (doc_draw_of ''4'')" "de_hash doc_sample_env ''one'' \<in> set gone"
    unfolding gone_def by code_simp+
  then show ?thesis using purge_deletes_new_content [OF trashed_history purge _ new] purge new by blast
qed

end
