(* ===== verification/EventLog.thy ===== *)
theory EventLog
  imports Documents
begin

text \<open>
  \<open>core/internal/primitives/store.go\<close>: the event log.  Events are appended, listed by pages, and put through their
  lifecycle; the lifecycle of a message goes on to its replies.
\<close>

section \<open>Appending\<close>

text \<open>
  \<open>AppendEvent\<close>.  The quota check takes the sizes of the JSON texts of payload and references, \<open>bytes\<close>; no blob is written.
  The event's id is the caller's, or a new one.
\<close>

definition no_blob :: write_plan where
  "no_blob = \<lparr>content_hash = [], size_bytes = 0, ledger_present = False, backend_present = False\<rparr>"

definition append_event ::
  "doc_env \<Rightarrow> string \<Rightarrow> string \<Rightarrow> string \<Rightarrow> string \<Rightarrow> event_draft \<Rightarrow> int \<Rightarrow> ws_db \<Rightarrow> ws_db \<Rightarrow> doc_error + ws_db" where
  "append_event env actorID givenID newID ts ev bytes db0 db =
     (let eventID = (if trim givenID = [] then newID else trim givenID);
          (u, _) = current_workspace_usage (blob_stat db0) (ws_hashes db0) (de_db_bytes env) (ws_counts db0)
                     (max_blob_bytes (de_quota env) > 0) (ws_ledger db0)
      in case check_workspace_write_quota (de_quota env) u 0
                \<lparr>delta_artifacts = 0, delta_documents = 0, delta_revisions = 0, delta_db_bytes = bytes + 512\<rparr> no_blob of
           Inl v \<Rightarrow> Inl (DocQuota v)
         | Inr _ \<Rightarrow> insert_event actorID eventID ts ev db)"

section \<open>Listing\<close>

definition home_feed_event_types :: "string list" where
  "home_feed_event_types = [''message_posted'', ''card_created'', ''card_moved'', ''card_resolved'', ''card_archived'',
     ''card_trashed'', ''topic_updated'', ''topic_archived'', ''topic_restored'', ''topic_trashed'',
     ''human_attention_requested'', ''human_attention_responded'', ''document_created'', ''document_revision_created'',
     ''document_revised'']"

definition backing_event_types :: "string list" where
  "backing_event_types = [''document_created'', ''document_revised'', ''document_restored'', ''document_trashed'',
     ''card_created'', ''card_updated'', ''card_moved'', ''card_archived'', ''card_trashed'', ''card_resolved'']"

definition dedupe_strings :: "string list \<Rightarrow> string list" where
  "dedupe_strings vs = unique_from {} vs"

definition normalize_backing_scope :: "string \<Rightarrow> string" where
  "normalize_backing_scope s = (if trim s = [] then ''all'' else trim s)"

text \<open>The types to take, and whether the backing types are excluded.\<close>

definition apply_event_backing_scope :: "string list \<Rightarrow> string \<Rightarrow> string list \<times> bool" where
  "apply_event_backing_scope types scope0 =
     (let scope = normalize_backing_scope scope0
      in if scope = ''backing_only'' then
           (if types = [] then (backing_event_types, False)
            else (filter (\<lambda>t. t \<in> set backing_event_types) (dedupe_strings types), False))
         else if scope = ''standalone'' then
           (if types = [] then (types, True)
            else (filter (\<lambda>t. t \<notin> set backing_event_types) (dedupe_strings types), False))
         else (types, False))"

definition event_filter_ids :: "string \<Rightarrow> string list \<Rightarrow> string list" where
  "event_filter_ids primary alternatives =
     dedupe_strings ((if trim primary = [] then [] else [trim primary]) @ alternatives)"

text \<open>
  A page cursor as \<open>parseEventListPageCursor\<close> reads it: nothing, the key of the last event of the page before, an offset, or
  not a cursor.  The text of a cursor (JSON in base64) is not modelled.
\<close>

datatype page_cursor = FirstPage | Keyset string string | Offset nat | BadCursor

record event_filter =
  ef_types :: "string list"
  ef_backing_scope :: string
  ef_preset :: string
  ef_topic_id :: string
  ef_topic_ids :: "string list"
  ef_thread_id :: string
  ef_thread_ids :: "string list"
  ef_actor_id :: string
  ef_actor_ids :: "string list"
  ef_query :: string
  ef_since :: string
  ef_since_exclusive_id :: string
  ef_until :: string
  ef_limit :: int
  ef_cursor :: page_cursor

definition encode_event_keyset_cursor :: "string \<Rightarrow> string \<Rightarrow> page_cursor" where
  "encode_event_keyset_cursor ts i = (if trim ts = [] \<or> trim i = [] then FirstPage else Keyset (trim ts) (trim i))"

definition ev_key :: "event_row \<Rightarrow> string \<times> string" where
  "ev_key e = (ev_ts e, ev_id e)"

text \<open>The types a listing asks for: the request's, cut down by the preset and by the scope.\<close>

definition listed_types :: "event_filter \<Rightarrow> string list \<times> bool" where
  "listed_types f =
     (let explicit = dedupe_strings (ef_types f);
          types = (if to_lower (trim (ef_preset f)) = ''home_feed'' then
                     (if explicit \<noteq> [] then filter (\<lambda>t. t \<in> set home_feed_event_types) explicit
                      else home_feed_event_types)
                   else ef_types f)
      in apply_event_backing_scope types (ef_backing_scope f))"

text \<open>
  The \<open>WHERE\<close> clause of \<open>ListEventsPage\<close> without the cursor.  \<open>like q e\<close> is SQLite's \<open>LIKE\<close> of the text \<open>q\<close> on the columns of
  the event.
\<close>

definition event_matches :: "(string \<Rightarrow> event_row \<Rightarrow> bool) \<Rightarrow> event_filter \<Rightarrow> event_row \<Rightarrow> bool" where
  "event_matches like f e \<longleftrightarrow>
     (let (types, exclude) = listed_types f;
          threads = event_filter_ids (ef_thread_id f) (ef_thread_ids f);
          topics = event_filter_ids (ef_topic_id f) (ef_topic_ids f);
          actors = dedupe_strings (ef_actor_ids f);
          since = trim (ef_since f); sid = trim (ef_since_exclusive_id f)
      in null_text (ev_trashed_at e) = [] \<and>
         \<not> (dedupe_strings (ef_types f) \<noteq> [] \<and> types = []) \<and>
         (types = [] \<or> ev_type e \<in> set types) \<and>
         (exclude \<longrightarrow> ev_type e \<notin> set backing_event_types) \<and>
         (threads = [] \<or> ev_thread_id e \<in> set threads) \<and>
         (topics = [] \<or> list_ex (\<lambda>t. ''topic:'' @ t \<in> set (ev_refs e)) topics) \<and>
         (trim (ef_actor_id f) = [] \<or> ev_actor_id e = trim (ef_actor_id f)) \<and>
         (actors = [] \<or> ev_actor_id e \<in> set actors) \<and>
         (since = [] \<or> (if sid = [] then since \<le> ev_ts e else (since, sid) < ev_key e)) \<and>
         (trim (ef_until f) = [] \<or> ev_ts e \<le> trim (ef_until f)) \<and>
         (trim (ef_query f) = [] \<or> like (to_lower (trim (ef_query f))) e))"

definition page_limit :: "int \<Rightarrow> nat" where
  "page_limit n = (if n \<le> 0 then 50 else if n > 200 then 200 else nat n)"

text \<open>\<open>ORDER BY ts DESC, id DESC\<close>.\<close>

definition newest_first :: "event_row list \<Rightarrow> event_row list" where
  "newest_first es = rev (sort_key ev_key es)"

datatype event_error = InvalidCursor

type_synonym event_page = "event_row list \<times> page_cursor"

definition list_events_page :: "(string \<Rightarrow> event_row \<Rightarrow> bool) \<Rightarrow> event_filter \<Rightarrow> ws_db \<Rightarrow> event_error + event_page" where
  "list_events_page like f db =
     (let limit = page_limit (ef_limit f);
          found = newest_first (filter (event_matches like f) (ws_events db))
      in bind_res (case ef_cursor f of
             FirstPage \<Rightarrow> Inr found
           | Offset n \<Rightarrow> Inr (drop n found)
           | Keyset ts i \<Rightarrow> Inr (filter (\<lambda>e. ev_key e < (ts, i)) found)
           | BadCursor \<Rightarrow> Inl InvalidCursor)
         (\<lambda>rows. let rows1 = take (limit + 1) rows
            in if length rows1 > limit then
                 let page = take limit rows1; last_row = last page
                 in Inr (page, encode_event_keyset_cursor (ev_ts last_row) (ev_id last_row))
               else Inr (rows1, FirstPage)))"

text \<open>\<open>ListEvents\<close>: the loop over pages of 200 for callers that set no limit.\<close>

partial_function (option) list_all_pages ::
  "(string \<Rightarrow> event_row \<Rightarrow> bool) \<Rightarrow> event_filter \<Rightarrow> ws_db \<Rightarrow> page_cursor \<Rightarrow> event_row list \<Rightarrow>
     (event_error + event_row list) option" where
  "list_all_pages like f db cursor out =
     (case list_events_page like (f\<lparr>ef_limit := 200, ef_cursor := cursor\<rparr>) db of
        Inl e \<Rightarrow> Some (Inl e)
      | Inr (page, next_cursor) \<Rightarrow>
          if next_cursor = FirstPage then Some (Inr (out @ page))
          else list_all_pages like f db next_cursor (out @ page))"

definition list_events :: "(string \<Rightarrow> event_row \<Rightarrow> bool) \<Rightarrow> event_filter \<Rightarrow> ws_db \<Rightarrow> (event_error + event_row list) option" where
  "list_events like f db =
     (if ef_limit f > 0 then Some (map_sum id fst (list_events_page like f db))
      else list_all_pages like f db (ef_cursor f) [])"

text \<open>\<open>ListEventsByThread\<close> and \<open>ListRecentEventsByThread\<close>: oldest first; the thread id is taken as it is.\<close>

definition list_events_by_thread :: "string \<Rightarrow> ws_db \<Rightarrow> event_row list" where
  "list_events_by_thread threadID db = sort_key ev_key (filter (\<lambda>e. ev_thread_id e = threadID) (ws_events db))"

definition list_recent_events_by_thread :: "string \<Rightarrow> int \<Rightarrow> ws_db \<Rightarrow> event_row list" where
  "list_recent_events_by_thread threadID limit db =
     (if limit \<le> 0 then []
      else rev (take (nat limit) (newest_first (filter (\<lambda>e. ev_thread_id e = threadID) (ws_events db)))))"

text \<open>SQL's \<open>trim\<close> takes off blanks only.\<close>

definition trim_spaces :: "string \<Rightarrow> string" where
  "trim_spaces s = rev (dropWhile ((=) CHR '' '') (rev (dropWhile ((=) CHR '' '') s)))"

definition count_messages :: "string list \<Rightarrow> ws_db \<Rightarrow> (string \<times> nat) list" where
  "count_messages threadIDs db =
     map (\<lambda>i. (i, length (filter (\<lambda>e. ev_type e = ''message_posted'' \<and> trim_spaces (ev_thread_id e) = i \<and>
                              trim_spaces (null_text (ev_trashed_at e)) = []) (ws_events db))))
       (dedupe_strings threadIDs)"

section \<open>The replies of a message\<close>

text \<open>
  The replies of an event: the messages of the thread that refer to it.  \<open>collectMessageDescendantIDs\<close> goes through the
  replies level by level; \<open>seen\<close> are the ids that were put into the queue, and each round takes one from it.
\<close>

definition message_replies :: "ws_db \<Rightarrow> string \<Rightarrow> string \<Rightarrow> string list" where
  "message_replies db threadID current =
     concat (map (\<lambda>g. if e_source_type g = ''event'' \<and> e_target_type g = ''event'' \<and> e_target_id g = current \<and>
                        e_edge_type g = ref_edge_type_ref
       then map ev_id (filter (\<lambda>e. ev_id e = e_source_id g \<and> ev_thread_id e = threadID \<and> ev_type e = ''message_posted'')
                        (ws_events db))
       else []) (ws_edges db))"

lemma replies_are_events: "x \<in> set (message_replies db t c) \<Longrightarrow> x \<in> ev_id ` set (ws_events db)"
  by (auto simp: message_replies_def split: if_splits intro: rev_image_eqI)

function collect_from :: "ws_db \<Rightarrow> string \<Rightarrow> string list \<Rightarrow> string list \<Rightarrow> string list \<Rightarrow> string list" where
  "collect_from db t [] seen descendants = descendants"
| "collect_from db t (c # queue) seen descendants =
     (let new = unique_strings (filter (\<lambda>x. x \<notin> set seen) (message_replies db t c))
      in collect_from db t (queue @ new) (seen @ new) (descendants @ new))"
  by pat_completeness auto

termination
proof (relation "measure (\<lambda>(db, t, queue, seen, _). length queue + card (ev_id ` set (ws_events db) - set seen))")
  show "wf (measure (\<lambda>(db, t, queue, seen, _). length queue + card (ev_id ` set (ws_events db) - set seen)))" by simp
next
  fix db t c queue seen and descendants new :: "string list"
  assume new: "new = unique_strings (filter (\<lambda>x. x \<notin> set seen) (message_replies db t c))"
  let ?ids = "ev_id ` set (ws_events db)"
  have sub: "set new \<subseteq> ?ids - set seen" "distinct new"
    unfolding new unique_strings_def using replies_are_events by auto
  have "?ids - set (seen @ new) = (?ids - set seen) - set new" by auto
  moreover have "length new \<le> card (?ids - set seen)"
    using card_mono [OF _ sub(1)] sub(2) by (simp add: distinct_card)
  ultimately have "card (?ids - set (seen @ new)) + length new = card (?ids - set seen)"
    using sub by (simp add: card_Diff_subset distinct_card)
  then show "((db, t, queue @ new, seen @ new, descendants @ new), (db, t, c # queue, seen, descendants))
      \<in> measure (\<lambda>(db, t, queue, seen, _). length queue + card (ev_id ` set (ws_events db) - set seen))"
    by simp
qed

definition collect_message_descendants :: "ws_db \<Rightarrow> string \<Rightarrow> string \<Rightarrow> string list" where
  "collect_message_descendants db threadID0 parentID0 =
     (let threadID = trim threadID0; parentID = trim parentID0
      in if threadID = [] \<or> parentID = [] then [] else collect_from db threadID [parentID] [parentID] [])"

section \<open>Lifecycle\<close>

definition archive_event_row :: "string \<Rightarrow> string \<Rightarrow> event_row \<Rightarrow> event_row" where
  "archive_event_row now actorID e = e\<lparr>ev_archived_at := Some now, ev_archived_by := Some actorID\<rparr>"

definition unarchive_event_row :: "event_row \<Rightarrow> event_row" where
  "unarchive_event_row e = e\<lparr>ev_archived_at := None, ev_archived_by := None\<rparr>"

definition trash_event_row :: "string \<Rightarrow> string \<Rightarrow> string \<Rightarrow> event_row \<Rightarrow> event_row" where
  "trash_event_row now actorID reason e =
     e\<lparr>ev_trashed_at := Some now, ev_trashed_by := Some actorID, ev_trash_reason := Some reason, ev_archived_at := None,
       ev_archived_by := None\<rparr>"

definition untrash_event_row :: "event_row \<Rightarrow> event_row" where
  "untrash_event_row e = e\<lparr>ev_trashed_at := None, ev_trashed_by := None, ev_trash_reason := None\<rparr>"

lemmas event_row_changes = archive_event_row_def unarchive_event_row_def trash_event_row_def untrash_event_row_def

definition find_event :: "string \<Rightarrow> ws_db \<Rightarrow> event_row option" where
  "find_event i db = find (\<lambda>e. ev_id e = i) (ws_events db)"

definition update_event :: "string \<Rightarrow> (event_row \<Rightarrow> event_row) \<Rightarrow> ws_db \<Rightarrow> ws_db" where
  "update_event i f db = db\<lparr>ws_events := map (\<lambda>e. if ev_id e = i then f e else e) (ws_events db)\<rparr>"

text \<open>A reply is changed if it is in the state the operation takes it from; \<open>clock i\<close> is the time its row is written.\<close>

definition cascade_child :: "(event_row \<Rightarrow> bool) \<Rightarrow> (string \<Rightarrow> event_row \<Rightarrow> event_row) \<Rightarrow> string \<Rightarrow> ws_db \<Rightarrow> ws_db" where
  "cascade_child P f i db =
     (case find_event i db of None \<Rightarrow> db | Some e \<Rightarrow> if P e then update_event i (f i) db else db)"

definition archive_event_cascade_child :: "(string \<Rightarrow> string) \<Rightarrow> string \<Rightarrow> string \<Rightarrow> ws_db \<Rightarrow> ws_db" where
  "archive_event_cascade_child clock actorID =
     cascade_child (\<lambda>e. \<not> is_set (ev_trashed_at e) \<and> \<not> is_set (ev_archived_at e)) (\<lambda>i. archive_event_row (clock i) actorID)"

definition unarchive_event_cascade_child :: "string \<Rightarrow> ws_db \<Rightarrow> ws_db" where
  "unarchive_event_cascade_child = cascade_child (\<lambda>e. is_set (ev_archived_at e)) (\<lambda>_. unarchive_event_row)"

definition trash_event_cascade_child :: "(string \<Rightarrow> string) \<Rightarrow> string \<Rightarrow> string \<Rightarrow> string \<Rightarrow> ws_db \<Rightarrow> ws_db" where
  "trash_event_cascade_child clock actorID reason =
     cascade_child (\<lambda>e. \<not> is_set (ev_trashed_at e)) (\<lambda>i. trash_event_row (clock i) actorID (trim reason))"

definition restore_event_cascade_child :: "string \<Rightarrow> ws_db \<Rightarrow> ws_db" where
  "restore_event_cascade_child = cascade_child (\<lambda>e. is_set (ev_trashed_at e)) (\<lambda>_. untrash_event_row)"

text \<open>The cascade: the replies are collected after the message itself was written.\<close>

definition cascade :: "event_row \<Rightarrow> (string \<Rightarrow> ws_db \<Rightarrow> ws_db) \<Rightarrow> ws_db \<Rightarrow> ws_db" where
  "cascade e child db =
     (if ev_type e = ''message_posted'' \<and> trim (ev_thread_id e) \<noteq> []
      then fold child (collect_message_descendants db (ev_thread_id e) (ev_id e)) db else db)"

datatype event_change_error = EventInvalid | EventNotFound | EventAlreadyTrashed | EventNotArchived | EventNotTrashed

definition open_event :: "string \<Rightarrow> string \<Rightarrow> ws_db \<Rightarrow> event_change_error + event_row" where
  "open_event actorID eventID db =
     (if trim actorID = [] \<or> trim eventID = [] then Inl EventInvalid
      else case find_event (trim eventID) db of None \<Rightarrow> Inl EventNotFound | Some e \<Rightarrow> Inr e)"

text \<open>
  The operations when no other comes between their statements; each is a sequence of statements without a transaction, and the
  next section has them with other operations in between.
\<close>

definition archive_event :: "(string \<Rightarrow> string) \<Rightarrow> string \<Rightarrow> string \<Rightarrow> ws_db \<Rightarrow> event_change_error + event_row \<times> ws_db" where
  "archive_event clock actorID eventID db =
     bind_res (open_event actorID eventID db) (\<lambda>e.
     if is_set (ev_trashed_at e) then Inl EventAlreadyTrashed
     else if is_set (ev_archived_at e) then Inr (e, db)
     else let f = archive_event_row (clock (ev_id e)) (trim actorID)
          in Inr (f e, cascade e (archive_event_cascade_child clock (trim actorID)) (update_event (ev_id e) f db)))"

definition unarchive_event :: "string \<Rightarrow> string \<Rightarrow> ws_db \<Rightarrow> event_change_error + event_row \<times> ws_db" where
  "unarchive_event actorID eventID db =
     bind_res (open_event actorID eventID db) (\<lambda>e.
     if \<not> is_set (ev_archived_at e) then Inl EventNotArchived
     else Inr (unarchive_event_row e,
               cascade e unarchive_event_cascade_child (update_event (ev_id e) unarchive_event_row db)))"

definition trash_event :: "(string \<Rightarrow> string) \<Rightarrow> string \<Rightarrow> string \<Rightarrow> string \<Rightarrow> ws_db \<Rightarrow> event_change_error + event_row \<times> ws_db" where
  "trash_event clock actorID eventID reason db =
     bind_res (open_event actorID eventID db) (\<lambda>e.
     if is_set (ev_trashed_at e) then Inr (e, db)
     else let f = trash_event_row (clock (ev_id e)) (trim actorID) (trim reason)
          in Inr (f e, cascade e (trash_event_cascade_child clock (trim actorID) reason) (update_event (ev_id e) f db)))"

definition restore_event :: "string \<Rightarrow> string \<Rightarrow> ws_db \<Rightarrow> event_change_error + event_row \<times> ws_db" where
  "restore_event actorID eventID db =
     bind_res (open_event actorID eventID db) (\<lambda>e.
     if \<not> is_set (ev_trashed_at e) then Inl EventNotTrashed
     else Inr (untrash_event_row e,
               cascade e restore_event_cascade_child (update_event (ev_id e) untrash_event_row db)))"

section \<open>Statement by statement\<close>

text \<open>
  What other operations make of the database before a statement: \<open>AtWrite\<close> before the message is written (after it was read),
  \<open>AtCollect\<close> before its replies are collected, \<open>AtRead i\<close> and \<open>AtChange i\<close> before the reply \<open>i\<close> is read and written.  The
  collection of the replies, one query for each message, is taken as one statement.
\<close>

datatype event_moment = AtWrite | AtCollect | AtRead string | AtChange string

type_synonym others = "event_moment \<Rightarrow> ws_db \<Rightarrow> ws_db"

definition no_others :: others where "no_others m db = db"

definition cascade_child_among ::
  "others \<Rightarrow> (event_row \<Rightarrow> bool) \<Rightarrow> (string \<Rightarrow> event_row \<Rightarrow> event_row) \<Rightarrow> string \<Rightarrow> ws_db \<Rightarrow> ws_db" where
  "cascade_child_among oth P f i db =
     (let db1 = oth (AtRead i) db
      in case find_event i db1 of
           None \<Rightarrow> db1
         | Some e \<Rightarrow> if P e then update_event i (f i) (oth (AtChange i) db1) else db1)"

definition write_among ::
  "others \<Rightarrow> event_row \<Rightarrow> (event_row \<Rightarrow> event_row) \<Rightarrow> (string \<Rightarrow> ws_db \<Rightarrow> ws_db) \<Rightarrow> ws_db \<Rightarrow> event_change_error + event_row \<times> ws_db" where
  "write_among oth e f child db =
     Inr (f e, cascade e child (oth AtCollect (update_event (ev_id e) f (oth AtWrite db))))"

definition archive_event_among ::
  "others \<Rightarrow> (string \<Rightarrow> string) \<Rightarrow> string \<Rightarrow> string \<Rightarrow> ws_db \<Rightarrow> event_change_error + event_row \<times> ws_db" where
  "archive_event_among oth clock actorID eventID db =
     bind_res (open_event actorID eventID db) (\<lambda>e.
     if is_set (ev_trashed_at e) then Inl EventAlreadyTrashed
     else if is_set (ev_archived_at e) then Inr (e, db)
     else write_among oth e (archive_event_row (clock (ev_id e)) (trim actorID))
       (cascade_child_among oth (\<lambda>c. \<not> is_set (ev_trashed_at c) \<and> \<not> is_set (ev_archived_at c))
         (\<lambda>i. archive_event_row (clock i) (trim actorID))) db)"

definition unarchive_event_among :: "others \<Rightarrow> string \<Rightarrow> string \<Rightarrow> ws_db \<Rightarrow> event_change_error + event_row \<times> ws_db" where
  "unarchive_event_among oth actorID eventID db =
     bind_res (open_event actorID eventID db) (\<lambda>e.
     if \<not> is_set (ev_archived_at e) then Inl EventNotArchived
     else write_among oth e unarchive_event_row
       (cascade_child_among oth (\<lambda>c. is_set (ev_archived_at c)) (\<lambda>_. unarchive_event_row)) db)"

definition trash_event_among ::
  "others \<Rightarrow> (string \<Rightarrow> string) \<Rightarrow> string \<Rightarrow> string \<Rightarrow> string \<Rightarrow> ws_db \<Rightarrow> event_change_error + event_row \<times> ws_db" where
  "trash_event_among oth clock actorID eventID reason db =
     bind_res (open_event actorID eventID db) (\<lambda>e.
     if is_set (ev_trashed_at e) then Inr (e, db)
     else write_among oth e (trash_event_row (clock (ev_id e)) (trim actorID) (trim reason))
       (cascade_child_among oth (\<lambda>c. \<not> is_set (ev_trashed_at c))
         (\<lambda>i. trash_event_row (clock i) (trim actorID) (trim reason))) db)"

definition restore_event_among :: "others \<Rightarrow> string \<Rightarrow> string \<Rightarrow> ws_db \<Rightarrow> event_change_error + event_row \<times> ws_db" where
  "restore_event_among oth actorID eventID db =
     bind_res (open_event actorID eventID db) (\<lambda>e.
     if \<not> is_set (ev_trashed_at e) then Inl EventNotTrashed
     else write_among oth e untrash_event_row
       (cascade_child_among oth (\<lambda>c. is_set (ev_trashed_at c)) (\<lambda>_. untrash_event_row)) db)"

lemma cascade_child_alone: "cascade_child_among no_others P f = cascade_child P f"
  unfolding fun_eq_iff cascade_child_among_def cascade_child_def no_others_def Let_def by (intro allI refl)

lemma write_alone: "write_among no_others e f child db = Inr (f e, cascade e child (update_event (ev_id e) f db))"
  by (simp add: write_among_def no_others_def)

lemma events_alone:
  "archive_event_among no_others = archive_event" "unarchive_event_among no_others = unarchive_event"
  "trash_event_among no_others = trash_event" "restore_event_among no_others = restore_event"
  unfolding fun_eq_iff archive_event_among_def archive_event_def unarchive_event_among_def unarchive_event_def
    trash_event_among_def trash_event_def restore_event_among_def restore_event_def write_alone cascade_child_alone
    archive_event_cascade_child_def unarchive_event_cascade_child_def trash_event_cascade_child_def
    restore_event_cascade_child_def Let_def
  by (intro allI refl)+

text \<open>
  An event that goes to the trash between the read and the write of \<open>ArchiveEvent\<close> ends in the archive and in the trash.
\<close>

lemma stale_archive_two_states:
  assumes "find_event (trim i) db = Some e" "trim a \<noteq> []" "trim i \<noteq> []" "\<not> is_set (ev_trashed_at e)" "\<not> is_set (ev_archived_at e)"
    "ev_type e \<noteq> ''message_posted''" "trim (clock (ev_id e)) \<noteq> []" "trim now \<noteq> []"
  shows "\<exists>r db'. archive_event_among (\<lambda>m d. if m = AtWrite then update_event (ev_id e) (trash_event_row now b why) d else d) clock a i db = Inr (r, db') \<and>
    (\<exists>x\<in>set (ws_events db'). ev_id x = ev_id e \<and> is_set (ev_archived_at x) \<and> is_set (ev_trashed_at x))"
proof -
  let ?arch = "archive_event_row (clock (ev_id e)) (trim a)" and ?trash = "trash_event_row now b why"
  let ?db = "update_event (ev_id e) ?arch (update_event (ev_id e) ?trash db)"
  have "e \<in> set (ws_events db)" using assms(1) by (auto simp: find_event_def find_Some_iff)
  then have "?arch (?trash e) \<in> set (ws_events ?db)" by (force simp: update_event_def event_row_changes)
  moreover have "ev_id (?arch (?trash e)) = ev_id e" "is_set (ev_archived_at (?arch (?trash e)))" "is_set (ev_trashed_at (?arch (?trash e)))"
    using assms(7,8) by (simp_all add: event_row_changes is_set_def)
  moreover have "archive_event_among (\<lambda>m d. if m = AtWrite then update_event (ev_id e) ?trash d else d) clock a i db = Inr (?arch e, ?db)"
    using assms(1-6) by (simp add: archive_event_among_def open_event_def write_among_def cascade_def)
  ultimately show ?thesis by blast
qed

interpretation event_lanes:
  soft_delete ev_archived_at ev_trashed_at archive_event_row trash_event_row unarchive_event_row untrash_event_row
  by unfold_locales (simp_all add: event_row_changes)

end
