(* ===== verification/EventCascade.thy ===== *)
theory EventCascade
  imports EventLog
begin

text \<open>The cascades of the event lifecycle: which replies they reach, and what they do to them.\<close>

section \<open>The replies that are collected\<close>

definition reply_rel :: "ws_db \<Rightarrow> string \<Rightarrow> (string \<times> string) set" where
  "reply_rel db t = {(c, x). x \<in> set (message_replies db t c)}"

definition collect_inv :: "ws_db \<Rightarrow> string \<Rightarrow> string \<Rightarrow> string list \<Rightarrow> string list \<Rightarrow> string list \<Rightarrow> bool" where
  "collect_inv db t p queue seen ds \<longleftrightarrow>
     set queue \<subseteq> set seen \<and> set seen = insert p (set ds) \<and> distinct ds \<and> p \<notin> set ds \<and>
     (\<forall>c\<in>set seen - set queue. reply_rel db t `` {c} \<subseteq> set seen) \<and> set seen \<subseteq> (reply_rel db t)\<^sup>* `` {p}"

lemma collect_inv_step:
  assumes "collect_inv db t p (c # queue) seen ds"
    and new: "new = unique_strings (filter (\<lambda>x. x \<notin> set seen) (message_replies db t c))"
  shows "collect_inv db t p (queue @ new) (seen @ new) (ds @ new)"
proof -
  have inv: "set (c # queue) \<subseteq> set seen" "set seen = insert p (set ds)" "distinct ds" "p \<notin> set ds"
    "\<forall>x\<in>set seen - set (c # queue). reply_rel db t `` {x} \<subseteq> set seen" "set seen \<subseteq> (reply_rel db t)\<^sup>* `` {p}"
    using assms(1) unfolding collect_inv_def by blast+
  have set_new: "set new = reply_rel db t `` {c} - set seen" and dist: "distinct new"
    by (auto simp: new unique_strings_def reply_rel_def)
  have "(p, x) \<in> (reply_rel db t)\<^sup>*" if "x \<in> set new" for x
  proof -
    have "(p, c) \<in> (reply_rel db t)\<^sup>*" using inv(1,6) by auto
    moreover have "(c, x) \<in> reply_rel db t" using that set_new by auto
    ultimately show ?thesis by (rule rtrancl_into_rtrancl)
  qed
  then have "set (seen @ new) \<subseteq> (reply_rel db t)\<^sup>* `` {p}" using inv(6) by auto
  moreover have "reply_rel db t `` {x} \<subseteq> set (seen @ new)" if "x \<in> set (seen @ new) - set (queue @ new)" for x
    using that inv(5) set_new by (cases "x = c") auto
  moreover have "distinct (ds @ new)" "p \<notin> set (ds @ new)" using inv(2-4) dist set_new by auto
  ultimately show ?thesis using inv(1,2) by (auto simp: collect_inv_def)
qed

lemma collect_from_inv:
  "collect_inv db t p queue seen ds \<Longrightarrow>
     \<exists>seen'. collect_inv db t p [] seen' (collect_from db t queue seen ds)"
proof (induction db t queue seen ds rule: collect_from.induct)
  case (2 db t c queue seen ds)
  show ?case using 2(1) [OF refl collect_inv_step [OF 2(2) refl]] by (simp add: Let_def)
qed auto

text \<open>The loop ends with exactly the replies that can be reached, each once.\<close>

lemma closed_reach:
  assumes "p \<in> A" "\<And>c. c \<in> A \<Longrightarrow> r `` {c} \<subseteq> A"
  shows "r\<^sup>* `` {p} \<subseteq> A"
proof
  fix x assume "x \<in> r\<^sup>* `` {p}"
  then have "(p, x) \<in> r\<^sup>*" by simp
  then show "x \<in> A" by (induction rule: rtrancl_induct) (use assms in auto)
qed

lemma collect_descendants:
  assumes "trim t \<noteq> []" "trim p \<noteq> []"
  shows "set (collect_message_descendants db t p) = (reply_rel db (trim t))\<^sup>* `` {trim p} - {trim p}"
    "distinct (collect_message_descendants db t p)"
proof -
  let ?ds = "collect_from db (trim t) [trim p] [trim p] []"
  have "collect_inv db (trim t) (trim p) [trim p] [trim p] []" by (auto simp: collect_inv_def)
  from collect_from_inv [OF this] obtain seen where inv: "collect_inv db (trim t) (trim p) [] seen ?ds" by blast
  then have "set seen = (reply_rel db (trim t))\<^sup>* `` {trim p}"
    using closed_reach [of "trim p" "set seen" "reply_rel db (trim t)"] by (auto simp: collect_inv_def)
  with inv have "set ?ds = (reply_rel db (trim t))\<^sup>* `` {trim p} - {trim p}" "distinct ?ds"
    unfolding collect_inv_def by (metis Diff_insert_absorb, blast)
  moreover have "collect_message_descendants db t p = ?ds"
    using assms unfolding collect_message_descendants_def Let_def by (simp only: simp_thms if_False)
  ultimately show "set (collect_message_descendants db t p) = (reply_rel db (trim t))\<^sup>* `` {trim p} - {trim p}"
    "distinct (collect_message_descendants db t p)" by (simp_all only:)
qed

section \<open>What a cascade does\<close>

definition map_events :: "(event_row \<Rightarrow> event_row) \<Rightarrow> ws_db \<Rightarrow> ws_db" where
  "map_events g db = db\<lparr>ws_events := map g (ws_events db)\<rparr>"

definition keeps_event :: "(event_row \<Rightarrow> event_row) \<Rightarrow> bool" where
  "keeps_event g \<longleftrightarrow> (\<forall>e. ev_id (g e) = ev_id e \<and> ev_type (g e) = ev_type e \<and> ev_thread_id (g e) = ev_thread_id e)"

lemma update_is_map: "update_event i f = map_events (\<lambda>e. if ev_id e = i then f e else e)"
  by (rule ext) (simp add: update_event_def map_events_def)

lemma event_rows_kept: "keeps_event (archive_event_row now a)" "keeps_event unarchive_event_row"
  "keeps_event (trash_event_row now a why)" "keeps_event untrash_event_row"
  by (simp_all add: keeps_event_def event_row_changes)

lemma keeps_if: "keeps_event g \<Longrightarrow> keeps_event (\<lambda>e. if P e then g e else e)"
  by (simp add: keeps_event_def)

lemma keeps_if_by: "(\<And>i. keeps_event (f i)) \<Longrightarrow> keeps_event (\<lambda>e. if P e then f (ev_id e) e else e)"
  by (simp add: keeps_event_def)

lemma keeps_ids: "keeps_event g \<Longrightarrow> map ev_id (ws_events (map_events g db)) = map ev_id (ws_events db)"
  by (simp add: keeps_event_def map_events_def)

lemma replies_kept: "keeps_event g \<Longrightarrow> message_replies (map_events g db) t c = message_replies db t c"
  by (simp add: message_replies_def map_events_def filter_map comp_def keeps_event_def cong: if_cong)

lemma reply_rel_kept: "keeps_event g \<Longrightarrow> reply_rel (map_events g db) t = reply_rel db t"
  by (simp add: reply_rel_def replies_kept)

lemma find_unique:
  assumes "distinct (map ev_id es)" "e \<in> set es"
  shows "find (\<lambda>x. ev_id x = ev_id e) es = Some e"
  using assms
proof (induction es)
  case (Cons a es)
  show ?case
  proof (cases "a = e")
    case False
    with Cons.prems have "e \<in> set es" "ev_id e \<in> ev_id ` set es" by auto
    with Cons show ?thesis by auto
  qed simp
qed simp

lemma cascade_child_map:
  assumes "distinct (map ev_id (ws_events db))"
  shows "cascade_child P f i db = map_events (\<lambda>e. if ev_id e = i \<and> P e then f (ev_id e) e else e) db"
proof -
  let ?g = "\<lambda>e. if ev_id e = i \<and> P e then f (ev_id e) e else e"
  show ?thesis
  proof (cases "find_event i db")
    case None
    have no: "ev_id e \<noteq> i" if "e \<in> set (ws_events db)" for e
      using None that unfolding find_event_def find_None_iff by blast
    have "map ?g (ws_events db) = ws_events db" by (rule map_idI) (use no in simp)
    with None show ?thesis by (simp add: cascade_child_def map_events_def)
  next
    case (Some x)
    then have x: "x \<in> set (ws_events db)" "ev_id x = i"
      unfolding find_event_def find_Some_iff using nth_mem by blast+
    have same: "e = x" if "e \<in> set (ws_events db)" "ev_id e = i" for e
      using that x assms unfolding distinct_map by (metis inj_onD)
    have "map ?g (ws_events db) = (if P x then map (\<lambda>e. if ev_id e = i then f i e else e) (ws_events db) else ws_events db)"
    proof (cases "P x")
      case True
      then show ?thesis using same by (simp only: if_True) (rule map_cong [OF refl], auto)
    next
      case False
      have "map ?g (ws_events db) = ws_events db" by (rule map_idI) (use same False in auto)
      with False show ?thesis by simp
    qed
    with Some show ?thesis by (simp add: cascade_child_def map_events_def update_event_def)
  qed
qed

lemma map_events_map_events: "map_events g (map_events h db) = map_events (g \<circ> h) db"
  by (simp add: map_events_def)

lemma cascade_fold:
  assumes "distinct ids" "distinct (map ev_id (ws_events db))" "\<And>i. keeps_event (f i)"
  shows "fold (cascade_child P f) ids db = map_events (\<lambda>e. if ev_id e \<in> set ids \<and> P e then f (ev_id e) e else e) db"
  using assms(1,2)
proof (induction ids arbitrary: db)
  case Nil
  then show ?case by (simp add: map_events_def)
next
  case (Cons i ids)
  let ?g = "\<lambda>e. if ev_id e = i \<and> P e then f (ev_id e) e else e"
  have g: "keeps_event ?g" by (rule keeps_if_by [OF assms(3)])
  have "distinct (map ev_id (ws_events (map_events ?g db)))" using keeps_ids [OF g] Cons.prems by simp
  with Cons have "fold (cascade_child P f) (i # ids) db =
      map_events (\<lambda>e. if ev_id e \<in> set ids \<and> P e then f (ev_id e) e else e) (map_events ?g db)"
    by (simp add: cascade_child_map)
  also have "\<dots> = map_events (\<lambda>e. if ev_id e \<in> set (i # ids) \<and> P e then f (ev_id e) e else e) db"
    unfolding map_events_map_events using Cons.prems(1) assms(3)
    by (intro arg_cong [where f = "\<lambda>g. map_events g db"] ext) (auto simp: keeps_event_def)
  finally show ?case .
qed

text \<open>The replies an operation on \<open>e\<close> goes on to.\<close>

definition reply_ids :: "ws_db \<Rightarrow> event_row \<Rightarrow> string set" where
  "reply_ids db e =
     (if ev_type e = ''message_posted'' \<and> trim (ev_thread_id e) \<noteq> []
      then (reply_rel db (trim (ev_thread_id e)))\<^sup>* `` {ev_id e} - {ev_id e} else {})"

lemma not_own_reply [simp]: "ev_id e \<notin> reply_ids db e"
  by (simp add: reply_ids_def)

lemma reply_ids_kept: "keeps_event g \<Longrightarrow> reply_ids (map_events g db) e = reply_ids db e"
  by (simp add: reply_ids_def reply_rel_kept)

lemma reply_ids_same: "ev_id e = ev_id e' \<Longrightarrow> ev_type e = ev_type e' \<Longrightarrow> ev_thread_id e = ev_thread_id e' \<Longrightarrow>
    reply_ids db e = reply_ids db e'"
  by (simp add: reply_ids_def)

lemma cascade_map:
  assumes "distinct (map ev_id (ws_events db))" "\<And>i. keeps_event (f i)" "trim (ev_id e) = ev_id e" "ev_id e \<noteq> []"
  shows "cascade e (cascade_child P f) db =
    map_events (\<lambda>x. if ev_id x \<in> reply_ids db e \<and> P x then f (ev_id x) x else x) db"
proof (cases "ev_type e = ''message_posted'' \<and> trim (ev_thread_id e) \<noteq> []")
  case True
  note ds = collect_descendants [of "ev_thread_id e" "ev_id e" db]
  from True assms show ?thesis by (simp add: cascade_def cascade_fold ds reply_ids_def)
next
  case False
  then show ?thesis by (auto simp: cascade_def reply_ids_def map_events_def)
qed

end
