(* ===== verification/EventSafety.thy ===== *)
theory EventSafety
  imports EventCascade
begin

text \<open>Histories of the event log, and what holds in all of them.\<close>

section \<open>Histories\<close>

inductive event_step :: "ws_db \<Rightarrow> ws_db \<Rightarrow> bool" where
  step_append: "insert_event actorID i ts ev db = Inr db' \<Longrightarrow> trim i = i \<Longrightarrow> i \<noteq> [] \<Longrightarrow> trim ts = ts \<Longrightarrow> ts \<noteq> [] \<Longrightarrow>
    event_step db db'"
| step_archive: "archive_event clock actorID i db = Inr (e, db') \<Longrightarrow> (\<And>j. trim (clock j) \<noteq> []) \<Longrightarrow> event_step db db'"
| step_unarchive: "unarchive_event actorID i db = Inr (e, db') \<Longrightarrow> event_step db db'"
| step_trash: "trash_event clock actorID i reason db = Inr (e, db') \<Longrightarrow> (\<And>j. trim (clock j) \<noteq> []) \<Longrightarrow> event_step db db'"
| step_restore: "restore_event actorID i db = Inr (e, db') \<Longrightarrow> event_step db db'"
| step_elsewhere: "ws_events db' = ws_events db \<Longrightarrow> event_step db db'"

inductive event_history :: "ws_db \<Rightarrow> bool" where
  history_empty: "ws_events db = [] \<Longrightarrow> event_history db"
| history_more: "event_history db \<Longrightarrow> event_step db db' \<Longrightarrow> event_history db'"

definition event_ok :: "event_row \<Rightarrow> bool" where
  "event_ok e \<longleftrightarrow> trim (ev_id e) = ev_id e \<and> ev_id e \<noteq> [] \<and> trim (ev_ts e) = ev_ts e \<and> ev_ts e \<noteq> [] \<and>
     event_lanes.one_lane e \<and> (ev_archived_at e = None \<longrightarrow> ev_archived_by e = None) \<and>
     (ev_trashed_at e = None \<longrightarrow> ev_trashed_by e = None \<and> ev_trash_reason e = None)"

definition events_ok :: "ws_db \<Rightarrow> bool" where
  "events_ok db \<longleftrightarrow> distinct (map ev_id (ws_events db)) \<and> (\<forall>e\<in>set (ws_events db). event_ok e)"

section \<open>The four operations, in terms of the rows\<close>

text \<open>\<open>spread P f e R\<close> changes the event \<open>e\<close>, and of its replies \<open>R\<close> those in the state \<open>P\<close>.\<close>

definition spread :: "(event_row \<Rightarrow> bool) \<Rightarrow> (string \<Rightarrow> event_row \<Rightarrow> event_row) \<Rightarrow> event_row \<Rightarrow> string set \<Rightarrow> event_row \<Rightarrow> event_row" where
  "spread P f e R x = (if ev_id x = ev_id e \<or> ev_id x \<in> R \<and> P x then f (ev_id x) x else x)"

lemma open_event_Inr:
  assumes "open_event a i db = Inr e"
  shows "e \<in> set (ws_events db)" "ev_id e = trim i" "find_event (trim i) db = Some e"
proof -
  show f: "find_event (trim i) db = Some e" using assms by (auto simp: open_event_def split: if_splits option.splits)
  then show "e \<in> set (ws_events db)" "ev_id e = trim i" unfolding find_event_def find_Some_iff using nth_mem by blast+
qed

lemma open_event_ok:
  assumes "trim a \<noteq> []" "trim i \<noteq> []" "find_event (trim i) db = Some e"
  shows "open_event a i db = Inr e"
  using assms by (simp add: open_event_def)

lemma cascade_spread:
  assumes ok: "events_ok db" and e: "e \<in> set (ws_events db)" and f: "\<And>i. keeps_event (f i)"
  shows "cascade e (cascade_child P f) (update_event (ev_id e) (f (ev_id e)) db) = map_events (spread P f e (reply_ids db e)) db"
proof -
  let ?g = "\<lambda>x. if ev_id x = ev_id e then f (ev_id e) x else x"
  have g: "keeps_event ?g" by (rule keeps_if [OF f])
  have id: "trim (ev_id e) = ev_id e" "ev_id e \<noteq> []" using ok e by (auto simp: events_ok_def event_ok_def)
  have "distinct (map ev_id (ws_events (map_events ?g db)))" using ok by (simp add: keeps_ids [OF g] events_ok_def)
  from cascade_map [OF this f id]
  have "cascade e (cascade_child P f) (update_event (ev_id e) (f (ev_id e)) db) =
      map_events (\<lambda>x. if ev_id x \<in> reply_ids db e \<and> P x then f (ev_id x) x else x) (map_events ?g db)"
    by (simp add: update_is_map reply_ids_kept [OF g])
  also have "\<dots> = map_events (spread P f e (reply_ids db e)) db"
    unfolding map_events_map_events using f not_own_reply [of e db]
    by (intro arg_cong [where f = "\<lambda>g. map_events g db"] ext) (auto simp: spread_def keeps_event_def)
  finally show ?thesis .
qed

lemma archive_event_Inr:
  assumes "events_ok db" "archive_event clock a i db = Inr (r, db')"
  obtains e where "e \<in> set (ws_events db)" "ev_id e = trim i" "\<not> is_set (ev_trashed_at e)"
    "is_set (ev_archived_at e) \<and> db' = db \<or> \<not> is_set (ev_archived_at e) \<and>
      db' = map_events (spread (\<lambda>x. \<not> is_set (ev_trashed_at x) \<and> \<not> is_set (ev_archived_at x))
        (\<lambda>i. archive_event_row (clock i) (trim a)) e (reply_ids db e)) db"
proof -
  obtain e where e: "open_event a i db = Inr e" "\<not> is_set (ev_trashed_at e)"
    "is_set (ev_archived_at e) \<and> db' = db \<or> \<not> is_set (ev_archived_at e) \<and>
       db' = cascade e (archive_event_cascade_child clock (trim a)) (update_event (ev_id e) (archive_event_row (clock (ev_id e)) (trim a)) db)"
    using assms(2) by (auto simp: archive_event_def bind_res_Inr_iff Let_def split: if_splits)
  note facts = open_event_Inr [OF e(1)]
  have "cascade e (archive_event_cascade_child clock (trim a)) (update_event (ev_id e) (archive_event_row (clock (ev_id e)) (trim a)) db) =
      map_events (spread (\<lambda>x. \<not> is_set (ev_trashed_at x) \<and> \<not> is_set (ev_archived_at x))
        (\<lambda>i. archive_event_row (clock i) (trim a)) e (reply_ids db e)) db"
    unfolding archive_event_cascade_child_def by (rule cascade_spread [OF assms(1) facts(1) event_rows_kept(1)])
  with e(2,3) facts(1,2) show ?thesis by (intro that) simp_all
qed

lemma unarchive_event_Inr:
  assumes "events_ok db" "unarchive_event a i db = Inr (r, db')"
  obtains e where "e \<in> set (ws_events db)" "ev_id e = trim i" "is_set (ev_archived_at e)"
    "db' = map_events (spread (\<lambda>x. is_set (ev_archived_at x)) (\<lambda>_. unarchive_event_row) e (reply_ids db e)) db"
proof -
  obtain e where e: "open_event a i db = Inr e" "is_set (ev_archived_at e)"
    "db' = cascade e unarchive_event_cascade_child (update_event (ev_id e) unarchive_event_row db)"
    using assms(2) by (auto simp: unarchive_event_def bind_res_Inr_iff split: if_splits)
  note facts = open_event_Inr [OF e(1)]
  have "db' = map_events (spread (\<lambda>x. is_set (ev_archived_at x)) (\<lambda>_. unarchive_event_row) e (reply_ids db e)) db"
    unfolding e(3) unarchive_event_cascade_child_def
    by (rule cascade_spread [where f = "\<lambda>_. unarchive_event_row", OF assms(1) facts(1) event_rows_kept(2)])
  with e(2) facts(1,2) show ?thesis by (intro that) simp_all
qed

lemma trash_event_Inr:
  assumes "events_ok db" "trash_event clock a i why db = Inr (r, db')"
  obtains e where "e \<in> set (ws_events db)" "ev_id e = trim i"
    "is_set (ev_trashed_at e) \<and> db' = db \<or> \<not> is_set (ev_trashed_at e) \<and>
      db' = map_events (spread (\<lambda>x. \<not> is_set (ev_trashed_at x)) (\<lambda>i. trash_event_row (clock i) (trim a) (trim why)) e
        (reply_ids db e)) db"
proof -
  obtain e where e: "open_event a i db = Inr e"
    "is_set (ev_trashed_at e) \<and> db' = db \<or> \<not> is_set (ev_trashed_at e) \<and>
       db' = cascade e (trash_event_cascade_child clock (trim a) why)
               (update_event (ev_id e) (trash_event_row (clock (ev_id e)) (trim a) (trim why)) db)"
    using assms(2) by (auto simp: trash_event_def bind_res_Inr_iff Let_def split: if_splits)
  note facts = open_event_Inr [OF e(1)]
  have "cascade e (trash_event_cascade_child clock (trim a) why)
      (update_event (ev_id e) (trash_event_row (clock (ev_id e)) (trim a) (trim why)) db) =
      map_events (spread (\<lambda>x. \<not> is_set (ev_trashed_at x)) (\<lambda>i. trash_event_row (clock i) (trim a) (trim why)) e
        (reply_ids db e)) db"
    unfolding trash_event_cascade_child_def by (rule cascade_spread [OF assms(1) facts(1) event_rows_kept(3)])
  with e(2) facts(1,2) show ?thesis by (intro that) simp_all
qed

lemma restore_event_Inr:
  assumes "events_ok db" "restore_event a i db = Inr (r, db')"
  obtains e where "e \<in> set (ws_events db)" "ev_id e = trim i" "is_set (ev_trashed_at e)"
    "db' = map_events (spread (\<lambda>x. is_set (ev_trashed_at x)) (\<lambda>_. untrash_event_row) e (reply_ids db e)) db"
proof -
  obtain e where e: "open_event a i db = Inr e" "is_set (ev_trashed_at e)"
    "db' = cascade e restore_event_cascade_child (update_event (ev_id e) untrash_event_row db)"
    using assms(2) by (auto simp: restore_event_def bind_res_Inr_iff split: if_splits)
  note facts = open_event_Inr [OF e(1)]
  have "db' = map_events (spread (\<lambda>x. is_set (ev_trashed_at x)) (\<lambda>_. untrash_event_row) e (reply_ids db e)) db"
    unfolding e(3) restore_event_cascade_child_def
    by (rule cascade_spread [where f = "\<lambda>_. untrash_event_row", OF assms(1) facts(1) event_rows_kept(4)])
  with e(2) facts(1,2) show ?thesis by (intro that) simp_all
qed

section \<open>The invariant\<close>

lemma spread_keeps_ok:
  assumes "events_ok db" "e \<in> set (ws_events db)" "\<And>i. keeps_event (f i)"
    and "\<And>i x. event_ok x \<Longrightarrow> P x \<Longrightarrow> event_ok (f i x)" and "event_ok e \<Longrightarrow> event_ok (f (ev_id e) e)"
  shows "events_ok (map_events (spread P f e R) db)"
proof -
  have "keeps_event (spread P f e R)" using assms(3) by (auto simp: spread_def keeps_event_def)
  note ids = keeps_ids [OF this, of db]
  have same: "x = e" if "x \<in> set (ws_events db)" "ev_id x = ev_id e" for x
    using that assms(1,2) by (auto simp: events_ok_def distinct_map dest: inj_onD)
  have ok: "event_ok x" if "x \<in> set (ws_events db)" for x using assms(1) that by (simp add: events_ok_def)
  have "event_ok (spread P f e R x)" if "x \<in> set (ws_events db)" for x
    using same [OF that] ok [OF that] assms(4,5) by (auto simp: spread_def)
  then have "\<forall>x\<in>set (ws_events (map_events (spread P f e R) db)). event_ok x" by (simp add: map_events_def)
  moreover have "distinct (map ev_id (ws_events (map_events (spread P f e R) db)))" unfolding ids using assms(1) by (simp add: events_ok_def)
  ultimately show ?thesis unfolding events_ok_def by blast
qed

lemma event_ok_changes:
  "event_ok e \<Longrightarrow> \<not> is_set (ev_trashed_at e) \<Longrightarrow> trim now \<noteq> [] \<Longrightarrow> event_ok (archive_event_row now a e)"
  "event_ok e \<Longrightarrow> event_ok (unarchive_event_row e)"
  "event_ok e \<Longrightarrow> trim now \<noteq> [] \<Longrightarrow> event_ok (trash_event_row now a why e)"
  "event_ok e \<Longrightarrow> event_ok (untrash_event_row e)"
  by (simp_all add: event_ok_def event_row_changes event_lanes.one_lane_def col_ok_def)

lemma event_step_ok:
  assumes "event_step db db'" "events_ok db"
  shows "events_ok db'"
  using assms
proof (cases rule: event_step.cases)
  case (step_append actorID i ts ev)
  from insert_event_Inr [OF this(1)] step_append(1) obtain e es where
    e: "db' = db\<lparr>ws_events := ws_events db @ [e], ws_edges := es\<rparr>" "ev_id e = i" "i \<notin> ev_id ` set (ws_events db)"
      "ev_ts e = ts" "ev_archived_at e = None" "ev_archived_by e = None" "ev_trashed_at e = None" "ev_trashed_by e = None"
      "ev_trash_reason e = None"
    by (auto simp: insert_event_def bind_res_Inr_iff split: if_splits dest!: replace_ref_edges_Inr)
  have "event_ok e" using e step_append by (simp add: event_ok_def event_lanes.one_lane_def)
  with assms(2) e show ?thesis by (simp add: events_ok_def)
next
  case (step_archive clock actorID i e)
  from archive_event_Inr [OF assms(2) step_archive(1)] step_archive(2) assms(2) show ?thesis
    by (metis (no_types, lifting) spread_keeps_ok event_rows_kept(1) event_ok_changes(1))
next
  case (step_unarchive actorID i e)
  from unarchive_event_Inr [OF assms(2) step_unarchive(1)] assms(2) show ?thesis
    by (metis (no_types, lifting) spread_keeps_ok event_rows_kept(2) event_ok_changes(2))
next
  case (step_trash clock actorID i reason e)
  from trash_event_Inr [OF assms(2) step_trash(1)] step_trash(2) assms(2) show ?thesis
    by (metis (no_types, lifting) spread_keeps_ok event_rows_kept(3) event_ok_changes(3))
next
  case (step_restore actorID i e)
  from restore_event_Inr [OF assms(2) step_restore(1)] assms(2) show ?thesis
    by (metis (no_types, lifting) spread_keeps_ok event_rows_kept(4) event_ok_changes(4))
next
  case step_elsewhere
  with assms(2) show ?thesis by (simp add: events_ok_def)
qed

lemma event_history_ok: "event_history db \<Longrightarrow> events_ok db"
proof (induction rule: event_history.induct)
  case (history_empty db)
  then show ?case by (simp add: events_ok_def)
qed (rule event_step_ok)

lemma same_event:
  assumes "events_ok db" "x \<in> set (ws_events db)" "e \<in> set (ws_events db)" "ev_id x = ev_id e"
  shows "x = e"
  using assms by (auto simp: events_ok_def distinct_map dest: inj_onD)

end
