(* ===== verification/EventLifecycle.thy ===== *)
theory EventLifecycle
  imports EventSafety DocumentSamples
begin

text \<open>What the lifecycle of a message does to its replies, with a short talk of three messages as the sample.\<close>

section \<open>A talk\<close>

definition message_draft :: "string list \<Rightarrow> event_draft" where
  "message_draft refs = \<lparr>ed_type = ''message_posted'', ed_thread_id = ''t'', ed_refs = refs, ed_summary = ''hi'', ed_payload = []\<rparr>"

definition post :: "string \<Rightarrow> string list \<Rightarrow> ws_db \<Rightarrow> doc_error + ws_db" where
  "post k refs = insert_event ''ann'' (''m'' @ k) (''2026-01-01T00:00:0'' @ k @ ''Z'') (message_draft refs)"

definition message_row :: "string \<Rightarrow> string \<Rightarrow> string list \<Rightarrow> event_row" where
  "message_row k handle refs =
     \<lparr>ev_id = ''m'' @ k, ev_handle = Some handle, ev_type = ''message_posted'', ev_ts = ''2026-01-01T00:00:0'' @ k @ ''Z'',
      ev_actor_id = ''ann'', ev_thread_id = ''t'', ev_refs = refs, ev_summary = ''hi'', ev_payload = [], ev_archived_at = None,
      ev_archived_by = None, ev_trashed_at = None, ev_trashed_by = None, ev_trash_reason = None\<rparr>"

definition talk1 :: ws_db where "talk1 = ws_empty\<lparr>ws_events := [message_row ''1'' ''message-posted'' []]\<rparr>"
definition talk2 :: ws_db where
  "talk2 = ws_empty\<lparr>ws_events := ws_events talk1 @ [message_row ''2'' ''message-posted-2'' [''event:m1'']],
     ws_edges := [sample_edge ''event'' ''m2'' ''event'' ''m1'' ''ref'' ''event:message-posted'']\<rparr>"
definition talk3 :: ws_db where
  "talk3 = ws_empty\<lparr>ws_events := ws_events talk2 @ [message_row ''3'' ''message-posted-3'' [''event:m2'']],
     ws_edges := ws_edges talk2 @ [sample_edge ''event'' ''m3'' ''event'' ''m2'' ''ref'' ''event:message-posted-2'']\<rparr>"

lemma talk_posts: "post ''1'' [] ws_empty = Inr talk1" "post ''2'' [''event:m1''] talk1 = Inr talk2"
  "post ''3'' [''event:m2''] talk2 = Inr talk3"
  by code_simp+

lemma post_step:
  assumes "event_history db" "post k refs db = Inr db'" "trim (''m'' @ k) = ''m'' @ k"
    "trim (''2026-01-01T00:00:0'' @ k @ ''Z'') = ''2026-01-01T00:00:0'' @ k @ ''Z''"
  shows "event_history db'"
  using step_append [OF assms(2) [unfolded post_def] assms(3) _ assms(4)] by (intro history_more [OF assms(1)]) simp

lemma talk2_history: "event_history talk2"
proof -
  have "event_history ws_empty" by (rule history_empty) (simp add: ws_empty_def)
  then have "event_history talk1" by (rule post_step [OF _ talk_posts(1)]) code_simp+
  then show ?thesis by (rule post_step [OF _ talk_posts(2)]) code_simp+
qed

lemma talk_history: "event_history talk3"
  by (rule post_step [OF talk2_history talk_posts(3)]) code_simp+

lemma talk_values:
  "collect_message_descendants talk3 ''t'' ''m1'' = [''m2'', ''m3'']"
  "trim ''t'' = ''t''" "trim ''m1'' = ''m1''" "trim ''ann'' \<noteq> []" "trim ''m1'' \<noteq> []"
  by code_simp+

lemma talk_rows: "ws_events talk3 = [message_row ''1'' ''message-posted'' [], message_row ''2'' ''message-posted-2'' [''event:m1''],
    message_row ''3'' ''message-posted-3'' [''event:m2'']]"
  by (simp add: talk3_def talk2_def talk1_def)

lemma talk_replies: "reply_ids talk3 (message_row ''1'' ''message-posted'' []) = {''m2'', ''m3''}"
  using collect_descendants(1) [of "''t''" "''m1''" talk3] talk_values
  by (simp add: reply_ids_def message_row_def)

section \<open>The cascade is exact\<close>

text \<open>
  C19. Archiving a message archives the message and, of the replies reached from it in its thread, those that are neither archived
  nor in the trash, at any depth; it changes nothing else.  Trashing takes every reply that is not in the trash yet.
\<close>

theorem discard_cascade_exact:
  assumes "event_history db" "find_event (trim i) db = Some e" "trim a \<noteq> []" "trim i \<noteq> []" "\<not> is_set (ev_trashed_at e)"
  shows "(\<not> is_set (ev_archived_at e) \<longrightarrow> (\<exists>r db'. archive_event clock a i db = Inr (r, db') \<and>
      ws_events db' = map (\<lambda>x. if x = e \<or> ev_id x \<in> reply_ids db e \<and> \<not> is_set (ev_archived_at x) \<and> \<not> is_set (ev_trashed_at x)
        then archive_event_row (clock (ev_id x)) (trim a) x else x) (ws_events db))) \<and>
    (\<exists>r db'. trash_event clock a i why db = Inr (r, db') \<and>
      ws_events db' = map (\<lambda>x. if x = e \<or> ev_id x \<in> reply_ids db e \<and> \<not> is_set (ev_trashed_at x)
        then trash_event_row (clock (ev_id x)) (trim a) (trim why) x else x) (ws_events db))"
proof (intro conjI impI)
  have ok: "events_ok db" by (rule event_history_ok [OF assms(1)])
  have op: "open_event a i db = Inr e" by (rule open_event_ok [OF assms(3,4,2)])
  note e = open_event_Inr [OF op]
  have same: "ev_id x = ev_id e \<longleftrightarrow> x = e" if "x \<in> set (ws_events db)" for x using same_event [OF ok that e(1)] by auto
  show "\<exists>r db'. archive_event clock a i db = Inr (r, db') \<and>
      ws_events db' = map (\<lambda>x. if x = e \<or> ev_id x \<in> reply_ids db e \<and> \<not> is_set (ev_archived_at x) \<and> \<not> is_set (ev_trashed_at x)
        then archive_event_row (clock (ev_id x)) (trim a) x else x) (ws_events db)" if "\<not> is_set (ev_archived_at e)"
  proof -
    have "archive_event clock a i db = Inr (archive_event_row (clock (ev_id e)) (trim a) e,
        map_events (spread (\<lambda>x. \<not> is_set (ev_trashed_at x) \<and> \<not> is_set (ev_archived_at x))
          (\<lambda>i. archive_event_row (clock i) (trim a)) e (reply_ids db e)) db)"
      using op assms(5) that cascade_spread [OF ok e(1) event_rows_kept(1), where P = "\<lambda>x. \<not> is_set (ev_trashed_at x) \<and> \<not> is_set (ev_archived_at x)"]
      by (simp add: archive_event_def Let_def archive_event_cascade_child_def)
    then show ?thesis by (auto simp: map_events_def spread_def same)
  qed
  have "trash_event clock a i why db = Inr (trash_event_row (clock (ev_id e)) (trim a) (trim why) e,
      map_events (spread (\<lambda>x. \<not> is_set (ev_trashed_at x)) (\<lambda>i. trash_event_row (clock i) (trim a) (trim why)) e (reply_ids db e)) db)"
    using op assms(5) cascade_spread [OF ok e(1) event_rows_kept(3), where P = "\<lambda>x. \<not> is_set (ev_trashed_at x)"]
    by (simp add: trash_event_def Let_def trash_event_cascade_child_def)
  then show "\<exists>r db'. trash_event clock a i why db = Inr (r, db') \<and>
      ws_events db' = map (\<lambda>x. if x = e \<or> ev_id x \<in> reply_ids db e \<and> \<not> is_set (ev_trashed_at x)
        then trash_event_row (clock (ev_id x)) (trim a) (trim why) x else x) (ws_events db)"
    by (auto simp: map_events_def spread_def same)
qed

theorem discard_cascade_exact_witness:
  "\<exists>r db'. archive_event (\<lambda>_. ''now'') ''ann'' ''m1'' talk3 = Inr (r, db') \<and> map ev_archived_at (ws_events db') = replicate 3 (Some ''now'')"
proof -
  let ?e = "message_row ''1'' ''message-posted'' []"
  have "find_event (trim ''m1'') talk3 = Some ?e" using talk_values(3) by (simp add: find_event_def talk_rows message_row_def)
  moreover have "\<not> is_set (ev_trashed_at ?e)" "\<not> is_set (ev_archived_at ?e)" by (simp_all add: message_row_def)
  ultimately obtain r db' where "archive_event (\<lambda>_. ''now'') ''ann'' ''m1'' talk3 = Inr (r, db')"
    "ws_events db' = map (\<lambda>x. if x = ?e \<or> ev_id x \<in> reply_ids talk3 ?e \<and> \<not> is_set (ev_archived_at x) \<and> \<not> is_set (ev_trashed_at x)
      then archive_event_row ''now'' (trim ''ann'') x else x) (ws_events talk3)"
    using discard_cascade_exact [OF talk_history, of "''m1''" ?e "''ann''" "\<lambda>_. ''now''"] talk_values(4,5) by blast
  then show ?thesis unfolding talk_replies talk_rows
    by (simp add: message_row_def archive_event_row_def numeral_3_eq_3)
qed

section \<open>Undoing it\<close>

lemma undo_rows:
  "event_ok x \<Longrightarrow> \<not> is_set (ev_archived_at x) \<Longrightarrow> unarchive_event_row (archive_event_row now a x) = x"
  "is_set (ev_archived_at x) \<Longrightarrow> unarchive_event_row x \<noteq> x"
  "event_ok x \<Longrightarrow> \<not> is_set (ev_trashed_at x) \<Longrightarrow> untrash_event_row (trash_event_row now a why x) = x \<longleftrightarrow> \<not> is_set (ev_archived_at x)"
  "is_set (ev_trashed_at x) \<Longrightarrow> untrash_event_row x \<noteq> x"
  by (cases x; auto simp: event_ok_def event_row_changes event_lanes.one_lane_def col_ok_def)+

lemma map_id_iff: "map g xs = xs \<longleftrightarrow> (\<forall>x\<in>set xs. g x = x)"
  by (induction xs) auto

lemma spread_id: "(\<And>i. keeps_event (f i)) \<Longrightarrow> ev_id (spread P f e R x) = ev_id x"
  by (simp add: spread_def keeps_event_def)

lemma spread_keeps: "(\<And>i. keeps_event (f i)) \<Longrightarrow> keeps_event (spread P f e R)"
  by (simp add: spread_def keeps_event_def)

text \<open>Two spreads over the same replies, one after the other.\<close>

lemma spread_twice:
  assumes "events_ok db" "e \<in> set (ws_events db)" "\<And>i. keeps_event (f i)"
    and "db1 = map_events (spread P f e (reply_ids db e)) db" "e1 \<in> set (ws_events db1)" "ev_id e1 = ev_id e"
    and "db2 = map_events (spread Q (\<lambda>_. g) e1 (reply_ids db1 e1)) db1"
  shows "ws_events db2 = map (\<lambda>x. spread Q (\<lambda>_. g) e (reply_ids db e) (spread P f e (reply_ids db e) x)) (ws_events db)"
proof -
  have s: "keeps_event (spread P f e (reply_ids db e))" by (rule spread_keeps [OF assms(3)])
  obtain x where x: "x \<in> set (ws_events db)" "e1 = spread P f e (reply_ids db e) x"
    using assms(4,5) by (auto simp: map_events_def)
  then have "x = e" using assms(6) spread_id [OF assms(3)] same_event [OF assms(1) x(1) assms(2)] by simp
  with x(2) s have "ev_type e1 = ev_type e" "ev_thread_id e1 = ev_thread_id e" by (simp_all add: keeps_event_def)
  with assms(4,6) have "reply_ids db1 e1 = reply_ids db e"
    using reply_ids_kept [OF s, of db] reply_ids_same [of e1 e db1] by simp
  with assms(4,6,7) show ?thesis by (simp add: map_events_def spread_def)
qed

text \<open>
  C30. Unarchiving a message that was archived brings the log back to what it was exactly when none of its replies had been archived
  by itself: a reply archived on its own before comes back to life with the message.  Restoring a trashed message
  brings the log back exactly when no reply had been archived or trashed by itself.
\<close>

theorem discard_undone_iff:
  assumes "event_history db" "find_event (trim i) db = Some e" "\<not> is_set (ev_archived_at e)" "\<not> is_set (ev_trashed_at e)"
    "\<forall>j. trim (clock j) \<noteq> []"
    "archive_event clock a i db = Inr (r1, db1)" "unarchive_event b i db1 = Inr (r2, db2)"
    "trash_event clock a i why db = Inr (r3, db3)" "restore_event b i db3 = Inr (r4, db4)"
  shows "(ws_events db2 = ws_events db \<longleftrightarrow>
      (\<forall>x\<in>set (ws_events db). ev_id x \<in> reply_ids db e \<longrightarrow> \<not> is_set (ev_archived_at x))) \<and>
    (ws_events db4 = ws_events db \<longleftrightarrow>
      (\<forall>x\<in>set (ws_events db). ev_id x \<in> reply_ids db e \<longrightarrow> \<not> is_set (ev_archived_at x) \<and> \<not> is_set (ev_trashed_at x)))"
proof
  have ok: "events_ok db" by (rule event_history_ok [OF assms(1)])
  have e: "e \<in> set (ws_events db)" "ev_id e = trim i"
    using assms(2) unfolding find_event_def find_Some_iff using nth_mem by blast+
  have rows: "event_ok x" "ev_id x = ev_id e \<longleftrightarrow> x = e" if "x \<in> set (ws_events db)" for x
    using ok that same_event [OF ok that e(1)] by (auto simp: events_ok_def)
  have lane: "\<not> is_set (ev_trashed_at x)" if "x \<in> set (ws_events db)" "is_set (ev_archived_at x)" for x
    using rows(1) [OF that(1)] that(2) by (simp add: event_ok_def event_lanes.one_lane_def)
  note no_reply = not_own_reply [of e db]
  let ?R = "reply_ids db e"
  let ?live = "\<lambda>x. \<not> is_set (ev_trashed_at x) \<and> \<not> is_set (ev_archived_at x)"
  let ?arch = "\<lambda>i. archive_event_row (clock i) (trim a)" and ?trash = "\<lambda>i. trash_event_row (clock i) (trim a) (trim why)"
  have db1: "db1 = map_events (spread ?live ?arch e ?R) db"
    by (rule archive_event_Inr [OF ok assms(6)]) (use assms(3) e same_event [OF ok] in metis)
  have "events_ok db1" by (rule event_step_ok [OF event_step.step_archive [OF assms(6)] ok]) (use assms(5) in blast)
  then obtain e1 where e1: "e1 \<in> set (ws_events db1)" "ev_id e1 = ev_id e"
    "db2 = map_events (spread (\<lambda>x. is_set (ev_archived_at x)) (\<lambda>_. unarchive_event_row) e1 (reply_ids db1 e1)) db1"
    using unarchive_event_Inr [OF _ assms(7)] e(2) by metis
  have un: "spread (\<lambda>x. is_set (ev_archived_at x)) (\<lambda>_. unarchive_event_row) e ?R (spread ?live ?arch e ?R x) = x \<longleftrightarrow>
      \<not> (ev_id x \<in> ?R \<and> is_set (ev_archived_at x))" if "x \<in> set (ws_events db)" for x
    using rows [OF that] lane [OF that] undo_rows(1,2) assms(3,5) no_reply
    by (auto simp: spread_def archive_event_row_def)
  show "ws_events db2 = ws_events db \<longleftrightarrow> (\<forall>x\<in>set (ws_events db). ev_id x \<in> ?R \<longrightarrow> \<not> is_set (ev_archived_at x))"
    unfolding spread_twice [OF ok e(1) event_rows_kept(1) db1 e1] map_id_iff using un by blast
  have db3: "db3 = map_events (spread (\<lambda>x. \<not> is_set (ev_trashed_at x)) ?trash e ?R) db"
    by (rule trash_event_Inr [OF ok assms(8)]) (use assms(4) e same_event [OF ok] in metis)
  have "events_ok db3" by (rule event_step_ok [OF event_step.step_trash [OF assms(8)] ok]) (use assms(5) in blast)
  then obtain e3 where e3: "e3 \<in> set (ws_events db3)" "ev_id e3 = ev_id e"
    "db4 = map_events (spread (\<lambda>x. is_set (ev_trashed_at x)) (\<lambda>_. untrash_event_row) e3 (reply_ids db3 e3)) db3"
    using restore_event_Inr [OF _ assms(9)] e(2) by metis
  have re: "spread (\<lambda>x. is_set (ev_trashed_at x)) (\<lambda>_. untrash_event_row) e ?R
      (spread (\<lambda>x. \<not> is_set (ev_trashed_at x)) ?trash e ?R x) = x \<longleftrightarrow>
      \<not> (ev_id x \<in> ?R \<and> (is_set (ev_archived_at x) \<or> is_set (ev_trashed_at x)))" if "x \<in> set (ws_events db)" for x
    using rows [OF that] lane [OF that] undo_rows(3,4) assms(3-5) no_reply
    by (auto simp: spread_def trash_event_row_def)
  show "ws_events db4 = ws_events db \<longleftrightarrow>
      (\<forall>x\<in>set (ws_events db). ev_id x \<in> ?R \<longrightarrow> \<not> is_set (ev_archived_at x) \<and> \<not> is_set (ev_trashed_at x))"
    unfolding spread_twice [OF ok e(1) event_rows_kept(3) db3 e3] map_id_iff using re by blast
qed

text \<open>In the sample the second message was archived on its own before.\<close>

definition sample_clock :: "string \<Rightarrow> string" where "sample_clock j = ''2026-01-02T00:00:00Z''"

definition talk_archived :: ws_db where
  "talk_archived = talk2\<lparr>ws_events := [message_row ''1'' ''message-posted'' [],
     archive_event_row ''2026-01-02T00:00:00Z'' ''bob'' (message_row ''2'' ''message-posted-2'' [''event:m1''])]\<rparr>"

lemma talk_archived_history: "event_history talk_archived"
proof -
  have "archive_event sample_clock ''bob'' ''m2'' talk2 =
      Inr (archive_event_row ''2026-01-02T00:00:00Z'' ''bob'' (message_row ''2'' ''message-posted-2'' [''event:m1'']), talk_archived)"
    by code_simp
  moreover have "trim (sample_clock j) \<noteq> []" for j
  proof -
    have "trim (sample_clock []) \<noteq> []" by code_simp
    then show ?thesis by (simp add: sample_clock_def)
  qed
  ultimately show ?thesis using event_step.step_archive history_more [OF talk2_history] by metis
qed

definition undo_archive :: "event_change_error + event_row \<times> ws_db" where
  "undo_archive = unarchive_event ''ann'' ''m1'' (snd (projr (archive_event sample_clock ''ann'' ''m1'' talk_archived)))"

definition undo_trash :: "event_change_error + event_row \<times> ws_db" where
  "undo_trash = restore_event ''ann'' ''m1'' (snd (projr (trash_event sample_clock ''ann'' ''m1'' [] talk_archived)))"

lemma talk_undone: "\<not> isl (archive_event sample_clock ''ann'' ''m1'' talk_archived)" "\<not> isl undo_archive"
  "\<not> isl (trash_event sample_clock ''ann'' ''m1'' [] talk_archived)" "\<not> isl undo_trash"
  by code_simp+

lemma talk_archived_rows:
  "find_event (trim ''m1'') talk_archived = Some (message_row ''1'' ''message-posted'' [])"
  "collect_message_descendants talk_archived ''t'' ''m1'' = [''m2'']"
  "is_set (ev_archived_at (last (ws_events talk_archived)))" "ev_id (last (ws_events talk_archived)) = ''m2''"
  "\<not> is_set (ev_archived_at (message_row ''1'' ''message-posted'' []))"
  "\<not> is_set (ev_trashed_at (message_row ''1'' ''message-posted'' []))"
  by code_simp+

lemma talk_archived_replies: "reply_ids talk_archived (message_row ''1'' ''message-posted'' []) = {''m2''}"
  using collect_descendants(1) [of "''t''" "''m1''" talk_archived] talk_values(2,3,5) talk_archived_rows(2)
  by (simp add: reply_ids_def message_row_def)

lemma sample_clock_set: "\<forall>j. trim (sample_clock j) \<noteq> []"
proof -
  have "trim (sample_clock []) \<noteq> []" by code_simp
  then show ?thesis by (simp add: sample_clock_def)
qed

theorem discard_undone_iff_witness:
  "\<exists>r1 db1 r2 db2. archive_event sample_clock ''ann'' ''m1'' talk_archived = Inr (r1, db1) \<and>
     unarchive_event ''ann'' ''m1'' db1 = Inr (r2, db2) \<and> ws_events db2 \<noteq> ws_events talk_archived"
proof -
  have "ws_events talk_archived \<noteq> []" by (simp add: talk_archived_def)
  then have "last (ws_events talk_archived) \<in> set (ws_events talk_archived)" by (rule last_in_set)
  then have "ws_events (snd (projr undo_archive)) \<noteq> ws_events talk_archived"
    using discard_undone_iff [OF talk_archived_history talk_archived_rows(1,5,6) sample_clock_set
      not_isl_pair [OF talk_undone(1)] not_isl_pair [OF talk_undone(2), unfolded undo_archive_def]
      not_isl_pair [OF talk_undone(3)] not_isl_pair [OF talk_undone(4), unfolded undo_trash_def]]
      talk_archived_rows(3,4) talk_archived_replies
    unfolding undo_archive_def by auto
  then show ?thesis
    using not_isl_pair [OF talk_undone(1)] not_isl_pair [OF talk_undone(2)] unfolding undo_archive_def by blast
qed

end
