(* ===== verification/EventPages.thy ===== *)
theory EventPages
  imports EventLifecycle
begin

text \<open>Listing events by pages: the pages put together are the log, also while the log grows.\<close>

section \<open>One page\<close>

definition below :: "page_cursor \<Rightarrow> event_row \<Rightarrow> bool" where
  "below c e \<longleftrightarrow> (case c of Keyset ts i \<Rightarrow> ev_key e < (ts, i) | _ \<Rightarrow> True)"

definition listed :: "(string \<Rightarrow> event_row \<Rightarrow> bool) \<Rightarrow> event_filter \<Rightarrow> ws_db \<Rightarrow> event_row list" where
  "listed like f db = newest_first (filter (event_matches like f) (ws_events db))"

definition descending :: "event_row list \<Rightarrow> bool" where
  "descending es \<longleftrightarrow> sorted_wrt (\<lambda>a b. ev_key b < ev_key a) es"

lemma listed_descending:
  assumes "events_ok db"
  shows "descending (listed like f db)"
proof -
  let ?es = "filter (event_matches like f) (ws_events db)"
  have "inj_on ev_key (set ?es)" by (rule inj_onI) (use same_event [OF assms] in \<open>simp add: ev_key_def\<close>)
  moreover have "distinct ?es" using assms by (simp add: events_ok_def distinct_map)
  ultimately have "distinct (map ev_key (sort_key ev_key ?es))" by (simp add: distinct_map)
  then have "sorted_wrt (<) (map ev_key (sort_key ev_key ?es))" by (simp add: strict_sorted_iff)
  then show ?thesis by (simp add: descending_def listed_def newest_first_def sorted_wrt_rev sorted_wrt_map)
qed

lemma listed_set: "set (listed like f db) = {e \<in> set (ws_events db). event_matches like f e}"
  by (auto simp: listed_def newest_first_def)

lemma filter_fields:
  "ef_types (f\<lparr>ef_limit := n, ef_cursor := c\<rparr>) = ef_types f" "ef_backing_scope (f\<lparr>ef_limit := n, ef_cursor := c\<rparr>) = ef_backing_scope f"
  "ef_preset (f\<lparr>ef_limit := n, ef_cursor := c\<rparr>) = ef_preset f" "ef_topic_id (f\<lparr>ef_limit := n, ef_cursor := c\<rparr>) = ef_topic_id f"
  "ef_topic_ids (f\<lparr>ef_limit := n, ef_cursor := c\<rparr>) = ef_topic_ids f" "ef_thread_id (f\<lparr>ef_limit := n, ef_cursor := c\<rparr>) = ef_thread_id f"
  "ef_thread_ids (f\<lparr>ef_limit := n, ef_cursor := c\<rparr>) = ef_thread_ids f" "ef_actor_id (f\<lparr>ef_limit := n, ef_cursor := c\<rparr>) = ef_actor_id f"
  "ef_actor_ids (f\<lparr>ef_limit := n, ef_cursor := c\<rparr>) = ef_actor_ids f" "ef_query (f\<lparr>ef_limit := n, ef_cursor := c\<rparr>) = ef_query f"
  "ef_since (f\<lparr>ef_limit := n, ef_cursor := c\<rparr>) = ef_since f" "ef_until (f\<lparr>ef_limit := n, ef_cursor := c\<rparr>) = ef_until f"
  "ef_since_exclusive_id (f\<lparr>ef_limit := n, ef_cursor := c\<rparr>) = ef_since_exclusive_id f"
  "ef_limit (f\<lparr>ef_limit := n, ef_cursor := c\<rparr>) = n" "ef_cursor (f\<lparr>ef_limit := n, ef_cursor := c\<rparr>) = c"
  by simp_all

lemma matches_same: "event_matches like (f\<lparr>ef_limit := n, ef_cursor := c\<rparr>) = event_matches like f"
  by (rule ext) (simp only: event_matches_def listed_types_def filter_fields)

text \<open>What a page from a cursor holds.\<close>

lemma page_rows:
  assumes ok: "events_ok db" and c: "c = FirstPage \<or> (\<exists>ts i. c = Keyset ts i)"
    and page: "list_events_page like (f\<lparr>ef_limit := n, ef_cursor := c\<rparr>) db = Inr (es, next_cursor)"
  defines "rest \<equiv> filter (below c) (listed like f db)"
  shows "es = take (page_limit n) rest"
    "next_cursor = FirstPage \<longleftrightarrow> length rest \<le> page_limit n"
    "next_cursor \<noteq> FirstPage \<Longrightarrow> next_cursor = Keyset (ev_ts (last es)) (ev_id (last es)) \<and> es \<noteq> []"
proof -
  let ?n = "page_limit n"
  have pos: "0 < ?n" by (simp add: page_limit_def)
  have rows: "(case c of FirstPage \<Rightarrow> Inr (listed like f db) | Offset k \<Rightarrow> Inr (drop k (listed like f db))
      | Keyset ts i \<Rightarrow> Inr (filter (\<lambda>e. ev_key e < (ts, i)) (listed like f db)) | BadCursor \<Rightarrow> Inl InvalidCursor) = Inr rest"
    using c by (auto simp: rest_def below_def [abs_def])
  have key: "encode_event_keyset_cursor (ev_ts e) (ev_id e) = Keyset (ev_ts e) (ev_id e)" if "e \<in> set rest" for e
    using that ok by (auto simp: rest_def listed_set events_ok_def event_ok_def encode_event_keyset_cursor_def)
  have unf: "list_events_page like (f\<lparr>ef_limit := n, ef_cursor := c\<rparr>) db =
      (if length rest > ?n then Inr (take ?n rest, encode_event_keyset_cursor (ev_ts (last (take ?n rest))) (ev_id (last (take ?n rest))))
       else Inr (rest, FirstPage))"
    using rows unfolding list_events_page_def matches_same Let_def filter_fields listed_def [symmetric]
    by (auto simp: min_def)
  have lst: "last (take ?n rest) \<in> set rest" if "length rest > ?n"
    using that pos by (metis in_set_takeD last_in_set length_greater_0_conv length_take min.strict_coboundedI2 not_less_iff_gr_or_eq order.strict_trans take_eq_Nil)
  from page show "es = take ?n rest" "next_cursor = FirstPage \<longleftrightarrow> length rest \<le> ?n"
    unfolding unf using key lst by (auto split: if_splits)
  from page show "next_cursor = Keyset (ev_ts (last es)) (ev_id (last es)) \<and> es \<noteq> []" if "next_cursor \<noteq> FirstPage"
    using that key lst pos unfolding unf by (auto split: if_splits)
qed

lemma page_succeeds:
  "c = FirstPage \<or> (\<exists>ts i. c = Keyset ts i) \<Longrightarrow> \<exists>p. list_events_page like (f\<lparr>ef_limit := n, ef_cursor := c\<rparr>) db = Inr p"
  by (auto simp: list_events_page_def Let_def)

text \<open>After a page come the events below its last.\<close>

lemma descending_split:
  assumes "descending es" "0 < n" "n \<le> length es"
  shows "filter (\<lambda>e. ev_key e < ev_key (last (take n es))) es = drop n es"
proof -
  have d: "descending (take n es @ drop n es)" using assms(1) by simp
  have ne: "take n es \<noteq> []" using assms(2,3) by auto
  have "\<not> ev_key e < ev_key (last (take n es))" if "e \<in> set (take n es)" for e
  proof -
    obtain as where as: "take n es = as @ [last (take n es)]" using ne by (metis append_butlast_last_id)
    then have "descending (as @ [last (take n es)])" using d by (metis descending_def sorted_wrt_append)
    then have "ev_key (last (take n es)) < ev_key x" if "x \<in> set as" for x using that by (simp add: descending_def sorted_wrt_append)
    moreover have "e \<in> set as \<or> e = last (take n es)" using that as by (metis Un_iff empty_iff insert_iff list.set(1) list.simps(15) set_append)
    ultimately show ?thesis by (metis less_asym less_irrefl)
  qed
  moreover have "ev_key e < ev_key (last (take n es))" if "e \<in> set (drop n es)" for e
    using d that last_in_set [OF ne] unfolding descending_def sorted_wrt_append by blast
  ultimately have "filter (\<lambda>e. ev_key e < ev_key (last (take n es))) (take n es @ drop n es) = drop n es"
    by (simp only: filter_append) (simp add: filter_empty_conv filter_id_conv)
  then show ?thesis by simp
qed

lemma descending_filter: "descending es \<Longrightarrow> descending (filter P es)"
  by (simp add: descending_def sorted_wrt_filter)

lemma below_next:
  assumes "descending es" "es' = filter (below c) es" "0 < n" "n < length es'" "e = last (take n es')"
  shows "filter (below (Keyset (ev_ts e) (ev_id e))) es = drop n es'"
proof -
  have le: "below c x" if "ev_key x < ev_key e" for x
  proof -
    have "e \<in> set es'" using assms(3-5) by (metis in_set_takeD last_in_set length_0_conv length_take less_imp_le min.absorb2 not_less0)
    then show ?thesis using that assms(2) by (auto simp: below_def split: page_cursor.splits)
  qed
  have "filter (\<lambda>x. ev_key x < ev_key e) es' = drop n es'"
    unfolding assms(5) using assms(1-4) by (intro descending_split) (auto simp: descending_filter)
  moreover have "filter (\<lambda>x. ev_key x < ev_key e) es' = filter (below (Keyset (ev_ts e) (ev_id e))) es"
    unfolding assms(2) filter_filter by (rule filter_cong) (use le in \<open>auto simp: below_def ev_key_def\<close>)
  ultimately show ?thesis by simp
qed

section \<open>All pages\<close>

lemma list_all_pages_rest:
  assumes ok: "events_ok db"
  shows "c = FirstPage \<or> (\<exists>ts i. c = Keyset ts i) \<Longrightarrow> 
    list_all_pages like f db c out = Some (Inr (out @ filter (below c) (listed like f db)))"
proof (induction "length (filter (below c) (listed like f db))" arbitrary: c out rule: less_induct)
  case less
  let ?rest = "filter (below c) (listed like f db)"
  have two_hundred: "page_limit 200 = 200" by (simp add: page_limit_def)
  obtain es n where page: "list_events_page like (f\<lparr>ef_limit := 200, ef_cursor := c\<rparr>) db = Inr (es, n)"
    using page_succeeds [OF less(2), of like 200 f db] by (metis surj_pair)
  note rows = page_rows [OF ok less(2) page, unfolded two_hundred]
  show ?case
  proof (cases "n = FirstPage")
    case True
    then have "es = ?rest" using rows(1,2) by simp
    with True page show ?thesis by (simp add: list_all_pages.simps)
  next
    case False
    then have long: "200 < length ?rest" and n: "n = Keyset (ev_ts (last es)) (ev_id (last es))" using rows(2,3) by auto
    have rest: "filter (below n) (listed like f db) = drop 200 ?rest"
      unfolding n by (rule below_next [OF listed_descending [OF ok] refl _ long]) (simp_all add: rows(1))
    have "list_all_pages like f db n (out @ es) = Some (Inr ((out @ es) @ filter (below n) (listed like f db)))"
    proof (rule less(1))
      show "length (filter (below n) (listed like f db)) < length ?rest" using long unfolding rest by simp
    qed (simp add: n)
    moreover have "list_all_pages like f db c out = list_all_pages like f db n (out @ es)"
      using page False by (simp add: list_all_pages.simps [of like f db c out])
    ultimately show ?thesis by (simp add: rest rows(1))
  qed
qed

text \<open>
  C20. A listing without a limit ends, and answers with exactly the events that match the filter, newest first, each once: the
  loop over pages of 200 is the plain query.
\<close>

theorem list_events_complete:
  assumes "event_history db" "ef_limit f \<le> 0" "ef_cursor f = FirstPage"
  shows "list_events like f db = Some (Inr (rev (sort_key ev_key (filter (event_matches like f) (ws_events db)))))"
proof -
  have "list_all_pages like f db FirstPage [] = Some (Inr ([] @ filter (below FirstPage) (listed like f db)))"
    by (rule list_all_pages_rest [OF event_history_ok [OF assms(1)]]) simp
  then show ?thesis using assms(2,3) by (simp add: list_events_def below_def [abs_def] listed_def newest_first_def)
qed

definition any_event :: event_filter where
  "any_event = \<lparr>ef_types = [], ef_backing_scope = [], ef_preset = [], ef_topic_id = [], ef_topic_ids = [], ef_thread_id = [],
     ef_thread_ids = [], ef_actor_id = [], ef_actor_ids = [], ef_query = [], ef_since = [], ef_since_exclusive_id = [],
     ef_until = [], ef_limit = 0, ef_cursor = FirstPage\<rparr>"

theorem list_events_complete_witness:
  "map_option (map_sum id (map ev_id)) (list_events (\<lambda>_ _. False) any_event talk3) = Some (Inr [''m3'', ''m2'', ''m1''])"
proof -
  have "map ev_id (rev (sort_key ev_key (filter (event_matches (\<lambda>_ _. False) any_event) (ws_events talk3)))) = [''m3'', ''m2'', ''m1'']"
    "ef_limit any_event \<le> 0" "ef_cursor any_event = FirstPage"
    by code_simp+
  then show ?thesis by (simp add: list_events_complete [OF talk_history])
qed

section \<open>A client that follows the cursors while the log changes\<close>

text \<open>The pages a client gets that asks for the next page of \<open>n\<close> events at each of the given states, and whether it reached the end.\<close>

fun walk_pages ::
  "(string \<Rightarrow> event_row \<Rightarrow> bool) \<Rightarrow> event_filter \<Rightarrow> int \<Rightarrow> page_cursor \<Rightarrow> ws_db list \<Rightarrow> event_row list \<times> bool" where
  "walk_pages like f n c [] = ([], False)"
| "walk_pages like f n c (db # dbs) =
     (case list_events_page like (f\<lparr>ef_limit := n, ef_cursor := c\<rparr>) db of
        Inl _ \<Rightarrow> ([], False)
      | Inr (page, next_cursor) \<Rightarrow>
          if next_cursor = FirstPage then (page, True)
          else let (more, finished) = walk_pages like f n next_cursor dbs in (page @ more, finished))"

definition with_key :: "string \<times> string \<Rightarrow> event_row list \<Rightarrow> event_row list" where
  "with_key k es = filter (\<lambda>e. ev_key e = k) es"

definition key_below :: "page_cursor \<Rightarrow> string \<times> string \<Rightarrow> bool" where
  "key_below c k \<longleftrightarrow> (case c of Keyset ts i \<Rightarrow> k < (ts, i) | _ \<Rightarrow> True)"

lemma below_key: "below c e \<longleftrightarrow> key_below c (ev_key e)"
  by (simp add: below_def key_below_def)

lemma with_key_none: "(\<And>e. e \<in> set es \<Longrightarrow> ev_key e \<noteq> k) \<Longrightarrow> with_key k es = []"
  by (simp add: with_key_def filter_empty_conv)

lemma with_key_one:
  assumes "descending es" "e \<in> set es"
  shows "length (with_key (ev_key e) es) = 1"
proof -
  obtain as bs where es: "es = as @ e # bs" using assms(2) by (meson split_list)
  have "with_key (ev_key e) as = []" "with_key (ev_key e) bs = []"
    using assms(1) unfolding es by (auto intro!: with_key_none simp: descending_def sorted_wrt_append)
  then show ?thesis by (simp add: es with_key_def)
qed

text \<open>A walk from a cursor finds nothing at or above it, and each event below it that stays.\<close>

lemma walk_below:
  assumes "\<forall>db\<in>set dbs. events_ok db"
  shows "c = FirstPage \<or> (\<exists>ts i. c = Keyset ts i) \<Longrightarrow> e \<in> set (fst (walk_pages like f n c dbs)) \<Longrightarrow> key_below c (ev_key e)"
  using assms
proof (induction dbs arbitrary: c)
  case (Cons db dbs)
  have ok: "events_ok db" using Cons.prems(3) by simp
  obtain es m where page: "list_events_page like (f\<lparr>ef_limit := n, ef_cursor := c\<rparr>) db = Inr (es, m)"
    using page_succeeds [OF Cons.prems(1), of like n f db] by (metis surj_pair)
  note rows = page_rows [OF ok Cons.prems(1) page]
  have here: "key_below c (ev_key x)" if "x \<in> set es" for x using in_set_takeD that unfolding rows(1) below_key by fastforce
  show ?case
  proof (cases "e \<in> set es")
    case False
    then have more: "m \<noteq> FirstPage" "e \<in> set (fst (walk_pages like f n m dbs))"
      using Cons.prems(2) page by (auto split: if_splits prod.splits)
    note m = rows(3) [OF more(1)]
    then have "key_below m (ev_key e)" using Cons.IH [OF _ more(2)] Cons.prems(3) by auto
    moreover have "key_below c (ev_key (last es))" using here m by simp
    ultimately show ?thesis using m by (auto simp: key_below_def ev_key_def split: page_cursor.splits)
  qed (rule here)
qed simp

lemma walk_finds:
  assumes "\<forall>db\<in>set dbs. events_ok db \<and> (\<exists>e\<in>set (ws_events db). event_matches like f e \<and> ev_key e = k)"
  shows "c = FirstPage \<or> (\<exists>ts i. c = Keyset ts i) \<Longrightarrow> snd (walk_pages like f n c dbs) \<Longrightarrow> key_below c k \<Longrightarrow>
    length (with_key k (fst (walk_pages like f n c dbs))) = 1"
  using assms
proof (induction dbs arbitrary: c)
  case (Cons db dbs)
  have ok: "events_ok db" using Cons.prems(4) by simp
  obtain es m where page: "list_events_page like (f\<lparr>ef_limit := n, ef_cursor := c\<rparr>) db = Inr (es, m)"
    using page_succeeds [OF Cons.prems(1), of like n f db] by (metis surj_pair)
  note rows = page_rows [OF ok Cons.prems(1) page]
  let ?rest = "filter (below c) (listed like f db)"
  obtain e where e: "e \<in> set ?rest" "ev_key e = k"
    using Cons.prems(3,4) by (auto simp: listed_set below_key)
  have d: "descending ?rest" "descending es"
    using descending_filter [OF listed_descending [OF ok]] unfolding rows(1) descending_def by (blast intro: sorted_wrt_take)+
  show ?case
  proof (cases "m = FirstPage")
    case True
    then have "es = ?rest" using rows(1,2) by simp
    with with_key_one [OF d(1) e(1)] e(2) True page show ?thesis by simp
  next
    case False
    note m = rows(3) [OF this]
    have walk: "fst (walk_pages like f n c (db # dbs)) = es @ fst (walk_pages like f n m dbs)"
      "snd (walk_pages like f n m dbs)"
      using page False Cons.prems(2) by (simp_all split: prod.splits)
    show ?thesis
    proof (cases "e \<in> set es")
      case True
      have "\<not> key_below m k"
      proof -
        obtain as where as: "es = as @ [last es]" using m by (metis append_butlast_last_id)
        have "e = last es \<or> e \<in> set as" using True as by (metis Un_iff empty_iff insert_iff list.set(1) list.simps(15) set_append)
        moreover have "ev_key (last es) < ev_key x" if "x \<in> set as" for x
          using d(2) that by (subst (asm) as) (simp add: descending_def sorted_wrt_append)
        ultimately have "\<not> ev_key e < ev_key (last es)" by (metis less_asym less_irrefl)
        then show ?thesis unfolding conjunct1 [OF m] key_below_def page_cursor.case e(2) [symmetric] by (simp add: ev_key_def)
      qed
      moreover have "key_below m (ev_key x)" if "x \<in> set (fst (walk_pages like f n m dbs))" for x
        by (rule walk_below [OF _ _ that]) (use Cons.prems(4) m in auto)
      ultimately have "with_key k (fst (walk_pages like f n m dbs)) = []" by (intro with_key_none) blast
      with with_key_one [OF d(2) True] e(2) walk show ?thesis by (simp add: with_key_def)
    next
      case out: False
      have "length ?rest > page_limit n" using False rows(2) by simp
      then have "filter (below m) (listed like f db) = drop (page_limit n) ?rest"
        unfolding conjunct1 [OF m] by (intro below_next [OF listed_descending [OF ok] refl]) (simp_all add: rows(1) page_limit_def)
      moreover have "e \<in> set (drop (page_limit n) ?rest)" using e(1) out unfolding rows(1) by (metis Un_iff append_take_drop_id set_append)
      ultimately have "e \<in> set (filter (below m) (listed like f db))" by simp
      then have "key_below m k" using e(2) by (auto simp: below_key)
      then have "length (with_key k (fst (walk_pages like f n m dbs))) = 1"
        using Cons.IH [OF _ walk(2)] m Cons.prems(4) by auto
      moreover have "with_key k es = []"
      proof (rule with_key_none, rule notI)
        fix x assume x: "x \<in> set es" "ev_key x = k"
        then have "x \<in> set (ws_events db)" "e \<in> set (ws_events db)"
          using e(1) in_set_takeD unfolding rows(1) by (fastforce simp: listed_set)+
        with same_event [OF ok] x e(2) have "x = e" by (simp add: ev_key_def prod_eq_iff)
        with x(1) out show False by simp
      qed
      ultimately show ?thesis unfolding walk(1) by (simp add: with_key_def)
    qed
  qed
qed simp

text \<open>
  C21. A client that follows the cursors of \<open>ListEventsPage\<close> to the end, while events are appended and go through their lifecycle
  between its requests, gets every event that matches its filter all the time, and gets it once.
\<close>

theorem stable_event_listed_once:
  assumes "\<forall>db\<in>set dbs. event_history db \<and> (\<exists>e\<in>set (ws_events db). event_matches like f e \<and> ev_key e = k)"
    and "walk_pages like f n FirstPage dbs = (found, True)"
  shows "length (filter (\<lambda>e. ev_key e = k) found) = 1"
proof -
  have "\<forall>db\<in>set dbs. events_ok db \<and> (\<exists>e\<in>set (ws_events db). event_matches like f e \<and> ev_key e = k)"
    using assms(1) event_history_ok by blast
  from walk_finds [OF this, of FirstPage n] show ?thesis using assms(2) by (simp add: key_below_def with_key_def)
qed

theorem stable_event_listed_once_witness:
  "map ev_id (fst (walk_pages (\<lambda>_ _. False) any_event 1 FirstPage [talk2, talk3])) = [''m2'', ''m1''] \<and>
   length (filter (\<lambda>e. ev_key e = (''2026-01-01T00:00:01Z'', ''m1'')) (fst (walk_pages (\<lambda>_ _. False) any_event 1 FirstPage [talk2, talk3]))) = 1"
proof -
  let ?walk = "walk_pages (\<lambda>_ _. False) any_event 1 FirstPage [talk2, talk3]" and ?k = "(''2026-01-01T00:00:01Z'', ''m1'')"
  have v: "map ev_id (fst ?walk) = [''m2'', ''m1'']" "snd ?walk"
    "list_ex (\<lambda>e. event_matches (\<lambda>_ _. False) any_event e \<and> ev_key e = ?k) (ws_events talk2)"
    "list_ex (\<lambda>e. event_matches (\<lambda>_ _. False) any_event e \<and> ev_key e = ?k) (ws_events talk3)"
    by code_simp+
  have "\<forall>db\<in>set [talk2, talk3]. event_history db \<and>
      (\<exists>e\<in>set (ws_events db). event_matches (\<lambda>_ _. False) any_event e \<and> ev_key e = ?k)"
    using v(3,4) talk_history talk2_history by (auto simp: list_ex_iff)
  from stable_event_listed_once [OF this, of 1 "fst ?walk"] show ?thesis using v(1,2) by (metis prod.collapse)
qed

end
