(* ===== verification/Wakeups.thy ===== *)
theory Wakeups
  imports GoBase "HOL-Library.Product_Lexorder"
begin

text \<open>
  \<open>core/internal/primitives/agent_wakeups.go\<close> and the handlers of \<open>server/agent_notifications_handlers.go\<close>: the queue of wake
  requests.  The bridges of an agent claim a request, carry it out and report; the agent marks the notification that goes
  with it.  Each operation is one SQL statement, so nothing comes between its condition and its change, except where a
  handler reads first.
\<close>

section \<open>Rows\<close>

text \<open>A column that is NULL is the empty text, as \<open>scanAgentWakeup\<close> reads it.\<close>

record agent_wakeup =
  aw_wakeup_id :: string
  aw_status :: string
  aw_notification_status :: string
  aw_target_handle :: string
  aw_target_actor_id :: string
  aw_workspace_id :: string
  aw_workspace_name :: string
  aw_thread_id :: string
  aw_thread_title :: string
  aw_trigger_event_id :: string
  aw_trigger_created_at :: string
  aw_trigger_text :: string
  aw_refs :: "string list"
  aw_bridge_instance_id :: string
  aw_failure_reason :: string
  aw_created_at :: string
  aw_claimed_at :: string
  aw_completed_at :: string
  aw_failed_at :: string
  aw_read_at :: string
  aw_dismissed_at :: string
  aw_updated_at :: string

type_synonym wakeup_table = "agent_wakeup list"

abbreviation "status_requested \<equiv> ''requested''"
abbreviation "status_claimed \<equiv> ''claimed''"
abbreviation "status_completed \<equiv> ''completed''"
abbreviation "status_failed \<equiv> ''failed''"
abbreviation "notification_unread \<equiv> ''unread''"
abbreviation "notification_read \<equiv> ''read''"
abbreviation "notification_dismissed \<equiv> ''dismissed''"

datatype wakeup_error = WakeupInvalid | WakeupNotFound | WakeupConflict | WakeupForbidden

definition text_or :: "string \<Rightarrow> string \<Rightarrow> string" where
  "text_or s d = (if s = [] then d else s)"

definition normalize_agent_wakeup :: "string \<Rightarrow> agent_wakeup \<Rightarrow> agent_wakeup" where
  "normalize_agent_wakeup now w = w\<lparr>aw_wakeup_id := trim (aw_wakeup_id w),
     aw_status := text_or (trim (aw_status w)) status_requested,
     aw_notification_status := text_or (trim (aw_notification_status w)) notification_unread,
     aw_target_handle := trim (aw_target_handle w), aw_target_actor_id := trim (aw_target_actor_id w),
     aw_workspace_id := trim (aw_workspace_id w), aw_workspace_name := trim (aw_workspace_name w),
     aw_thread_id := trim (aw_thread_id w), aw_thread_title := trim (aw_thread_title w),
     aw_trigger_event_id := trim (aw_trigger_event_id w), aw_trigger_created_at := trim (aw_trigger_created_at w),
     aw_trigger_text := trim (aw_trigger_text w), aw_bridge_instance_id := trim (aw_bridge_instance_id w),
     aw_failure_reason := trim (aw_failure_reason w), aw_created_at := text_or (aw_created_at w) now,
     aw_updated_at := text_or (aw_updated_at w) now\<rparr>"

section \<open>The store\<close>

definition get_agent_wakeup :: "string \<Rightarrow> wakeup_table \<Rightarrow> wakeup_error + agent_wakeup" where
  "get_agent_wakeup wakeupID0 ws =
     (let wakeupID = trim wakeupID0
      in if wakeupID = [] then Inl WakeupNotFound
         else case find (\<lambda>w. aw_wakeup_id w = wakeupID) ws of None \<Rightarrow> Inl WakeupNotFound | Some w \<Rightarrow> Inr w)"

text \<open>\<open>INSERT \<dots> ON CONFLICT (wakeup_id) DO NOTHING\<close>; \<open>nullEmpty\<close> trims the times.\<close>

definition inserted_wakeup :: "agent_wakeup \<Rightarrow> agent_wakeup" where
  "inserted_wakeup w = w\<lparr>aw_claimed_at := trim (aw_claimed_at w), aw_completed_at := trim (aw_completed_at w),
     aw_failed_at := trim (aw_failed_at w), aw_read_at := trim (aw_read_at w), aw_dismissed_at := trim (aw_dismissed_at w)\<rparr>"

definition upsert_agent_wakeup :: "string \<Rightarrow> agent_wakeup \<Rightarrow> wakeup_table \<Rightarrow> wakeup_error + agent_wakeup \<times> wakeup_table" where
  "upsert_agent_wakeup now w0 ws =
     (let w = normalize_agent_wakeup now w0
      in if aw_wakeup_id w = [] \<or> aw_target_actor_id w = [] then Inl WakeupInvalid
         else let ws' = (if aw_wakeup_id w \<in> aw_wakeup_id ` set ws then ws else ws @ [inserted_wakeup w])
           in bind_res (get_agent_wakeup (aw_wakeup_id w) ws') (\<lambda>r. Inr (r, ws')))"

record wakeup_filter =
  wf_target_actor_id :: string
  wf_thread_id :: string
  wf_statuses :: "string list"
  wf_notification_statuses :: "string list"
  wf_order :: string

definition wakeup_key :: "agent_wakeup \<Rightarrow> string \<times> string" where
  "wakeup_key w = (aw_created_at w, aw_wakeup_id w)"

text \<open>
  \<open>strings.EqualFold\<close> on a text and an ASCII text: letters fold to lower case, the Kelvin sign (three bytes in UTF-8) to k and the
  long s (two bytes) to s; no other rune folds to an ASCII letter.
\<close>

fun fold_case :: "string \<Rightarrow> string" where
  "fold_case (a # b # c # r) =
     (if a = CHR 0xE2 \<and> b = CHR 0x84 \<and> c = CHR 0xAA then CHR ''k'' # fold_case r
      else if a = CHR 0xC5 \<and> b = CHR 0xBF then CHR ''s'' # fold_case (c # r)
      else lower_char a # fold_case (b # c # r))"
| "fold_case [a, b] = (if a = CHR 0xC5 \<and> b = CHR 0xBF then [CHR ''s''] else [lower_char a, lower_char b])"
| "fold_case [a] = [lower_char a]"
| "fold_case [] = []"

definition equal_fold :: "string \<Rightarrow> string \<Rightarrow> bool" where
  "equal_fold s ascii \<longleftrightarrow> fold_case s = fold_case ascii"

definition list_agent_wakeups :: "wakeup_filter \<Rightarrow> wakeup_table \<Rightarrow> wakeup_table" where
  "list_agent_wakeups f ws =
     (let actor = trim (wf_target_actor_id f); thread = trim (wf_thread_id f);
          found = filter (\<lambda>w. (actor = [] \<or> aw_target_actor_id w = actor) \<and> (thread = [] \<or> aw_thread_id w = thread) \<and>
            (wf_statuses f = [] \<or> aw_status w \<in> trim ` set (wf_statuses f)) \<and>
            (wf_notification_statuses f = [] \<or> aw_notification_status w \<in> trim ` set (wf_notification_statuses f))) ws;
          sorted = sort_key wakeup_key found
      in if equal_fold (trim (wf_order f)) ''asc'' then sorted else rev sorted)"

text \<open>An \<open>UPDATE\<close> of the rows in \<open>P\<close> that answers with the row, or with the error \<open>e\<close> when it met none.\<close>

definition update_wakeup ::
  "wakeup_error \<Rightarrow> (agent_wakeup \<Rightarrow> bool) \<Rightarrow> (agent_wakeup \<Rightarrow> agent_wakeup) \<Rightarrow> string \<Rightarrow> wakeup_table \<Rightarrow>
     wakeup_error + agent_wakeup \<times> wakeup_table" where
  "update_wakeup e P f wakeupID ws =
     (let here = (\<lambda>w. aw_wakeup_id w = trim wakeupID \<and> P w)
      in if list_ex here ws then
           let ws' = map (\<lambda>w. if here w then f w else w) ws
           in bind_res (get_agent_wakeup wakeupID ws') (\<lambda>r. Inr (r, ws'))
         else Inl e)"

definition claim_agent_wakeup ::
  "string \<Rightarrow> string \<Rightarrow> string \<Rightarrow> string \<Rightarrow> wakeup_table \<Rightarrow> wakeup_error + agent_wakeup \<times> wakeup_table" where
  "claim_agent_wakeup now wakeupID targetActorID bridge =
     update_wakeup WakeupConflict
       (\<lambda>w. aw_target_actor_id w = trim targetActorID \<and>
          (aw_status w = status_requested \<or> aw_status w = status_claimed \<and> aw_bridge_instance_id w = trim bridge))
       (\<lambda>w. w\<lparr>aw_status := status_claimed, aw_bridge_instance_id := trim bridge,
          aw_claimed_at := text_or (aw_claimed_at w) now, aw_updated_at := now\<rparr>) wakeupID"

definition set_agent_wakeup_status ::
  "string \<Rightarrow> string \<Rightarrow> string \<Rightarrow> string \<Rightarrow> string \<Rightarrow> string \<Rightarrow> wakeup_table \<Rightarrow> wakeup_error + agent_wakeup \<times> wakeup_table" where
  "set_agent_wakeup_status now wakeupID targetActorID bridge status reason =
     update_wakeup WakeupConflict
       (\<lambda>w. aw_target_actor_id w = trim targetActorID \<and> (aw_bridge_instance_id w = trim bridge \<or> aw_bridge_instance_id w = []))
       (\<lambda>w. w\<lparr>aw_status := status, aw_failure_reason := trim reason,
          aw_completed_at := (if status = status_completed then text_or (aw_completed_at w) now else aw_completed_at w),
          aw_failed_at := (if status = status_failed then text_or (aw_failed_at w) now else aw_failed_at w),
          aw_updated_at := now\<rparr>) wakeupID"

definition complete_agent_wakeup ::
  "string \<Rightarrow> string \<Rightarrow> string \<Rightarrow> string \<Rightarrow> wakeup_table \<Rightarrow> wakeup_error + agent_wakeup \<times> wakeup_table" where
  "complete_agent_wakeup now wakeupID targetActorID bridge =
     set_agent_wakeup_status now wakeupID targetActorID bridge status_completed []"

definition fail_agent_wakeup ::
  "string \<Rightarrow> string \<Rightarrow> string \<Rightarrow> string \<Rightarrow> string \<Rightarrow> wakeup_table \<Rightarrow> wakeup_error + agent_wakeup \<times> wakeup_table" where
  "fail_agent_wakeup now wakeupID targetActorID bridge reason =
     set_agent_wakeup_status now wakeupID targetActorID bridge status_failed reason"

definition mark_agent_wakeup_notification ::
  "string \<Rightarrow> string \<Rightarrow> string \<Rightarrow> string \<Rightarrow> wakeup_table \<Rightarrow> wakeup_error + agent_wakeup \<times> wakeup_table" where
  "mark_agent_wakeup_notification now wakeupID targetActorID status0 =
     (let status = trim status0
      in update_wakeup WakeupNotFound (\<lambda>w. aw_target_actor_id w = trim targetActorID)
        (\<lambda>w. w\<lparr>aw_notification_status := status,
           aw_read_at := (if status = notification_read then text_or (aw_read_at w) now else aw_read_at w),
           aw_dismissed_at := (if status = notification_dismissed then text_or (aw_dismissed_at w) now else aw_dismissed_at w),
           aw_updated_at := now\<rparr>) wakeupID)"

section \<open>The handlers\<close>

text \<open>
  \<open>handleMutateAgentNotification\<close> lists the notifications of the agent, decides on the one it finds, and then marks the
  row: it reads the table \<open>ws0\<close> and changes the table \<open>ws\<close>, which may be a later one.
\<close>

definition load_agent_notification :: "string \<Rightarrow> string \<Rightarrow> wakeup_table \<Rightarrow> wakeup_error + agent_wakeup" where
  "load_agent_notification actorID wakeupID ws =
     (let items = list_agent_wakeups \<lparr>wf_target_actor_id = actorID, wf_thread_id = [], wf_statuses = [],
                    wf_notification_statuses = [], wf_order = ''asc''\<rparr> ws
      in case find (\<lambda>w. trim (aw_wakeup_id w) = wakeupID) items of None \<Rightarrow> Inl WakeupNotFound | Some w \<Rightarrow> Inr w)"

definition mutate_agent_notification ::
  "string \<Rightarrow> string \<Rightarrow> string \<Rightarrow> string \<Rightarrow> string \<Rightarrow> wakeup_table \<Rightarrow> wakeup_table \<Rightarrow>
     wakeup_error + agent_wakeup \<times> wakeup_table" where
  "mutate_agent_notification now actorID notificationID0 wakeupID target ws0 ws =
     (let notificationID = text_or (trim notificationID0) (trim wakeupID)
      in if notificationID = [] then Inl WakeupInvalid
         else bind_res (load_agent_notification actorID notificationID ws0) (\<lambda>n.
           if trim (aw_target_actor_id n) \<noteq> actorID then Inl WakeupForbidden
           else if trim (aw_notification_status n) = notification_dismissed \<and> target = notification_read then Inl WakeupConflict
           else if target = notification_read \<and> trim (aw_notification_status n) = notification_read \<or>
                   target = notification_dismissed \<and> trim (aw_notification_status n) = notification_dismissed
                then Inr (n, ws)
           else mark_agent_wakeup_notification now notificationID actorID target ws))"

text \<open>
  \<open>handleClaimAgentWakeup\<close>, \<open>handleCompleteAgentWakeup\<close>, \<open>handleFailAgentWakeup\<close>: the principal is an agent and acts for
  itself; \<open>decodeAgentWakeupMutation\<close> asks for a wakeup id, not for a bridge id.
\<close>

datatype wakeup_report = ReportClaim | ReportComplete | ReportFail string

definition handle_agent_wakeup ::
  "wakeup_report \<Rightarrow> bool \<Rightarrow> string \<Rightarrow> string \<Rightarrow> string \<Rightarrow> string \<Rightarrow> wakeup_table \<Rightarrow>
     wakeup_error + agent_wakeup \<times> wakeup_table" where
  "handle_agent_wakeup report is_agent now actorID wakeupID0 bridge0 ws =
     (let wakeupID = trim wakeupID0; bridge = trim bridge0
      in if \<not> is_agent then Inl WakeupForbidden
         else if wakeupID = [] then Inl WakeupInvalid
         else case report of
             ReportClaim \<Rightarrow> claim_agent_wakeup now wakeupID actorID bridge ws
           | ReportComplete \<Rightarrow> complete_agent_wakeup now wakeupID actorID bridge ws
           | ReportFail reason \<Rightarrow> fail_agent_wakeup now wakeupID actorID bridge (trim reason) ws)"

end
