(* ===== verification/WakeupSafety.thy ===== *)
theory WakeupSafety
  imports Wakeups
begin

text \<open>
  Who holds a wake request.  Seen from outside a request waits, is held by a bridge, or is settled; the operations of the
  store implement this machine (\<open>delivery_refined\<close>), and the guarantees of the queue are read off it.
\<close>

section \<open>One row\<close>

definition lookup :: "string \<Rightarrow> wakeup_table \<Rightarrow> agent_wakeup option" where
  "lookup i ws = find (\<lambda>w. aw_wakeup_id w = i) ws"

lemma lookup_id: "lookup i ws = Some w \<Longrightarrow> aw_wakeup_id w = i"
  unfolding lookup_def find_Some_iff by blast

lemma lookup_append: "lookup i (ws @ [w]) = (case lookup i ws of Some x \<Rightarrow> Some x | None \<Rightarrow> if aw_wakeup_id w = i then Some w else None)"
  by (induction ws) (simp_all add: lookup_def)

lemma lookup_None: "lookup i ws = None \<longleftrightarrow> i \<notin> aw_wakeup_id ` set ws"
  by (auto simp: lookup_def find_None_iff)

lemma lookup_update:
  assumes "\<And>w. aw_wakeup_id (f w) = aw_wakeup_id w"
  shows "lookup j (map (\<lambda>w. if aw_wakeup_id w = i \<and> P w then f w else w) ws) =
    map_option (\<lambda>w. if j = i \<and> P w then f w else w) (lookup j ws)"
  by (induction ws) (auto simp: lookup_def assms)

lemma lookup_in: "distinct (map aw_wakeup_id ws) \<Longrightarrow> w \<in> set ws \<longleftrightarrow> lookup (aw_wakeup_id w) ws = Some w"
  by (induction ws) (auto simp: lookup_def rev_image_eqI)

lemma get_agent_wakeup_Inr: "get_agent_wakeup i ws = Inr r \<longleftrightarrow> trim i \<noteq> [] \<and> lookup (trim i) ws = Some r"
  by (auto simp: get_agent_wakeup_def lookup_def Let_def split: option.splits)

section \<open>The operations, on one row\<close>

lemma update_wakeup_Inr:
  assumes "update_wakeup e P f i ws = Inr (r, ws')" "\<And>w. aw_wakeup_id (f w) = aw_wakeup_id w" "distinct (map aw_wakeup_id ws)"
  obtains w where "lookup (trim i) ws = Some w" "P w" "r = f w" "trim i \<noteq> []" "distinct (map aw_wakeup_id ws')"
    "\<And>j. lookup j ws' = (if j = trim i then Some (f w) else lookup j ws)"
proof -
  let ?ws = "map (\<lambda>w. if aw_wakeup_id w = trim i \<and> P w then f w else w) ws"
  have ws': "ws' = ?ws" "get_agent_wakeup i ?ws = Inr r" "\<exists>w\<in>set ws. aw_wakeup_id w = trim i \<and> P w"
    using assms(1) by (auto simp: update_wakeup_def Let_def bind_res_Inr_iff list_ex_iff split: if_splits)
  then obtain w where w: "lookup (trim i) ws = Some w" "P w" using lookup_in [OF assms(3)] by metis
  have ids: "map aw_wakeup_id ?ws = map aw_wakeup_id ws" by (simp add: assms(2))
  show ?thesis
  proof (rule that [OF w])
    show "r = f w" "trim i \<noteq> []" using ws'(2) w by (simp_all add: get_agent_wakeup_Inr lookup_update [OF assms(2)])
    show "distinct (map aw_wakeup_id ws')" using assms(3) ids unfolding ws'(1) by (simp only:)
    show "lookup j ws' = (if j = trim i then Some (f w) else lookup j ws)" for j
      using w unfolding ws'(1) lookup_update [OF assms(2)] by (simp add: option.map_ident)
  qed
qed

lemma update_wakeup_cases:
  assumes "\<And>w. aw_wakeup_id (f w) = aw_wakeup_id w" "distinct (map aw_wakeup_id ws)" "trim i \<noteq> []"
  shows "update_wakeup e P f i ws =
    (case lookup (trim i) ws of
       None \<Rightarrow> Inl e
     | Some w \<Rightarrow> if P w then Inr (f w, map (\<lambda>w. if aw_wakeup_id w = trim i \<and> P w then f w else w) ws) else Inl e)"
proof -
  let ?ws = "map (\<lambda>w. if aw_wakeup_id w = trim i \<and> P w then f w else w) ws"
  have ex: "list_ex (\<lambda>w. aw_wakeup_id w = trim i \<and> P w) ws \<longleftrightarrow> (\<exists>w. lookup (trim i) ws = Some w \<and> P w)"
    unfolding list_ex_iff using lookup_in [OF assms(2)] lookup_id by metis
  have get: "get_agent_wakeup i ?ws = Inr (f w)" if "lookup (trim i) ws = Some w" "P w" for w
    using that assms(3) by (simp add: get_agent_wakeup_Inr lookup_update [OF assms(1)])
  show ?thesis using ex get by (simp add: update_wakeup_def Let_def split: option.split)
qed

section \<open>Histories\<close>

text \<open>The router asks for wakeups as \<open>requested\<close>, by nobody, with a notification nobody has seen.\<close>

definition fresh_request :: "agent_wakeup \<Rightarrow> bool" where
  "fresh_request w \<longleftrightarrow> trim (aw_status w) \<in> {[], status_requested} \<and> trim (aw_bridge_instance_id w) = [] \<and>
     trim (aw_notification_status w) \<in> {[], notification_unread}"

inductive wakeup_step :: "wakeup_table \<Rightarrow> wakeup_table \<Rightarrow> bool" where
  step_request: "upsert_agent_wakeup now w ws = Inr (r, ws') \<Longrightarrow> fresh_request w \<Longrightarrow> wakeup_step ws ws'"
| step_report: "handle_agent_wakeup report is_agent now actorID i bridge ws = Inr (r, ws') \<Longrightarrow> wakeup_step ws ws'"
| step_notify: "mutate_agent_notification now actorID n i target ws0 ws = Inr (r, ws') \<Longrightarrow>
    target \<in> {notification_read, notification_dismissed} \<Longrightarrow> wakeup_step ws ws'"

abbreviation wakeup_run :: "wakeup_table \<Rightarrow> wakeup_table \<Rightarrow> bool" where
  "wakeup_run \<equiv> wakeup_step\<^sup>*\<^sup>*"

text \<open>The machine a reader has in mind: a request waits, is held by a bridge, and is settled.\<close>

datatype delivery = Waiting | Held string | Settled string

definition delivery :: "agent_wakeup \<Rightarrow> delivery" where
  "delivery w = (if aw_status w = status_requested then Waiting
     else if aw_status w = status_claimed then Held (aw_bridge_instance_id w) else Settled (aw_bridge_instance_id w))"

inductive delivery_step :: "delivery \<Rightarrow> delivery \<Rightarrow> bool" where
  same: "delivery_step d d"
| claim: "delivery_step Waiting (Held b)"
| settle: "delivery_step (Held b) (Settled b)"
| settle_unclaimed: "delivery_step Waiting (Settled [])"

inductive_simps delivery_step_simps [simp]: "delivery_step Waiting d" "delivery_step (Held b) d" "delivery_step (Settled b) d"

definition wakeup_ok :: "agent_wakeup \<Rightarrow> bool" where
  "wakeup_ok w \<longleftrightarrow> aw_status w \<in> {status_requested, status_claimed, status_completed, status_failed} \<and>
     aw_notification_status w \<in> {notification_unread, notification_read, notification_dismissed} \<and>
     trim (aw_wakeup_id w) = aw_wakeup_id w \<and> aw_wakeup_id w \<noteq> [] \<and> trim (aw_target_actor_id w) = aw_target_actor_id w \<and>
     (aw_status w = status_requested \<longrightarrow> aw_bridge_instance_id w = [])"

definition wakeups_ok :: "wakeup_table \<Rightarrow> bool" where
  "wakeups_ok ws \<longleftrightarrow> distinct (map aw_wakeup_id ws) \<and> (\<forall>w\<in>set ws. wakeup_ok w)"

lemma wakeups_ok_lookup: "wakeups_ok ws \<Longrightarrow> lookup i ws = Some w \<Longrightarrow> wakeup_ok w"
  unfolding wakeups_ok_def using lookup_in lookup_id by metis

text \<open>What one operation may do to the row of a request: its id and target stay, and it moves in the machine.\<close>

definition moves :: "agent_wakeup \<Rightarrow> agent_wakeup \<Rightarrow> bool" where
  "moves w v \<longleftrightarrow> delivery_step (delivery w) (delivery v) \<and> aw_target_actor_id v = aw_target_actor_id w \<and>
     (aw_notification_status w = notification_unread \<or> aw_notification_status v \<noteq> notification_unread)"

definition follows :: "wakeup_table \<Rightarrow> wakeup_table \<Rightarrow> bool" where
  "follows ws ws' \<longleftrightarrow> wakeups_ok ws' \<and> (\<forall>i w. lookup i ws = Some w \<longrightarrow> (\<exists>v. lookup i ws' = Some v \<and> moves w v))"

lemma moves_refl: "moves w w" by (simp add: moves_def same)

lemma update_follows:
  assumes "update_wakeup e P f i ws = Inr (r, ws')" "wakeups_ok ws" "\<And>w. aw_wakeup_id (f w) = aw_wakeup_id w"
    and "\<And>w. P w \<Longrightarrow> wakeup_ok w \<Longrightarrow> wakeup_ok (f w) \<and> moves w (f w)"
  shows "follows ws ws'"
proof -
  have d: "distinct (map aw_wakeup_id ws)" using assms(2) by (simp add: wakeups_ok_def)
  obtain w where w: "lookup (trim i) ws = Some w" "P w" "distinct (map aw_wakeup_id ws')"
    "\<And>j. lookup j ws' = (if j = trim i then Some (f w) else lookup j ws)"
    using update_wakeup_Inr [OF assms(1,3) d] by metis
  note ok = wakeups_ok_lookup [OF assms(2)]
  have "wakeup_ok v" if "v \<in> set ws'" for v
  proof -
    have "lookup (aw_wakeup_id v) ws' = Some v" using that lookup_in [OF w(3)] by simp
    then show ?thesis using w(1,2) ok assms(4) unfolding w(4) by (auto split: if_splits)
  qed
  then show ?thesis using w ok assms(4) by (auto simp: follows_def wakeups_ok_def moves_refl)
qed

lemma claim_follows: "claim_agent_wakeup now i a b ws = Inr (r, ws') \<Longrightarrow> wakeups_ok ws \<Longrightarrow> follows ws ws'"
  unfolding claim_agent_wakeup_def
  by (erule update_follows) (auto simp: wakeup_ok_def moves_def delivery_def)

lemma status_follows:
  "set_agent_wakeup_status now i a b st reason ws = Inr (r, ws') \<Longrightarrow> st \<in> {status_completed, status_failed} \<Longrightarrow>
   wakeups_ok ws \<Longrightarrow> follows ws ws'"
  unfolding set_agent_wakeup_status_def
  by (erule update_follows) (auto simp: wakeup_ok_def moves_def delivery_def)

lemma trim_notification: "trim notification_read = notification_read" "trim notification_dismissed = notification_dismissed"
  by code_simp+

lemma mark_follows:
  "mark_agent_wakeup_notification now i a st ws = Inr (r, ws') \<Longrightarrow> st \<in> {notification_read, notification_dismissed} \<Longrightarrow>
   wakeups_ok ws \<Longrightarrow> follows ws ws'"
  unfolding mark_agent_wakeup_notification_def Let_def
  by (erule update_follows) (auto simp: wakeup_ok_def moves_def delivery_def same trim_notification)

lemma upsert_follows:
  assumes "upsert_agent_wakeup now w0 ws = Inr (r, ws')" "fresh_request w0" "wakeups_ok ws"
  shows "follows ws ws'"
proof -
  let ?w = "inserted_wakeup (normalize_agent_wakeup now w0)"
  have w: "aw_wakeup_id ?w \<noteq> []" "ws' = (if aw_wakeup_id ?w \<in> aw_wakeup_id ` set ws then ws else ws @ [?w])"
    using assms(1) by (auto simp: upsert_agent_wakeup_def Let_def bind_res_Inr_iff inserted_wakeup_def split: if_splits)
  have "wakeup_ok ?w" using w(1) assms(2)
    by (auto simp: wakeup_ok_def fresh_request_def inserted_wakeup_def normalize_agent_wakeup_def text_or_def)
  then show ?thesis using w(2) assms(3) by (auto simp: follows_def wakeups_ok_def lookup_append moves_refl)
qed

lemma follows_refl: "wakeups_ok ws \<Longrightarrow> follows ws ws" by (simp add: follows_def moves_refl)

lemma handle_follows: "handle_agent_wakeup report ag now a i b ws = Inr (r, ws') \<Longrightarrow> wakeups_ok ws \<Longrightarrow> follows ws ws'"
  by (auto simp: handle_agent_wakeup_def Let_def complete_agent_wakeup_def fail_agent_wakeup_def
      intro: claim_follows status_follows split: if_splits wakeup_report.splits)

lemma wakeup_step_follows: "wakeup_step ws ws' \<Longrightarrow> wakeups_ok ws \<Longrightarrow> follows ws ws'"
proof (induction rule: wakeup_step.induct)
  case (step_notify now actorID n i target ws0 ws r ws')
  then show ?case
    by (auto simp: mutate_agent_notification_def Let_def bind_res_Inr_iff follows_refl intro: mark_follows split: if_splits)
qed (blast intro: upsert_follows handle_follows)+

lemma wakeup_run_ok: "wakeup_run ws ws' \<Longrightarrow> wakeups_ok ws \<Longrightarrow> wakeups_ok ws'"
  by (induction rule: rtranclp_induct) (auto dest: wakeup_step_follows simp: follows_def)

lemma empty_ok: "wakeups_ok []" by (simp add: wakeups_ok_def)

lemmas history_ok = wakeup_run_ok [OF _ empty_ok]

lemma delivery_reached:
  "delivery_step\<^sup>*\<^sup>* d d' \<Longrightarrow> d = Held b \<Longrightarrow> d' \<in> {Held b, Settled b}"
  "delivery_step\<^sup>*\<^sup>* d d' \<Longrightarrow> d = Settled b \<Longrightarrow> d' = Settled b"
  by (induction rule: rtranclp_induct; auto)+

lemma wakeup_run_row:
  assumes "wakeup_run ws ws'" "wakeups_ok ws" "lookup i ws = Some w"
  obtains v where "lookup i ws' = Some v" "delivery_step\<^sup>*\<^sup>* (delivery w) (delivery v)"
    "aw_target_actor_id v = aw_target_actor_id w"
    "aw_notification_status w \<noteq> notification_unread \<Longrightarrow> aw_notification_status v \<noteq> notification_unread"
proof -
  have "\<exists>v. lookup i ws' = Some v \<and> delivery_step\<^sup>*\<^sup>* (delivery w) (delivery v) \<and> aw_target_actor_id v = aw_target_actor_id w \<and>
      (aw_notification_status w = notification_unread \<or> aw_notification_status v \<noteq> notification_unread)"
    using assms(1)
  proof (induction rule: rtranclp_induct)
    case base
    then show ?case using assms(3) by auto
  next
    case (step y z)
    then obtain v where v: "lookup i y = Some v" "delivery_step\<^sup>*\<^sup>* (delivery w) (delivery v)"
      "aw_target_actor_id v = aw_target_actor_id w"
      "aw_notification_status w = notification_unread \<or> aw_notification_status v \<noteq> notification_unread" by blast
    from wakeup_step_follows [OF step(2) wakeup_run_ok [OF step(1) assms(2)]] v(1) obtain u where
      "lookup i z = Some u" "moves v u" by (auto simp: follows_def)
    with v(2-4) show ?case unfolding moves_def by (metis rtranclp.rtrancl_into_rtrancl)
  qed
  then show ?thesis using that by blast
qed

section \<open>What the operations ask of the machine\<close>

text \<open>\<open>accepts report b d\<close>: the state a row must be in for a bridge to report on it.\<close>

fun accepts :: "wakeup_report \<Rightarrow> string \<Rightarrow> delivery \<Rightarrow> bool" where
  "accepts ReportClaim b d \<longleftrightarrow> d = Waiting \<or> d = Held b"
| "accepts _ b d \<longleftrightarrow> d \<in> {Waiting, Held b, Held [], Settled b, Settled []}"

fun after_report :: "wakeup_report \<Rightarrow> string \<Rightarrow> delivery \<Rightarrow> delivery" where
  "after_report ReportClaim b d = Held b"
| "after_report _ b d = (case d of Waiting \<Rightarrow> Settled [] | Held c \<Rightarrow> Settled c | Settled c \<Rightarrow> Settled c)"

lemma delivery_cases:
  assumes "wakeup_ok w"
  shows "accepts ReportClaim b (delivery w) \<longleftrightarrow>
      aw_status w = status_requested \<or> aw_status w = status_claimed \<and> aw_bridge_instance_id w = b"
    "accepts ReportComplete b (delivery w) \<longleftrightarrow> aw_bridge_instance_id w = b \<or> aw_bridge_instance_id w = []"
  using assms by (auto simp: delivery_def wakeup_ok_def)

lemma handle_report:
  assumes "wakeups_ok ws" "trim i \<noteq> []"
  shows "case handle_agent_wakeup report True now a i b ws of
      Inl e \<Rightarrow> e = WakeupConflict \<and>
        \<not> (\<exists>w. lookup (trim i) ws = Some w \<and> aw_target_actor_id w = trim a \<and> accepts report (trim b) (delivery w))
    | Inr (r, ws') \<Rightarrow> \<exists>w. lookup (trim i) ws = Some w \<and> aw_target_actor_id w = trim a \<and> accepts report (trim b) (delivery w) \<and>
        lookup (trim i) ws' = Some r \<and> delivery r = after_report report (trim b) (delivery w)"
proof -
  have d: "distinct (map aw_wakeup_id ws)" using assms(1) by (simp add: wakeups_ok_def)
  note ok = wakeups_ok_lookup [OF assms(1)]
  show ?thesis
  proof (cases report)
    case ReportClaim
    then show ?thesis
      by (auto simp: handle_agent_wakeup_def Let_def claim_agent_wakeup_def update_wakeup_cases d assms(2) lookup_update
          delivery_cases [OF ok] lookup_id split: option.split) (auto simp: delivery_def split: if_splits)
  next
    case ReportComplete
    then show ?thesis
      by (auto simp: handle_agent_wakeup_def Let_def complete_agent_wakeup_def set_agent_wakeup_status_def update_wakeup_cases
          d assms(2) lookup_update delivery_cases [OF ok] lookup_id split: option.split) (auto simp: delivery_def wakeup_ok_def dest!: ok split: if_splits)
  next
    case (ReportFail x)
    then show ?thesis
      by (auto simp: handle_agent_wakeup_def Let_def fail_agent_wakeup_def set_agent_wakeup_status_def update_wakeup_cases
          d assms(2) lookup_update delivery_cases [OF ok] lookup_id split: option.split) (auto simp: delivery_def wakeup_ok_def dest!: ok split: if_splits)
  qed
qed

end
