(* ===== verification/WakeupClaims.thy ===== *)
theory WakeupClaims
  imports WakeupSafety
begin

text \<open>Who may report on a wake request, and when a dismissed notification comes back.\<close>

section \<open>Claims\<close>

lemma handle_accepted:
  assumes "handle_agent_wakeup report True now a i b ws = Inr (r, ws')" "wakeups_ok ws" "trim i \<noteq> []"
  obtains w where "lookup (trim i) ws = Some w" "aw_target_actor_id w = trim a" "accepts report (trim b) (delivery w)"
    "lookup (trim i) ws' = Some r" "delivery r = after_report report (trim b) (delivery w)" "wakeups_ok ws'"
  using handle_report [OF assms(2,3), where report = report and now = now and a = a and b = b] assms(1) handle_follows [OF assms(1,2)]
  by (auto simp: follows_def)

lemma handle_id: "handle_agent_wakeup report True now a i b ws = Inr (r, ws') \<Longrightarrow> trim i \<noteq> []"
  by (auto simp: handle_agent_wakeup_def Let_def split: if_splits)

lemma settled_refuses:
  assumes "wakeups_ok ws" "lookup (trim i) ws = Some w" "delivery w = Settled c" "wakeup_run ws ws'" "trim i \<noteq> []"
  shows "handle_agent_wakeup ReportClaim True now a i b ws' = Inl WakeupConflict"
proof -
  obtain v where "lookup (trim i) ws' = Some v" "delivery_step\<^sup>*\<^sup>* (delivery w) (delivery v)"
    using wakeup_run_row [OF assms(4,1,2)] by metis
  then have "\<not> accepts ReportClaim (trim b) (delivery v)" "lookup (trim i) ws' = Some v"
    using delivery_reached(2) assms(3) by fastforce+
  then show ?thesis using handle_report [OF wakeup_run_ok [OF assms(4,1)] assms(5), where report = ReportClaim and now = now and a = a and b = b]
    by (auto split: sum.splits)
qed

text \<open>
  C22. Once a bridge that gives its name has claimed a request, every report that is accepted on the request from then on comes from
  that bridge and the same agent, whatever else goes on in the queue; and after it was reported completed or failed
  nobody can claim it again.
\<close>

theorem claim_exclusive:
  assumes "wakeup_run [] ws" "handle_agent_wakeup ReportClaim True now a i b ws = Inr (r, wt1)" "trim b \<noteq> []"
    "wakeup_run wt1 wt2" "handle_agent_wakeup report True now' a' i' b' wt2 = Inr (r', wt3)" "trim i' = trim i"
  shows "trim b' = trim b \<and> trim a' = trim a \<and>
    (report \<noteq> ReportClaim \<longrightarrow> (\<forall>wt4 now4 a4 b4. wakeup_run wt3 wt4 \<longrightarrow>
       handle_agent_wakeup ReportClaim True now4 a4 i b4 wt4 = Inl WakeupConflict))"
proof -
  have id: "trim i \<noteq> []" by (rule handle_id [OF assms(2)])
  obtain w where w: "aw_target_actor_id w = trim a" "lookup (trim i) wt1 = Some r" "delivery r = Held (trim b)" "wakeups_ok wt1"
    "lookup (trim i) ws = Some w"
    using handle_accepted [OF assms(2) history_ok [OF assms(1)] id] by auto
  have target: "aw_target_actor_id r = trim a"
    using handle_follows [OF assms(2) history_ok [OF assms(1)]] w(1,2,5) unfolding follows_def moves_def by (metis option.inject)
  obtain v where v: "lookup (trim i) wt2 = Some v" "delivery_step\<^sup>*\<^sup>* (delivery r) (delivery v)" "aw_target_actor_id v = trim a"
    using wakeup_run_row [OF assms(4) w(4,2)] target by metis
  have d: "delivery v \<in> {Held (trim b), Settled (trim b)}" using delivery_reached(1) [OF v(2) w(3)] .
  obtain u where u: "lookup (trim i) wt2 = Some u" "aw_target_actor_id u = trim a'" "accepts report (trim b') (delivery u)"
    "lookup (trim i) wt3 = Some r'" "delivery r' = after_report report (trim b') (delivery u)" "wakeups_ok wt3"
    using handle_accepted [OF assms(5) wakeup_run_ok [OF assms(4) w(4)]] id unfolding assms(6) by auto
  have same: "u = v" using u(1) v(1) by simp
  have "trim b' = trim b" using d u(3) assms(3) unfolding same by (cases report) auto
  moreover have "trim a' = trim a" using u(2) v(3) unfolding same by simp
  moreover have "delivery r' = Settled (trim b)" if "report \<noteq> ReportClaim"
    using d u(5) that unfolding same by (cases report) auto
  ultimately show ?thesis using settled_refuses [OF u(6,4)] id by metis
qed

text \<open>
  C33. Completing or failing a request is accepted from any bridge of the agent unless another bridge that gave its name has claimed
  it: a request that nobody has claimed, or that was claimed without a name, can be settled by anybody.
\<close>

theorem report_accepted_iff:
  assumes "wakeup_run [] ws" "trim i \<noteq> []" "report \<noteq> ReportClaim"
  shows "(\<exists>r ws'. handle_agent_wakeup report True now a i b ws = Inr (r, ws')) \<longleftrightarrow>
    (\<exists>w\<in>set ws. aw_wakeup_id w = trim i \<and> aw_target_actor_id w = trim a \<and>
       (aw_status w = status_requested \<or> aw_bridge_instance_id w = [] \<or> aw_bridge_instance_id w = trim b))"
proof -
  note ok = history_ok [OF assms(1)]
  have "(\<exists>r ws'. handle_agent_wakeup report True now a i b ws = Inr (r, ws')) \<longleftrightarrow>
      (\<exists>w. lookup (trim i) ws = Some w \<and> aw_target_actor_id w = trim a \<and> accepts report (trim b) (delivery w))"
    using handle_report [OF ok assms(2), where report = report and now = now and a = a and b = b] by (auto split: sum.splits)
  moreover have "accepts report (trim b) (delivery w) \<longleftrightarrow>
      aw_status w = status_requested \<or> aw_bridge_instance_id w = [] \<or> aw_bridge_instance_id w = trim b" if "lookup (trim i) ws = Some w" for w
  proof -
    have "accepts report (trim b) (delivery w) = accepts ReportComplete (trim b) (delivery w)" using assms(3) by (cases report) simp_all
    then show ?thesis using delivery_cases(2) [OF wakeups_ok_lookup [OF ok that]] wakeups_ok_lookup [OF ok that]
      by (auto simp: wakeup_ok_def)
  qed
  moreover have "w \<in> set ws \<and> aw_wakeup_id w = trim i \<longleftrightarrow> lookup (trim i) ws = Some w" for w
    using lookup_in [of ws w] lookup_id ok unfolding wakeups_ok_def by metis
  ultimately show ?thesis unfolding Bex_def by metis
qed

section \<open>Notifications\<close>

lemma load_notification:
  assumes "wakeups_ok ws" "lookup i ws = Some w"
  shows "load_agent_notification (aw_target_actor_id w) i ws = Inr w"
proof -
  let ?l = "sort_key wakeup_key (filter (\<lambda>x. trim (aw_target_actor_id w) = [] \<or> aw_target_actor_id x = trim (aw_target_actor_id w)) ws)"
  have asc: "equal_fold (trim ''asc'') ''asc''" "trim [] = []" by code_simp+
  have w: "w \<in> set ws" "aw_wakeup_id w = i" using assms lookup_in lookup_id unfolding wakeups_ok_def by metis+
  have ok: "wakeup_ok x" if "x \<in> set ws" for x using assms(1) that by (simp add: wakeups_ok_def)
  have "distinct (map aw_wakeup_id ?l)" using assms(1)
    by (simp add: wakeups_ok_def distinct_map inj_on_def)
  moreover have "w \<in> set ?l" using w(1) ok by (simp add: wakeup_ok_def)
  ultimately have "lookup i ?l = Some w" using lookup_in w(2) by metis
  moreover have "find (\<lambda>x. trim (aw_wakeup_id x) = i) ?l = lookup i ?l"
    unfolding lookup_def by (rule find_cong [OF refl]) (use ok in \<open>simp add: wakeup_ok_def\<close>)
  ultimately show ?thesis by (simp add: load_agent_notification_def list_agent_wakeups_def asc Let_def)
qed

text \<open>
  A request to mark a notification read leaves a dismissed notification dismissed exactly when the handler's own read had not
  found it unread: the condition on the dismissal is checked on the list it reads first, and the write does not repeat it.
\<close>

theorem dismissal_lost_iff:
  assumes "wakeup_run [] ws0" "wakeup_run ws0 ws" "lookup i ws0 = Some w0" "lookup i ws = Some w"
    "aw_notification_status w = notification_dismissed"
  shows "(\<exists>r ws' v. mutate_agent_notification now (aw_target_actor_id w0) i j notification_read ws0 ws = Inr (r, ws') \<and>
      lookup i ws' = Some v \<and> aw_notification_status v \<noteq> notification_dismissed) \<longleftrightarrow>
    aw_notification_status w0 = notification_unread"
proof -
  note ok0 = history_ok [OF assms(1)] and ok = wakeup_run_ok [OF assms(2) history_ok [OF assms(1)]]
  have w0: "wakeup_ok w0" "aw_wakeup_id w0 = i" using wakeups_ok_lookup [OF ok0 assms(3)] lookup_id [OF assms(3)] by auto
  have i: "trim i = i" "i \<noteq> []" using w0 by (auto simp: wakeup_ok_def)
  have tr: "trim (aw_target_actor_id w0) = aw_target_actor_id w0" using w0(1) by (simp add: wakeup_ok_def)
  have target: "aw_target_actor_id w = aw_target_actor_id w0"
    using wakeup_run_row [OF assms(2) ok0 assms(3)] assms(4) by auto
  have d: "distinct (map aw_wakeup_id ws)" using ok by (simp add: wakeups_ok_def)
  have mutate: "mutate_agent_notification now (aw_target_actor_id w0) i j notification_read ws0 ws =
      (if trim (aw_notification_status w0) = notification_dismissed then Inl WakeupConflict
       else if trim (aw_notification_status w0) = notification_read then Inr (w0, ws)
       else mark_agent_wakeup_notification now i (aw_target_actor_id w0) notification_read ws)"
    using i tr by (simp add: mutate_agent_notification_def text_or_def load_notification [OF ok0 assms(3)])
  have unread: "trim notification_unread = notification_unread" by code_simp
  have marked: "mark_agent_wakeup_notification now i (aw_target_actor_id w0) notification_read ws = Inr (r, ws') \<Longrightarrow>
      lookup i ws' = Some v \<Longrightarrow> aw_notification_status v = notification_read" for r ws' v
    unfolding mark_agent_wakeup_notification_def Let_def trim_notification
    by (erule update_wakeup_Inr [OF _ _ d]) (auto simp: i)
  have "\<exists>r ws' v. mark_agent_wakeup_notification now i (aw_target_actor_id w0) notification_read ws = Inr (r, ws') \<and> lookup i ws' = Some v"
    using assms(4) d i target tr
    by (simp add: mark_agent_wakeup_notification_def trim_notification update_wakeup_cases lookup_update)
  then have some: "\<exists>r ws' v. mark_agent_wakeup_notification now i (aw_target_actor_id w0) notification_read ws = Inr (r, ws') \<and>
      lookup i ws' = Some v \<and> aw_notification_status v \<noteq> notification_dismissed"
    using marked by fastforce
  from w0(1) consider "aw_notification_status w0 = notification_unread" | "aw_notification_status w0 = notification_read"
    | "aw_notification_status w0 = notification_dismissed"
    by (auto simp: wakeup_ok_def)
  then show ?thesis
  proof cases
    case 1
    then show ?thesis using some by (simp add: mutate unread)
  next
    case 2
    then show ?thesis using assms(4,5) by (simp add: mutate trim_notification)
  next
    case 3
    then show ?thesis by (simp add: mutate trim_notification)
  qed
qed

section \<open>A request, twice\<close>

definition sample_request :: "string \<Rightarrow> agent_wakeup" where
  "sample_request i = \<lparr>aw_wakeup_id = i, aw_status = status_requested, aw_notification_status = [], aw_target_handle = ''ada'',
     aw_target_actor_id = ''actor-ada'', aw_workspace_id = ''ws'', aw_workspace_name = ''Main'', aw_thread_id = ''t'',
     aw_thread_title = ''Talk'', aw_trigger_event_id = ''m1'', aw_trigger_created_at = ''2026-01-01T00:00:01Z'',
     aw_trigger_text = ''@ada hi'', aw_refs = [''thread:t'', ''event:m1''], aw_bridge_instance_id = [], aw_failure_reason = [],
     aw_created_at = [], aw_claimed_at = [], aw_completed_at = [], aw_failed_at = [], aw_read_at = [], aw_dismissed_at = [],
     aw_updated_at = []\<rparr>"

abbreviation "sample_report rep b \<equiv> handle_agent_wakeup rep True ''2026-01-01T00:00:09Z'' ''actor-ada'' ''w1'' b"
abbreviation "sample_mark target \<equiv> mutate_agent_notification ''2026-01-01T00:00:08Z'' ''actor-ada'' ''w1'' [] target"

definition queue1 :: wakeup_table where "queue1 = snd (projr (upsert_agent_wakeup ''2026-01-01T00:00:05Z'' (sample_request ''w1'') []))"
definition queue2 :: wakeup_table where "queue2 = snd (projr (sample_report ReportClaim ''b1'' queue1))"
definition queue3 :: wakeup_table where "queue3 = snd (projr (sample_mark notification_dismissed queue1 queue1))"

lemma sample_queues:
  "\<not> isl (upsert_agent_wakeup ''2026-01-01T00:00:05Z'' (sample_request ''w1'') [])" "fresh_request (sample_request ''w1'')"
  "\<not> isl (sample_report ReportClaim ''b1'' queue1)" "\<not> isl (sample_report ReportComplete ''b1'' queue2)"
  "isl (sample_report ReportComplete ''b2'' queue2)" "\<not> isl (sample_report ReportComplete ''b2'' queue1)"
  "\<not> isl (sample_mark notification_dismissed queue1 queue1)"
  "trim ''b1'' \<noteq> []" "trim ''w1'' = ''w1''" "trim ''actor-ada'' = ''actor-ada''"
  "map_option aw_notification_status (lookup ''w1'' queue1) = Some notification_unread"
  "map_option aw_notification_status (lookup ''w1'' queue3) = Some notification_dismissed"
  "map_option aw_target_actor_id (lookup ''w1'' queue1) = Some ''actor-ada''"
  by code_simp+

lemma sample_run1: "wakeup_run [] queue1"
  using step_request [OF not_isl_pair [OF sample_queues(1)] sample_queues(2)] by (simp add: queue1_def)

lemma sample_run3: "wakeup_run queue1 queue3"
  using step_notify [OF not_isl_pair [OF sample_queues(7)]] by (simp add: queue3_def)

theorem claim_exclusive_witness:
  "\<exists>r t. sample_report ReportComplete ''b1'' queue2 = Inr (r, t) \<and> sample_report ReportClaim ''b2'' t = Inl WakeupConflict"
proof -
  note completed = not_isl_pair [OF sample_queues(4)]
  have claimed: "sample_report ReportClaim ''b1'' queue1 = Inr (fst (projr (sample_report ReportClaim ''b1'' queue1)), queue2)"
    using not_isl_pair [OF sample_queues(3)] by (simp add: queue2_def)
  have "sample_report ReportClaim ''b2'' (snd (projr (sample_report ReportComplete ''b1'' queue2))) = Inl WakeupConflict"
    using claim_exclusive [OF sample_run1 claimed sample_queues(8) rtranclp.rtrancl_refl completed refl] by simp
  with completed show ?thesis by blast
qed

theorem report_accepted_iff_witness:
  "(\<exists>r t. sample_report ReportComplete ''b2'' queue1 = Inr (r, t)) \<and>
   (\<exists>w\<in>set queue1. aw_wakeup_id w = ''w1'' \<and> aw_target_actor_id w = ''actor-ada'' \<and>
       (aw_status w = status_requested \<or> aw_bridge_instance_id w = [] \<or> aw_bridge_instance_id w = trim ''b2''))"
proof -
  have done_by_b2: "\<exists>r t. sample_report ReportComplete ''b2'' queue1 = Inr (r, t)" using not_isl_pair [OF sample_queues(6)] by blast
  have id: "trim ''w1'' \<noteq> []" using sample_queues(9) by simp
  have other: "ReportComplete \<noteq> ReportClaim" by simp
  show ?thesis
    using done_by_b2 report_accepted_iff [OF sample_run1 id other, of "''2026-01-01T00:00:09Z''" "''actor-ada''" "''b2''"]
    unfolding sample_queues(9,10) by blast
qed

theorem dismissal_lost_iff_witness:
  "\<exists>r t v. sample_mark notification_read queue1 queue3 = Inr (r, t) \<and> lookup ''w1'' t = Some v \<and>
     aw_notification_status v \<noteq> notification_dismissed"
proof -
  obtain w0 w where w: "lookup ''w1'' queue1 = Some w0" "aw_notification_status w0 = notification_unread"
    "lookup ''w1'' queue3 = Some w" "aw_notification_status w = notification_dismissed" "aw_target_actor_id w0 = ''actor-ada''"
    using sample_queues(11-13) by auto
  show ?thesis
    using dismissal_lost_iff [OF sample_run1 sample_run3 w(1,3,4), of "''2026-01-01T00:00:08Z''" "[]"] w(2) unfolding w(5) by simp
qed

end
