(* ===== verification/Artifacts.thy ===== *)
theory Artifacts
  imports DocumentHistories EventLog BoardCards
begin

text \<open>
  \<open>core/internal/primitives/store.go\<close> and \<open>attachment_store.go\<close>: artifacts, their content over HTTP, and their lifecycle.
  The members of an artifact that are texts are an association list; its \<open>refs\<close> are in the column of that name.
\<close>

section \<open>Members\<close>

type_synonym members = "(string \<times> string) list"

definition member :: "string \<Rightarrow> members \<Rightarrow> string" where
  "member k m = null_text (map_of m k)"

definition drop_members :: "string list \<Rightarrow> members \<Rightarrow> members" where
  "drop_members ks m = filter (\<lambda>p. fst p \<notin> set ks) m"

definition put_member :: "string \<Rightarrow> string \<Rightarrow> members \<Rightarrow> members" where
  "put_member k v m = (k, v) # drop_members [k] m"

lemma map_of_drop [simp]: "map_of (drop_members ks m) k = (if k \<in> set ks then None else map_of m k)"
  by (induction m) (auto simp: drop_members_def)

lemma map_of_put [simp]: "map_of (put_member k v m) j = (if j = k then Some v else map_of m j)"
  by (simp add: put_member_def)

text \<open>\<open>lifecycleFields.apply\<close>: the members that tell the state are replaced by those of the given columns.\<close>

definition lifecycle_members :: "string list" where
  "lifecycle_members = [''archived_at'', ''archived_by'', ''trashed_at'', ''trashed_by'', ''trash_reason'']"

definition put_set :: "string \<Rightarrow> string option \<Rightarrow> members \<Rightarrow> members" where
  "put_set k c m = (if is_set c then put_member k (null_text c) m else m)"

definition apply_lifecycle ::
  "string option \<Rightarrow> string option \<Rightarrow> string option \<Rightarrow> string option \<Rightarrow> string option \<Rightarrow> members \<Rightarrow> members" where
  "apply_lifecycle archivedAt archivedBy trashedAt trashedBy trashReason m0 =
     (let m = drop_members lifecycle_members m0
      in if is_set trashedAt then
           put_set ''trash_reason'' trashReason (put_set ''trashed_by'' trashedBy (put_member ''trashed_at'' (null_text trashedAt) m))
         else if is_set archivedAt then put_set ''archived_by'' archivedBy (put_member ''archived_at'' (null_text archivedAt) m)
         else m)"

section \<open>Creating\<close>

datatype artifact_error = StoreError doc_error | CardError board_error | InvalidArtifact | OwnedArtifact | MimeNotAllowed | UploadTooLarge

definition lift_store :: "doc_error + 'a \<Rightarrow> artifact_error + 'a" where
  "lift_store m = map_sum StoreError id m"

lemma lift_store_Inr [simp]: "lift_store m = Inr x \<longleftrightarrow> m = Inr x"
  by (cases m) (simp_all add: lift_store_def)

definition validate_artifact_id :: "string \<Rightarrow> bool" where
  "validate_artifact_id id0 \<longleftrightarrow>
     (let i = trim id0
      in i \<noteq> [] \<and> hd i \<noteq> CHR ''/'' \<and> i \<noteq> ''.'' \<and> i \<noteq> ''..'' \<and> CHR ''/'' \<notin> set i \<and> CHR 0x5C \<notin> set i)"

fun first_thread_ref_value :: "string list \<Rightarrow> string" where
  "first_thread_ref_value [] = []"
| "first_thread_ref_value (ref # refs) =
     (case split_typed_ref ref of
        None \<Rightarrow> first_thread_ref_value refs
      | Some (ty, v) \<Rightarrow> if ty = ''thread'' \<and> trim v \<noteq> [] then trim v else first_thread_ref_value refs)"

definition normalize_string_slice :: "list_field \<Rightarrow> artifact_error + string list" where
  "normalize_string_slice f = (case f of Strings xs \<Rightarrow> Inr xs | _ \<Rightarrow> Inl InvalidArtifact)"

definition artifact_id_of :: "members \<Rightarrow> string \<Rightarrow> artifact_error + string" where
  "artifact_id_of m newID =
     (let i = trim (member ''id'' m)
      in if i = [] then Inr newID else if validate_artifact_id i then Inr i else Inl InvalidArtifact)"

definition one_artifact :: write_delta where
  "one_artifact = \<lparr>delta_artifacts = 1, delta_documents = 0, delta_revisions = 0, delta_db_bytes = 0\<rparr>"

text \<open>The transaction every creation of an artifact ends with: handle, row, edges, and then \<open>extra\<close> (an event or nothing).\<close>

definition put_artifact ::
  "doc_env \<Rightarrow> string \<Rightarrow> doc_artifact \<Rightarrow> string \<Rightarrow> string \<Rightarrow> write_plan \<Rightarrow> (ws_db \<Rightarrow> doc_error + ws_db) \<Rightarrow> ws_db \<Rightarrow>
     doc_error + doc_artifact \<times> ws_db" where
  "put_artifact env desired a content seed plan extra db =
     bind_res (allocate_handle ''artifact'' desired seed db) (\<lambda>h.
     let row = a\<lparr>da_handle := Some h\<rparr> in
     bind_res (insert_artifact row db) (\<lambda>db1.
     bind_res (replace_ref_edges ''artifact'' (da_id a) (typed_ref_edge_targets ref_edge_type_ref (da_refs a)) db1) (\<lambda>db2.
     bind_res (extra db2) (\<lambda>db3. Inr (row, store_content env content plan db3)))))"

definition new_artifact ::
  "string \<Rightarrow> string \<Rightarrow> string \<Rightarrow> string \<Rightarrow> string \<Rightarrow> string \<Rightarrow> string \<Rightarrow> string list \<Rightarrow> members \<Rightarrow> doc_artifact" where
  "new_artifact i kind threadID now actorID contentType hash refs m =
     \<lparr>da_id = i, da_handle = None, da_kind = kind, da_thread_id = nullable_string threadID, da_created_at = now,
      da_created_by = actorID, da_content_type = contentType, da_content_hash = hash, da_refs = refs, da_metadata = m,
      da_archived_at = None, da_archived_by = None, da_trashed_at = None, da_trashed_by = None, da_trash_reason = None\<rparr>"

definition created_members :: "string \<Rightarrow> string \<Rightarrow> string \<Rightarrow> string \<Rightarrow> string \<Rightarrow> members \<Rightarrow> members" where
  "created_members i now actorID contentType hash m =
     put_member ''content_hash'' hash (put_member ''content_type'' contentType (put_member ''created_by'' actorID
       (put_member ''created_at'' now (put_member ''id'' i m))))"

text \<open>
  \<open>CreateArtifact\<close> and \<open>CreateArtifactAndEvent\<close> differ in the event, and in the thread the artifact falls back to.  The
  members are written as they are: the handle that is chosen in the transaction is in its column only.
\<close>

definition create_artifact_with ::
  "doc_env \<Rightarrow> string \<Rightarrow> members \<Rightarrow> list_field \<Rightarrow> string \<Rightarrow> string \<Rightarrow> string \<Rightarrow> string \<Rightarrow> string \<Rightarrow> (ws_db \<Rightarrow> doc_error + ws_db) \<Rightarrow>
     ws_db \<Rightarrow> ws_db \<Rightarrow> artifact_error + doc_artifact \<times> ws_db" where
  "create_artifact_with env actorID m0 refs0 content contentType newID now fallback extra db0 db =
     (let kind = member ''kind'' m0
      in if trim kind = [] then Inl InvalidArtifact
         else
     bind_res (normalize_string_slice refs0) (\<lambda>refs.
     bind_res (artifact_id_of m0 newID) (\<lambda>i.
     let hash = de_hash env content in
     bind_res (lift_store (plan_content env content one_artifact db0)) (\<lambda>plan.
     let m = created_members i now actorID contentType hash m0;
         threadID = (if first_thread_ref_value refs = [] then fallback else first_thread_ref_value refs);
         desired = first_non_empty [member ''title'' m, member ''summary'' m, kind]
     in lift_store (put_artifact env desired (new_artifact i kind threadID now actorID contentType hash refs m) content
          (''artifact-'' @ i) plan extra db)))))"

definition create_artifact ::
  "doc_env \<Rightarrow> string \<Rightarrow> members \<Rightarrow> list_field \<Rightarrow> string \<Rightarrow> string \<Rightarrow> string \<Rightarrow> string \<Rightarrow> ws_db \<Rightarrow> ws_db \<Rightarrow>
     artifact_error + doc_artifact \<times> ws_db" where
  "create_artifact env actorID m refs content contentType newID now db0 db =
     create_artifact_with env actorID m refs content contentType newID now [] Inr db0 db"

definition create_artifact_and_event ::
  "doc_env \<Rightarrow> string \<Rightarrow> members \<Rightarrow> list_field \<Rightarrow> string \<Rightarrow> string \<Rightarrow> string \<Rightarrow> string \<Rightarrow> string \<Rightarrow> string \<Rightarrow> event_draft \<Rightarrow> ws_db \<Rightarrow>
     ws_db \<Rightarrow> artifact_error + doc_artifact \<times> ws_db" where
  "create_artifact_and_event env actorID m refs content contentType newID now eventID eventTS ev db0 db =
     create_artifact_with env actorID m refs content contentType newID now (trim (ed_thread_id ev))
       (insert_event actorID eventID eventTS ev) db0 db"

section \<open>Attachments\<close>

definition before_semicolon :: "string \<Rightarrow> string" where
  "before_semicolon s = takeWhile (\<lambda>c. c \<noteq> CHR '';'') s"

definition mime_base :: "string \<Rightarrow> string" where
  "mime_base s = to_lower (trim (before_semicolon s))"

definition plain_mime_types :: "string list" where
  "plain_mime_types = [''text/plain'', ''text/markdown'', ''text/x-markdown'', ''text/csv'']"

definition allow_attachment_mime :: "string \<Rightarrow> bool" where
  "allow_attachment_mime mimeType \<longleftrightarrow>
     (let base = mime_base mimeType
      in base \<noteq> [] \<and> (has_prefix base ''image/'' \<or> base \<in> set (plain_mime_types @ [''application/pdf'', ''application/json''])))"

text \<open>\<open>filepath.Base\<close>, then at most 255 bytes.\<close>

definition file_base :: "string \<Rightarrow> string" where
  "file_base s =
     (let t = rev (dropWhile ((=) CHR ''/'') (rev s)); b = rev (takeWhile (\<lambda>c. c \<noteq> CHR ''/'') (rev t))
      in if s = [] then ''.'' else if b = [] then ''/'' else b)"

definition sanitize_original_filename :: "string \<Rightarrow> string" where
  "sanitize_original_filename name =
     (if trim name = [] then [] else take 255 (file_base (trim name)))"

definition choose_attachment_mime :: "string \<Rightarrow> string \<Rightarrow> artifact_error + string" where
  "choose_attachment_mime declared0 detected0 =
     (let declared = trim (before_semicolon declared0); detected = trim (before_semicolon detected0)
      in if allow_attachment_mime declared then Inr (to_lower declared)
         else if allow_attachment_mime detected then Inr (to_lower detected)
         else Inl MimeNotAllowed)"

definition attachment_prefer_inline :: "string \<Rightarrow> bool" where
  "attachment_prefer_inline mimeType \<longleftrightarrow>
     (let base = mime_base mimeType
      in base \<noteq> ''image/svg+xml'' \<and> (has_prefix base ''image/'' \<or> base \<in> set plain_mime_types))"

definition default_attachment_max_upload_bytes :: int where
  "default_attachment_max_upload_bytes = 52428800"

definition attachment_members :: "string \<Rightarrow> string \<Rightarrow> string \<Rightarrow> string \<Rightarrow> string \<Rightarrow> nat \<Rightarrow> string \<Rightarrow> members \<Rightarrow> members" where
  "attachment_members i now actorID mimeType hash n origName m =
     put_member ''scan_status'' ''not_scanned'' (put_member ''preview_status'' ''ready''
       (put_member ''size_bytes'' (dec_digits n) (put_member ''original_filename'' origName
         (put_member ''mime_type'' mimeType (created_members i now actorID mimeType hash (put_member ''kind'' ''attachment'' m))))))"

definition create_artifact_attachment ::
  "doc_env \<Rightarrow> string \<Rightarrow> members \<Rightarrow> list_field \<Rightarrow> string \<Rightarrow> string \<Rightarrow> string \<Rightarrow> int \<Rightarrow> string \<Rightarrow> string \<Rightarrow> ws_db \<Rightarrow> ws_db \<Rightarrow>
     artifact_error + doc_artifact \<times> ws_db" where
  "create_artifact_attachment env actorID m0 refs0 mime0 originalFilename content maxBytes newID now db0 db =
     (let kind = trim (member ''kind'' m0);
          limit = (if maxBytes \<le> 0 then default_attachment_max_upload_bytes else maxBytes)
      in if kind \<noteq> [] \<and> to_lower kind \<noteq> ''attachment'' then Inl InvalidArtifact
         else
     bind_res (normalize_string_slice refs0) (\<lambda>refs.
     bind_res (artifact_id_of m0 newID) (\<lambda>i.
     let mimeType = trim (before_semicolon mime0); origName = sanitize_original_filename originalFilename;
         hash = de_hash env content
     in if \<not> allow_attachment_mime mimeType then Inl MimeNotAllowed
        else if int (length content) > limit then Inl UploadTooLarge
        else
     bind_res (lift_store (plan_content env content one_artifact db0)) (\<lambda>plan.
     let m = attachment_members i now actorID mimeType hash (length content) origName m0
     in lift_store (put_artifact env (first_non_empty [origName, ''attachment''])
          (new_artifact i ''attachment'' (first_thread_ref_value refs) now actorID mimeType hash refs m) content
          (''artifact-'' @ i) plan Inr db)))))"

section \<open>Reading\<close>

text \<open>\<open>loadArtifactOwner\<close>; the artifact of a card's revision has the id of the revision.\<close>

datatype artifact_owner = Unowned | OfDocument string string | OfCard string string

definition load_artifact_owner :: "string \<Rightarrow> ws_db \<Rightarrow> artifact_owner" where
  "load_artifact_owner artifactID0 db =
     (let artifactID = trim artifactID0
      in if artifactID = [] then Unowned
         else case find (\<lambda>r. dr_artifact_id r = artifactID) (ws_revisions db) of
           Some r \<Rightarrow> OfDocument (dr_document_id r) (dr_revision_id r)
         | None \<Rightarrow> (case find (\<lambda>v. rv_id v = artifactID) (ws_card_revisions db) of
               Some v \<Rightarrow> OfCard (rv_parent_id v) (rv_id v)
             | None \<Rightarrow> Unowned))"

text \<open>\<open>scrubArtifactMetadataMap\<close> and \<open>publicizeArtifactMetadata\<close>.\<close>

definition publicize_artifact_metadata :: "string \<Rightarrow> string \<Rightarrow> members \<Rightarrow> members" where
  "publicize_artifact_metadata artifactID0 handle0 m0 =
     (let m = drop_members [''content_path''] m0; artifactID = first_non_empty [artifactID0, member ''id'' m];
          handle = first_non_empty [handle0, member ''handle'' m, artifactID]
      in if handle = [] then m else put_member ''ref'' (''artifact:'' @ handle) (put_member ''handle'' handle m))"

definition get_artifact :: "string \<Rightarrow> ws_db \<Rightarrow> artifact_error + members \<times> artifact_owner" where
  "get_artifact i db =
     (case find_artifact i db of
        None \<Rightarrow> Inl (StoreError DocNotFound)
      | Some a \<Rightarrow> Inr (publicize_artifact_metadata i (null_text (da_handle a)) (da_metadata a), load_artifact_owner i db))"

definition get_artifact_content :: "string \<Rightarrow> ws_db \<Rightarrow> artifact_error + string \<times> string" where
  "get_artifact_content i db =
     (case find_artifact i db of
        None \<Rightarrow> Inl (StoreError DocNotFound)
      | Some a \<Rightarrow>
          if da_content_hash a = [] then Inl (StoreError DocNotFound)
          else case blob_of db (da_content_hash a) of
              None \<Rightarrow> Inl (StoreError DocNotFound)
            | Some c \<Rightarrow> Inr (c, da_content_type a))"

text \<open>
  \<open>GetArtifactContentHTTP\<close>: the body, the content type, and the disposition with the file name, which is left out when there
  is none.  The headers for caches are not modelled.
\<close>

record artifact_delivery =
  dl_body :: string
  dl_content_type :: string
  dl_disposition :: "(string \<times> string) option"

definition get_artifact_content_http :: "string \<Rightarrow> ws_db \<Rightarrow> artifact_error + artifact_delivery" where
  "get_artifact_content_http i db =
     (case find_artifact i db of
        None \<Rightarrow> Inl (StoreError DocNotFound)
      | Some a \<Rightarrow>
          let hash = trim (da_content_hash a)
          in if hash = [] then Inl (StoreError DocNotFound)
             else case blob_of db hash of
                 None \<Rightarrow> Inl (StoreError DocNotFound)
               | Some c \<Rightarrow>
                   if trim (to_lower (da_kind a)) = ''attachment'' then
                     let m = drop_members [''content_path''] (da_metadata a);
                         mimeType = first_non_empty [member ''mime_type'' m, da_content_type a, ''application/octet-stream''];
                         fname = sanitize_original_filename (member ''original_filename'' m)
                     in Inr \<lparr>dl_body = c, dl_content_type = mimeType,
                          dl_disposition = Some (if attachment_prefer_inline mimeType then ''inline'' else ''attachment'', fname)\<rparr>
                   else Inr \<lparr>dl_body = c,
                     dl_content_type = (if trim (da_content_type a) = ''structured'' then ''application/json''
                       else if trim (da_content_type a) = ''text'' then ''text/plain; charset=utf-8''
                       else ''application/octet-stream''),
                     dl_disposition = None\<rparr>)"

section \<open>Listing\<close>

record artifact_filter =
  af_states :: "string list"
  af_ids :: "string list"
  af_q :: string
  af_limit :: "int option"
  af_kind :: string
  af_backing_scope :: string
  af_thread_id :: string
  af_thread_ids :: "string list"
  af_created_before :: string
  af_created_after :: string

definition normalize_artifact_id_filter :: "string list \<Rightarrow> int \<Rightarrow> string list" where
  "normalize_artifact_id_filter ids limit = take (if limit \<le> 0 then 48 else nat limit) (unique_from {} ids)"

definition artifact_thread_filter_ids :: "artifact_filter \<Rightarrow> string list" where
  "artifact_thread_filter_ids f =
     dedupe_strings ((if trim (af_thread_id f) \<noteq> [] then [trim (af_thread_id f)] else []) @ af_thread_ids f)"

definition artifact_backing_scope_clause :: "string \<Rightarrow> string \<Rightarrow> bool" where
  "artifact_backing_scope_clause kind scope0 =
     (let scope = normalize_backing_scope scope0
      in if scope = ''standalone'' then kind \<notin> {''doc'', ''card''}
         else if scope = ''backing_only'' then kind \<in> {''doc'', ''card''} else True)"

text \<open>The clauses both branches of the query share; \<open>like q a\<close> is \<open>LIKE\<close> of the text \<open>q\<close> on id, kind or summary.\<close>

definition artifact_matches :: "(string \<Rightarrow> doc_artifact \<Rightarrow> bool) \<Rightarrow> artifact_filter \<Rightarrow> doc_artifact \<Rightarrow> bool" where
  "artifact_matches like f a \<longleftrightarrow>
     lifecycle_states_or_group (da_archived_at a) (da_trashed_at a) (normalize_list_lifecycle_states (af_states f)) \<and>
     (trim (af_kind f) = [] \<or> da_kind a = trim (af_kind f)) \<and>
     (trim (af_created_after f) = [] \<or> trim (af_created_after f) \<le> da_created_at a) \<and>
     (trim (af_created_before f) = [] \<or> da_created_at a \<le> trim (af_created_before f)) \<and>
     (trim (af_q f) = [] \<or> like (trim (af_q f)) a) \<and>
     artifact_backing_scope_clause (da_kind a) (af_backing_scope f)"

text \<open>The join of the edges with the artifacts they start from.\<close>

definition artifacts_by_edge :: "string list \<Rightarrow> ws_db \<Rightarrow> doc_artifact list" where
  "artifacts_by_edge threads db =
     concat (map (\<lambda>e. if e_source_type e = ''artifact'' \<and> e_target_type e = ''thread'' \<and> e_target_id e \<in> set threads \<and>
                        e_edge_type e = ref_edge_type_ref
       then filter (\<lambda>a. da_id a = e_source_id e) (ws_artifacts db) else []) (ws_edges db))"

definition artifact_key :: "doc_artifact \<Rightarrow> string \<times> string" where
  "artifact_key a = (da_created_at a, da_id a)"

definition build_list_artifacts_query ::
  "(string \<Rightarrow> doc_artifact \<Rightarrow> bool) \<Rightarrow> artifact_filter \<Rightarrow> ws_db \<Rightarrow> doc_artifact list" where
  "build_list_artifacts_query like f db =
     (let ids = normalize_artifact_id_filter (af_ids f) 48; threads = artifact_thread_filter_ids f;
          limited = (case af_limit f of Some n \<Rightarrow> if n > 0 then take (nat n) else (\<lambda>as. as) | None \<Rightarrow> (\<lambda>as. as))
      in if ids \<noteq> [] then
           sort_key artifact_key (filter (\<lambda>a. da_id a \<in> set ids \<and>
             lifecycle_states_or_group (da_archived_at a) (da_trashed_at a) (normalize_list_lifecycle_states (af_states f)))
             (ws_artifacts db))
         else if threads \<noteq> [] then
           limited (sort_key artifact_key
             (filter (\<lambda>a. da_thread_id a \<in> Some ` set threads \<and> artifact_matches like f a) (ws_artifacts db) @
              filter (\<lambda>a. null_text (da_thread_id a) \<notin> set threads \<and> artifact_matches like f a) (artifacts_by_edge threads db)))
         else limited (sort_key artifact_key (filter (artifact_matches like f) (ws_artifacts db))))"

text \<open>Unlike \<open>GetArtifact\<close>, the listing does not read the column of the handle.\<close>

definition list_artifacts ::
  "(string \<Rightarrow> doc_artifact \<Rightarrow> bool) \<Rightarrow> artifact_filter \<Rightarrow> ws_db \<Rightarrow> (members \<times> artifact_owner) list" where
  "list_artifacts like f db =
     map (\<lambda>a. (publicize_artifact_metadata (da_id a) [] (da_metadata a), load_artifact_owner (da_id a) db))
       (build_list_artifacts_query like f db)"

section \<open>Lifecycle\<close>

definition trash_artifact_row :: "string \<Rightarrow> string \<Rightarrow> string \<Rightarrow> doc_artifact \<Rightarrow> doc_artifact" where
  "trash_artifact_row now actorID reason a =
     a\<lparr>da_trashed_at := Some now, da_trashed_by := Some actorID, da_trash_reason := Some (trim reason), da_archived_at := None,
       da_archived_by := None, da_metadata := apply_lifecycle None None (nullable_string now) (nullable_string actorID)
         (nullable_string reason) (drop_members [''content_path''] (da_metadata a))\<rparr>"

definition archive_artifact_row :: "string \<Rightarrow> string \<Rightarrow> doc_artifact \<Rightarrow> doc_artifact" where
  "archive_artifact_row now actorID a =
     a\<lparr>da_archived_at := Some now, da_archived_by := Some actorID, da_metadata := apply_lifecycle (nullable_string now)
         (nullable_string actorID) None None None (drop_members [''content_path''] (da_metadata a))\<rparr>"

definition unarchive_artifact_row :: "doc_artifact \<Rightarrow> doc_artifact" where
  "unarchive_artifact_row a =
     a\<lparr>da_archived_at := None, da_archived_by := None,
       da_metadata := apply_lifecycle None None None None None (drop_members [''content_path''] (da_metadata a))\<rparr>"

definition restore_artifact_row :: "doc_artifact \<Rightarrow> doc_artifact" where
  "restore_artifact_row a =
     a\<lparr>da_trashed_at := None, da_trashed_by := None, da_trash_reason := None,
       da_metadata := apply_lifecycle None None None None None (drop_members [''content_path''] (da_metadata a))\<rparr>"

lemmas artifact_rows = trash_artifact_row_def archive_artifact_row_def unarchive_artifact_row_def restore_artifact_row_def

interpretation artifact_lanes:
  soft_delete da_archived_at da_trashed_at archive_artifact_row trash_artifact_row unarchive_artifact_row restore_artifact_row
  by unfold_locales (simp_all add: artifact_rows)

definition update_artifact :: "string \<Rightarrow> (doc_artifact \<Rightarrow> doc_artifact) \<Rightarrow> ws_db \<Rightarrow> ws_db" where
  "update_artifact i f db = db\<lparr>ws_artifacts := map (\<lambda>a. if da_id a = i then f a else a) (ws_artifacts db)\<rparr>"

text \<open>
  The artifact of a card's revision goes the way of the card, whose operations are those of \<open>BoardCards\<close>.  Boards and cards
  have tables of their own, \<open>bt\<close>; their references, revisions, artifacts, ledger and blobs are those of \<open>db\<close>, so an operation
  on a card works on both, and its changes go back to both.
\<close>

definition board_view :: "board_db \<Rightarrow> ws_db \<Rightarrow> board_db" where
  "board_view bt db =
     bt\<lparr>ref_edges := ws_edges db,
        card_revisions := map (\<lambda>v. \<lparr>cr_revision_id = rv_id v, cr_card_id = rv_parent_id v,
          cr_revision_number = int (rv_number v), cr_artifact_id = rv_id v\<rparr>) (ws_card_revisions db),
        artifacts := map (\<lambda>a. \<lparr>a_id = da_id a, a_kind = da_kind a, a_content_hash = da_content_hash a\<rparr>) (ws_artifacts db),
        ledger := ws_ledger db, blob_objects := map fst (ws_blobs db)\<rparr>"

definition board_write :: "board_db \<Rightarrow> board_db \<Rightarrow> ws_db \<Rightarrow> ws_db" where
  "board_write old new db =
     db\<lparr>ws_edges := ref_edges new,
        ws_card_revisions := filter (\<lambda>v. rv_id v \<in> cr_revision_id ` set (card_revisions new)) (ws_card_revisions db),
        ws_artifacts := filter (\<lambda>a. da_id a \<in> a_id ` set (artifacts new)) (ws_artifacts db),
        ws_named := filter (\<lambda>h. \<not> (hr_type h = ''card'' \<and> hr_id h \<in> c_id ` set (cards old) \<and> hr_id h \<notin> c_id ` set (cards new)))
          (ws_named db),
        ws_ledger := ledger new, ws_blobs := filter (\<lambda>p. fst p \<in> set (blob_objects new)) (ws_blobs db)\<rparr>"

type_synonym 'a card_outcome = "(artifact_error + 'a) \<times> board_db \<times> ws_db"

definition trash_owning_card :: "string \<Rightarrow> string \<Rightarrow> string \<Rightarrow> string \<Rightarrow> board_db \<Rightarrow> ws_db \<Rightarrow> string \<Rightarrow> unit card_outcome" where
  "trash_owning_card now nowTouch actorID reason bt db cardID =
     (case trash_board_card now nowTouch actorID [] cardID reason None (board_view bt db) of
        Inl e \<Rightarrow> (Inl (CardError e), bt, db)
      | Inr (_, _, _, bt1) \<Rightarrow> (Inr (), bt1, board_write (board_view bt db) bt1 db))"

definition restore_owning_card :: "string \<Rightarrow> string \<Rightarrow> board_db \<Rightarrow> ws_db \<Rightarrow> string \<Rightarrow> unit card_outcome" where
  "restore_owning_card nowTouch actorID bt db cardID =
     (case restore_archived_board_card nowTouch actorID [] cardID None (board_view bt db) of
        (answer, bt1) \<Rightarrow> (map_sum CardError (\<lambda>_. ()) answer, bt1, board_write (board_view bt db) bt1 db))"

definition purge_owning_card :: "string \<Rightarrow> board_db \<Rightarrow> ws_db \<Rightarrow> string \<Rightarrow> artifact_error + board_db \<times> ws_db" where
  "purge_owning_card nowTouch bt db cardID =
     (case purge_archived_board_card nowTouch [] cardID (board_view bt db) of
        Inl e \<Rightarrow> Inl (CardError e)
      | Inr bt1 \<Rightarrow> Inr (bt1, board_write (board_view bt db) bt1 db))"

definition open_artifact :: "string \<Rightarrow> string \<Rightarrow> ws_db \<Rightarrow> artifact_error + doc_artifact" where
  "open_artifact actorID i db =
     (if trim actorID = [] \<or> trim i = [] then Inl InvalidArtifact
      else case find_artifact (trim i) db of None \<Rightarrow> Inl (StoreError DocNotFound) | Some a \<Rightarrow> Inr a)"

text \<open>
  An owner is changed in its own transaction, and the artifact is read after it: the answer can be an error with the
  change in place, so the outcome is the answer beside the tables.  The other statements of an operation are taken as undisturbed.
\<close>

definition read_after :: "string \<Rightarrow> ws_db \<Rightarrow> artifact_error + members" where
  "read_after i db = bind_res (get_artifact (trim i) db) (\<lambda>(m, _). Inr m)"

definition with_owner ::
  "string \<Rightarrow> string \<Rightarrow> (string \<Rightarrow> doc_error + ws_db) \<Rightarrow> (string \<Rightarrow> unit card_outcome) \<Rightarrow>
     (ws_db \<Rightarrow> artifact_error + members \<times> ws_db) \<Rightarrow> board_db \<Rightarrow> ws_db \<Rightarrow> members card_outcome" where
  "with_owner actorID i on_document on_card own bt db =
     (if trim actorID = [] \<or> trim i = [] then (Inl InvalidArtifact, bt, db)
      else case load_artifact_owner i db of
          OfDocument d _ \<Rightarrow> (case on_document d of
              Inl e \<Rightarrow> (Inl (StoreError e), bt, db)
            | Inr db1 \<Rightarrow> (read_after i db1, bt, db1))
        | OfCard c _ \<Rightarrow> (case on_card c of (answer, bt1, db1) \<Rightarrow> (bind_res answer (\<lambda>_. read_after i db1), bt1, db1))
        | Unowned \<Rightarrow> (case own db of Inl e \<Rightarrow> (Inl e, bt, db) | Inr (m, db1) \<Rightarrow> (Inr m, bt, db1)))"

definition trash_artifact ::
  "string \<Rightarrow> string \<Rightarrow> string \<Rightarrow> string \<Rightarrow> string \<Rightarrow> doc_draw \<Rightarrow> board_db \<Rightarrow> ws_db \<Rightarrow> members card_outcome" where
  "trash_artifact actorID i reason now nowTouch dw bt db =
     with_owner actorID i (\<lambda>d. bind_res (trash_document (trim actorID) d reason dw db db) (\<lambda>(_, db1). Inr db1))
       (trash_owning_card now nowTouch (trim actorID) reason bt db)
       (\<lambda>db. bind_res (open_artifact actorID i db) (\<lambda>a.
          if is_set (da_trashed_at a) then
            Inr (apply_lifecycle None None (da_trashed_at a) (da_trashed_by a) (da_trash_reason a)
              (drop_members [''content_path''] (da_metadata a)), db)
          else let f = trash_artifact_row now (trim actorID) reason
               in Inr (da_metadata (f a), update_artifact (trim i) f db))) bt db"

definition restore_artifact ::
  "string \<Rightarrow> string \<Rightarrow> string \<Rightarrow> doc_draw \<Rightarrow> board_db \<Rightarrow> ws_db \<Rightarrow> members card_outcome" where
  "restore_artifact actorID i nowTouch dw bt db =
     with_owner actorID i (\<lambda>d. bind_res (restore_document (trim actorID) d [] dw db db) (\<lambda>(_, db1). Inr db1))
       (restore_owning_card nowTouch (trim actorID) bt db)
       (\<lambda>db. bind_res (open_artifact actorID i db) (\<lambda>a.
          if \<not> is_set (da_trashed_at a) then Inl (StoreError DocNotTrashed)
          else Inr (da_metadata (restore_artifact_row a), update_artifact (trim i) restore_artifact_row db))) bt db"

text \<open>Archiving is refused for an artifact that has an owner.\<close>

definition archive_artifact :: "string \<Rightarrow> string \<Rightarrow> string \<Rightarrow> ws_db \<Rightarrow> artifact_error + members \<times> ws_db" where
  "archive_artifact actorID i now db =
     (if trim actorID = [] \<or> trim i = [] then Inl InvalidArtifact
      else if load_artifact_owner i db \<noteq> Unowned then Inl OwnedArtifact
      else bind_res (open_artifact actorID i db) (\<lambda>a.
        if is_set (da_trashed_at a) then Inl (StoreError DocAlreadyTrashed)
        else if is_set (da_archived_at a) then
          Inr (apply_lifecycle (da_archived_at a) (da_archived_by a) None None None
            (drop_members [''content_path''] (da_metadata a)), db)
        else let f = archive_artifact_row now (trim actorID)
             in Inr (da_metadata (f a), update_artifact (trim i) f db)))"

definition unarchive_artifact :: "string \<Rightarrow> string \<Rightarrow> ws_db \<Rightarrow> artifact_error + members \<times> ws_db" where
  "unarchive_artifact actorID i db =
     (if trim actorID = [] \<or> trim i = [] then Inl InvalidArtifact
      else if load_artifact_owner i db \<noteq> Unowned then Inl OwnedArtifact
      else bind_res (open_artifact actorID i db) (\<lambda>a.
        if \<not> is_set (da_archived_at a) then Inl (StoreError DocNotArchived)
        else Inr (da_metadata (unarchive_artifact_row a), update_artifact (trim i) unarchive_artifact_row db)))"

text \<open>
  \<open>PurgeTrashedArtifact\<close>: the transaction, and the blob to delete after it.  The edges of the artifact stay.  The purge of an
  artifact with an owner is the purge of the owner.
\<close>

definition purge_artifact_rows :: "string \<Rightarrow> ws_db \<Rightarrow> artifact_error + string list \<times> ws_db" where
  "purge_artifact_rows i0 db =
     (let i = trim i0
      in case find_artifact i db of
           None \<Rightarrow> Inl (StoreError DocNotFound)
         | Some a \<Rightarrow>
             if da_trashed_at a = None then Inl (StoreError DocNotTrashed)
             else let db1 = db\<lparr>ws_artifacts := filter (\<lambda>x. da_id x \<noteq> i) (ws_artifacts db)\<rparr>; hash = trim (da_content_hash a)
               in if hash = [] \<or> list_ex (\<lambda>x. da_content_hash x = hash) (ws_artifacts db1) then Inr ([], db1)
                  else Inr ([hash], db1\<lparr>ws_ledger := remove_blob_ledger_entry hash (ws_ledger db1)\<rparr>))"

definition purge_trashed_artifact :: "string \<Rightarrow> string \<Rightarrow> board_db \<Rightarrow> ws_db \<Rightarrow> artifact_error + board_db \<times> ws_db" where
  "purge_trashed_artifact nowTouch i bt db =
     (if trim i = [] then Inl InvalidArtifact
      else case load_artifact_owner i db of
          OfDocument d _ \<Rightarrow> bind_res (lift_store (purge_document d db)) (\<lambda>db1. Inr (bt, db1))
        | OfCard c _ \<Rightarrow> purge_owning_card nowTouch bt db c
        | Unowned \<Rightarrow> bind_res (purge_artifact_rows i db) (\<lambda>(gone, db1). Inr (bt, delete_blobs gone db1)))"

end
