(* ===== verification/ArtifactSafety.thy ===== *)
theory ArtifactSafety
  imports Artifacts
begin

text \<open>
  The operations on artifacts beside those on documents: an artifact that is not the artifact of a revision can be created,
  changed and purged without a document losing anything.
\<close>

section \<open>Creation\<close>

text \<open>What is written beside the artifact leaves these tables alone.\<close>

definition same_rows :: "ws_db \<Rightarrow> ws_db \<Rightarrow> bool" where
  "same_rows db db' \<longleftrightarrow> ws_documents db' = ws_documents db \<and> ws_revisions db' = ws_revisions db \<and>
     ws_artifacts db' = ws_artifacts db \<and> ws_blobs db' = ws_blobs db"

lemma same_rows_event: "insert_event actorID i ts ev db = Inr db' \<Longrightarrow> same_rows db db'"
  by (auto simp: same_rows_def dest!: insert_event_Inr)

lemma put_artifact_Inr:
  assumes "put_artifact env desired a content seed plan extra db = Inr (row, db')"
    "\<And>db db'. extra db = Inr db' \<Longrightarrow> same_rows db db'"
  shows "\<exists>h. row = a\<lparr>da_handle := Some h\<rparr>" "da_id a \<notin> da_id ` set (ws_artifacts db)"
    "ws_artifacts db' = ws_artifacts db @ [row]" "ws_documents db' = ws_documents db" "ws_revisions db' = ws_revisions db"
    "ws_blobs db' = (de_hash env content, content) # ws_blobs db"
proof -
  obtain h db1 db2 db3 where "row = a\<lparr>da_handle := Some h\<rparr>" "insert_artifact row db = Inr db1"
    and edges: "replace_ref_edges ''artifact'' (da_id a) (typed_ref_edge_targets ref_edge_type_ref (da_refs a)) db1 = Inr db2"
    and extra: "extra db2 = Inr db3" and db': "db' = store_content env content plan db3"
    using assms(1) by (auto simp: put_artifact_def bind_res_Inr_iff Let_def)
  moreover have "same_rows db1 db2" using replace_ref_edges_Inr [OF edges] by (auto simp: same_rows_def)
  moreover have "same_rows db2 db3" by (rule assms(2) [OF extra])
  ultimately show "\<exists>h. row = a\<lparr>da_handle := Some h\<rparr>" "da_id a \<notin> da_id ` set (ws_artifacts db)"
    "ws_artifacts db' = ws_artifacts db @ [row]" "ws_documents db' = ws_documents db" "ws_revisions db' = ws_revisions db"
    "ws_blobs db' = (de_hash env content, content) # ws_blobs db"
    by (auto simp: same_rows_def store_content_def insert_artifact_def split: if_splits)
qed

text \<open>A creation adds one artifact in order.\<close>

definition adds_artifact :: "doc_env \<Rightarrow> string \<Rightarrow> doc_artifact \<Rightarrow> ws_db \<Rightarrow> ws_db \<Rightarrow> bool" where
  "adds_artifact env content a db db' \<longleftrightarrow>
     ws_documents db' = ws_documents db \<and> ws_revisions db' = ws_revisions db \<and> ws_artifacts db' = ws_artifacts db @ [a] \<and>
     ws_blobs db' = (de_hash env content, content) # ws_blobs db \<and> da_id a \<notin> da_id ` set (ws_artifacts db) \<and>
     trim (da_id a) = da_id a \<and> da_content_hash a = de_hash env content"

lemma artifact_id_trimmed: "artifact_id_of m newID = Inr i \<Longrightarrow> trim newID = newID \<Longrightarrow> trim i = i"
  by (auto simp: artifact_id_of_def Let_def split: if_splits)

lemma put_adds:
  assumes "put_artifact env desired (new_artifact i kind threadID now actorID contentType (de_hash env content) refs m) content
      seed plan extra db = Inr (row, db')" "\<And>db db'. extra db = Inr db' \<Longrightarrow> same_rows db db'" "trim i = i"
  shows "adds_artifact env content row db db'"
  using put_artifact_Inr [OF assms(1,2)] assms(3) by (auto simp: adds_artifact_def new_artifact_def)

lemma create_with_adds:
  assumes "create_artifact_with env actorID m refs content contentType newID now fallback extra db0 db = Inr (row, db')"
    "\<And>db db'. extra db = Inr db' \<Longrightarrow> same_rows db db'" "trim newID = newID"
  shows "adds_artifact env content row db db'"
proof -
  obtain i desired threadID kind refs' m' seed plan where i: "artifact_id_of m newID = Inr i" and put:
    "put_artifact env desired (new_artifact i kind threadID now actorID contentType (de_hash env content) refs' m') content
       seed plan extra db = Inr (row, db')"
    using assms(1) unfolding create_artifact_with_def Let_def chain_iffs lift_store_Inr by blast
  show ?thesis by (rule put_adds [OF put assms(2) artifact_id_trimmed [OF i assms(3)]])
qed

lemma same_rows_refl: "same_rows db db" by (simp add: same_rows_def)

lemma create_adds:
  "create_artifact env actorID m refs content contentType newID now db0 db = Inr (row, db') \<Longrightarrow> trim newID = newID \<Longrightarrow>
   adds_artifact env content row db db'"
  unfolding create_artifact_def by (rule create_with_adds) (auto simp: same_rows_refl)

lemma create_and_event_adds:
  "create_artifact_and_event env actorID m refs content contentType newID now eventID ts ev db0 db = Inr (row, db') \<Longrightarrow>
   trim newID = newID \<Longrightarrow> adds_artifact env content row db db'"
  unfolding create_artifact_and_event_def by (rule create_with_adds) (auto intro: same_rows_event)

lemma attachment_adds:
  assumes "create_artifact_attachment env actorID m refs mime filename content maxBytes newID now db0 db = Inr (row, db')"
    "trim newID = newID"
  shows "adds_artifact env content row db db'"
proof -
  obtain i desired threadID kind refs' m' seed plan contentType where i: "artifact_id_of m newID = Inr i" and put:
    "put_artifact env desired (new_artifact i kind threadID now actorID contentType (de_hash env content) refs' m') content
       seed plan Inr db = Inr (row, db')"
    using assms(1) unfolding create_artifact_attachment_def Let_def chain_iffs lift_store_Inr by blast
  show ?thesis by (rule put_adds [OF put _ artifact_id_trimmed [OF i assms(2)]]) (auto simp: same_rows_refl)
qed

lemma adds_in_order:
  assumes "docs_ok env db" "adds_artifact env content a db db'"
  shows "artifacts_ok env db'" "owned_kept db db'"
proof -
  show "owned_kept db db'" using owned_kept_append [OF assms(1)] assms(2) by (simp add: adds_artifact_def)
  have "artifact_ok env db' x" if "x \<in> set (ws_artifacts db)" for x
    using that assms by (auto simp: docs_ok_def artifact_ok_def adds_artifact_def)
  moreover have "artifact_ok env db' a" using assms(2) by (simp add: artifact_ok_def adds_artifact_def)
  ultimately show "artifacts_ok env db'" using assms by (auto simp: artifacts_ok_def docs_ok_def adds_artifact_def)
qed

section \<open>Changes to one artifact\<close>

lemma unowned: "load_artifact_owner i db = Unowned \<Longrightarrow> trim i \<noteq> [] \<Longrightarrow> r \<in> set (ws_revisions db) \<Longrightarrow> dr_artifact_id r \<noteq> trim i"
  by (auto simp: load_artifact_owner_def Let_def find_None_iff split: option.splits)

lemma find_map_id: "(\<And>a. da_id (f a) = da_id a) \<Longrightarrow> j \<noteq> i \<Longrightarrow>
    find (\<lambda>a. da_id a = j) (map (\<lambda>a. if da_id a = i then f a else a) as) = find (\<lambda>a. da_id a = j) as"
  by (induction as) auto

lemma update_in_order:
  assumes "docs_ok env db" "load_artifact_owner i db = Unowned" "trim i \<noteq> []"
    and f: "\<And>a. da_id (f a) = da_id a \<and> da_content_hash (f a) = da_content_hash a"
  shows "artifacts_ok env (update_artifact (trim i) f db)" "owned_kept db (update_artifact (trim i) f db)"
proof -
  show "owned_kept db (update_artifact (trim i) f db)"
    using unowned [OF assms(2,3)] f by (auto simp: owned_kept_def find_artifact_def update_artifact_def find_map_id)
  have "map da_id (ws_artifacts (update_artifact (trim i) f db)) = map da_id (ws_artifacts db)"
    by (simp add: update_artifact_def f)
  then have "distinct (map da_id (ws_artifacts (update_artifact (trim i) f db)))" using assms(1) by (simp only: docs_ok_def)
  then show "artifacts_ok env (update_artifact (trim i) f db)"
    using assms(1) f by (auto simp: artifacts_ok_def docs_ok_def artifact_ok_def update_artifact_def)
qed

lemma artifact_rows_keep:
  "da_id (trash_artifact_row now a why x) = da_id x \<and> da_content_hash (trash_artifact_row now a why x) = da_content_hash x"
  "da_id (archive_artifact_row now a x) = da_id x \<and> da_content_hash (archive_artifact_row now a x) = da_content_hash x"
  "da_id (unarchive_artifact_row x) = da_id x \<and> da_content_hash (unarchive_artifact_row x) = da_content_hash x"
  "da_id (restore_artifact_row x) = da_id x \<and> da_content_hash (restore_artifact_row x) = da_content_hash x"
  by (simp_all add: artifact_rows)

lemma purge_artifact_rows_Inr:
  assumes "purge_artifact_rows i db = Inr (gone, db1)"
  obtains a where "find_artifact (trim i) db = Some a" "da_trashed_at a \<noteq> None"
    "ws_artifacts db1 = filter (\<lambda>x. da_id x \<noteq> trim i) (ws_artifacts db)" "ws_documents db1 = ws_documents db"
    "ws_revisions db1 = ws_revisions db" "ws_blobs db1 = ws_blobs db"
    "gone = (if trim (da_content_hash a) = [] \<or> (\<exists>x\<in>set (ws_artifacts db1). da_content_hash x = trim (da_content_hash a)) then []
       else [trim (da_content_hash a)])"
  using assms by (auto simp: purge_artifact_rows_def Let_def list_ex_iff split: option.splits if_splits)

lemma purge_in_order:
  assumes "docs_ok env db" "load_artifact_owner i db = Unowned" "trim i \<noteq> []" "purge_artifact_rows i db = Inr (gone, db1)"
  shows "artifacts_ok env (delete_blobs gone db1)" "owned_kept db (delete_blobs gone db1)" "artifacts_ok env db1"
proof -
  obtain a where rows: "find_artifact (trim i) db = Some a" "da_trashed_at a \<noteq> None"
    "ws_artifacts db1 = filter (\<lambda>x. da_id x \<noteq> trim i) (ws_artifacts db)" "ws_documents db1 = ws_documents db"
    "ws_revisions db1 = ws_revisions db" "ws_blobs db1 = ws_blobs db"
    "gone = (if trim (da_content_hash a) = [] \<or> (\<exists>x\<in>set (ws_artifacts db1). da_content_hash x = trim (da_content_hash a)) then []
       else [trim (da_content_hash a)])"
    by (rule purge_artifact_rows_Inr [OF assms(4)]) (rule that)
  note a = rows(3,6,7)
  have "find (\<lambda>a. da_id a = dr_artifact_id r) (filter (\<lambda>x. da_id x \<noteq> trim i) (ws_artifacts db)) =
      find (\<lambda>a. da_id a = dr_artifact_id r) (ws_artifacts db)" if "r \<in> set (ws_revisions db)" for r
    using unowned [OF assms(2,3) that] by (intro find_filter) simp
  then show "owned_kept db (delete_blobs gone db1)" by (simp add: owned_kept_def find_artifact_def a(1))
  have "artifact_ok env (delete_blobs gone db1) x" if "x \<in> set (ws_artifacts db1)" for x
    using that assms(1) by (auto simp: docs_ok_def artifact_ok_def a delete_blobs_of)
  then show "artifacts_ok env (delete_blobs gone db1)"
    using assms(1) by (auto simp: artifacts_ok_def docs_ok_def a(1) distinct_map_filter)
  show "artifacts_ok env db1"
    using assms(1) by (auto simp: artifacts_ok_def docs_ok_def artifact_ok_def a distinct_map_filter)
qed

section \<open>Changes to a card that owns the artifact\<close>

lemma board_write_same:
  assumes "ref_edges bt1 = ref_edges (board_view bt db)" "card_revisions bt1 = card_revisions (board_view bt db)"
    "artifacts bt1 = artifacts (board_view bt db)" "ledger bt1 = ledger (board_view bt db)"
    "blob_objects bt1 = blob_objects (board_view bt db)" "map c_id (cards bt1) = map c_id (cards bt)"
  shows "board_write (board_view bt db) bt1 db = db"
proof -
  have ids: "c_id ` set (cards bt1) = c_id ` set (cards bt)" using arg_cong [OF assms(6), of set] by simp
  have view: "cards (board_view bt db) = cards bt" by (simp add: board_view_def)
  have "filter (\<lambda>v. rv_id v \<in> cr_revision_id ` set (card_revisions bt1)) (ws_card_revisions db) = ws_card_revisions db"
    "filter (\<lambda>a. da_id a \<in> a_id ` set (artifacts bt1)) (ws_artifacts db) = ws_artifacts db"
    "filter (\<lambda>p. fst p \<in> set (blob_objects bt1)) (ws_blobs db) = ws_blobs db"
    unfolding assms(2,3,5) by (auto simp: board_view_def filter_id_conv image_iff)
  moreover have "filter (\<lambda>h. \<not> (hr_type h = ''card'' \<and> hr_id h \<in> c_id ` set (cards (board_view bt db)) \<and> hr_id h \<notin> c_id ` set (cards bt1)))
      (ws_named db) = ws_named db"
    unfolding ids view by (simp add: filter_id_conv)
  moreover have "ref_edges bt1 = ws_edges db" "ledger bt1 = ws_ledger db" using assms(1,4) by (simp_all add: board_view_def)
  ultimately show ?thesis by (simp add: board_write_def)
qed

lemma touched_rows:
  "touch_board_row now a b (update_card i f db) = (b1, db1) \<Longrightarrow> (\<And>c. c_id (f c) = c_id c) \<Longrightarrow>
   ref_edges db1 = ref_edges db \<and> card_revisions db1 = card_revisions db \<and> artifacts db1 = artifacts db \<and>
   ledger db1 = ledger db \<and> blob_objects db1 = blob_objects db \<and> map c_id (cards db1) = map c_id (cards db)"
  by (auto simp: touch_board_row_def Let_def update_card_def update_board_def)

lemma trash_owning_card_same:
  assumes "trash_owning_card now nowTouch a why bt db c = (answer, bt1, db1)"
  shows "db1 = db"
proof (cases answer)
  case (Inl e)
  then show ?thesis using assms by (auto simp: trash_owning_card_def split: sum.splits)
next
  case (Inr x)
  then obtain b r applied where t: "trash_board_card now nowTouch a [] c why None (board_view bt db) = Inr (b, r, applied, bt1)"
    "db1 = board_write (board_view bt db) bt1 db"
    using assms by (auto simp: trash_owning_card_def split: sum.splits)
  have rows: "board_write (board_view bt db) bt1 db = db"
    using t(1) unfolding trash_board_card_def Let_def
    by (intro board_write_same)
      (auto simp: bind_res_Inr_iff trash_card_def split: if_splits prod.splits dest!: touched_rows simp: board_view_def)
  then show ?thesis by (simp add: t(2))
qed

lemma restore_owning_card_same:
  assumes "restore_owning_card nowTouch a bt db c = (answer, bt1, db1)"
  shows "db1 = db"
proof -
  obtain x where t: "restore_archived_board_card nowTouch a [] c None (board_view bt db) = (x, bt1)"
    "db1 = board_write (board_view bt db) bt1 db"
    using assms by (auto simp: restore_owning_card_def split: prod.splits)
  have "board_write (board_view bt db) bt1 db = db"
    using t(1) unfolding restore_archived_board_card_def Let_def
    by (intro board_write_same)
      (auto simp: untrash_card_def unarchive_card_def board_view_def split: if_splits prod.splits sum.splits dest!: touched_rows)
  then show ?thesis by (simp add: t(2))
qed

lemma purge_card_Inr:
  assumes "purge_archived_board_card now b c v = Inr bt1"
  obtains arts dead where "artifacts bt1 = filter (\<lambda>a. a_id a \<notin> set arts) (artifacts v)"
    "set arts \<subseteq> (trim \<circ> cr_artifact_id) ` set (card_revisions v)"
    "blob_objects bt1 = filter (\<lambda>h. h \<notin> set dead) (blob_objects v)" "\<And>a. a \<in> set (artifacts bt1) \<Longrightarrow> a_content_hash a \<notin> set dead"
proof -
  let ?del = "\<lambda>r. delete_card_rows (trim (bc_id r)) (purge_revision_rows (trim (bc_id r)) v) v"
  obtain r cs row where bt1: "bt1 = (let dbt = snd (touch_board_row now system_actor_id row (?del r\<lparr>cards := cs\<rparr>));
      dead = unreferenced_hashes (map (snd \<circ> snd) (purge_revision_rows (trim (bc_id r)) v)) dbt
    in dbt\<lparr>ledger := fold remove_blob_ledger_entry dead (ledger dbt), blob_objects := filter (\<lambda>h. h \<notin> set dead) (blob_objects dbt)\<rparr>)"
    using assms unfolding purge_archived_board_card_def Let_def bind_res_Inr_iff case_prod_unfold sum.inject by blast
  define dbt where "dbt = snd (touch_board_row now system_actor_id row (?del r\<lparr>cards := cs\<rparr>))"
  note bt1 = bt1 [folded dbt_def]
  have same: "artifacts dbt = artifacts (?del r)" "blob_objects dbt = blob_objects v"
    by (simp_all add: dbt_def touch_board_row_def Let_def update_board_def delete_card_rows_def)
  let ?revs = "purge_revision_rows (trim (bc_id r)) v"
  let ?arts = "filter (\<lambda>i. i \<noteq> []) (map (fst \<circ> snd) ?revs)" and ?dead = "unreferenced_hashes (map (snd \<circ> snd) ?revs) dbt"
  show thesis
  proof (rule that)
    have "artifacts bt1 = artifacts (?del r)" by (simp add: bt1 Let_def same(1))
    then show "artifacts bt1 = filter (\<lambda>a. a_id a \<notin> set ?arts) (artifacts v)" by (simp add: delete_card_rows_def Let_def)
    show "set ?arts \<subseteq> (trim \<circ> cr_artifact_id) ` set (card_revisions v)"
      by (auto simp: purge_revision_rows_def image_iff)
    show "blob_objects bt1 = filter (\<lambda>h. h \<notin> set ?dead) (blob_objects v)" by (simp add: bt1 Let_def same(2))
    show "a_content_hash a \<notin> set ?dead" if "a \<in> set (artifacts bt1)" for a
      using that by (auto simp: bt1 Let_def unreferenced_hashes_def list_ex_iff)
  qed
qed

text \<open>The ids of the artifacts of cards are not those of the artifacts of documents: both are drawn at random.\<close>

definition cards_apart :: "ws_db \<Rightarrow> bool" where
  "cards_apart db \<longleftrightarrow> (\<forall>v\<in>set (ws_card_revisions db). \<forall>r\<in>set (ws_revisions db). trim (rv_id v) \<noteq> dr_artifact_id r)"

lemma blobs_with: "map_of (filter (\<lambda>p. fst p \<in> A) xs) h = (if h \<in> A then map_of xs h else None)"
  by (induction xs) auto

lemma purge_card_in_order:
  assumes "docs_ok env db" "cards_apart db" "purge_owning_card now bt db c = Inr (bt1, db1)"
  shows "artifacts_ok env db1" "owned_kept db db1" "ws_documents db1 = ws_documents db" "ws_revisions db1 = ws_revisions db"
proof -
  let ?v = "board_view bt db"
  have p: "purge_archived_board_card now [] c ?v = Inr bt1" and db1: "db1 = board_write ?v bt1 db"
    using assms(3) by (auto simp: purge_owning_card_def split: sum.splits)
  obtain arts dead where rows: "artifacts bt1 = filter (\<lambda>a. a_id a \<notin> set arts) (artifacts ?v)"
    "set arts \<subseteq> (trim \<circ> cr_artifact_id) ` set (card_revisions ?v)"
    "blob_objects bt1 = filter (\<lambda>h. h \<notin> set dead) (blob_objects ?v)" "\<And>a. a \<in> set (artifacts bt1) \<Longrightarrow> a_content_hash a \<notin> set dead"
    by (rule purge_card_Inr [OF p]) (rule that)
  have arts: "set arts \<subseteq> (trim \<circ> rv_id) ` set (ws_card_revisions db)"
    using rows(2) by (auto simp: board_view_def)
  have "da_id a \<in> a_id ` set (artifacts bt1) \<longleftrightarrow> da_id a \<notin> set arts" if "a \<in> set (ws_artifacts db)" for a
    using that by (auto simp: rows(1) board_view_def image_iff)
  then have left: "ws_artifacts db1 = filter (\<lambda>a. da_id a \<notin> set arts) (ws_artifacts db)"
    unfolding db1 board_write_def by (simp cong: filter_cong)
  show same: "ws_documents db1 = ws_documents db" "ws_revisions db1 = ws_revisions db" by (simp_all add: db1 board_write_def)
  have blobs: "blob_of db1 h = blob_of db h" if "h \<notin> set dead" for h
  proof -
    have "blob_of db1 h = (if h \<in> set (blob_objects bt1) then blob_of db h else None)" by (simp add: db1 board_write_def blobs_with)
    moreover have "h \<in> set (blob_objects bt1) \<longleftrightarrow> h \<in> fst ` set (ws_blobs db)" using that by (simp add: rows(3) board_view_def)
    ultimately show ?thesis using map_of_eq_None_iff [of "ws_blobs db" h] by auto
  qed
  have live: "da_content_hash a \<notin> set dead" if "a \<in> set (ws_artifacts db1)" for a
    using that rows(4) [of "\<lparr>a_id = da_id a, a_kind = da_kind a, a_content_hash = da_content_hash a\<rparr>"]
    by (auto simp: left rows(1) board_view_def)
  show "artifacts_ok env db1"
    using assms(1) blobs live by (auto simp: artifacts_ok_def docs_ok_def artifact_ok_def left distinct_map_filter)
  have "find_artifact (dr_artifact_id r) db1 = find_artifact (dr_artifact_id r) db" if "r \<in> set (ws_revisions db)" for r
  proof -
    have "dr_artifact_id r \<notin> set arts" using assms(2) arts that by (force simp: cards_apart_def)
    then show ?thesis unfolding find_artifact_def left by (intro find_filter) auto
  qed
  then show "owned_kept db db1" by (simp add: owned_kept_def)
qed

section \<open>Histories with artifacts\<close>

text \<open>
  The tables of boards can be any at every step: other operations work on them too.  As with documents, a purge is one step
  when nothing disturbs it, and the transaction of the purge is a step of its own; the deletion of the blob is one of the
  steps of documents.
\<close>

inductive artifact_step :: "doc_env \<Rightarrow> ws_db \<Rightarrow> ws_db \<Rightarrow> bool" for env where
  create: "create_artifact env actorID m refs content contentType newID now db0 db = Inr (a, db') \<Longrightarrow> trim newID = newID \<Longrightarrow>
     artifact_step env db db'"
| create_with_event: "create_artifact_and_event env actorID m refs content contentType newID now eventID ts ev db0 db = Inr (a, db') \<Longrightarrow>
     trim newID = newID \<Longrightarrow> artifact_step env db db'"
| attach: "create_artifact_attachment env actorID m refs mime filename content maxBytes newID now db0 db = Inr (a, db') \<Longrightarrow>
     trim newID = newID \<Longrightarrow> artifact_step env db db'"
| trash: "trash_artifact actorID i reason now nowTouch dw bt db = (ans, bt', db') \<Longrightarrow> artifact_step env db db'"
| restore: "restore_artifact actorID i nowTouch dw bt db = (ans, bt', db') \<Longrightarrow> artifact_step env db db'"
| archive: "archive_artifact actorID i now db = Inr (ans, db') \<Longrightarrow> artifact_step env db db'"
| unarchive: "unarchive_artifact actorID i db = Inr (ans, db') \<Longrightarrow> artifact_step env db db'"
| purge: "cards_apart db \<Longrightarrow> purge_trashed_artifact nowTouch i bt db = Inr (bt', db') \<Longrightarrow> artifact_step env db db'"
| commit: "load_artifact_owner i db = Unowned \<Longrightarrow> trim i \<noteq> [] \<Longrightarrow> purge_artifact_rows i db = Inr (gone, db') \<Longrightarrow> artifact_step env db db'"

text \<open>A history of documents and artifacts: any operation of either kind on the newest database.\<close>

inductive workspace_history :: "doc_env \<Rightarrow> ws_db list \<Rightarrow> bool" for env where
  start: "ws_documents db = [] \<Longrightarrow> ws_revisions db = [] \<Longrightarrow> ws_artifacts db = [] \<Longrightarrow> workspace_history env [db]"
| document: "workspace_history env hist \<Longrightarrow> doc_step env hist (hd hist) db' \<Longrightarrow> workspace_history env (db' # hist)"
| artifact: "workspace_history env hist \<Longrightarrow> artifact_step env (hd hist) db' \<Longrightarrow> workspace_history env (db' # hist)"

lemma other_step:
  "artifacts_ok env db' \<Longrightarrow> owned_kept db db' \<Longrightarrow> ws_documents db' = ws_documents db \<Longrightarrow> ws_revisions db' = ws_revisions db \<Longrightarrow>
   doc_step env hist db db'"
  by (rule doc_step.step_other)

lemma update_step:
  assumes "docs_ok env db" "load_artifact_owner i db = Unowned" "trim i \<noteq> []"
    "\<And>a. da_id (f a) = da_id a \<and> da_content_hash (f a) = da_content_hash a"
  shows "doc_step env hist db (update_artifact (trim i) f db)"
  using update_in_order [OF assms] by (rule other_step) (simp_all add: update_artifact_def)

lemma unchanged_step: "docs_ok env db \<Longrightarrow> doc_step env hist db db"
  by (rule other_step) (auto simp: artifacts_ok_def docs_ok_def owned_kept_same)

lemma adds_step: "docs_ok env db \<Longrightarrow> adds_artifact env content a db db' \<Longrightarrow> doc_step env hist db db'"
  using adds_in_order by (rule other_step) (auto simp: adds_artifact_def)

lemma open_artifact_ids: "open_artifact actorID i db = Inr a \<Longrightarrow> trim i \<noteq> []"
  by (auto simp: open_artifact_def split: if_splits)

lemma with_owner_cases:
  assumes "with_owner a i on_document on_card own bt db = (ans, bt', db')"
    "\<And>c r b d. on_card c = (r, b, d) \<Longrightarrow> d = db"
  shows "db' = db \<or> (\<exists>d. on_document d = Inr db') \<or> load_artifact_owner i db = Unowned \<and> (\<exists>m. own db = Inr (m, db'))"
  using assms(1) assms(2) unfolding with_owner_def
  by (auto split: if_split_asm artifact_owner.split_asm sum.split_asm prod.split_asm)

lemma lifecycle_Inr:
  "trash_artifact actorID i reason now nowTouch dw bt db = (ans, bt', db') \<Longrightarrow> db' = db \<or>
     load_artifact_owner i db = Unowned \<and> trim i \<noteq> [] \<and> db' = update_artifact (trim i) (trash_artifact_row now (trim actorID) reason) db \<or>
     (\<exists>d x. trash_document (trim actorID) d reason dw db db = Inr (x, db'))"
  "restore_artifact actorID i nowTouch dw bt db = (ans, bt', db') \<Longrightarrow> db' = db \<or>
     load_artifact_owner i db = Unowned \<and> trim i \<noteq> [] \<and> db' = update_artifact (trim i) restore_artifact_row db \<or>
     (\<exists>d x. restore_document (trim actorID) d [] dw db db = Inr (x, db'))"
  "archive_artifact actorID i now db = Inr (m, db') \<Longrightarrow> db' = db \<or>
     load_artifact_owner i db = Unowned \<and> trim i \<noteq> [] \<and> db' = update_artifact (trim i) (archive_artifact_row now (trim actorID)) db"
  "unarchive_artifact actorID i db = Inr (m, db') \<Longrightarrow>
     load_artifact_owner i db = Unowned \<and> trim i \<noteq> [] \<and> db' = update_artifact (trim i) unarchive_artifact_row db"
proof -
  assume t: "trash_artifact actorID i reason now nowTouch dw bt db = (ans, bt', db')"
  show "db' = db \<or>
     load_artifact_owner i db = Unowned \<and> trim i \<noteq> [] \<and> db' = update_artifact (trim i) (trash_artifact_row now (trim actorID) reason) db \<or>
     (\<exists>d x. trash_document (trim actorID) d reason dw db db = Inr (x, db'))"
    by (rule with_owner_cases [OF t [unfolded trash_artifact_def], elim_format, OF trash_owning_card_same])
      (auto simp: bind_res_Inr_iff Let_def dest: open_artifact_ids split: if_split_asm)
next
  assume t: "restore_artifact actorID i nowTouch dw bt db = (ans, bt', db')"
  show "db' = db \<or>
     load_artifact_owner i db = Unowned \<and> trim i \<noteq> [] \<and> db' = update_artifact (trim i) restore_artifact_row db \<or>
     (\<exists>d x. restore_document (trim actorID) d [] dw db db = Inr (x, db'))"
    by (rule with_owner_cases [OF t [unfolded restore_artifact_def], elim_format, OF restore_owning_card_same])
      (auto simp: bind_res_Inr_iff Let_def dest: open_artifact_ids split: if_split_asm)
qed (auto simp: archive_artifact_def unarchive_artifact_def Let_def bind_res_Inr_iff split: if_split_asm)

lemma artifact_step_is_step:
  assumes "artifact_step env db db'" "docs_ok env db"
  shows "doc_step env hist db db'"
  using assms(1)
proof cases
  case create
  then show ?thesis using adds_step [OF assms(2)] create_adds by blast
next
  case create_with_event
  then show ?thesis using adds_step [OF assms(2)] create_and_event_adds by blast
next
  case attach
  then show ?thesis using adds_step [OF assms(2)] attachment_adds by blast
next
  case (trash actorID i reason now nowTouch dw bt ans bt')
  from lifecycle_Inr(1) [OF this] show ?thesis
    by (elim disjE conjE exE)
      (simp_all add: unchanged_step [OF assms(2)] update_step [OF assms(2) _ _ artifact_rows_keep(1)] doc_step.step_trash)
next
  case (restore actorID i nowTouch dw bt ans bt')
  from lifecycle_Inr(2) [OF this] show ?thesis
    by (elim disjE conjE exE)
      (simp_all add: unchanged_step [OF assms(2)] update_step [OF assms(2) _ _ artifact_rows_keep(4)] doc_step.step_restore)
next
  case (archive actorID i now ans)
  from lifecycle_Inr(3) [OF this] show ?thesis
    by (elim disjE conjE)
      (simp_all add: unchanged_step [OF assms(2)] update_step [OF assms(2) _ _ artifact_rows_keep(2)])
next
  case (unarchive actorID i ans)
  from lifecycle_Inr(4) [OF this] show ?thesis
    by (elim conjE) (simp add: update_step [OF assms(2) _ _ artifact_rows_keep(3)])
next
  case (purge nowTouch i bt bt')
  show ?thesis
  proof (cases "load_artifact_owner i db")
    case Unowned
    with purge obtain gone db1 where p: "trim i \<noteq> []" "purge_artifact_rows i db = Inr (gone, db1)" "db' = delete_blobs gone db1"
      by (auto simp: purge_trashed_artifact_def bind_res_Inr_iff split: if_splits)
    have "ws_documents db' = ws_documents db" "ws_revisions db' = ws_revisions db"
      by (rule purge_artifact_rows_Inr [OF p(2)], simp add: p(3) delete_blobs_def)+
    with purge_in_order(1,2) [OF assms(2) Unowned p(1,2)] show ?thesis unfolding p(3) by (rule other_step)
  next
    case (OfDocument d r)
    with purge have "purge_document d db = Inr db'"
      by (auto simp: purge_trashed_artifact_def bind_res_Inr_iff split: if_splits)
    then show ?thesis by (rule doc_step.step_purge)
  next
    case (OfCard c r)
    with purge have "purge_owning_card nowTouch bt db c = Inr (bt', db')"
      by (auto simp: purge_trashed_artifact_def split: if_splits)
    from purge_card_in_order [OF assms(2) purge(1) this] show ?thesis by (rule other_step)
  qed
next
  case (commit i gone)
  have "ws_artifacts (delete_blobs gone db') = ws_artifacts db'" by simp
  then have "owned_kept db db'" using purge_in_order(2) [OF assms(2) commit] by (simp add: owned_kept_def find_artifact_def delete_blobs_def)
  moreover have "ws_documents db' = ws_documents db" "ws_revisions db' = ws_revisions db"
    by (rule purge_artifact_rows_Inr [OF commit(3)], simp)+
  ultimately show ?thesis using purge_in_order(3) [OF assms(2) commit] by (intro other_step)
qed

end
