(* ===== verification/ArtifactRules.thy ===== *)
theory ArtifactRules
  imports ArtifactSafety DocumentSafety
begin

text \<open>What holds of artifacts: documents keep theirs, a purge is exact, and what a creation or a listing tells.\<close>

section \<open>Documents among artifacts\<close>

lemma workspace_is_document_history: "workspace_history env hist \<Longrightarrow> doc_history env hist"
proof (induction rule: workspace_history.induct)
  case (start db)
  then show ?case by (rule doc_history.history_start)
next
  case (document hist db')
  then show ?case by (intro doc_history.history_step)
next
  case (artifact hist db')
  have "docs_ok env (hd hist)" using history_ok [OF artifact.IH] by (cases hist) (auto simp: history_ok_def)
  from artifact_step_is_step [OF artifact.hyps(2) this] artifact.IH show ?case by (intro doc_history.history_step)
qed

lemma document_is_workspace_history: "doc_history env hist \<Longrightarrow> workspace_history env hist"
  by (induction rule: doc_history.induct) (auto intro: workspace_history.intros)

lemma artifact_step_revisions:
  assumes "artifact_step env db db'"
  shows "ws_revisions db' = ws_revisions db \<or> (\<exists>d. purge_document d db = Inr db')"
  using assms
proof cases
  case create
  then show ?thesis using create_adds by (force simp: adds_artifact_def)
next
  case create_with_event
  then show ?thesis using create_and_event_adds by (force simp: adds_artifact_def)
next
  case attach
  then show ?thesis using attachment_adds by (force simp: adds_artifact_def)
next
  case (trash actorID i reason now nowTouch dw bt ans bt')
  from lifecycle_Inr(1) [OF this] show ?thesis using trash_touches by (force simp: update_artifact_def touches_rows_def)
next
  case (restore actorID i nowTouch dw bt ans bt')
  from lifecycle_Inr(2) [OF this] show ?thesis using restore_touches by (force simp: update_artifact_def touches_rows_def)
next
  case (archive actorID i now ans)
  from lifecycle_Inr(3) [OF this] show ?thesis by (auto simp: update_artifact_def)
next
  case (unarchive actorID i ans)
  from lifecycle_Inr(4) [OF this] show ?thesis by (auto simp: update_artifact_def)
next
  case (commit i gone)
  have "ws_revisions db' = ws_revisions db" by (rule purge_artifact_rows_Inr [OF commit(3)]) simp
  then show ?thesis ..
next
  case (purge nowTouch i bt bt')
  show ?thesis
  proof (cases "load_artifact_owner i db")
    case (OfCard c r)
    with purge have "db' = board_write (board_view bt db) bt' db"
      by (auto simp: purge_trashed_artifact_def purge_owning_card_def split: if_splits sum.splits)
    then show ?thesis by (simp add: board_write_def)
  next
    case Unowned
    with purge obtain gone db1 where p: "purge_artifact_rows i db = Inr (gone, db1)" "db' = delete_blobs gone db1"
      by (auto simp: purge_trashed_artifact_def bind_res_Inr_iff split: if_splits)
    have "ws_revisions db' = ws_revisions db" by (rule purge_artifact_rows_Inr [OF p(1)]) (simp add: p(2) delete_blobs_def)
    then show ?thesis ..
  qed (use purge in \<open>auto simp: purge_trashed_artifact_def bind_res_Inr_iff split: if_splits\<close>)
qed

lemma loaded_artifact: "load_document_revision i j True db = Inr (r, a, c) \<Longrightarrow> find_artifact (dr_artifact_id r) db = Some a"
  by (auto simp: load_document_revision_def bind_res_Inr_iff Let_def find_Some_iff split: option.splits)

text \<open>
  C23. Documents and artifacts side by side.  In every history of operations on documents and on artifacts the revisions of
  documents are chained as in a history of documents alone, and no operation on artifacts takes a revision or its content
  away, except the purge of the artifact of a document that is in the trash.  That includes the artifacts of cards, whose
  trash, restore and purge are those of the card with all its revisions; the ids of these are none of a document's, and a
  purge deletes its blobs before other operations come (\<open>DocumentRaces\<close> has the other case).
\<close>

theorem artifacts_keep_documents:
  assumes "workspace_history env (db # hist)" "artifact_step env db db'"
  shows "doc_history env (db' # db # hist) \<and>
    (\<forall>r\<in>set (ws_revisions db).
       if r \<in> set (ws_revisions db')
       then \<exists>a c c'. load_document_revision (dr_document_id r) (dr_revision_id r) True db = Inr (r, a, Some c) \<and>
              load_document_revision (dr_document_id r) (dr_revision_id r) True db' = Inr (r, a, Some c') \<and> de_hash env c' = de_hash env c
       else \<exists>d\<in>set (ws_documents db). d_id d = dr_document_id r \<and> d_trashed_at d \<noteq> None)"
proof (intro conjI ballI)
  have hist: "doc_history env (db # hist)" by (rule workspace_is_document_history [OF assms(1)])
  have ok: "docs_ok env db" using history_ok [OF hist] by (simp add: history_ok_def)
  have "doc_step env (db # hist) (hd (db # hist)) db'" using artifact_step_is_step [OF assms(2) ok] by simp
  with hist show new: "doc_history env (db' # db # hist)" by (rule doc_history.history_step)
  fix r assume r: "r \<in> set (ws_revisions db)"
  show "if r \<in> set (ws_revisions db')
       then \<exists>a c c'. load_document_revision (dr_document_id r) (dr_revision_id r) True db = Inr (r, a, Some c) \<and>
              load_document_revision (dr_document_id r) (dr_revision_id r) True db' = Inr (r, a, Some c') \<and> de_hash env c' = de_hash env c
       else \<exists>d\<in>set (ws_documents db). d_id d = dr_document_id r \<and> d_trashed_at d \<noteq> None"
  proof (cases "r \<in> set (ws_revisions db')")
    case True
    obtain a c where a: "load_document_revision (dr_document_id r) (dr_revision_id r) True db = Inr (r, a, Some c)"
      "de_hash env c = da_content_hash a" "find_artifact (dr_artifact_id r) db = Some a"
      using revision_content [OF hist r] loaded_artifact by blast
    obtain b c' where "load_document_revision (dr_document_id r) (dr_revision_id r) True db' = Inr (r, b, Some c')"
      "de_hash env c' = da_content_hash b" "find_artifact (dr_artifact_id r) db = Some b"
      using revision_content [OF new True] r by auto
    with a True show ?thesis by auto
  next
    case False
    then obtain d where "purge_document d db = Inr db'" using artifact_step_revisions [OF assms(2)] r by auto
    then obtain gone db1 where p: "purge_document_rows d db = Inr (gone, db1)" "db' = delete_blobs gone db1"
      using purge_document_Inr by blast
    have "dr_document_id r = trim d" using False r purge_rows_ok(4) [OF ok p(1)] by (simp add: p(2) delete_blobs_def)
    then show ?thesis using False purge_rows_ok(6) [OF ok p(1)] by simp
  qed
qed

section \<open>Purging\<close>

text \<open>
  C31. A purge of an artifact that is nobody's revision takes the artifact, which was in the trash, and nothing else: every other
  artifact answers with the content it had.  The blob is deleted exactly when no other artifact has that content.
\<close>

theorem purge_takes_one_artifact:
  assumes "workspace_history env (db # hist)" "load_artifact_owner i db = Unowned" "purge_trashed_artifact nowTouch i bt db = Inr (bt', db')"
  shows "bt' = bt \<and> (\<exists>a. find_artifact (trim i) db = Some a \<and> da_trashed_at a \<noteq> None \<and>
    ws_artifacts db' = filter (\<lambda>x. da_id x \<noteq> trim i) (ws_artifacts db) \<and>
    (\<forall>x\<in>set (ws_artifacts db'). get_artifact_content (da_id x) db' = get_artifact_content (da_id x) db) \<and>
    (trim (da_content_hash a) = da_content_hash a \<longrightarrow> da_content_hash a \<noteq> [] \<longrightarrow>
       (blob_of db' (da_content_hash a) = None \<longleftrightarrow> (\<forall>x\<in>set (ws_artifacts db'). da_content_hash x \<noteq> da_content_hash a))))"
proof -
  have ok: "docs_ok env db" using history_ok [OF workspace_is_document_history [OF assms(1)]] by (simp add: history_ok_def)
  obtain gone db1 where p: "purge_artifact_rows i db = Inr (gone, db1)" "db' = delete_blobs gone db1"
    using assms(2,3) by (auto simp: purge_trashed_artifact_def bind_res_Inr_iff split: if_splits)
  obtain a where rows: "find_artifact (trim i) db = Some a" "da_trashed_at a \<noteq> None"
    "ws_artifacts db1 = filter (\<lambda>x. da_id x \<noteq> trim i) (ws_artifacts db)" "ws_documents db1 = ws_documents db"
    "ws_revisions db1 = ws_revisions db" "ws_blobs db1 = ws_blobs db"
    "gone = (if trim (da_content_hash a) = [] \<or> (\<exists>x\<in>set (ws_artifacts db1). da_content_hash x = trim (da_content_hash a)) then []
       else [trim (da_content_hash a)])"
    by (rule purge_artifact_rows_Inr [OF p(1)]) (rule that)
  have same: "ws_artifacts db' = ws_artifacts db1" by (simp add: p(2))
  have arts: "ws_artifacts db' = filter (\<lambda>x. da_id x \<noteq> trim i) (ws_artifacts db)" by (simp add: same rows(3))
  have blobs: "blob_of db' h = (if h \<in> set gone then None else blob_of db h)" for h by (simp add: p(2) delete_blobs_of rows(6))
  have left: "h \<notin> set gone" if "x \<in> set (ws_artifacts db')" "da_content_hash x = h" for x h
    unfolding rows(7) using that same by auto
  have contents: "get_artifact_content (da_id x) db' = get_artifact_content (da_id x) db" if x: "x \<in> set (ws_artifacts db')" for x
  proof -
    have found: "find_artifact (da_id x) db' = find_artifact (da_id x) db"
      using x unfolding find_artifact_def arts by (intro find_filter) auto
    obtain y where y: "find (\<lambda>a. da_id a = da_id x) (ws_artifacts db') = Some y"
      using x by (metis (mono_tags, lifting) find_None_iff not_Some_eq)
    then have "y \<in> set (ws_artifacts db')" unfolding find_Some_iff using nth_mem by blast
    then have same_blob: "blob_of db' (da_content_hash y) = blob_of db (da_content_hash y)" using left by (simp add: blobs)
    have here: "find_artifact (da_id x) db' = Some y" using y by (simp add: find_artifact_def)
    then have "find_artifact (da_id x) db = Some y" using found by simp
    with here same_blob show ?thesis by (simp add: get_artifact_content_def)
  qed
  have blob: "blob_of db' (da_content_hash a) = None \<longleftrightarrow> (\<forall>x\<in>set (ws_artifacts db'). da_content_hash x \<noteq> da_content_hash a)"
    if "trim (da_content_hash a) = da_content_hash a" "da_content_hash a \<noteq> []"
  proof -
    have "a \<in> set (ws_artifacts db)" using rows(1) unfolding find_artifact_def find_Some_iff using nth_mem by blast
    then have "blob_of db (da_content_hash a) \<noteq> None" using ok by (auto simp: docs_ok_def artifact_ok_def)
    moreover have "da_content_hash a \<in> set gone \<longleftrightarrow> \<not> (\<exists>x\<in>set (ws_artifacts db1). da_content_hash x = da_content_hash a)"
      unfolding rows(7) using that by simp
    ultimately show ?thesis unfolding blobs same by (cases "da_content_hash a \<in> set gone") auto
  qed
  have "bt' = bt" using assms(2,3) by (auto simp: purge_trashed_artifact_def bind_res_Inr_iff split: if_splits)
  then show ?thesis by (intro conjI exI [of _ a]) (use rows(1,2) arts contents blob in blast)+
qed

section \<open>What a new artifact tells of itself\<close>

lemma not_found: "da_id a \<notin> da_id ` set as \<Longrightarrow> find (\<lambda>x. da_id x = da_id a) as = None"
  by (induction as) auto

lemma not_filtered: "da_id a \<notin> da_id ` set as \<Longrightarrow> filter (\<lambda>x. da_id x = da_id a \<and> P x) as = []"
  by (induction as) auto

lemma find_added:
  assumes "adds_artifact env content a db db'"
  shows "find_artifact (da_id a) db' = Some a"
proof -
  have "find (\<lambda>x. da_id x = da_id a) (ws_artifacts db) = None" using assms by (intro not_found) (simp add: adds_artifact_def)
  then show ?thesis using assms by (simp add: adds_artifact_def find_artifact_def find_append)
qed

definition by_id :: "string \<Rightarrow> artifact_filter" where
  "by_id i = \<lparr>af_states = [], af_ids = [i], af_q = [], af_limit = None, af_kind = [], af_backing_scope = [], af_thread_id = [],
     af_thread_ids = [], af_created_before = [], af_created_after = []\<rparr>"

lemma create_row:
  assumes "create_artifact env actorID m refs content contentType newID now db0 db = Inr (a, db')"
  shows "da_metadata a = created_members (da_id a) now actorID contentType (de_hash env content) m"
    "da_archived_at a = None \<and> da_trashed_at a = None" "\<exists>h. da_handle a = Some h"
    "artifact_id_of m newID = Inr (da_id a)" "da_kind a = member ''kind'' m" "da_content_type a = contentType"
proof -
  obtain i desired threadID refs' seed plan where id: "artifact_id_of m newID = Inr i"
    and put: "put_artifact env desired (new_artifact i (member ''kind'' m) threadID now actorID contentType (de_hash env content) refs'
         (created_members i now actorID contentType (de_hash env content) m)) content seed plan Inr db = Inr (a, db')"
    using assms unfolding create_artifact_def create_artifact_with_def Let_def chain_iffs lift_store_Inr by blast
  obtain h where "a = new_artifact i (member ''kind'' m) threadID now actorID contentType (de_hash env content) refs'
         (created_members i now actorID contentType (de_hash env content) m)\<lparr>da_handle := Some h\<rparr>"
    using put_artifact_Inr(1) [OF put] same_rows_refl by blast
  then show "da_metadata a = created_members (da_id a) now actorID contentType (de_hash env content) m"
    "da_archived_at a = None \<and> da_trashed_at a = None" "\<exists>h. da_handle a = Some h"
    "artifact_id_of m newID = Inr (da_id a)" "da_kind a = member ''kind'' m" "da_content_type a = contentType"
    using id by (simp_all add: new_artifact_def)
qed

lemma member_put [simp]: "member k (put_member j v m) = (if k = j then v else member k m)"
  by (simp add: member_def null_text_def)

lemma member_drop [simp]: "k \<notin> set ks \<Longrightarrow> member k (drop_members ks m) = member k m"
  by (simp add: member_def)

lemma publicize_members:
  assumes "trim i = i" "i \<noteq> []"
  shows "member ''ref'' (publicize_artifact_metadata i h m) = ''artifact:'' @ first_non_empty [h, member ''handle'' m, i]"
    "member ''trashed_at'' (publicize_artifact_metadata i h m) = member ''trashed_at'' m"
  using assms by (simp_all add: publicize_artifact_metadata_def Let_def)

lemma listed_by_id:
  assumes "adds_artifact env content a db db'" "da_archived_at a = None" "da_trashed_at a = None" "da_id a \<noteq> []"
  shows "map fst (list_artifacts like (by_id (da_id a)) db') = [publicize_artifact_metadata (da_id a) [] (da_metadata a)]"
proof -
  have id: "trim (da_id a) = da_id a" using assms(1) by (simp add: adds_artifact_def)
  have "filter (\<lambda>x. da_id x = da_id a \<and> lifecycle_states_or_group (da_archived_at x) (da_trashed_at x) [lifecycle_active]) (ws_artifacts db) = []"
    using assms(1) by (intro not_filtered) (simp add: adds_artifact_def)
  moreover have "lifecycle_states_or_group None None [lifecycle_active]" by code_simp
  ultimately have "filter (\<lambda>x. da_id x = da_id a \<and> lifecycle_states_or_group (da_archived_at x) (da_trashed_at x) [lifecycle_active]) (ws_artifacts db') = [a]"
    using assms(1-3) by (simp add: adds_artifact_def)
  moreover have "normalize_artifact_id_filter [da_id a] 48 = [da_id a]" using id assms(4)
    by (simp add: normalize_artifact_id_filter_def unique_from.simps)
  ultimately show ?thesis by (simp add: list_artifacts_def build_list_artifacts_query_def by_id_def normalize_list_lifecycle_states_def)
qed

text \<open>
  \<open>CreateArtifact\<close> stores the caller's members as they come.  A new artifact is active by its columns, and \<open>GetArtifact\<close>
  reports as its state what the caller wrote into \<open>trashed_at\<close>; and the listing gives the caller's \<open>handle\<close>, or the
  id, for the reference of the artifact, where \<open>GetArtifact\<close> gives the handle that was allocated.
\<close>

theorem new_artifact_reports:
  assumes "create_artifact env actorID m refs content contentType newID now db0 db = Inr (a, db')" "trim newID = newID" "newID \<noteq> []"
  shows "da_archived_at a = None \<and> da_trashed_at a = None \<and>
    (\<exists>g owner h. get_artifact (da_id a) db' = Inr (g, owner) \<and> da_handle a = Some h \<and>
       member ''trashed_at'' g = member ''trashed_at'' m \<and> member ''ref'' g = ''artifact:'' @ first_non_empty [h, member ''handle'' m, da_id a] \<and>
       (\<exists>l. map fst (list_artifacts like (by_id (da_id a)) db') = [l] \<and>
          member ''ref'' l = ''artifact:'' @ first_non_empty [member ''handle'' m, da_id a]))"
proof -
  note row = create_row [OF assms(1)] and adds = create_adds [OF assms(1,2)]
  obtain h where h: "da_handle a = Some h" using row(3) by blast
  have id: "trim (da_id a) = da_id a" "da_id a \<noteq> []"
    using adds row(4) assms(3) by (auto simp: adds_artifact_def artifact_id_of_def Let_def split: if_splits)
  have m: "member ''trashed_at'' (da_metadata a) = member ''trashed_at'' m" "member ''handle'' (da_metadata a) = member ''handle'' m"
    by (simp_all add: row(1) created_members_def)
  have "get_artifact (da_id a) db' = Inr (publicize_artifact_metadata (da_id a) h (da_metadata a), load_artifact_owner (da_id a) db')"
    by (simp add: get_artifact_def find_added [OF adds] h null_text_def)
  then show ?thesis
    using row(2) h listed_by_id [OF adds _ _ id(2), of like] by (simp add: publicize_members [OF id] m)
qed

section \<open>Content over HTTP\<close>

lemma inline_allowed: "attachment_prefer_inline s \<Longrightarrow> allow_attachment_mime s \<and> mime_base s \<noteq> ''image/svg+xml''"
proof -
  have "\<not> has_prefix [] ''image/'' \<and> [] \<notin> set plain_mime_types" by code_simp
  then show "attachment_prefer_inline s \<Longrightarrow> allow_attachment_mime s \<and> mime_base s \<noteq> ''image/svg+xml''"
    by (auto simp: attachment_prefer_inline_def allow_attachment_mime_def Let_def)
qed

lemma inline_delivery:
  assumes "get_artifact_content_http i db = Inr d" "map_option fst (dl_disposition d) = Some ''inline''"
  shows "attachment_prefer_inline (dl_content_type d)"
  using assms by (auto simp: get_artifact_content_http_def Let_def split: if_split_asm option.split_asm)

lemma attachment_row:
  assumes "create_artifact_attachment env actorID m refs mime filename content maxBytes newID now db0 db = Inr (a, db')"
  shows "member ''mime_type'' (da_metadata a) = trim (before_semicolon mime)" "allow_attachment_mime (trim (before_semicolon mime))"
    "da_kind a = ''attachment''"
proof -
  obtain i desired threadID refs' seed plan where put: "put_artifact env desired (new_artifact i ''attachment'' threadID now actorID
        (trim (before_semicolon mime)) (de_hash env content) refs' (attachment_members i now actorID (trim (before_semicolon mime))
           (de_hash env content) (length content) (sanitize_original_filename filename) m)) content seed plan Inr db = Inr (a, db')"
    and ok: "allow_attachment_mime (trim (before_semicolon mime))"
    using assms unfolding create_artifact_attachment_def Let_def chain_iffs lift_store_Inr not_not by blast
  obtain h where "a = new_artifact i ''attachment'' threadID now actorID (trim (before_semicolon mime)) (de_hash env content) refs'
      (attachment_members i now actorID (trim (before_semicolon mime)) (de_hash env content) (length content)
         (sanitize_original_filename filename) m)\<lparr>da_handle := Some h\<rparr>"
    using put_artifact_Inr(1) [OF put] same_rows_refl by blast
  then show "member ''mime_type'' (da_metadata a) = trim (before_semicolon mime)" "allow_attachment_mime (trim (before_semicolon mime))"
    "da_kind a = ''attachment''"
    using ok by (simp_all add: new_artifact_def attachment_members_def)
qed

lemma delivered:
  assumes "find_artifact i db = Some a" "trim (to_lower (da_kind a)) = ''attachment''" "get_artifact_content_http i db = Inr d"
  shows "dl_content_type d = first_non_empty [member ''mime_type'' (da_metadata a), da_content_type a, ''application/octet-stream'']"
    "map_option fst (dl_disposition d) = Some (if attachment_prefer_inline (dl_content_type d) then ''inline'' else ''attachment'')"
  using assms by (auto simp: get_artifact_content_http_def Let_def split: if_split_asm option.split_asm)

lemma delivery_exists:
  assumes "find_artifact i db = Some a" "trim (da_content_hash a) \<noteq> []" "blob_of db (trim (da_content_hash a)) \<noteq> None"
  shows "\<exists>d. get_artifact_content_http i db = Inr d"
  using assms by (auto simp: get_artifact_content_http_def Let_def)

lemma page_values: "\<not> allow_attachment_mime ''text/html''" "\<not> allow_attachment_mime []" "trim (to_lower ''attachment'') = ''attachment''"
  "\<not> attachment_prefer_inline ''text/html''" "trim ''text/html'' = ''text/html''"
  by code_simp+

text \<open>
  C32. What is delivered inline is of an allowed type and no SVG image, which may carry scripts; and what was uploaded as an
  attachment is delivered with an allowed type.  But \<open>CreateArtifact\<close> takes the kind \<open>attachment\<close> with any \<open>mime_type\<close>, and
  such an artifact is delivered with that type, although an upload of it would have been refused.
\<close>

theorem attachment_type_checks:
  assumes "trim newID = newID"
  shows "(get_artifact_content_http i db = Inr d \<longrightarrow> map_option fst (dl_disposition d) = Some ''inline'' \<longrightarrow>
      allow_attachment_mime (dl_content_type d) \<and> mime_base (dl_content_type d) \<noteq> ''image/svg+xml'') \<and>
    (create_artifact_attachment env actorID m refs mime filename content maxBytes newID now db0 db = Inr (a, db') \<longrightarrow>
      get_artifact_content_http (da_id a) db' = Inr d \<longrightarrow> allow_attachment_mime (dl_content_type d)) \<and>
    (create_artifact env actorID m refs content contentType newID now db0 db = Inr (a, db') \<longrightarrow>
      member ''kind'' m = ''attachment'' \<longrightarrow> member ''mime_type'' m = ''text/html'' \<longrightarrow> trim (de_hash env content) = de_hash env content \<longrightarrow>
      de_hash env content \<noteq> [] \<longrightarrow>
      (\<exists>d. get_artifact_content_http (da_id a) db' = Inr d \<and> dl_body d = content \<and> dl_content_type d = ''text/html'' \<and>
        \<not> allow_attachment_mime (dl_content_type d)))"
proof (intro conjI impI)
  assume "get_artifact_content_http i db = Inr d" "map_option fst (dl_disposition d) = Some ''inline''"
  from inline_delivery [OF this] show "allow_attachment_mime (dl_content_type d)" "mime_base (dl_content_type d) \<noteq> ''image/svg+xml''"
    using inline_allowed by blast+
next
  assume att: "create_artifact_attachment env actorID m refs mime filename content maxBytes newID now db0 db = Inr (a, db')"
    and d: "get_artifact_content_http (da_id a) db' = Inr d"
  note row = attachment_row [OF att]
  have some: "trim (before_semicolon mime) \<noteq> []" using row(2) page_values(2) by auto
  have kind: "trim (to_lower (da_kind a)) = ''attachment''" using page_values(3) row(3) by (simp only:)
  have "dl_content_type d = trim (before_semicolon mime)"
    using delivered(1) [OF find_added [OF attachment_adds [OF att assms]] kind d] some unfolding row(1) by (simp add: Let_def)
  with row(2) show "allow_attachment_mime (dl_content_type d)" by simp
next
  assume new: "create_artifact env actorID m refs content contentType newID now db0 db = Inr (a, db')"
    and m: "member ''kind'' m = ''attachment''" "member ''mime_type'' m = ''text/html''"
    and hash: "trim (de_hash env content) = de_hash env content" "de_hash env content \<noteq> []"
  note row = create_row [OF new] and adds = create_adds [OF new assms]
  have "member ''mime_type'' (da_metadata a) = ''text/html''" "da_kind a = ''attachment''"
    using m by (simp_all add: row(1,5) created_members_def)
  moreover have "blob_of db' (da_content_hash a) = Some content" "da_content_hash a = de_hash env content"
    using adds by (simp_all add: adds_artifact_def)
  ultimately show "\<exists>d. get_artifact_content_http (da_id a) db' = Inr d \<and> dl_body d = content \<and> dl_content_type d = ''text/html'' \<and>
      \<not> allow_attachment_mime (dl_content_type d)"
    using hash by (simp add: get_artifact_content_http_def find_added [OF adds] page_values Let_def del: to_lower.simps)
qed

section \<open>Listing the artifacts of threads\<close>

lemma one_of_many: "distinct (map da_id as) \<Longrightarrow> a \<in> set as \<Longrightarrow> filter (\<lambda>x. x = a) as = [a]"
  by (induction as) (auto simp: filter_empty_conv)

lemma filter_and_eq: "filter (\<lambda>x. P x \<and> x = a) xs = (if P a then filter (\<lambda>x. x = a) xs else [])"
  "filter (\<lambda>x. P x \<and> Q x \<and> x = a) xs = (if P a \<and> Q a then filter (\<lambda>x. x = a) xs else [])"
  by (induction xs) auto

definition edge_into :: "string list \<Rightarrow> doc_artifact \<Rightarrow> ref_edge \<Rightarrow> bool" where
  "edge_into threads a e \<longleftrightarrow> e_source_type e = ''artifact'' \<and> e_source_id e = da_id a \<and> e_target_type e = ''thread'' \<and>
     e_target_id e \<in> set threads \<and> e_edge_type e = ref_edge_type_ref"

lemma joined_count:
  assumes "distinct (map da_id (ws_artifacts db))" "a \<in> set (ws_artifacts db)"
  shows "length (filter (\<lambda>x. x = a) (artifacts_by_edge threads db)) = length (filter (edge_into threads a) (ws_edges db))"
proof -
  have "length (filter (\<lambda>x. x = a) (concat (map (\<lambda>e. if e_source_type e = ''artifact'' \<and> e_target_type e = ''thread'' \<and>
      e_target_id e \<in> set threads \<and> e_edge_type e = ref_edge_type_ref
      then filter (\<lambda>x. da_id x = e_source_id e) (ws_artifacts db) else []) es))) = length (filter (edge_into threads a) es)" for es
    by (induction es) (simp_all add: filter_and_eq(1) [where P = "\<lambda>x. da_id x = i" for i] one_of_many [OF assms] edge_into_def)
  then show ?thesis by (simp add: artifacts_by_edge_def)
qed

text \<open>
  The artifacts of threads.  A matching artifact is listed once if its own thread is among those asked for; otherwise it is
  listed once for every reference to one of them, so an artifact that refers to two of the threads appears twice.
\<close>

theorem thread_listing_count:
  assumes "workspace_history env (db # hist)" "a \<in> set (ws_artifacts db)" "artifact_matches like f a" "af_ids f = []"
    "artifact_thread_filter_ids f \<noteq> []" "af_limit f = None"
  shows "length (filter (\<lambda>x. x = a) (build_list_artifacts_query like f db)) =
    (if da_thread_id a \<in> Some ` set (artifact_thread_filter_ids f) then 1
     else length (filter (edge_into (artifact_thread_filter_ids f) a) (ws_edges db)))"
proof -
  let ?threads = "artifact_thread_filter_ids f"
  have dist: "distinct (map da_id (ws_artifacts db))"
    using history_ok [OF workspace_is_document_history [OF assms(1)]] by (simp add: history_ok_def docs_ok_def)
  have "[] \<notin> set ?threads" by (simp add: artifact_thread_filter_ids_def dedupe_strings_def set_unique_from)
  then have thread: "null_text (da_thread_id a) \<in> set ?threads \<longleftrightarrow> da_thread_id a \<in> Some ` set ?threads"
    by (cases "da_thread_id a") (auto simp: null_text_def)
  have none: "normalize_artifact_id_filter [] 48 = []" by (simp add: normalize_artifact_id_filter_def)
  have joined: "length (filter (\<lambda>x. x = a) (artifacts_by_edge ?threads db)) = length (filter (edge_into ?threads a) (ws_edges db))"
    by (rule joined_count [OF dist assms(2)])
  show ?thesis
    using assms(3-6) thread
    by (simp add: build_list_artifacts_query_def Let_def none filter_sort filter_and_eq one_of_many [OF dist assms(2)] joined)
qed

section \<open>A note and a page\<close>

definition create_sample :: "members \<Rightarrow> string list \<Rightarrow> string \<Rightarrow> ws_db \<Rightarrow> artifact_error + doc_artifact \<times> ws_db" where
  "create_sample m refs content db =
     create_artifact doc_sample_env ''ann'' m (Strings refs) content ''text'' ''new'' ''2026-01-05T00:00:00Z'' db db"

definition note_members :: members where
  "note_members = [(''id'', ''note''), (''kind'', ''agent_wake''), (''summary'', ''A note''), (''trashed_at'', ''2020-01-01''), (''handle'', ''mine'')]"

definition note_result :: "artifact_error + doc_artifact \<times> ws_db" where
  "note_result = create_sample note_members [''thread:a'', ''thread:b'', ''thread:c''] ''hello'' plan_db"

definition memo :: doc_artifact where "memo = fst (projr note_result)"
definition note_db :: ws_db where "note_db = snd (projr note_result)"

definition page_members :: members where
  "page_members = [(''id'', ''page''), (''kind'', ''attachment''), (''mime_type'', ''text/html'')]"

definition page_result :: "artifact_error + doc_artifact \<times> ws_db" where
  "page_result = create_sample page_members [] ''<p/>'' plan_db"

lemma note_created: "\<not> isl note_result" by code_simp
lemma page_created: "\<not> isl page_result" by code_simp

lemma note_ok: "create_sample note_members [''thread:a'', ''thread:b'', ''thread:c''] ''hello'' plan_db = Inr (memo, note_db)"
  using not_isl_pair [OF note_created] by (simp add: memo_def note_db_def note_result_def)

lemma sample_new: "trim ''new'' = ''new''" by code_simp

lemma plan_step: "artifact_step doc_sample_env plan_db note_db"
  using artifact_step.create [OF note_ok [unfolded create_sample_def] sample_new] .

lemma note_history: "workspace_history doc_sample_env [note_db, plan_db, ws_empty]"
  using workspace_history.artifact [OF document_is_workspace_history [OF plan_history]] plan_step by simp

text \<open>A card in the archive whose revision has the content of the plan: the purge of its artifact is the purge of the card.\<close>

definition card_tables :: board_db where
  "card_tables =
     \<lparr>boards = [\<lparr>b_id = ''b1'', b_handle = None, b_title = ''Board'', b_summary = [], b_owners = [], b_thread_id = ''t1'', b_refs = [],
        b_column_schema = [], b_created_at = ''1'', b_created_by = ''ann'', b_updated_at = ''1'', b_updated_by = ''ann'',
        b_archived_at = None, b_archived_by = None, b_trashed_at = None, b_trashed_by = None, b_trash_reason = None\<rparr>],
      cards = [\<lparr>c_id = ''c1'', c_handle = None, c_board_id = ''b1'', c_column_key = ''backlog'', c_rank = ''1'', c_title = ''Card'',
        c_summary = [], c_version = 1, c_head_revision_id = Some ''cr1'', c_head_revision_number = 1, c_thread_id = None,
        c_parent_thread_id = None, c_due_at = None, c_definition_of_done = [], c_pinned_document_id = None, c_assignee = None,
        c_risk = ''low'', c_resolution = None, c_resolution_refs = [], c_refs = [], c_created_at = ''1'', c_created_by = ''ann'',
        c_updated_at = ''1'', c_updated_by = ''ann'', c_archived_at = Some ''2'', c_archived_by = Some ''ann'', c_trashed_at = None,
        c_trashed_by = None, c_trash_reason = None\<rparr>],
      ref_edges = [], card_revisions = [], artifacts = [], ledger = \<lparr>entries = [], totals = None\<rparr>, blob_objects = []\<rparr>"

definition carded_db :: ws_db where
  "carded_db = plan_db\<lparr>
     ws_artifacts := ws_artifacts plan_db @ [(sample_artifact ''1'' ''ann'' ''card-revision'' ''one'' [])\<lparr>da_id := ''cr1''\<rparr>],
     ws_card_revisions := [\<lparr>rv_type = ''card_revision'', rv_id = ''cr1'', rv_parent_id = ''c1'', rv_number = 1\<rparr>],
     ws_edges := ws_edges plan_db @ [\<lparr>e_source_type = ''board'', e_source_id = ''b1'', e_target_type = ''card'', e_target_id = ''c1'',
       e_edge_type = board_card_type, e_metadata = [(''column_key'', ''backlog''), (''rank'', ''1'')]\<rparr>]\<rparr>"

lemma carded_history: "workspace_history doc_sample_env [carded_db, plan_db, ws_empty]"
proof -
  have ok: "docs_ok doc_sample_env plan_db" by (rule newest_ok [OF plan_history])
  have arts: "ws_artifacts carded_db = ws_artifacts plan_db @ [(sample_artifact ''1'' ''ann'' ''card-revision'' ''one'' [])\<lparr>da_id := ''cr1''\<rparr>]"
    by (simp add: carded_db_def)
  have "trim ''cr1'' = ''cr1''" "trim ''rev1'' = ''rev1''" by code_simp+
  then have "artifacts_ok doc_sample_env carded_db"
    by (auto simp: artifacts_ok_def artifact_ok_def carded_db_def plan_db_def sample_artifact_def doc_sample_env_def)
  moreover have "ws_documents carded_db = ws_documents plan_db" "ws_revisions carded_db = ws_revisions plan_db"
    by (simp_all add: carded_db_def)
  ultimately have "doc_step doc_sample_env [plan_db, ws_empty] (hd [plan_db, ws_empty]) carded_db"
    using owned_kept_append [OF ok arts] by (simp add: doc_step.step_other)
  with document_is_workspace_history [OF plan_history] show ?thesis by (rule workspace_history.document)
qed

definition purge_card_result :: "artifact_error + board_db \<times> ws_db" where
  "purge_card_result = purge_trashed_artifact ''3'' ''cr1'' card_tables carded_db"

definition uncarded_db :: ws_db where "uncarded_db = snd (projr purge_card_result)"

lemma purge_card_values: "\<not> isl purge_card_result" "cards_apart carded_db" "map da_id (ws_artifacts uncarded_db) = [''rev1'']"
  "plan_rev \<in> set (ws_revisions uncarded_db)" "ws_card_revisions uncarded_db = []"
  by code_simp+

lemma uncarded_step: "artifact_step doc_sample_env carded_db uncarded_db"
  unfolding uncarded_db_def purge_card_result_def
  by (rule artifact_step.purge [OF purge_card_values(2) not_isl_pair [OF purge_card_values(1) [unfolded purge_card_result_def]]])

theorem artifacts_keep_documents_witness:
  "doc_history doc_sample_env [uncarded_db, carded_db, plan_db, ws_empty] \<and> map da_id (ws_artifacts uncarded_db) = [''rev1''] \<and>
   (\<exists>a c. load_document_revision ''doc1'' ''rev1'' True uncarded_db = Inr (plan_rev, a, Some c))"
proof -
  have r: "plan_rev \<in> set (ws_revisions carded_db)" "dr_document_id plan_rev = ''doc1''" "dr_revision_id plan_rev = ''rev1''"
    by (simp_all add: plan_rev_def plan_db_def carded_db_def)
  note keep = artifacts_keep_documents [OF carded_history uncarded_step]
  from keep have "doc_history doc_sample_env [uncarded_db, carded_db, plan_db, ws_empty]" by blast
  with bspec [OF conjunct2 [OF keep] r(1)] purge_card_values(3,4) show ?thesis unfolding r(2,3) by (auto split: if_splits)
qed

definition trash_note_result :: "members card_outcome" where
  "trash_note_result = trash_artifact ''ann'' ''note'' ''old'' ''2026-01-06T00:00:00Z'' ''t'' (doc_draw_of ''3'') card_tables note_db"

definition no_note_db :: ws_db where "no_note_db = snd (snd trash_note_result)"

lemma note_values: "\<not> isl (purge_trashed_artifact ''t'' ''note'' card_tables no_note_db)"
  "load_artifact_owner ''note'' no_note_db = Unowned" "trim ''note'' = ''note''"
  by code_simp+

lemma no_note_history: "workspace_history doc_sample_env [no_note_db, note_db, plan_db, ws_empty]"
proof -
  have "trash_note_result = (fst trash_note_result, fst (snd trash_note_result), no_note_db)" by (simp add: no_note_db_def)
  from artifact_step.trash [OF this [unfolded trash_note_result_def]] show ?thesis
    using workspace_history.artifact [OF note_history] by simp
qed

theorem purge_takes_one_artifact_witness:
  "\<exists>bt' db'. purge_trashed_artifact ''t'' ''note'' card_tables no_note_db = Inr (bt', db') \<and>
     ws_artifacts db' = filter (\<lambda>x. da_id x \<noteq> ''note'') (ws_artifacts no_note_db)"
  using purge_takes_one_artifact [OF no_note_history note_values(2) not_isl_pair [OF note_values(1)]] not_isl_pair [OF note_values(1)]
  unfolding note_values(3) by blast

lemma note_facts: "member ''trashed_at'' note_members = ''2020-01-01''" "first_non_empty [member ''handle'' note_members, ''note''] = ''mine''"
  "da_id memo = ''note''" "da_handle memo = Some ''a-note''" "first_non_empty [''a-note'', member ''handle'' note_members, ''note''] = ''a-note''"
  by code_simp+

theorem new_artifact_reports_witness:
  "da_trashed_at memo = None \<and>
   (\<exists>g owner. get_artifact ''note'' note_db = Inr (g, owner) \<and> member ''trashed_at'' g = ''2020-01-01'' \<and> member ''ref'' g = ''artifact:a-note'') \<and>
   (\<exists>l. map fst (list_artifacts (\<lambda>_ _. False) (by_id ''note'') note_db) = [l] \<and> member ''ref'' l = ''artifact:mine'')"
  using new_artifact_reports [OF note_ok [unfolded create_sample_def] sample_new, of "\<lambda>_ _. False"]
  unfolding note_facts(3) by (auto simp: note_facts simp del: first_non_empty.simps)

lemma page_facts: "member ''kind'' page_members = ''attachment''" "member ''mime_type'' page_members = ''text/html''"
  "trim (de_hash doc_sample_env ''<p/>'') = de_hash doc_sample_env ''<p/>''" "de_hash doc_sample_env ''<p/>'' \<noteq> []"
  by code_simp+

theorem attachment_type_checks_witness:
  "\<exists>a db' d. page_result = Inr (a, db') \<and> get_artifact_content_http (da_id a) db' = Inr d \<and> dl_body d = ''<p/>'' \<and>
     dl_content_type d = ''text/html'' \<and> \<not> allow_attachment_mime (dl_content_type d)"
  using conjunct2 [OF conjunct2 [OF attachment_type_checks [OF sample_new]]]
    not_isl_pair [OF page_created, unfolded page_result_def create_sample_def] page_facts
  unfolding page_result_def create_sample_def by blast

definition of_threads :: "string list \<Rightarrow> artifact_filter" where
  "of_threads ts = (by_id [])\<lparr>af_ids := [], af_thread_ids := ts\<rparr>"

lemma listing_facts: "artifact_matches (\<lambda>_ _. False) (of_threads [''b'', ''c'']) memo"
  "artifact_thread_filter_ids (of_threads [''b'', ''c'']) = [''b'', ''c'']" "da_thread_id memo = Some ''a''"
  "length (filter (edge_into [''b'', ''c''] memo) (ws_edges note_db)) = 2" "da_id (last (ws_artifacts note_db)) = ''note''"
  by code_simp+

theorem thread_listing_count_witness:
  "length (filter (\<lambda>x. x = memo) (build_list_artifacts_query (\<lambda>_ _. False) (of_threads [''b'', ''c'']) note_db)) = 2"
proof -
  have "memo \<in> set (ws_artifacts note_db)" using create_adds [OF note_ok [unfolded create_sample_def] sample_new] by (simp add: adds_artifact_def)
  then show ?thesis
    using thread_listing_count [OF note_history _ listing_facts(1)] listing_facts(2-4) by (simp add: of_threads_def by_id_def)
qed

end
