(* ===== verification/PublicRefs.thy ===== *)
theory PublicRefs
  imports Documents
begin

text \<open>
  \<open>core/internal/primitives/resource_helpers.go\<close>: the public forms of typed references, in which a resource is named by its
  handle, alone and inside JSON values; and a thread as it is read (\<open>store.go\<close>).
\<close>

section \<open>One reference\<close>

definition make_typed_ref :: "string \<Rightarrow> string \<Rightarrow> string" where
  "make_typed_ref ty i = ty @ '':'' @ i"

definition resolve_public_resource_ref :: "string \<Rightarrow> string \<Rightarrow> ws_db \<Rightarrow> ref_error + string" where
  "resolve_public_resource_ref ty0 i0 db =
     (let ty = trim ty0; i = trim i0
      in if ty = [] \<or> i = [] then Inl InvalidResourceRef
         else if ty = ''document_revision'' \<or> ty = ''card_revision''
           then bind_res (resolve_revision ty i (handle_view db)) (\<lambda>r. Inr (rf_canonical r))
         else if ty \<notin> set resource_types then Inr (make_typed_ref ty i)
         else case find (\<lambda>r. hr_type r = ty \<and> hr_id r = i) (handle_rows (handle_view db)) of
             None \<Rightarrow> Inr (make_typed_ref ty i)
           | Some r \<Rightarrow> let h = trim (null_text (hr_handle r)) in Inr (make_typed_ref ty (if h = [] then i else h)))"

definition make_public_typed_ref :: "string \<Rightarrow> string \<Rightarrow> ws_db \<Rightarrow> string" where
  "make_public_typed_ref ty i db =
     (if trim ty = [] \<or> trim i = [] then []
      else case resolve_public_resource_ref ty i db of Inr c \<Rightarrow> c | Inl _ \<Rightarrow> make_typed_ref (trim ty) (trim i))"

definition public_typed_ref :: "ws_db \<Rightarrow> string \<Rightarrow> string" where
  "public_typed_ref db ref =
     (case normalize_typed_ref ref of None \<Rightarrow> ref | Some (ty, v) \<Rightarrow> make_public_typed_ref ty v db)"

definition public_typed_refs :: "ws_db \<Rightarrow> string list \<Rightarrow> string list" where
  "public_typed_refs db refs = (if refs = [] then [] else unique_sorted_strings (map (public_typed_ref db) refs))"

section \<open>References in JSON values\<close>

datatype json = JText string | JNumber int | JBool bool | JNull | JList "json list" | JObject "(string \<times> json) list"

fun is_text :: "json \<Rightarrow> bool" where
  "is_text (JText s) = True"
| "is_text v = False"

fun text_of :: "json \<Rightarrow> string" where
  "text_of (JText s) = s"
| "text_of v = []"

text \<open>
  A list that is not of texts alone comes out with its other elements first.  The code takes the first public form of each text
  there; for a blank text there is none, and it panics, which is \<open>None\<close> here.
\<close>

definition public_typed_refs_any :: "ws_db \<Rightarrow> json list \<Rightarrow> json list option" where
  "public_typed_refs_any db vs =
     (if list_all is_text vs then Some (map JText (public_typed_refs db (map text_of vs)))
      else let public = map (\<lambda>v. public_typed_refs db [text_of v]) (filter is_text vs)
        in if [] \<in> set public then None else Some (filter (\<lambda>v. \<not> is_text v) vs @ map (JText \<circ> hd) public))"

definition is_public_ref_field_key :: "string \<Rightarrow> bool" where
  "is_public_ref_field_key key0 =
     (let key = trim key0
      in key = ''ref'' \<or> key = ''refs'' \<or> has_suffix key ''_ref'' \<or> has_suffix key ''_refs'')"

text \<open>\<open>publicRefsInField\<close>, \<open>publicRefsInValue\<close> and \<open>publicRefsInRefValue\<close>: the flag says whether the field holds references.\<close>

primrec public_refs_in :: "ws_db \<Rightarrow> json \<Rightarrow> bool \<Rightarrow> json option" where
  "public_refs_in db (JText s) = (\<lambda>refs. Some (JText (if refs then public_typed_ref db s else s)))"
| "public_refs_in db (JNumber n) = (\<lambda>refs. Some (JNumber n))"
| "public_refs_in db (JBool b) = (\<lambda>refs. Some (JBool b))"
| "public_refs_in db JNull = (\<lambda>refs. Some JNull)"
| "public_refs_in db (JList vs) = (\<lambda>refs. map_option JList
     (if refs then public_typed_refs_any db vs else those (map (\<lambda>f. f False) (map (public_refs_in db) vs))))"
| "public_refs_in db (JObject ms) = (\<lambda>refs. map_option JObject
     (those (map (\<lambda>(k, f). map_option (Pair k) (f (is_public_ref_field_key k))) (map (map_prod id (public_refs_in db)) ms))))"

definition public_refs_in_field :: "ws_db \<Rightarrow> string \<Rightarrow> json \<Rightarrow> json option" where
  "public_refs_in_field db key v = public_refs_in db v (is_public_ref_field_key key)"

text \<open>Where the code panics: at a list of references that mixes a blank text with something that is not a text.\<close>

primrec mixed_refs :: "json \<Rightarrow> bool \<Rightarrow> bool" where
  "mixed_refs (JText s) = (\<lambda>refs. False)"
| "mixed_refs (JNumber n) = (\<lambda>refs. False)"
| "mixed_refs (JBool b) = (\<lambda>refs. False)"
| "mixed_refs JNull = (\<lambda>refs. False)"
| "mixed_refs (JList vs) = (\<lambda>refs. if refs then \<not> list_all is_text vs \<and> list_ex (\<lambda>v. is_text v \<and> trim (text_of v) = []) vs
     else list_ex (\<lambda>f. f False) (map mixed_refs vs))"
| "mixed_refs (JObject ms) = (\<lambda>refs. list_ex (\<lambda>(k, f). f (is_public_ref_field_key k)) (map (map_prod id mixed_refs) ms))"

lemma those_None: "those (map f xs) = None \<longleftrightarrow> list_ex (\<lambda>x. f x = None) xs"
  by (induction xs) (auto split: option.splits)

lemma colon_no_ws: "\<not> ws1 (CHR '':'') \<and> \<not> ws2 (CHR '':'') b \<and> \<not> ws2 a (CHR '':'') \<and> \<not> ws3 (CHR '':'') b c \<and> \<not> ws3 a (CHR '':'') c \<and>
    \<not> ws3 a b (CHR '':'')"
  unfolding ws1_def ws2_def ws3_def by simp

lemma colon_left: "CHR '':'' \<in> set s \<Longrightarrow> CHR '':'' \<in> set (trim_left s)"
  by (induction s rule: trim_left.induct) (auto simp: colon_no_ws split: if_splits)

lemma colon_last: "CHR '':'' \<in> set s \<Longrightarrow> CHR '':'' \<in> set (trim_last s)"
  by (induction s rule: trim_last.induct) (auto simp: colon_no_ws split: if_splits)

lemma colon_trim: "CHR '':'' \<in> set s \<Longrightarrow> trim s \<noteq> []"
  using colon_last [of "rev (trim_left s)"] colon_left [of s] by (auto simp: trim_def)

lemma revision_colon: "resolve_revision ty v db = Inr r \<Longrightarrow> CHR '':'' \<in> set (rf_canonical r)"
  by (simp add: resolve_revision_def Let_def split: if_splits option.splits) auto

lemma public_colon: "resolve_public_resource_ref ty i db = Inr c \<Longrightarrow> CHR '':'' \<in> set c"
  by (simp add: resolve_public_resource_ref_def make_typed_ref_def Let_def bind_res_Inr_iff split: if_splits option.splits)
    (auto dest: revision_colon)

lemma public_ref_blank: "trim (public_typed_ref db s) = [] \<longleftrightarrow> trim s = []"
proof (cases "normalize_typed_ref s")
  case None
  then show ?thesis by (simp add: public_typed_ref_def)
next
  case (Some p)
  obtain ty v where p: "p = (ty, v)" by (cases p)
  have parts: "trim s \<noteq> []" "trim ty \<noteq> []" "trim v \<noteq> []"
    using Some p by (auto simp: normalize_typed_ref_def split_typed_ref_def Let_def split: if_splits)
  have "CHR '':'' \<in> set (make_public_typed_ref ty v db)"
    using parts(2,3) public_colon [of ty v db]
    by (cases "resolve_public_resource_ref ty v db") (auto simp: make_public_typed_ref_def make_typed_ref_def)
  then show ?thesis using colon_trim parts(1) Some p by (simp add: public_typed_ref_def)
qed

theorem public_refs_panic_iff: "public_refs_in db v refs = None \<longleftrightarrow> mixed_refs v refs"
proof (induction v arbitrary: refs)
  case (JList vs)
  have "public_typed_refs db [s] = [] \<longleftrightarrow> trim s = []" for s
    by (simp add: public_typed_refs_def unique_sorted_strings_def public_ref_blank Let_def)
  then have "[] = public_typed_refs db [s] \<longleftrightarrow> trim s = []" for s by metis
  then have here: "[] \<in> set (map (\<lambda>v. public_typed_refs db [text_of v]) (filter is_text xs)) \<longleftrightarrow>
      list_ex (\<lambda>v. is_text v \<and> trim (text_of v) = []) xs" for xs
    by (induction xs) simp_all
  have "public_typed_refs_any db vs = None \<longleftrightarrow> mixed_refs (JList vs) True"
    unfolding public_typed_refs_any_def Let_def here by simp
  then show ?case using JList by (cases refs) (auto simp: those_None list_ex_iff)
next
  case (JObject ms)
  have "public_refs_in db (JObject ms) refs = None \<longleftrightarrow> list_ex (\<lambda>p. public_refs_in db (snd p) (is_public_ref_field_key (fst p)) = None) ms"
    by (simp add: those_None list_ex_iff case_prod_unfold)
  also have "\<dots> \<longleftrightarrow> list_ex (\<lambda>p. mixed_refs (snd p) (is_public_ref_field_key (fst p))) ms"
    unfolding list_ex_iff
  proof (rule bex_cong [OF refl])
    fix p assume p: "p \<in> set ms"
    have "snd p \<in> Basic_BNFs.snds p" by (cases p) simp
    with JObject [OF p] show "public_refs_in db (snd p) (is_public_ref_field_key (fst p)) = None \<longleftrightarrow>
        mixed_refs (snd p) (is_public_ref_field_key (fst p))"
      by blast
  qed
  also have "\<dots> \<longleftrightarrow> mixed_refs (JObject ms) refs" by (simp add: list_ex_iff case_prod_unfold)
  finally show ?case .
qed simp_all

section \<open>A thread as it is read\<close>

text \<open>\<open>GetThread\<close> with \<open>ToThreadMapPublic\<close>: the members of the body that its readers look at.\<close>

definition get_thread :: "string \<Rightarrow> ws_db \<Rightarrow> doc_error + thread_body" where
  "get_thread i db =
     (case find_thread i db of
        None \<Rightarrow> Inl DocNotFound
      | Some row \<Rightarrow>
          if th_kind row \<noteq> ''thread'' then Inl DocNotFound
          else let b = to_thread_body (th_body row) in Inr (b\<lparr>tb_subject_ref := public_typed_ref db (tb_subject_ref b)\<rparr>))"

end
