(* ===== verification/WakePacket.thy ===== *)
theory WakePacket
  imports PublicRefs
begin

text \<open>
  \<open>core/internal/router/wake_packet.go\<close>, \<open>models.go\<close> and \<open>util.go\<close>: the packet a woken agent gets, the names of wake requests,
  and the text of a message.  \<open>sha\<close> is SHA-256 in hexadecimal.
\<close>

section \<open>Names\<close>

definition sha256_text :: "(string \<Rightarrow> string) \<Rightarrow> string list \<Rightarrow> string" where
  "sha256_text sha parts = sha (join_with ''|'' parts)"

definition wakeup_artifact_id :: "(string \<Rightarrow> string) \<Rightarrow> string \<Rightarrow> string \<Rightarrow> string \<Rightarrow> string \<Rightarrow> string" where
  "wakeup_artifact_id sha workspaceID threadID messageEventID actorID =
     ''wake_'' @ take 24 (sha256_text sha [workspaceID, threadID, messageEventID, actorID])"

definition newline :: char where "newline = CHR 0x0A"

definition derive_request_scoped_id :: "(string \<Rightarrow> string) \<Rightarrow> string \<Rightarrow> string \<Rightarrow> string \<Rightarrow> string \<Rightarrow> string" where
  "derive_request_scoped_id sha scope actorID requestKey label =
     label @ ''-'' @ take 20 (sha (scope @ [newline] @ actorID @ [newline] @ requestKey @ [newline] @ label))"

section \<open>Messages\<close>

definition extract_message_text :: "event_row \<Rightarrow> string" where
  "extract_message_text e =
     (let texts = filter (\<lambda>t. t \<noteq> []) (map (\<lambda>k. trim (null_text (map_of (ev_payload e) k))) [''text'', ''body'', ''message'', ''content''])
      in if texts \<noteq> [] then hd texts else trim (ev_summary e))"

text \<open>The ellipsis is one character of three bytes; a limit is at least 2 here.\<close>

definition ellipsis :: string where "ellipsis = [CHR 0xE2, CHR 0x80, CHR 0xA6]"

definition compact_text :: "string \<Rightarrow> int \<Rightarrow> string" where
  "compact_text raw limit =
     (let t = join_with '' '' (str_fields (trim raw))
      in if limit \<le> 0 \<or> int (length t) \<le> limit then t
         else if limit = 1 then ellipsis
         else trim (take (nat (limit - 1)) t) @ ellipsis)"

section \<open>The packet\<close>

record wake_packet =
  wp_wakeup_id :: string
  wp_handle :: string
  wp_actor_id :: string
  wp_workspace_id :: string
  wp_workspace_name :: string
  wp_thread_id :: string
  wp_thread_title :: string
  wp_subject_ref :: string
  wp_resolved_subject :: "(string \<times> string) list"
  wp_trigger_event_id :: string
  wp_trigger_created_at :: string
  wp_trigger_author :: string
  wp_trigger_text :: string
  wp_current_summary :: string
  wp_session_key :: string
  wp_base_url :: string
  wp_thread_context_url :: string
  wp_thread_workspace_url :: string
  wp_topic_workspace_url :: string
  wp_trigger_event_url :: string
  wp_cli_thread_inspect :: string
  wp_cli_thread_workspace :: string
  wp_cli_topic_workspace :: string
  wp_version :: string

definition wake_packet_version :: string where "wake_packet_version = ''agent-wake/v1''"
definition wake_artifact_kind :: string where "wake_artifact_kind = ''agent_wake''"

definition wake_artifact_refs :: "string \<Rightarrow> string \<Rightarrow> string \<Rightarrow> string list" where
  "wake_artifact_refs threadID eventID subjectRef =
     [''thread:'' @ threadID] @ (if trim subjectRef \<noteq> [] then [trim subjectRef] else []) @ [''event:'' @ eventID]"

definition resolved_subject_from_thread :: "thread_body \<Rightarrow> string \<Rightarrow> string \<times> (string \<times> string) list" where
  "resolved_subject_from_thread th threadID =
     (let subject = trim (tb_subject_ref th)
      in if subject = [] then ([], [])
         else (subject, [(''ref'', subject), (''subject_ref'', subject), (''kind'', takeWhile (\<lambda>c. c \<noteq> CHR '':'') subject),
           (''title'', first_non_empty [tb_title th, threadID]), (''thread_id'', threadID)]))"

definition effective_subject_ref :: "wake_packet \<Rightarrow> string" where
  "effective_subject_ref p =
     (let named = first_non_empty [wp_subject_ref p, null_text (map_of (wp_resolved_subject p) ''ref''),
            null_text (map_of (wp_resolved_subject p) ''subject_ref'')]
      in if named \<noteq> [] then named
         else if trim (wp_thread_id p) \<noteq> [] then ''thread:'' @ wp_thread_id p else [])"

definition subject_context_refs :: "wake_packet \<Rightarrow> string list" where
  "subject_context_refs p =
     (let refs = (if trim (wp_thread_id p) \<noteq> [] then [''thread:'' @ trim (wp_thread_id p)] else []);
          subject = effective_subject_ref p
      in if subject = [] \<or> subject \<in> set refs then refs else refs @ [subject])"

definition texts :: "(string \<times> string) list \<Rightarrow> json" where
  "texts ms = JObject (map (\<lambda>(k, v). (k, JText v)) ms)"

definition to_content :: "wake_packet \<Rightarrow> json" where
  "to_content p =
     (let topic = (trim (wp_cli_topic_workspace p) \<noteq> []);
          cli = (if topic then [wp_cli_topic_workspace p] else []) @ [wp_cli_thread_workspace p, wp_cli_thread_inspect p];
          api = [(''thread'', trim_right_char (CHR ''/'') (wp_base_url p) @ ''/threads/'' @ wp_thread_id p),
                 (''context'', wp_thread_context_url p), (''workspace'', wp_thread_workspace_url p),
                 (''trigger_event'', wp_trigger_event_url p)] @
                (if trim (wp_topic_workspace_url p) \<noteq> [] then [(''topic_workspace'', trim (wp_topic_workspace_url p))] else [])
      in JObject ([
           (''version'', JText (if wp_version p = [] then wake_packet_version else wp_version p)),
           (''wakeup_id'', JText (wp_wakeup_id p)),
           (''target'', texts [(''handle'', wp_handle p), (''actor_id'', wp_actor_id p)]),
           (''workspace'', texts [(''id'', wp_workspace_id p), (''name'', wp_workspace_name p)]),
           (''thread'', texts [(''id'', wp_thread_id p), (''title'', wp_thread_title p)]),
           (''trigger'', texts [(''kind'', ''mention''), (''message_event_id'', wp_trigger_event_id p),
              (''created_at'', wp_trigger_created_at p), (''author_actor_id'', wp_trigger_author p), (''text'', wp_trigger_text p)]),
           (''context_inline'', texts [(''current_summary'', wp_current_summary p)]),
           (''session_key'', JText (wp_session_key p)),
           (''context_fetch'', JObject [(''preferred'', JText (if topic then ''topics.workspace'' else ''threads.workspace'')),
              (''cli'', JList (map JText cli)), (''api'', texts api)])] @
         (if trim (wp_subject_ref p) \<noteq> [] then [(''subject_ref'', JText (trim (wp_subject_ref p)))] else []) @
         (if wp_resolved_subject p \<noteq> [] then [(''resolved_subject'', texts (wp_resolved_subject p))] else []) @
         [(''reply_refs'', JList (map JText
            (subject_context_refs p @ [''event:'' @ wp_trigger_event_id p, ''artifact:'' @ wp_wakeup_id p])))]))"

section \<open>What a request always has\<close>

text \<open>Whatever the thread, an answer to a packet can refer to the thread, the message and the packet itself.\<close>

lemma reply_refs:
  assumes "trim (wp_thread_id p) = wp_thread_id p" "wp_thread_id p \<noteq> []"
  shows "\<exists>ms refs. to_content p = JObject ms \<and> map_of ms ''reply_refs'' = Some (JList (map JText refs)) \<and>
    {''thread:'' @ wp_thread_id p, ''event:'' @ wp_trigger_event_id p, ''artifact:'' @ wp_wakeup_id p} \<subseteq> set refs"
proof -
  let ?refs = "subject_context_refs p @ [''event:'' @ wp_trigger_event_id p, ''artifact:'' @ wp_wakeup_id p]"
  obtain ms where "to_content p = JObject ms" "map_of ms ''reply_refs'' = Some (JList (map JText ?refs))"
    unfolding to_content_def Let_def by (simp add: map_add_def)
  moreover have "''thread:'' @ wp_thread_id p \<in> set (subject_context_refs p)"
    using assms by (simp add: subject_context_refs_def Let_def)
  ultimately show ?thesis by (intro exI [of _ ms] exI [of _ ?refs]) simp
qed

end
