(* ===== verification/Mentions.thy ===== *)
theory Mentions
  imports AuthTables
begin

text \<open>
  \<open>core/internal/router/mentions.go\<close>: the mentions of agents in a message.  The regular expression
  \<open>(?i)(^|[^A-Za-z0-9._-])@([a-z0-9][a-z0-9._-]{0,63})\b\<close> is written out as the search Go does: at the first position where
  it matches, with the longest handle after which there is a word boundary.  The two letters outside ASCII that fold to a
  letter of \<open>a-z\<close> (the long s and the Kelvin sign) are taken for other characters.
\<close>

section \<open>The search\<close>

definition letter_or_digit :: "char \<Rightarrow> bool" where
  "letter_or_digit c \<longleftrightarrow>
     (CHR ''a'' \<le> c \<and> c \<le> CHR ''z'') \<or> (CHR ''A'' \<le> c \<and> c \<le> CHR ''Z'') \<or> (CHR ''0'' \<le> c \<and> c \<le> CHR ''9'')"

definition handle_char :: "char \<Rightarrow> bool" where
  "handle_char c \<longleftrightarrow> letter_or_digit c \<or> c = CHR ''.'' \<or> c = CHR ''_'' \<or> c = CHR ''-''"

definition word_char :: "char \<Rightarrow> bool" where
  "word_char c \<longleftrightarrow> letter_or_digit c \<or> c = CHR ''_''"

definition word_boundary :: "char \<Rightarrow> string \<Rightarrow> bool" where
  "word_boundary a rest \<longleftrightarrow> word_char a \<noteq> (rest \<noteq> [] \<and> word_char (hd rest))"

definition longest_mention :: nat where "longest_mention = 64"

text \<open>What follows the sign: the handle and the rest of the text.\<close>

definition mention_at :: "string \<Rightarrow> (string \<times> string) option" where
  "mention_at s =
     (if s = [] \<or> \<not> letter_or_digit (hd s) then None
      else let run = length (takeWhile handle_char (take longest_mention s))
           in map_option (\<lambda>n. (take n s, drop n s))
                (find (\<lambda>n. word_boundary (s ! (n - 1)) (drop n s)) (rev [1..<Suc run])))"

lemma find_rev_bound: "find P (rev [1..<Suc k]) = Some n \<Longrightarrow> 1 \<le> n \<and> n \<le> k \<and> P n"
proof -
  assume "find P (rev [1..<Suc k]) = Some n"
  then obtain i where "i < length (rev [1..<Suc k])" "n = rev [1..<Suc k] ! i" "P n" by (auto simp: find_Some_iff)
  then have "n \<in> set (rev [1..<Suc k])" "P n" using nth_mem by blast+
  then show ?thesis by auto
qed

lemma mention_at_shape:
  assumes "mention_at s = Some (h, rest)"
  shows "s = h @ rest" "h \<noteq> []" "letter_or_digit (hd h)" "list_all handle_char h" "length h \<le> longest_mention"
    "word_boundary (last h) rest"
proof -
  let ?run = "takeWhile handle_char (take longest_mention s)"
  obtain n where s: "s \<noteq> []" "letter_or_digit (hd s)" and h: "h = take n s" "rest = drop n s"
    and n: "find (\<lambda>n. word_boundary (s ! (n - 1)) (drop n s)) (rev [1..<Suc (length ?run)]) = Some n"
    using assms by (auto simp: mention_at_def Let_def split: if_splits)
  from find_rev_bound [OF n] have b: "1 \<le> n" "n \<le> length ?run" "word_boundary (s ! (n - 1)) (drop n s)" by auto
  have "length ?run \<le> length (take longest_mention s)" by (rule length_takeWhile_le)
  then have run: "length ?run \<le> longest_mention" "length ?run \<le> length s" by auto
  have "take n ?run = take n (take longest_mention s)"
    using b(2) by (metis takeWhile_eq_take take_take min.absorb1)
  then have "take n ?run = h" using b(2) run h(1) by (simp add: min.absorb1)
  moreover have "list_all handle_char (take n ?run)"
    by (metis (mono_tags, lifting) list_all_iff in_set_takeD set_takeWhileD)
  ultimately show "list_all handle_char h" by simp
  show "s = h @ rest" by (simp add: h)
  show "h \<noteq> []" "letter_or_digit (hd h)" using s b(1) h(1) by auto
  show "length h \<le> longest_mention" using b(2) run h(1) by simp
  have "last h = s ! (n - 1)" using b(1,2) run(2) h(1) s(1) by (cases "n = length s") (simp_all add: last_conv_nth)
  then show "word_boundary (last h) rest" using b(3) h(2) by simp
qed

definition mention_here :: "bool \<Rightarrow> string \<Rightarrow> (string \<times> string) option" where
  "mention_here start msg =
     (case (case msg of a # s \<Rightarrow> if start \<and> a = CHR ''@'' then mention_at s else None | [] \<Rightarrow> None) of
        Some m \<Rightarrow> Some m
      | None \<Rightarrow> (case msg of
            c # a # s \<Rightarrow> if \<not> handle_char c \<and> a = CHR ''@'' then mention_at s else None
          | _ \<Rightarrow> None))"

text \<open>A place of a msg where a mention can start.\<close>

definition after_delimiter :: "bool \<Rightarrow> string \<Rightarrow> bool" where
  "after_delimiter start pre \<longleftrightarrow> (if pre = [] then start else \<not> handle_char (last pre))"

lemma at_sign: "\<not> handle_char (CHR ''@'')" "\<not> letter_or_digit (CHR ''@'')"
  by code_simp+

lemma mention_here_shape:
  "mention_here start msg = Some (h, rest) \<Longrightarrow>
   \<exists>d s. msg = d @ CHR ''@'' # s \<and> length d \<le> 1 \<and> after_delimiter start d \<and> mention_at s = Some (h, rest)"
proof -
  assume "mention_here start msg = Some (h, rest)"
  then consider (first) s where "msg = CHR ''@'' # s" start "mention_at s = Some (h, rest)"
    | (second) c s where "msg = c # CHR ''@'' # s" "\<not> handle_char c" "mention_at s = Some (h, rest)"
    unfolding mention_here_def by (fastforce split: list.splits if_splits option.splits)
  then show ?thesis
  proof cases
    case first
    then show ?thesis by (intro exI [of _ "[]"] exI [of _ s]) (simp add: after_delimiter_def)
  next
    case second
    then show ?thesis by (intro exI [of _ "[c]"] exI [of _ s]) (simp add: after_delimiter_def)
  qed
qed

lemma mention_shorter: "mention_here start msg = Some (h, rest) \<Longrightarrow> length rest < length msg"
  using mention_here_shape [of start msg h rest] mention_at_shape(1) by fastforce

function find_mentions :: "bool \<Rightarrow> string \<Rightarrow> string list" where
  "find_mentions start msg =
     (if msg = [] then []
      else case mention_here start msg of
             Some (h, rest) \<Rightarrow> h # find_mentions False rest
           | None \<Rightarrow> find_mentions False (tl msg))"
  by pat_completeness auto

termination find_mentions
  by (relation "measure (\<lambda>(start, msg). length msg)") (auto dest: mention_shorter)

declare find_mentions.simps [simp del]

lemma find_mentions_Nil [simp]: "find_mentions start [] = []"
  by (simp add: find_mentions.simps)

definition extract_mentions :: "string \<Rightarrow> string list" where
  "extract_mentions msg = unique_from {} (map to_lower (find_mentions True msg))"

section \<open>What is mentioned\<close>

lemma mention_sound:
  "h \<in> set (find_mentions start msg) \<Longrightarrow>
   \<exists>pre s rest. msg = pre @ CHR ''@'' # s \<and> after_delimiter start pre \<and> mention_at s = Some (h, rest)"
proof (induction start msg rule: find_mentions.induct)
  case (1 start msg)
  then have some: "msg \<noteq> []" by auto
  show ?case
  proof (cases "mention_here start msg")
    case None
    then have "h \<in> set (find_mentions False (tl msg))" using 1(3) some by (simp add: find_mentions.simps [of start])
    then obtain pre s rest where p: "tl msg = pre @ CHR ''@'' # s" "after_delimiter False pre" "mention_at s = Some (h, rest)"
      using 1(1) some None by blast
    have "pre \<noteq> []" using p(2) by (auto simp: after_delimiter_def)
    moreover have "msg = (hd msg # pre) @ CHR ''@'' # s" using some p(1) by (cases msg) auto
    ultimately have "pre \<noteq> []" "msg = (hd msg # pre) @ CHR ''@'' # s" by simp_all
    with p show ?thesis by (intro exI [of _ "hd msg # pre"] exI [of _ s] exI [of _ rest]) (auto simp: after_delimiter_def)
  next
    case (Some m)
    obtain h1 rest1 where m: "m = (h1, rest1)" by (cases m)
    obtain d s1 where d: "msg = d @ CHR ''@'' # s1" "after_delimiter start d" "mention_at s1 = Some (h1, rest1)"
      using mention_here_shape Some m by blast
    show ?thesis
    proof (cases "h = h1")
      case False
      then have "h \<in> set (find_mentions False rest1)" using 1(3) some Some m by (simp add: find_mentions.simps [of start])
      then obtain pre s rest where p: "rest1 = pre @ CHR ''@'' # s" "after_delimiter False pre" "mention_at s = Some (h, rest)"
        using 1(2) some Some m by blast
      then have "pre \<noteq> []" by (auto simp: after_delimiter_def)
      then show ?thesis using p d(1) mention_at_shape(1) [OF d(3)]
        by (intro exI [of _ "d @ CHR ''@'' # h1 @ pre"] exI [of _ s] exI [of _ rest]) (auto simp: after_delimiter_def)
    qed (use d in blast)
  qed
qed

text \<open>Two places where a mention starts are the same, or the later one is after the end of the first mention.\<close>

lemma mentions_apart:
  assumes "msg = pre @ CHR ''@'' # s" "after_delimiter start pre" "mention_at s = Some (h, rest)"
    and "msg = d @ CHR ''@'' # s1" "length d \<le> 1" "s1 = h1 @ rest1" "h1 \<noteq> []" "letter_or_digit (hd h1)" "list_all handle_char h1"
  shows "s = s1 \<or> (\<exists>pre'. rest1 = pre' @ CHR ''@'' # s \<and> after_delimiter False pre')"
proof -
  have "pre @ CHR ''@'' # s = d @ CHR ''@'' # s1" using assms(1,4) by simp
  then obtain us where "(pre = d @ us \<and> us @ CHR ''@'' # s = CHR ''@'' # s1) \<or> (pre @ us = d \<and> CHR ''@'' # s = us @ CHR ''@'' # s1)"
    by (auto simp: append_eq_append_conv2)
  then consider (same) "s = s1" | (inside) vs where "pre = d @ CHR ''@'' # vs" "vs @ CHR ''@'' # s = h1 @ rest1"
    | (before) u us' where "pre @ u # us' = d" "CHR ''@'' # s = (u # us') @ CHR ''@'' # s1"
    using assms(6) by (cases us) auto
  then show ?thesis
  proof cases
    case inside
    have sep: "\<not> handle_char (last pre)" "pre \<noteq> []" using assms(2) inside(1) by (auto simp: after_delimiter_def)
    obtain ws where "(vs = h1 @ ws \<and> ws @ CHR ''@'' # s = rest1) \<or> (vs @ ws = h1 \<and> CHR ''@'' # s = ws @ rest1)"
      using inside(2) by (auto simp: append_eq_append_conv2)
    then show ?thesis
    proof
      assume ws: "vs = h1 @ ws \<and> ws @ CHR ''@'' # s = rest1"
      have "ws \<noteq> []"
      proof
        assume "ws = []"
        then have "last pre = last h1" using ws inside(1) assms(7) by simp
        then show False using sep(1) assms(7,9) by (metis last_in_set list_all_iff)
      qed
      then have "after_delimiter False ws" using sep(1) inside(1) ws by (simp add: after_delimiter_def)
      with ws show ?thesis by blast
    next
      assume ws: "vs @ ws = h1 \<and> CHR ''@'' # s = ws @ rest1"
      then have "vs \<noteq> [] \<or> ws \<noteq> []" using assms(7) by auto
      moreover have "ws = []" using ws assms(9) at_sign(1) by (cases ws) auto
      ultimately have "last pre = last h1" "h1 = vs" using ws inside(1) by auto
      then show ?thesis using sep(1) assms(7,9) by (metis last_in_set list_all_iff)
    qed
  next
    case before
    then have "us' = []" using assms(5) by auto
    then have "hd s = CHR ''@''" using before(2) by auto
    then have "mention_at s = None" using at_sign(2) by (simp add: mention_at_def)
    with assms(3) show ?thesis by simp
  qed simp
qed

lemma mention_complete:
  "msg = pre @ CHR ''@'' # s \<Longrightarrow> after_delimiter start pre \<Longrightarrow> mention_at s = Some (h, rest) \<Longrightarrow> h \<in> set (find_mentions start msg)"
proof (induction start msg arbitrary: pre rule: find_mentions.induct)
  case (1 start msg)
  then have some: "msg \<noteq> []" by auto
  show ?case
  proof (cases "mention_here start msg")
    case None
    have "pre \<noteq> [] \<and> length pre \<noteq> 1"
    proof (intro conjI notI)
      assume "pre = []"
      then show False using 1(3-5) None by (auto simp: mention_here_def after_delimiter_def split: option.splits)
    next
      assume "length pre = 1"
      then obtain c where "pre = [c]" by (auto simp: length_Suc_conv)
      then show False using 1(3-5) None by (auto simp: mention_here_def after_delimiter_def split: option.splits if_splits)
    qed
    then obtain c pre' where "pre = c # pre'" "pre' \<noteq> []" by (cases pre) auto
    then have "h \<in> set (find_mentions False (tl msg))"
      using 1(1) [OF some None, of pre'] 1(3-5) by (simp add: after_delimiter_def)
    then show ?thesis using some None by (simp add: find_mentions.simps [of start])
  next
    case (Some m)
    obtain h1 rest1 where m: "m = (h1, rest1)" by (cases m)
    obtain d s1 where d: "msg = d @ CHR ''@'' # s1" "length d \<le> 1" "after_delimiter start d" "mention_at s1 = Some (h1, rest1)"
      using mention_here_shape Some m by blast
    note shape = mention_at_shape [OF d(4)]
    from mentions_apart [OF 1(3-5) d(1,2) shape(1-4)] show ?thesis
    proof
      assume "s = s1"
      then show ?thesis using d(4) 1(5) some Some m by (simp add: find_mentions.simps [of start])
    next
      assume "\<exists>pre'. rest1 = pre' @ CHR ''@'' # s \<and> after_delimiter False pre'"
      then have "h \<in> set (find_mentions False rest1)" using 1(2) [OF some Some m [symmetric]] 1(5) by blast
      then show ?thesis using some Some m by (simp add: find_mentions.simps [of start])
    qed
  qed
qed

lemma handle_char_lower: "handle_char c \<Longrightarrow> c \<noteq> CHR 0xE2 \<and> c \<noteq> CHR 0xC4 \<and> \<not> ws1 c \<and> \<not> ws2 c a \<and> \<not> ws3 c a b \<and>
    \<not> ws2 a c \<and> \<not> ws3 a b c"
  unfolding handle_char_def letter_or_digit_def ws1_def ws2_def ws3_def less_eq_char_def by auto

lemma lower_handle: "list_all handle_char h \<Longrightarrow> to_lower h = map lower_char h"
  by (induction h rule: to_lower.induct) (auto dest: handle_char_lower)

lemma lower_letter: "letter_or_digit c \<Longrightarrow> letter_or_digit (lower_char c) \<and> username_char (lower_char c)"
  "handle_char c \<Longrightarrow> username_char (lower_char c)"
  unfolding handle_char_def letter_or_digit_def lower_char_def less_eq_char_def username_char_def by auto

lemma user_char: "username_char c \<Longrightarrow> handle_char c \<and> lower_char c = c \<and> c \<noteq> CHR ''@''"
  unfolding handle_char_def letter_or_digit_def lower_char_def less_eq_char_def username_char_def by auto

lemma user_trim: "list_all username_char u \<Longrightarrow> trim u = u"
  by (rule plain_trim) (auto simp: list_all_iff username_char_def plain_char_def less_eq_char_def)

lemma mentioned_iff:
  assumes "u \<noteq> []" "list_all username_char u"
  shows "u \<in> set (extract_mentions msg) \<longleftrightarrow> (\<exists>h\<in>set (find_mentions True msg). to_lower h = u)"
proof -
  have "trim (to_lower h) = to_lower h" if m: "h \<in> set (find_mentions True msg)" for h
  proof -
    obtain pre s rest where "mention_at s = Some (h, rest)" using mention_sound [OF m] by blast
    then have h: "list_all handle_char h" using mention_at_shape(4) by blast
    then have "list_all username_char (to_lower h)" by (auto simp: lower_handle list_all_iff lower_letter(2))
    then show ?thesis by (rule user_trim)
  qed
  then show ?thesis using assms(1) by (force simp: extract_mentions_def set_unique_from)
qed

lemma mention_of_user:
  assumes "list_all username_char u" "length u \<le> longest_mention" "letter_or_digit (hd u)" "word_char (last u)" "u \<noteq> []"
    and "post = [] \<or> \<not> handle_char (hd post)"
  shows "mention_at (u @ post) = Some (u, post)"
proof -
  have u: "list_all handle_char u" using assms(1) user_char by (auto simp: list_all_iff)
  have "takeWhile handle_char (take longest_mention (u @ post)) = u @ takeWhile handle_char (take (longest_mention - length u) post)"
    using u assms(2) by (simp add: takeWhile_append2 list_all_iff)
  also have "takeWhile handle_char (take (longest_mention - length u) post) = []"
    using assms(6) by (cases post; cases "longest_mention - length u") auto
  finally have run: "length (takeWhile handle_char (take longest_mention (u @ post))) = length u" by simp
  have "word_char c \<Longrightarrow> handle_char c" for c by (auto simp: word_char_def handle_char_def)
  then have "word_boundary (last u) post" using assms(4,6) by (auto simp: word_boundary_def)
  moreover have "(u @ post) ! (length u - 1) = last u" using assms(5) by (simp add: nth_append last_conv_nth)
  ultimately show ?thesis
    using assms(3,5) unfolding mention_at_def Let_def run by (cases u) simp_all
qed

text \<open>
  Which user names can be mentioned.  A valid name that begins with a letter or a digit and ends with one or with an underscore
  is found wherever it stands between delimiters.  A name that begins with a dot, a dash or an underscore cannot be mentioned in
  any message, and one that ends with a dot or a dash is not found at the end of a message.
\<close>

theorem usernames_mentioned:
  assumes "normalize_username raw = Inr u"
  shows "(letter_or_digit (hd u) \<longrightarrow> word_char (last u) \<longrightarrow>
      (\<forall>pre post. (pre = [] \<or> \<not> handle_char (last pre)) \<longrightarrow> (post = [] \<or> \<not> handle_char (hd post)) \<longrightarrow>
         u \<in> set (extract_mentions (pre @ ''@'' @ u @ post)))) \<and>
    (\<not> letter_or_digit (hd u) \<longrightarrow> (\<forall>msg. u \<notin> set (extract_mentions msg))) \<and>
    (\<not> word_char (last u) \<longrightarrow> (\<forall>pre. CHR ''@'' \<notin> set pre \<longrightarrow> u \<notin> set (extract_mentions (pre @ ''@'' @ u))))"
proof -
  have u: "3 \<le> length u" "length u \<le> longest_mention" "list_all username_char u"
    using normalize_username_ok [OF assms] by (auto simp: longest_mention_def)
  then have some: "u \<noteq> []" by auto
  note mentioned = mentioned_iff [OF some u(3)]
  have lower: "to_lower u = u"
    using u(3) user_char by (subst lower_handle) (auto simp: list_all_iff intro!: map_idI)
  show ?thesis
  proof (intro conjI impI allI)
    fix pre post
    assume "letter_or_digit (hd u)" "word_char (last u)" "pre = [] \<or> \<not> handle_char (last pre)" "post = [] \<or> \<not> handle_char (hd post)"
    then have "u \<in> set (find_mentions True (pre @ ''@'' @ u @ post))"
      using mention_of_user [OF u(3,2) _ _ some, of post]
      by (intro mention_complete [where pre = pre and s = "u @ post" and rest = post]) (auto simp: after_delimiter_def)
    then show "u \<in> set (extract_mentions (pre @ ''@'' @ u @ post))" using mentioned lower by blast
  next
    fix msg assume no: "\<not> letter_or_digit (hd u)"
    have False if h: "h \<in> set (find_mentions True msg)" "to_lower h = u" for h
    proof -
      obtain pre s rest where "mention_at s = Some (h, rest)" using mention_sound [OF h(1)] by blast
      note shape = mention_at_shape [OF this]
      have "u = map lower_char h" using h(2) shape(4) by (simp add: lower_handle)
      then show False using no shape(2,3) lower_letter(1) by (cases h) auto
    qed
    then show "u \<notin> set (extract_mentions msg)" using mentioned by blast
  next
    fix pre assume no: "\<not> word_char (last u)" and pre: "CHR ''@'' \<notin> set pre"
    have False if h: "h \<in> set (find_mentions True (pre @ ''@'' @ u))" "to_lower h = u" for h
    proof -
      obtain pre' s rest where m: "pre @ ''@'' @ u = pre' @ CHR ''@'' # s" "mention_at s = Some (h, rest)"
        using mention_sound [OF h(1)] by blast
      note shape = mention_at_shape [OF m(2)]
      have "CHR ''@'' \<notin> set u" using u(3) user_char by (auto simp: list_all_iff)
      then have "s = u" using m(1) pre by (auto simp: append_eq_append_conv2 append_eq_Cons_conv Cons_eq_append_conv)
      moreover have "length h = length u" using h(2) shape(4) by (auto simp: lower_handle)
      ultimately have "rest = []" "h = u" using shape(1) by auto
      then show False using shape(6) no by (simp add: word_boundary_def)
    qed
    then show "u \<notin> set (extract_mentions (pre @ ''@'' @ u))" using mentioned by blast
  qed
qed

end
