(* ===== verification/WakeRouting.thy ===== *)
theory WakeRouting
  imports AuthSafety Wakeups Mentions
begin

text \<open>
  Who can be woken: the listing of principals (\<open>core/internal/auth/audit.go\<close>), what it says about an agent
  (\<open>auth/wake_routing.go\<close>), what the router asks of one (\<open>router/router.go\<close>), and the check-in of a bridge
  (\<open>server/auth_handlers.go\<close>).
\<close>

section \<open>The listing of principals\<close>

text \<open>
  The cursor is the offset it stands for, and the listing answers with the next one.  A limit is not negative.
\<close>

definition newest_agents :: "auth_db \<Rightarrow> agent_row list" where
  "newest_agents db = rev (sort_key (\<lambda>a. (ag_created_at a, ag_id a)) (agents db))"

definition list_principals :: "nat option \<Rightarrow> nat \<Rightarrow> auth_db \<Rightarrow> agent_view list \<times> nat" where
  "list_principals limit offset db =
     (let rows = map (agent_view_of db) (newest_agents db)
      in case limit of
           None \<Rightarrow> (rows, 0)
         | Some n \<Rightarrow>
             let page = (if n > 0 then take (n + 1) (drop offset rows) else rows)
             in if length page > n then (take n page, offset + n) else (page, 0))"

section \<open>What the inventory says\<close>

record wake_routing =
  wr_applicable :: bool
  wr_handle :: string
  wr_taggable :: bool
  wr_online :: bool
  wr_state :: string

definition parse_wake_routing_timestamp :: "(string \<Rightarrow> int option) \<Rightarrow> string \<Rightarrow> int option" where
  "parse_wake_routing_timestamp parse v = (if trim v = [] then None else parse (trim v))"

text \<open>The summary, a sentence for people, is left out: it goes with the state.  \<open>parse\<close> is \<open>time.Parse\<close>.\<close>

definition describe_wake_routing :: "(string \<Rightarrow> int option) \<Rightarrow> agent_view \<Rightarrow> string \<Rightarrow> int \<Rightarrow> wake_routing" where
  "describe_wake_routing parse p workspaceID now =
     (let handle = trim (av_username p); target = trim workspaceID;
          say = (\<lambda>taggable online state. \<lparr>wr_applicable = True, wr_handle = handle, wr_taggable = taggable,
                   wr_online = online, wr_state = state\<rparr>)
      in if trim (av_principal_kind p) \<noteq> kind_agent
           then \<lparr>wr_applicable = False, wr_handle = handle, wr_taggable = False, wr_online = False, wr_state = []\<rparr>
         else if av_revoked_at p \<noteq> None then say False False ''revoked''
         else if handle = [] then say False False ''unknown''
         else case av_registration p of
           None \<Rightarrow> say False False ''unregistered''
         | Some r \<Rightarrow>
             if trim (rg_handle r) \<noteq> [] \<and> trim (rg_handle r) \<noteq> handle then say False False ''unknown''
             else if trim (rg_actor_id r) = [] \<or> trim (rg_actor_id r) \<noteq> trim (av_actor_id p) then say False False ''unknown''
             else if trim (rg_status r) = ''disabled'' then say False False ''disabled''
             else if (if target = [] then \<not> list_ex (\<lambda>(w, enabled). trim w \<noteq> [] \<and> enabled) (rg_bindings r)
                      else \<not> supports_workspace r target) then say False False ''unregistered''
             else case (parse_wake_routing_timestamp parse (rg_checked_in_at r), parse_wake_routing_timestamp parse (rg_expires_at r)) of
                 (Some checkedIn, Some expires) \<Rightarrow>
                   if trim (rg_bridge_instance_id r) = [] then say True False ''offline''
                   else if expires < now then say True False ''offline''
                   else if checkedIn > expires then say True False ''unknown''
                   else if target \<noteq> [] \<and> rg_bridge_workspace_ids r \<noteq> [] \<and> target \<notin> trim ` set (rg_bridge_workspace_ids r)
                     then say True False ''offline''
                   else say True True ''online''
               | _ \<Rightarrow> say True False ''offline'')"

section \<open>What the router asks\<close>

definition routing_registration_failure :: "agent_view \<Rightarrow> string \<Rightarrow> string + agent_registration" where
  "routing_registration_failure p workspaceID =
     (case av_registration p of
        None \<Rightarrow> Inl ''missing_agent_registration''
      | Some r \<Rightarrow>
          if trim (rg_actor_id r) \<noteq> trim (av_actor_id p) then Inl ''registration_actor_mismatch''
          else if \<not> supports_workspace r workspaceID then Inl ''agent_not_bound_to_workspace''
          else if equal_fold (trim (rg_status r)) ''disabled'' then Inl ''agent_notifications_disabled''
          else Inr r)"

section \<open>The check-in of a bridge\<close>

datatype checkin_error = CheckinInvalid | CheckinForbidden | CheckinUnregistered | CheckinUnsigned | CheckinFailed

definition checked_in :: "bridge_checkin \<Rightarrow> agent_registration \<Rightarrow> agent_registration" where
  "checked_in c r = r\<lparr>rg_status := ''active'', rg_bridge_instance_id := bc_bridge_instance_id c,
     rg_checked_in_at := bc_checked_in_at c, rg_expires_at := bc_expires_at c,
     rg_bridge_workspace_ids := (if bc_workspace_id c \<noteq> [] then [bc_workspace_id c] else []) @ bc_workspace_ids c,
     rg_proof := bc_proof c\<rparr>"

definition trim_checkin :: "bridge_checkin \<Rightarrow> bridge_checkin" where
  "trim_checkin c = c\<lparr>bc_handle := trim (bc_handle c), bc_actor_id := trim (bc_actor_id c), bc_workspace_id := trim (bc_workspace_id c),
     bc_bridge_instance_id := trim (bc_bridge_instance_id c), bc_checked_in_at := trim (bc_checked_in_at c),
     bc_expires_at := trim (bc_expires_at c), bc_proof := trim (bc_proof c)\<rparr>"

text \<open>
  \<open>handleBridgeCheckIn\<close> for the principal \<open>p\<close>.  The registration is read from \<open>db0\<close> and written to \<open>db\<close>; \<open>verify\<close> checks the
  signature with the registered key.
\<close>

definition handle_bridge_check_in ::
  "(string \<Rightarrow> bridge_checkin \<Rightarrow> bool) \<Rightarrow> principal \<Rightarrow> bridge_checkin \<Rightarrow> string \<Rightarrow> int \<Rightarrow> auth_db \<Rightarrow> auth_db \<Rightarrow>
     checkin_error + agent_registration \<times> auth_db" where
  "handle_bridge_check_in verify p c0 nowText now db0 db =
     (let c = trim_checkin c0
      in if trim (pr_kind p) \<noteq> kind_agent then Inl CheckinForbidden
         else if bc_handle c = [] \<or> bc_actor_id c = [] \<or> bc_bridge_instance_id c = [] \<or> bc_checked_in_at c = [] \<or>
            bc_expires_at c = [] \<or> bc_proof c = [] then Inl CheckinInvalid
         else if bc_handle c \<noteq> pr_username p \<or> bc_actor_id c \<noteq> pr_actor_id p then Inl CheckinForbidden
         else case get_principal_summary (pr_agent_id p) db0 of
           Inl _ \<Rightarrow> Inl CheckinFailed
         | Inr a \<Rightarrow> (case av_registration a of
               None \<Rightarrow> Inl CheckinUnregistered
             | Some r \<Rightarrow>
                 if \<not> verify (rg_bridge_key r) c then Inl CheckinUnsigned
                 else (case update_registration (pr_agent_id p) (checked_in c r) nowText now db of
                     Inl _ \<Rightarrow> Inl CheckinFailed
                   | Inr x \<Rightarrow> Inr x)))"

section \<open>Where inventory and router agree\<close>

text \<open>
  The inventory calls an agent taggable, and the router accepts it, under the same conditions up to two: the inventory wants
  the registered handle to be the user name, and the router takes a registration for disabled in any spelling of the word.
\<close>

theorem taggable_and_routed:
  assumes "trim (av_principal_kind p) = kind_agent" "av_revoked_at p = None" "trim (av_username p) \<noteq> []" "trim (av_actor_id p) \<noteq> []"
    and "trim ws \<noteq> []" "av_registration p = Some r"
  shows "(wr_taggable (describe_wake_routing parse p ws now) \<longleftrightarrow>
        trim (rg_actor_id r) = trim (av_actor_id p) \<and> supports_workspace r ws \<and> trim (rg_status r) \<noteq> ''disabled'' \<and>
        (trim (rg_handle r) = [] \<or> trim (rg_handle r) = trim (av_username p))) \<and>
    (routing_registration_failure p ws = Inr r \<longleftrightarrow>
        trim (rg_actor_id r) = trim (av_actor_id p) \<and> supports_workspace r ws \<and>
        \<not> equal_fold (trim (rg_status r)) ''disabled'')"
proof -
  have ws: "supports_workspace r (trim ws) = supports_workspace r ws" by (simp add: supports_workspace_def)
  show ?thesis using assms
    by (auto simp: describe_wake_routing_def routing_registration_failure_def Let_def ws simp del: fold_case.simps
        split: option.split)
qed

lemma update_registration_Inr:
  assumes "update_registration i reg nt now db = Inr (r, db')"
  obtains a where "find_agent (trim i) db = Some a" "rg_handle r = trim (ag_username a)" "rg_actor_id r = trim (ag_actor_id a)"
    "normalize_agent_registration r = r"
    "db' = update_agents (\<lambda>b. ag_id b = trim i) (\<lambda>b. b\<lparr>ag_registration := Some r, ag_updated_at := Stamp now\<rparr>) db"
proof -
  obtain a where a: "find_agent (trim i) db = Some a"
    using assms by (auto simp: update_registration_def Let_def split: if_splits option.splits)
  define n where "n = normalize_agent_registration reg"
  define r1 where "r1 = (if rg_handle n = [] then n\<lparr>rg_handle := trim (ag_username a)\<rparr> else n)"
  define r2 where "r2 = (if rg_actor_id r1 = [] then r1\<lparr>rg_actor_id := trim (ag_actor_id a)\<rparr> else r1)"
  have h: "rg_handle r1 = trim (ag_username a)" "rg_actor_id r2 = trim (ag_actor_id a)"
    and r: "r = normalize_agent_registration (r2\<lparr>rg_updated_at := nt\<rparr>)"
    and db': "db' = update_agents (\<lambda>b. ag_id b = trim i) (\<lambda>b. b\<lparr>ag_registration := Some r, ag_updated_at := Stamp now\<rparr>) db"
    using assms a unfolding update_registration_def Let_def n_def [symmetric]
    by (auto simp: r1_def [symmetric] r2_def split: if_splits)
  have "rg_handle r2 = rg_handle r1" by (simp add: r2_def)
  then have "rg_handle r = trim (ag_username a)" "rg_actor_id r = trim (ag_actor_id a)"
    using h by (simp_all add: r normalize_agent_registration_def)
  with a db' show thesis using that [of a] stored_registration_reads_back r by blast
qed

section \<open>Agents that drop out\<close>

text \<open>
  C34. Renaming.  Once a registered agent has another user name, the inventory calls it not taggable and every check-in of its bridge
  fails, since the registration is written back under the old name; but the router still takes it, under the new name.
\<close>

theorem rename_strands_agent:
  assumes "update_registration i reg nt now db = Inr (r, db1)" "update_username i u now' db1 = Inr db2"
    and "normalize_username u = Inr new" "new \<noteq> rg_handle r" "rg_handle r \<noteq> []"
  shows "\<exists>a b. find_agent (trim i) db1 = Some a \<and> find_agent (trim i) db2 = Some b \<and> ag_username b = new \<and>
    routing_registration_failure (agent_view_of db2 b) ws = routing_registration_failure (agent_view_of db1 a) ws \<and>
    \<not> wr_taggable (describe_wake_routing parse (agent_view_of db2 b) ws t) \<and>
    (\<forall>verify p c nt' t'. pr_agent_id p = i \<longrightarrow> (\<exists>e. handle_bridge_check_in verify p c nt' t' db2 db2 = Inl e))"
proof -
  obtain a where a: "find_agent (trim i) db = Some a" "rg_handle r = trim (ag_username a)" "rg_actor_id r = trim (ag_actor_id a)"
    "normalize_agent_registration r = r"
    and db1: "db1 = update_agents (\<lambda>b. ag_id b = trim i) (\<lambda>b. b\<lparr>ag_registration := Some r, ag_updated_at := Stamp now\<rparr>) db"
    by (rule update_registration_Inr [OF assms(1)])
  define a1 where "a1 = a\<lparr>ag_registration := Some r, ag_updated_at := Stamp now\<rparr>"
  have a1: "find_agent (trim i) db1 = Some a1" using find_agent_id [OF a(1)] a(1) by (simp add: db1 find_agent_update a1_def)
  have i: "trim i \<noteq> []" using assms(1) by (auto simp: update_registration_def Let_def)
  obtain names where db2: "db2 = (update_agents (\<lambda>b. ag_id b = trim i) (\<lambda>b. b\<lparr>ag_username := new, ag_updated_at := Stamp now'\<rparr>) db1)\<lparr>actors := names\<rparr>"
    using assms(2,3) a1 i by (auto simp: update_username_def Let_def bind_res_def split: if_splits)
  define b where "b = a1\<lparr>ag_username := new, ag_updated_at := Stamp now'\<rparr>"
  have b: "find_agent (trim i) db2 = Some b"
    using find_agent_id [OF a1] a1 find_agent_update by (simp add: db2 b_def find_agent_def update_agents_def)
  have view: "av_registration (agent_view_of db2 b) = Some r" "av_registration (agent_view_of db1 a1) = Some r"
    using a(4) by (simp_all add: b_def a1_def)
  have same: "routing_registration_failure (agent_view_of db2 b) ws = routing_registration_failure (agent_view_of db1 a1) ws"
    unfolding routing_registration_failure_def view by (simp add: b_def)
  have new: "trim new = new" using normalize_username_ok [OF assms(3)] by (intro user_trim) simp
  have handle: "trim (rg_handle r) = rg_handle r" using a(2) by simp
  have "\<not> wr_taggable (describe_wake_routing parse (agent_view_of db2 b) ws t)"
    unfolding describe_wake_routing_def Let_def view using assms(4,5) new handle by (simp add: b_def)
  moreover have "\<exists>e. handle_bridge_check_in verify p c nt' t' db2 db2 = Inl e" if p: "pr_agent_id p = i" for verify p c nt' t'
  proof -
    have "rg_handle (normalize_agent_registration (checked_in (trim_checkin c) r)) = rg_handle r"
      using handle by (simp add: normalize_agent_registration_def checked_in_def)
    then have refused: "\<exists>e. update_registration i (checked_in (trim_checkin c) r) nt' t' db2 = Inl e"
      using assms(4,5) i b new by (simp add: update_registration_def Let_def b_def)
    have "get_principal_summary i db2 = Inr (agent_view_of db2 b)"
      using b i by (simp add: get_principal_summary_def principal_summary_def)
    then show ?thesis using refused unfolding handle_bridge_check_in_def Let_def p by (auto simp del: agent_view_sel simp: view)
  qed
  ultimately show ?thesis using a1 b same by (auto simp: b_def)
qed

lemma grant_result_Inr: "grant_result spent tx db = (Inr tb, db') \<Longrightarrow> \<exists>db1. spent = Inr db1 \<and> tx db1 = Inr (tb, db')"
  by (auto simp: grant_result_def split: sum.splits prod.splits)

lemma upsert_registration:
  assumes "upsert_agent a db = Inr db'" "ag_registration a = None"
  shows "\<exists>b. find_agent (ag_id a) db' = Some b \<and> ag_registration b = None"
proof (cases "find_agent (ag_id a) db")
  case None
  then show ?thesis using assms
    by (auto simp: upsert_agent_def insert_agent_def find_agent_def find_append split: if_splits)
next
  case (Some b)
  then show ?thesis using assms find_agent_id [OF Some] by (auto simp: upsert_agent_def find_agent_update)
qed

text \<open>
  C35. Grants.  Every login of a managed agent through a grant replaces its metadata, so it is not registered any more, until it
  registers again.
\<close>

theorem managed_login_drops_registration:
  assumes "issue_token_from_managed_grant cfg hash g d now db = (Inr tb, db')"
  shows "\<exists>a. find_agent (ag_id (managed_grant_agent hash g now)) db' = Some a \<and> ag_registration a = None \<and>
    routing_registration_failure (agent_view_of db' a) ws = Inl ''missing_agent_registration'' \<and>
    \<not> wr_taggable (describe_wake_routing parse (agent_view_of db' a) ws t)"
proof -
  let ?a = "managed_grant_agent hash g now"
  obtain db1 name where tx: "grant_transaction cfg hash name ?a d now db1 = Inr (tb, db')"
    using assms unfolding issue_token_from_managed_grant_def Let_def
    by (simp split: if_splits) (blast dest: grant_result_Inr)
  then obtain db2 where stored: "upsert_agent ?a (upsert_actor (ag_actor_id ?a) name db1) = Inr db2"
    and tokens: "issue_token_bundle cfg hash (ag_id ?a) d now db2 = Inr (tb, db')"
    unfolding grant_transaction_def bind_res_Inr_iff by (auto split: option.splits if_splits)
  have none: "ag_registration ?a = None" by (simp add: managed_grant_agent_def new_agent_def split: prod.split)
  have "\<exists>a. find_agent (ag_id ?a) db2 = Some a \<and> ag_registration a = None" by (rule upsert_registration [OF stored none])
  moreover have "agents db' = agents db2" by (rule bundle_frame(1) [OF tokens])
  ultimately obtain a where a: "find_agent (ag_id ?a) db' = Some a" "ag_registration a = None" by (auto simp: find_agent_def)
  then show ?thesis by (auto simp: routing_registration_failure_def describe_wake_routing_def Let_def)
qed

section \<open>Alice, renamed, and a managed agent\<close>

definition blank_registration :: agent_registration where
  "blank_registration = \<lparr>rg_version = [], rg_handle = [], rg_actor_id = [], rg_delivery_mode = [], rg_driver_kind = [],
     rg_resume_policy = [], rg_status = ''active'', rg_bindings = [(''main'', True)], rg_adapter_kind = [],
     rg_bridge_instance_id = [], rg_bridge_key = [], rg_checked_in_at = [], rg_expires_at = [], rg_bridge_workspace_ids = [],
     rg_proof = [], rg_checkin_ttl = 0, rg_updated_at = []\<rparr>"

definition registered_result :: "auth_error + agent_registration \<times> auth_db" where
  "registered_result = update_registration ''agent1'' blank_registration ''2026-01-05T00:00:00Z'' (base_time + 1) alice_db"

definition alice_registration :: agent_registration where "alice_registration = fst (projr registered_result)"
definition registered_db :: auth_db where "registered_db = snd (projr registered_result)"

definition renamed_result :: "auth_error + auth_db" where
  "renamed_result = update_username ''agent1'' ''alicia'' (base_time + 2) registered_db"

definition renamed_db :: auth_db where "renamed_db = projr renamed_result"

lemma registered_ok: "registered_result = Inr (alice_registration, registered_db)"
proof -
  have "\<not> isl registered_result" by code_simp
  then show ?thesis unfolding alice_registration_def registered_db_def by (rule inr_split)
qed

lemma renamed_ok: "renamed_result = Inr renamed_db"
proof -
  have "\<not> isl renamed_result" by code_simp
  then show ?thesis unfolding renamed_db_def by (cases renamed_result) simp_all
qed

lemma alice_names: "normalize_username ''alicia'' = Inr ''alicia''" "''alicia'' \<noteq> rg_handle alice_registration"
  "rg_handle alice_registration \<noteq> []"
  by code_simp+

theorem rename_strands_agent_witness:
  "\<exists>b. find_agent (trim ''agent1'') renamed_db = Some b \<and> ag_username b = ''alicia'' \<and>
     \<not> wr_taggable (describe_wake_routing (\<lambda>_. None) (agent_view_of renamed_db b) ''main'' 0)"
  using rename_strands_agent [where parse = "\<lambda>_. None" and ws = "''main''" and t = 0, OF registered_ok [unfolded registered_result_def] renamed_ok [unfolded renamed_result_def] alice_names] by blast

lemma alice_view: "find_agent ''agent1'' registered_db \<noteq> None"
  by code_simp

definition alice_row :: agent_row where "alice_row = the (find_agent ''agent1'' registered_db)"

lemma alice_facts: "trim (principal_kind registered_db alice_row) = kind_agent" "ag_revoked_at alice_row = None" "trim (ag_username alice_row) \<noteq> []"
  "trim (ag_actor_id alice_row) \<noteq> []" "trim ''main'' \<noteq> []"
  "map_option normalize_agent_registration (ag_registration alice_row) = Some alice_registration"
  "trim (rg_actor_id alice_registration) = trim (ag_actor_id alice_row)" "supports_workspace alice_registration ''main''"
  "\<not> equal_fold ''active'' ''disabled''" "trim (rg_status alice_registration) = ''active''"
  "trim (rg_handle alice_registration) = trim (ag_username alice_row)"
  by code_simp+

theorem taggable_and_routed_witness:
  "wr_taggable (describe_wake_routing (\<lambda>_. None) (agent_view_of registered_db alice_row) ''main'' 0) \<and>
   routing_registration_failure (agent_view_of registered_db alice_row) ''main'' = Inr alice_registration"
  using taggable_and_routed [of "agent_view_of registered_db alice_row" "''main''" alice_registration "\<lambda>_. None" 0,
      unfolded agent_view_sel, OF alice_facts(1-6)]
  unfolding alice_facts(7,8,10,11) by (simp add: alice_facts(8,9))

definition slot_identity :: "string \<Rightarrow> grant_identity" where
  "slot_identity j = \<lparr>gi_issuer = ''iss'', gi_subject = ''s'', gi_jti = j, gi_email = [], gi_display_name = [], gi_workspace_id = ''w'',
     gi_organization_id = ''o'', gi_slot_id = ''slot'', gi_slot_name = ''bot''\<rparr>"

definition managed_db :: auth_db where
  "managed_db = snd (issue_token_from_managed_grant (en_cfg sample_env) (en_hash sample_env) (slot_identity ''j1'') (sample_draw ''1'')
     base_time auth_empty)"

definition slot_agent :: string where
  "slot_agent = ag_id (managed_grant_agent (en_hash sample_env) (slot_identity ''j1'') base_time)"

definition slot_db :: auth_db where
  "slot_db = snd (projr (update_registration slot_agent blank_registration ''t'' (base_time + 1) managed_db))"

definition login_again :: "(auth_error + token_bundle) \<times> auth_db" where
  "login_again = issue_token_from_managed_grant (en_cfg sample_env) (en_hash sample_env) (slot_identity ''j2'') (sample_draw ''2'')
     (base_time + 2) slot_db"

lemma login_facts: "map_option (\<lambda>a. ag_registration a \<noteq> None) (find_agent slot_agent slot_db) = Some True" "\<not> isl (fst login_again)"
  "ag_id (managed_grant_agent (en_hash sample_env) (slot_identity ''j2'') (base_time + 2)) = slot_agent"
  by code_simp+

theorem managed_login_drops_registration_witness:
  "(\<exists>a. find_agent slot_agent slot_db = Some a \<and> ag_registration a \<noteq> None) \<and>
   (\<exists>a. find_agent slot_agent (snd login_again) = Some a \<and> ag_registration a = None)"
proof -
  have "login_again = (Inr (projr (fst login_again)), snd login_again)" using login_facts(2) by (cases "fst login_again") (auto simp: prod_eq_iff)
  from managed_login_drops_registration [OF this [unfolded login_again_def], of "''main''" "\<lambda>_. None" 0]
  have "\<exists>a. find_agent slot_agent (snd login_again) = Some a \<and> ag_registration a = None"
    unfolding login_facts(3) login_again_def by blast
  then show ?thesis using login_facts(1) by auto
qed

end
