(* ===== verification/Router.thy ===== *)
theory Router
  imports WakePacket WakeRouting Artifacts
begin

text \<open>
  \<open>core/internal/router/router.go\<close> and \<open>state.go\<close>, wired up in \<open>core/cmd/anx-core/main.go\<close>: the service that reads the log
  for messages, and queues a wake request for every agent a message mentions.  A call to a store may fail for reasons outside
  the model; whether it does is an argument.
\<close>

section \<open>State\<close>

text \<open>
  The state of the service is a JSON object in memory with a copy on disk.  Lines of the process's log that report a failure
  are kept; the cache of principals is a list of pairs, of which the last counts.
\<close>

datatype router_line = RoutingFailed string string | ExceptionFailed string string

record router_world =
  rw_db :: ws_db
  rw_wakeups :: wakeup_table
  rw_auth :: auth_db
  rw_memory :: "(string \<times> json) list"
  rw_disk :: "(string \<times> json) list"
  rw_cache :: "(string \<times> agent_view) list"
  rw_cache_at :: "int option"
  rw_log :: "router_line list"

record router_config =
  rc_base_url :: string
  rc_workspace_id :: string
  rc_workspace_name :: string
  rc_state_path :: string
  rc_cache_ttl :: int
  rc_actor_id :: string

text \<open>\<open>re_jd\<close> is SQLite's \<open>julianday\<close>, in its unit; \<open>re_event_bytes\<close> is the size of an event's JSON.\<close>

record router_env =
  re_doc :: doc_env
  re_sha :: "string \<Rightarrow> string"
  re_encode :: "json \<Rightarrow> string"
  re_jd :: "string \<Rightarrow> int"
  re_event_bytes :: "event_draft \<Rightarrow> int"

text \<open>What one handling of an event draws: the clock, and which of its calls come back.\<close>

datatype router_call = LoadPrincipals | RefreshUnknown | RefreshRefused | ReadThread | StoreArtifact | QueueWakeup
  | StoreException | MarkDirty | StoreFailure | MarkFailureDirty
datatype state_save = SaveSeen | SaveRouted | SaveCursor
datatype save_outcome = Saved | NotWritten | NotProtected

record router_draw =
  rd_now :: int
  rd_text :: string
  rd_up :: "string \<Rightarrow> router_call \<Rightarrow> bool"
  rd_save :: "state_save \<Rightarrow> save_outcome"

text \<open>An action on the world that may fail, with what it changed before.\<close>

type_synonym 'a action = "router_world \<Rightarrow> 'a option \<times> router_world"

definition and_then :: "'a action \<Rightarrow> ('a \<Rightarrow> 'b action) \<Rightarrow> 'b action" where
  "and_then m k w = (case m w of (None, w') \<Rightarrow> (None, w') | (Some x, w') \<Rightarrow> k x w')"

definition guarded_call :: "bool \<Rightarrow> 'a action \<Rightarrow> 'a action" where
  "guarded_call up m w = (if up then m w else (None, w))"

section \<open>The state store\<close>

definition put_values :: "(string \<times> json) list \<Rightarrow> (string \<times> json) list \<Rightarrow> (string \<times> json) list" where
  "put_values updates vs = updates @ filter (\<lambda>(k, _). k \<notin> fst ` set updates) vs"

text \<open>The file is written beside the old one and renamed, then its mode is set; either may fail.\<close>

definition save_locked :: "router_config \<Rightarrow> save_outcome \<Rightarrow> unit action" where
  "save_locked cfg saved w =
     (if trim (rc_state_path cfg) = [] then (Some (), w)
      else case saved of
        Saved \<Rightarrow> (Some (), w\<lparr>rw_disk := rw_memory w\<rparr>)
      | NotWritten \<Rightarrow> (None, w)
      | NotProtected \<Rightarrow> (None, w\<lparr>rw_disk := rw_memory w\<rparr>))"

definition update_state :: "router_config \<Rightarrow> save_outcome \<Rightarrow> (string \<times> json) list \<Rightarrow> unit action" where
  "update_state cfg saved updates w = save_locked cfg saved (w\<lparr>rw_memory := put_values updates (rw_memory w)\<rparr>)"

definition state_text :: "string \<Rightarrow> (string \<times> json) list \<Rightarrow> string" where
  "state_text k vs = (case map_of vs k of Some (JText s) \<Rightarrow> s | _ \<Rightarrow> [])"

definition last_event_ts :: "(string \<times> json) list \<Rightarrow> string" where "last_event_ts = state_text ''last_event_ts''"
definition last_event_id :: "(string \<times> json) list \<Rightarrow> string" where "last_event_id = state_text ''last_event_id''"

definition set_last_event_cursor :: "router_config \<Rightarrow> save_outcome \<Rightarrow> string \<Rightarrow> string \<Rightarrow> unit action" where
  "set_last_event_cursor cfg saved ts i = update_state cfg saved [(''last_event_ts'', JText ts), (''last_event_id'', JText i)]"

text \<open>A start of the process reads the state from disk, if there is a file for it.\<close>

definition new_state_store :: "router_config \<Rightarrow> router_world \<Rightarrow> router_world" where
  "new_state_store cfg w =
     w\<lparr>rw_memory := (if trim (rc_state_path cfg) = [] then [] else rw_disk w), rw_cache := [], rw_cache_at := None\<rparr>"

section \<open>The log after a cursor\<close>

type_synonym event_cursor = "string \<times> string"

definition jd_key :: "(string \<Rightarrow> int) \<Rightarrow> event_row \<Rightarrow> int \<times> string" where
  "jd_key jd e = (jd (ev_ts e), ev_id e)"

text \<open>\<open>ListEventsAfter\<close>; also events in the trash.\<close>

definition after_cursor :: "(string \<Rightarrow> int) \<Rightarrow> event_cursor \<Rightarrow> event_row \<Rightarrow> bool" where
  "after_cursor jd c e \<longleftrightarrow> trim (fst c) = [] \<or> (jd (trim (fst c)), trim (snd c)) < jd_key jd e"

definition list_events_after ::
  "(string \<Rightarrow> int) \<Rightarrow> string list \<Rightarrow> string \<Rightarrow> event_cursor \<Rightarrow> int \<Rightarrow> ws_db \<Rightarrow> event_row list" where
  "list_events_after jd types0 scope c limit db =
     (let (types, exclude) = apply_event_backing_scope types0 scope
      in take (if limit \<le> 0 then 100 else nat limit) (sort_key (jd_key jd) (filter (\<lambda>e.
           \<not> (dedupe_strings types0 \<noteq> [] \<and> types = []) \<and> (types = [] \<or> ev_type e \<in> set types) \<and>
           (exclude \<longrightarrow> ev_type e \<notin> set backing_event_types) \<and> after_cursor jd c e) (ws_events db))))"

definition message_posted :: string where "message_posted = ''message_posted''"
definition event_batch_size :: int where "event_batch_size = 100"

definition messages_after :: "router_env \<Rightarrow> event_cursor \<Rightarrow> ws_db \<Rightarrow> event_row list" where
  "messages_after env c db = list_events_after (re_jd env) [message_posted] [] c event_batch_size db"

definition resolve_cursor :: "router_world \<Rightarrow> event_cursor" where
  "resolve_cursor w =
     (let ts = last_event_ts (rw_memory w); i = last_event_id (rw_memory w)
      in if trim ts \<noteq> [] \<or> trim i = [] then (ts, i)
         else case find (\<lambda>e. ev_id e = i) (ws_events (rw_db w)) of None \<Rightarrow> ([], []) | Some e \<Rightarrow> (ev_ts e, i))"

section \<open>Principals\<close>

definition principal_limit :: nat where "principal_limit = 200"

definition handles_of :: "agent_view list \<Rightarrow> (string \<times> agent_view) list" where
  "handles_of ps = map (\<lambda>p. (to_lower (trim (av_username p)), p))
     (filter (\<lambda>p. av_revoked_at p = None \<and> trim (av_principal_kind p) = kind_agent \<and> to_lower (trim (av_username p)) \<noteq> []) ps)"

definition by_handle :: "router_world \<Rightarrow> string \<Rightarrow> agent_view option" where
  "by_handle w h = map_of (rev (rw_cache w)) h"

definition load_principals :: "router_config \<Rightarrow> int \<Rightarrow> bool \<Rightarrow> bool \<Rightarrow> unit action" where
  "load_principals cfg now up force w =
     (if \<not> force \<and> (case rw_cache_at w of None \<Rightarrow> False | Some t \<Rightarrow> now - t < rc_cache_ttl cfg) \<and> rw_cache w \<noteq> [] then (Some (), w)
      else guarded_call up (\<lambda>w. (Some (), w\<lparr>rw_cache := handles_of (fst (list_principals (Some principal_limit) 0 (rw_auth w))),
             rw_cache_at := Some now\<rparr>)) w)"

definition refresh_principal :: "router_config \<Rightarrow> int \<Rightarrow> bool \<Rightarrow> string \<Rightarrow> agent_view option action" where
  "refresh_principal cfg now up h = and_then (load_principals cfg now up True) (\<lambda>_ w. (Some (by_handle w h), w))"

section \<open>Exceptions\<close>

definition exception_id :: "router_env \<Rightarrow> router_config \<Rightarrow> string \<Rightarrow> string \<Rightarrow> string \<Rightarrow> string" where
  "exception_id env cfg code h eventID =
     derive_request_scoped_id (re_sha env) ''events.create'' (rc_actor_id cfg) (''exc-'' @ code @ ''-'' @ h @ ''-'' @ eventID) ''ev''"

definition exception_event :: "event_row \<Rightarrow> string \<Rightarrow> string \<Rightarrow> string \<Rightarrow> event_draft" where
  "exception_event e h code summary =
     \<lparr>ed_type = ''exception_raised'', ed_thread_id = ev_thread_id e, ed_refs = [''thread:'' @ ev_thread_id e, ''event:'' @ ev_id e],
      ed_summary = summary, ed_payload = [(''subtype'', code), (''code'', code), (''handle'', h)]\<rparr>"

text \<open>\<open>emitException\<close> and \<open>appendThreadEvent\<close>: an event of that id that exists already is as good.\<close>

definition emit_exception ::
  "router_env \<Rightarrow> router_config \<Rightarrow> router_draw \<Rightarrow> router_call \<Rightarrow> router_call \<Rightarrow> event_row \<Rightarrow> string \<Rightarrow> string \<Rightarrow> string \<Rightarrow> unit action" where
  "emit_exception env cfg d store dirty e h code summary =
     guarded_call (rd_up d h store) (\<lambda>w.
       let ev = exception_event e h code summary
       in case append_event (re_doc env) (rc_actor_id cfg) (exception_id env cfg code h (ev_id e)) [] (rd_text d) ev
                 (re_event_bytes env ev) (rw_db w) (rw_db w) of
            Inl DocConflict \<Rightarrow> (Some (), w)
          | Inl _ \<Rightarrow> (None, w)
          | Inr db' \<Rightarrow>
              (if trim (ev_thread_id e) = [] \<or> rd_up d h dirty then Some () else None, w\<lparr>rw_db := db'\<rparr>))"

section \<open>Routing a mention\<close>

definition wakeup_id_for :: "router_env \<Rightarrow> router_config \<Rightarrow> event_row \<Rightarrow> string \<Rightarrow> string" where
  "wakeup_id_for env cfg e actorID = wakeup_artifact_id (re_sha env) (rc_workspace_id cfg) (ev_thread_id e) (ev_id e) actorID"

text \<open>The address of a topic's workspace and the command to see it, for a thread that belongs to a topic.\<close>

definition topic_access :: "router_config \<Rightarrow> string \<Rightarrow> string \<times> string" where
  "topic_access cfg subject =
     (let topicID = trim (drop (length ''topic:'') (trim subject))
      in if has_prefix (trim subject) ''topic:'' \<and> topicID \<noteq> []
           then (trim_right_char (CHR ''/'') (rc_base_url cfg) @ ''/topics/'' @ topicID @ ''/workspace'',
                 ''anx topics workspace '' @ trim subject @ '' --json'')
         else ([], []))"

definition packet_for :: "router_env \<Rightarrow> router_config \<Rightarrow> event_row \<Rightarrow> string \<Rightarrow> string \<Rightarrow> string \<Rightarrow> thread_body \<Rightarrow> wake_packet" where
  "packet_for env cfg e text h actorID th =
     (let threadID = ev_thread_id e; base = trim_right_char (CHR ''/'') (rc_base_url cfg);
          (subject, resolved) = resolved_subject_from_thread th threadID; (topicURL, topicCLI) = topic_access cfg subject
      in \<lparr>wp_wakeup_id = wakeup_id_for env cfg e actorID, wp_handle = h, wp_actor_id = actorID,
          wp_workspace_id = rc_workspace_id cfg, wp_workspace_name = rc_workspace_name cfg, wp_thread_id = threadID,
          wp_thread_title = first_non_empty [tb_title th, threadID], wp_subject_ref = subject, wp_resolved_subject = resolved,
          wp_trigger_event_id = ev_id e, wp_trigger_created_at = ev_ts e, wp_trigger_author = ev_actor_id e,
          wp_trigger_text = text, wp_current_summary = null_text (tb_current_summary th),
          wp_session_key = ''anx:'' @ rc_workspace_id cfg @ '':'' @ threadID @ '':'' @ h, wp_base_url = base,
          wp_thread_context_url = base @ ''/threads/'' @ threadID @ ''/context'',
          wp_thread_workspace_url = base @ ''/threads/'' @ threadID @ ''/workspace'', wp_topic_workspace_url = topicURL,
          wp_trigger_event_url = base @ ''/events/'' @ ev_id e,
          wp_cli_thread_inspect = ''anx threads inspect --thread-id '' @ threadID @ '' --json'',
          wp_cli_thread_workspace = ''anx threads workspace --thread-id '' @ threadID @ '' --include-related-event-content --json'',
          wp_cli_topic_workspace = topicCLI, wp_version = wake_packet_version\<rparr>)"

definition wake_members :: "router_config \<Rightarrow> string \<Rightarrow> string \<Rightarrow> string \<Rightarrow> string \<Rightarrow> members" where
  "wake_members cfg wakeupID h actorID threadID =
     [(''id'', wakeupID), (''kind'', wake_artifact_kind), (''summary'', ''Wake packet for @'' @ h), (''target_handle'', h),
      (''target_actor_id'', actorID), (''workspace_id'', rc_workspace_id cfg), (''thread_id'', threadID)]"

definition wake_request :: "router_env \<Rightarrow> router_config \<Rightarrow> event_row \<Rightarrow> string \<Rightarrow> string \<Rightarrow> string \<Rightarrow> thread_body \<Rightarrow> agent_wakeup" where
  "wake_request env cfg e text h actorID th =
     (let i = wakeup_id_for env cfg e actorID; subject = fst (resolved_subject_from_thread th (ev_thread_id e))
      in \<lparr>aw_wakeup_id = i, aw_status = status_requested, aw_notification_status = [], aw_target_handle = h,
          aw_target_actor_id = actorID, aw_workspace_id = rc_workspace_id cfg, aw_workspace_name = rc_workspace_name cfg,
          aw_thread_id = ev_thread_id e, aw_thread_title = first_non_empty [tb_title th, ev_thread_id e],
          aw_trigger_event_id = ev_id e, aw_trigger_created_at = ev_ts e, aw_trigger_text = text,
          aw_refs = wake_artifact_refs (ev_thread_id e) (ev_id e) subject @ [''artifact:'' @ i],
          aw_bridge_instance_id = [], aw_failure_reason = [], aw_created_at = [], aw_claimed_at = [], aw_completed_at = [],
          aw_failed_at = [], aw_read_at = [], aw_dismissed_at = [], aw_updated_at = []\<rparr>)"

text \<open>The packet is stored first; one that is there already stays.\<close>

definition store_packet :: "router_env \<Rightarrow> router_config \<Rightarrow> router_draw \<Rightarrow> event_row \<Rightarrow> string \<Rightarrow> string \<Rightarrow> string \<Rightarrow> thread_body \<Rightarrow> unit action" where
  "store_packet env cfg d e text h actorID th =
     guarded_call (rd_up d h StoreArtifact) (\<lambda>w.
       let p = packet_for env cfg e text h actorID th
       in case create_artifact (re_doc env) (rc_actor_id cfg) (wake_members cfg (wp_wakeup_id p) h actorID (ev_thread_id e))
                 (Strings (wake_artifact_refs (ev_thread_id e) (ev_id e) (wp_subject_ref p))) (re_encode env (to_content p))
                 ''structured'' [] (rd_text d) (rw_db w) (rw_db w) of
            Inr (a, db') \<Rightarrow> (Some (), w\<lparr>rw_db := db'\<rparr>)
          | Inl err \<Rightarrow> (if err = StoreError DocConflict then Some () else None, w))"

definition queue_wakeup :: "router_env \<Rightarrow> router_config \<Rightarrow> router_draw \<Rightarrow> event_row \<Rightarrow> string \<Rightarrow> string \<Rightarrow> string \<Rightarrow> thread_body \<Rightarrow> unit action" where
  "queue_wakeup env cfg d e text h actorID th =
     guarded_call (rd_up d h QueueWakeup) (\<lambda>w.
       case upsert_agent_wakeup (rd_text d) (wake_request env cfg e text h actorID th) (rw_wakeups w) of
         Inr (r, ws') \<Rightarrow> (Some (), w\<lparr>rw_wakeups := ws'\<rparr>)
       | Inl err \<Rightarrow> (if err = WakeupConflict then Some () else None, w))"

definition read_thread :: "router_draw \<Rightarrow> event_row \<Rightarrow> string \<Rightarrow> thread_body action" where
  "read_thread d e h = guarded_call (rd_up d h ReadThread) (\<lambda>w.
     case get_thread (ev_thread_id e) (rw_db w) of Inl _ \<Rightarrow> (None, w) | Inr th \<Rightarrow> (Some th, w))"

text \<open>The agent is known and registered: wake it, unless it wrote the message itself.\<close>

definition wake_agent ::
  "router_env \<Rightarrow> router_config \<Rightarrow> router_draw \<Rightarrow> event_row \<Rightarrow> string \<Rightarrow> string \<Rightarrow> agent_registration \<Rightarrow> bool action" where
  "wake_agent env cfg d e text h r =
     (if trim (ev_actor_id e) = rg_actor_id r then (\<lambda>w. (Some False, w))
      else and_then (read_thread d e h) (\<lambda>th.
        and_then (store_packet env cfg d e text h (rg_actor_id r) th) (\<lambda>_.
        and_then (queue_wakeup env cfg d e text h (rg_actor_id r) th) (\<lambda>_ w. (Some True, w)))))"

definition failure_summary :: "string \<Rightarrow> string \<Rightarrow> string \<Rightarrow> string" where
  "failure_summary code name workspaceID =
     ''Tagged agent @'' @ name @
     (if code = ''missing_agent_registration'' then '' has no registration''
      else if code = ''registration_actor_mismatch'' then '' registration actor does not match principal''
      else if code = ''agent_not_bound_to_workspace'' then '' is not enabled for workspace '' @ workspaceID
      else '' is disabled for notifications'')"

definition refuse :: "router_env \<Rightarrow> router_config \<Rightarrow> router_draw \<Rightarrow> event_row \<Rightarrow> string \<Rightarrow> string \<Rightarrow> string \<Rightarrow> bool action" where
  "refuse env cfg d e h code summary =
     and_then (emit_exception env cfg d StoreException MarkDirty e h code summary) (\<lambda>_ w. (Some False, w))"

definition unknown_agent :: "router_env \<Rightarrow> router_config \<Rightarrow> router_draw \<Rightarrow> event_row \<Rightarrow> string \<Rightarrow> bool action" where
  "unknown_agent env cfg d e h = refuse env cfg d e h ''unknown_agent_handle'' (''Unknown tagged agent @'' @ h)"

text \<open>A principal that is not registered as it should be is read once more.\<close>

definition route_mention :: "router_env \<Rightarrow> router_config \<Rightarrow> router_draw \<Rightarrow> event_row \<Rightarrow> string \<Rightarrow> string \<Rightarrow> bool action" where
  "route_mention env cfg d e text h =
     (if ev_thread_id e = [] \<or> ev_id e = [] then (\<lambda>w. (Some False, w))
      else and_then (\<lambda>w. case by_handle w h of
               Some p \<Rightarrow> (Some (Some p), w)
             | None \<Rightarrow> refresh_principal cfg (rd_now d) (rd_up d h RefreshUnknown) h w)
        (\<lambda>found. case found of
           None \<Rightarrow> unknown_agent env cfg d e h
         | Some p \<Rightarrow> (case routing_registration_failure p (rc_workspace_id cfg) of
               Inr r \<Rightarrow> wake_agent env cfg d e text h r
             | Inl _ \<Rightarrow> and_then (refresh_principal cfg (rd_now d) (rd_up d h RefreshRefused) h)
                 (\<lambda>again. case again of
                    None \<Rightarrow> unknown_agent env cfg d e h
                  | Some q \<Rightarrow> (case routing_registration_failure q (rc_workspace_id cfg) of
                        Inr r \<Rightarrow> wake_agent env cfg d e text h r
                      | Inl code \<Rightarrow> refuse env cfg d e h code (failure_summary code (av_username q) (rc_workspace_id cfg)))))))"

section \<open>Handling a message\<close>

definition log_line :: "router_line \<Rightarrow> router_world \<Rightarrow> router_world" where
  "log_line l w = w\<lparr>rw_log := rw_log w @ [l]\<rparr>"

text \<open>A mention that cannot be routed is logged and reported by an exception, and the next one is tried.\<close>

fun route_all :: "router_env \<Rightarrow> router_config \<Rightarrow> router_draw \<Rightarrow> event_row \<Rightarrow> string \<Rightarrow> string list \<Rightarrow> router_world \<Rightarrow> string list \<times> router_world" where
  "route_all env cfg d e text [] w = ([], w)"
| "route_all env cfg d e text (h # hs) w =
     (case route_mention env cfg d e text h w of
        (Some routed, w1) \<Rightarrow>
          (let (rs, w2) = route_all env cfg d e text hs w1 in ((if routed then h # rs else rs), w2))
      | (None, w1) \<Rightarrow>
          (case emit_exception env cfg d StoreFailure MarkFailureDirty e h ''mention_routing_failed'' (''Failed routing @'' @ h)
                 (log_line (RoutingFailed h (ev_id e)) w1) of
             (Some _, w2) \<Rightarrow> route_all env cfg d e text hs w2
           | (None, w2) \<Rightarrow> route_all env cfg d e text hs (log_line (ExceptionFailed h (ev_id e)) w2)))"

definition handle_event :: "router_env \<Rightarrow> router_config \<Rightarrow> router_draw \<Rightarrow> event_row \<Rightarrow> unit action" where
  "handle_event env cfg d e =
     (let text = extract_message_text e; handles = extract_mentions text;
          seen = [(''router_last_message_seen_at'', JText (rd_text d)), (''router_last_message_seen_event_id'', JText (ev_id e))] @
            (if handles = [] then [] else
               [(''router_last_tagged_message_event_id'', JText (ev_id e)), (''router_last_tagged_message_seen_at'', JText (rd_text d)),
                (''router_last_tagged_handles'', JList (map JText handles)),
                (''router_last_tagged_message_preview'', JText (compact_text text 140))])
      in and_then (update_state cfg (rd_save d SaveSeen) seen) (\<lambda>_.
         if handles = [] then (\<lambda>w. (Some (), w))
         else and_then (load_principals cfg (rd_now d) (rd_up d [] LoadPrincipals) False) (\<lambda>_ w.
           case route_all env cfg d e text handles w of (routed, w') \<Rightarrow>
             if routed = [] then (Some (), w')
             else update_state cfg (rd_save d SaveRouted)
               [(''router_last_routed_event_id'', JText (ev_id e)), (''router_last_routed_at'', JText (rd_text d)),
                (''router_last_routed_handles'', JList (map JText routed))] w')))"

section \<open>A poll\<close>

definition handle_next :: "router_env \<Rightarrow> router_config \<Rightarrow> router_draw \<Rightarrow> event_row \<Rightarrow> event_cursor action" where
  "handle_next env cfg d e =
     and_then (handle_event env cfg d e) (\<lambda>_.
     and_then (set_last_event_cursor cfg (rd_save d SaveCursor) (ev_ts e) (ev_id e)) (\<lambda>_ w. (Some (ev_ts e, ev_id e), w)))"

fun handle_batch :: "router_env \<Rightarrow> router_config \<Rightarrow> (string \<Rightarrow> router_draw) \<Rightarrow> event_cursor \<Rightarrow> event_row list \<Rightarrow> event_cursor action" where
  "handle_batch env cfg ds c [] = (\<lambda>w. (Some c, w))"
| "handle_batch env cfg ds c (e # es) = and_then (handle_next env cfg (ds (ev_id e)) e) (\<lambda>c1. handle_batch env cfg ds c1 es)"

partial_function (option) poll_from ::
  "router_env \<Rightarrow> router_config \<Rightarrow> (string \<Rightarrow> router_draw) \<Rightarrow> event_cursor \<Rightarrow> router_world \<Rightarrow> (unit option \<times> router_world) option" where
  "poll_from env cfg ds c w =
     (let es = messages_after env c (rw_db w)
      in if es = [] then Some (Some (), w)
         else case handle_batch env cfg ds c es w of
                (None, w') \<Rightarrow> Some (None, w')
              | (Some c', w') \<Rightarrow>
                  if int (length es) < event_batch_size then Some (Some (), w') else poll_from env cfg ds c' w')"

definition run_once :: "router_env \<Rightarrow> router_config \<Rightarrow> (string \<Rightarrow> router_draw) \<Rightarrow> router_world \<Rightarrow> (unit option \<times> router_world) option" where
  "run_once env cfg ds w = poll_from env cfg ds (resolve_cursor w) w"

end
