(* ===== verification/RouterRuns.thy ===== *)
theory RouterRuns
  imports Router EventSafety WakeupSafety ArtifactSafety
begin

text \<open>
  Runs of the router among the other users of the workspace, in which a call to a store may fail at any time and the process may
  be restarted: no mention is skipped, and which messages are.
\<close>

section \<open>Runs\<close>

text \<open>
  Between two events the others append to the log, put events through their lifecycle, report on wake requests and change
  principals as they like.
\<close>

definition others_may :: "router_world \<Rightarrow> router_world \<Rightarrow> bool" where
  "others_may w w' \<longleftrightarrow> event_step\<^sup>*\<^sup>* (rw_db w) (rw_db w') \<and> wakeup_run (rw_wakeups w) (rw_wakeups w') \<and>
     rw_memory w' = rw_memory w \<and> rw_disk w' = rw_disk w \<and> rw_cache w' = rw_cache w \<and> rw_log w' = rw_log w"

text \<open>A router at work: the world, and the events it has listed and not handled yet.\<close>

type_synonym router_state = "router_world \<times> event_row list"

definition draw_ok :: "router_draw \<Rightarrow> bool" where
  "draw_ok d \<longleftrightarrow> trim (rd_text d) = rd_text d \<and> rd_text d \<noteq> []"

inductive router_step :: "router_env \<Rightarrow> router_config \<Rightarrow> router_state \<Rightarrow> router_state \<Rightarrow> bool" for env cfg where
  step_list: "router_step env cfg (w, []) (w, messages_after env (resolve_cursor w) (rw_db w))"
| step_handle: "handle_next env cfg d e w = (Some c, w') \<Longrightarrow> draw_ok d \<Longrightarrow> router_step env cfg (w, e # es) (w', es)"
| step_fail: "handle_next env cfg d e w = (None, w') \<Longrightarrow> draw_ok d \<Longrightarrow> router_step env cfg (w, e # es) (w', [])"
| step_restart: "router_step env cfg (w, es) (new_state_store cfg w, [])"
| step_others: "others_may w w' \<Longrightarrow> router_step env cfg (w, es) (w', es)"

abbreviation router_run :: "router_env \<Rightarrow> router_config \<Rightarrow> router_state \<Rightarrow> router_state \<Rightarrow> bool" where
  "router_run env cfg \<equiv> (router_step env cfg)\<^sup>*\<^sup>*"

inductive_cases router_stepE: "router_step env cfg s s'"

section \<open>Messages stay as they are\<close>

definition same_message :: "event_row \<Rightarrow> event_row \<Rightarrow> bool" where
  "same_message x e \<longleftrightarrow> ev_id x = ev_id e \<and> ev_type x = ev_type e \<and> ev_ts x = ev_ts e \<and> ev_actor_id x = ev_actor_id e \<and>
     ev_thread_id x = ev_thread_id e \<and> ev_summary x = ev_summary e \<and> ev_payload x = ev_payload e"

definition logged :: "event_row \<Rightarrow> ws_db \<Rightarrow> bool" where
  "logged e db \<longleftrightarrow> (\<exists>x\<in>set (ws_events db). same_message x e)"

lemma same_message_refl [simp]: "same_message e e" by (simp add: same_message_def)

lemma same_message_trans: "same_message x y \<Longrightarrow> same_message y z \<Longrightarrow> same_message x z" by (simp add: same_message_def)

lemma spread_same:
  assumes "\<And>i x. same_message (f i x) x"
  shows "same_message (spread P f e R x) x"
  using assms by (simp add: spread_def)

lemma logged_map:
  assumes "\<And>x. same_message (g x) x" "logged e db"
  shows "logged e (map_events g db)"
  using assms by (auto simp: logged_def map_events_def intro: same_message_trans)

lemma rows_same:
  "same_message (archive_event_row now a x) x" "same_message (unarchive_event_row x) x"
  "same_message (trash_event_row now a why x) x" "same_message (untrash_event_row x) x"
  by (simp_all add: same_message_def event_row_changes)

lemma event_step_logged:
  assumes "event_step db db'" "events_ok db" "logged e db"
  shows "logged e db'"
  using assms(1)
proof (cases rule: event_step.cases)
  case (step_append a i ts ev)
  then show ?thesis using assms(3) by (auto simp: logged_def dest!: insert_event_Inr)
next
  case (step_archive clock a i r)
  show ?thesis by (rule archive_event_Inr [OF assms(2) step_archive(1)]) (auto intro!: logged_map spread_same rows_same assms(3))
next
  case (step_unarchive a i r)
  show ?thesis by (rule unarchive_event_Inr [OF assms(2) step_unarchive]) (auto intro!: logged_map spread_same rows_same assms(3))
next
  case (step_trash clock a i why r)
  show ?thesis by (rule trash_event_Inr [OF assms(2) step_trash(1)]) (auto intro!: logged_map spread_same rows_same assms(3))
next
  case (step_restore a i r)
  show ?thesis by (rule restore_event_Inr [OF assms(2) step_restore]) (auto intro!: logged_map spread_same rows_same assms(3))
next
  case step_elsewhere
  then show ?thesis using assms(3) by (simp add: logged_def)
qed

lemma event_steps_keep:
  assumes "event_step\<^sup>*\<^sup>* db db'" "events_ok db"
  shows "events_ok db'" "logged e db \<Longrightarrow> logged e db'"
proof -
  have "events_ok db' \<and> (logged e db \<longrightarrow> logged e db')"
    using assms(1) by (induction rule: rtranclp_induct) (use assms(2) event_step_ok event_step_logged in blast)+
  then show "events_ok db'" "logged e db \<Longrightarrow> logged e db'" by auto
qed

lemma logged_id: "logged e db \<Longrightarrow> ev_id e \<in> ev_id ` set (ws_events db)"
  unfolding logged_def same_message_def by (metis imageI)

section \<open>What the router does in terms of the stores\<close>

definition listed :: "auth_db \<Rightarrow> (string \<times> agent_view) list" where
  "listed db = handles_of (fst (list_principals (Some principal_limit) 0 db))"

text \<open>The principals a handle may stand for: the one in the cache, or the one the directory lists.\<close>

definition candidate :: "router_world \<Rightarrow> string \<Rightarrow> agent_view \<Rightarrow> bool" where
  "candidate w h p \<longleftrightarrow> by_handle w h = Some p \<or> map_of (rev (listed (rw_auth w))) h = Some p"

definition messages_in :: "ws_db \<Rightarrow> event_row list" where
  "messages_in db = filter (\<lambda>e. ev_type e = message_posted) (ws_events db)"

definition works :: "router_world \<Rightarrow> router_world \<Rightarrow> bool" where
  "works w w' \<longleftrightarrow> event_step\<^sup>*\<^sup>* (rw_db w) (rw_db w') \<and> wakeup_run (rw_wakeups w) (rw_wakeups w') \<and> rw_auth w' = rw_auth w \<and>
     rw_memory w' = rw_memory w \<and> rw_disk w' = rw_disk w \<and> rw_cache w' \<in> {rw_cache w, listed (rw_auth w)} \<and>
     set (rw_log w) \<subseteq> set (rw_log w') \<and> messages_in (rw_db w') = messages_in (rw_db w)"

lemma works_refl [simp]: "works w w" by (simp add: works_def)

lemma works_trans: "works u v \<Longrightarrow> works v w \<Longrightarrow> works u w"
  unfolding works_def by (auto intro: rtranclp_trans)

lemma works_candidate: "works w w' \<Longrightarrow> candidate w' h p \<Longrightarrow> candidate w h p"
  by (auto simp: works_def candidate_def by_handle_def)

definition steady :: "'a action \<Rightarrow> bool" where
  "steady m \<longleftrightarrow> (\<forall>w. works w (snd (m w)))"

lemma steadyD: "steady m \<Longrightarrow> m w = (r, w') \<Longrightarrow> works w w'"
  unfolding steady_def by (metis snd_conv)

lemma steady_pure [intro, simp]: "steady (\<lambda>w. (f w, w))" by (simp add: steady_def)

lemma steady_then [intro]: "steady m \<Longrightarrow> (\<And>x. steady (k x)) \<Longrightarrow> steady (and_then m k)"
  unfolding steady_def and_then_def by (auto split: prod.split option.split) (metis snd_conv works_trans)+

lemma steady_guard [intro]: "steady m \<Longrightarrow> steady (guarded_call up m)"
  by (simp add: steady_def guarded_call_def)

lemma and_then_Some: "and_then m k w = (Some y, w') \<longleftrightarrow> (\<exists>x w1. m w = (Some x, w1) \<and> k x w1 = (Some y, w'))"
  by (auto simp: and_then_def split: prod.splits option.splits)

lemma guarded_Some: "guarded_call up m w = (Some y, w') \<longleftrightarrow> up \<and> m w = (Some y, w')"
  by (simp add: guarded_call_def)

lemma steady_load: "steady (load_principals cfg now up force)"
  by (auto simp: steady_def load_principals_def guarded_call_def works_def listed_def)

lemma steady_refresh: "steady (refresh_principal cfg now up h)"
  unfolding refresh_principal_def by (intro steady_then steady_load steady_pure)

lemma refresh_candidate: "refresh_principal cfg now up h w = (Some (Some p), w') \<Longrightarrow> candidate w h p"
  by (auto simp: refresh_principal_def and_then_Some load_principals_def guarded_Some by_handle_def candidate_def listed_def)

section \<open>Exceptions\<close>

text \<open>SHA-256 is written in hexadecimal.\<close>

definition plain_sha :: "router_env \<Rightarrow> bool" where
  "plain_sha env \<longleftrightarrow> (\<forall>s. list_all plain_char (re_sha env s))"

lemma plain_prefix: "list_all plain_char s \<Longrightarrow> list_all plain_char (take n s)"
  by (auto simp: list_all_iff dest: in_set_takeD)

lemma exception_id_trim: "plain_sha env \<Longrightarrow> trim (exception_id env cfg code h i) = exception_id env cfg code h i"
  unfolding exception_id_def derive_request_scoped_id_def plain_sha_def
  by (intro plain_trim) (auto simp: list_all_iff plain_char_def less_eq_char_def dest: in_set_takeD)

lemma exception_id_some: "plain_sha env \<Longrightarrow> trim (exception_id env cfg code h i) \<noteq> []"
  unfolding exception_id_trim by (simp add: exception_id_def derive_request_scoped_id_def)

lemma append_event_Inr:
  "append_event env a i n ts ev b db0 db = Inr db' \<Longrightarrow> trim i \<noteq> [] \<Longrightarrow> insert_event a (trim i) ts ev db = Inr db'"
  by (auto simp: append_event_def Let_def split: prod.splits sum.splits)

lemma append_event_conflict:
  "append_event env a i n ts ev b db0 db = Inl DocConflict \<Longrightarrow> trim i \<noteq> [] \<Longrightarrow> trim i \<in> ev_id ` set (ws_events db)"
  by (auto simp: append_event_def insert_event_def allocate_handle_def replace_ref_edges_def bind_res_def Let_def
      split: prod.splits sum.splits option.splits if_splits)

lemma steady_emit: "draw_ok d \<Longrightarrow> plain_sha env \<Longrightarrow> steady (emit_exception env cfg d store dirty e h code summary)"
  unfolding emit_exception_def
proof (intro steady_guard)
  assume d: "draw_ok d" and sha: "plain_sha env"
  have "event_step db db'" if "append_event (re_doc env) a (exception_id env cfg code h i) [] (rd_text d) ev b db db = Inr db'"
    for a i ev b db db'
    using append_event_Inr [OF that exception_id_some [OF sha]] d exception_id_some [OF sha] by (auto intro: event_step.step_append simp: draw_ok_def)
  moreover have "messages_in db' = messages_in db"
    if "append_event (re_doc env) a (exception_id env cfg code h i) [] (rd_text d) (exception_event x k code' summary') b db db = Inr db'"
    for a i b db db' x k code' summary'
    using insert_event_Inr [OF append_event_Inr [OF that exception_id_some [OF sha]]]
    by (auto simp: messages_in_def exception_event_def message_posted_def)
  ultimately show "steady (\<lambda>w. let ev = exception_event e h code summary in
      case append_event (re_doc env) (rc_actor_id cfg) (exception_id env cfg code h (ev_id e)) [] (rd_text d) ev
             (re_event_bytes env ev) (rw_db w) (rw_db w) of
        Inl DocConflict \<Rightarrow> (Some (), w) | Inl _ \<Rightarrow> (None, w)
      | Inr db' \<Rightarrow> (if trim (ev_thread_id e) = [] \<or> rd_up d h dirty then Some () else None, w\<lparr>rw_db := db'\<rparr>))"
    by (auto simp: steady_def works_def Let_def split: sum.split doc_error.split)
qed

lemma emit_exception_stored:
  assumes "emit_exception env cfg d store dirty e h code summary w = (Some u, w')" "plain_sha env"
  shows "exception_id env cfg code h (ev_id e) \<in> ev_id ` set (ws_events (rw_db w'))"
proof -
  note id = exception_id_trim [OF assms(2), of cfg code h "ev_id e"]
  show ?thesis using assms(1) append_event_conflict [OF _ exception_id_some [OF assms(2)]] append_event_Inr [OF _ exception_id_some [OF assms(2)]]
    by (fastforce simp: emit_exception_def guarded_Some Let_def id dest: insert_event_Inr split: sum.splits doc_error.splits if_splits)
qed

section \<open>Waking\<close>

lemma put_artifact_events: "put_artifact env desired a content seed plan Inr db = Inr (row, db') \<Longrightarrow> ws_events db' = ws_events db"
  by (auto simp: put_artifact_def bind_res_Inr_iff Let_def insert_artifact_def store_content_def split: if_splits
      dest!: replace_ref_edges_Inr)

lemma create_artifact_events:
  "create_artifact env actorID m refs content contentType newID now db0 db = Inr (row, db') \<Longrightarrow> ws_events db' = ws_events db"
  unfolding create_artifact_def create_artifact_with_def Let_def chain_iffs lift_store_Inr using put_artifact_events by blast

lemma steady_packet: "steady (store_packet env cfg d e text h a th)"
  unfolding store_packet_def Let_def
  by (rule steady_guard)
    (auto simp: steady_def works_def messages_in_def split: sum.split dest!: create_artifact_events intro!: r_into_rtranclp event_step.step_elsewhere)

lemma wakeup_id_trim: "plain_sha env \<Longrightarrow> trim (wakeup_id_for env cfg e a) = wakeup_id_for env cfg e a"
  unfolding wakeup_id_for_def wakeup_artifact_id_def sha256_text_def plain_sha_def
  by (intro plain_trim) (auto simp: list_all_iff plain_char_def less_eq_char_def dest: in_set_takeD)

lemma wake_request_fresh: "fresh_request (wake_request env cfg e text h a th)"
proof -
  have "trim status_requested = status_requested" by code_simp
  then show ?thesis by (simp add: fresh_request_def wake_request_def Let_def)
qed

lemma steady_queue: "steady (queue_wakeup env cfg d e text h a th)"
  unfolding queue_wakeup_def
  by (rule steady_guard)
    (auto simp: steady_def works_def split: sum.split intro!: r_into_rtranclp wakeup_step.step_request wake_request_fresh)

lemma queue_wakeup_queued:
  assumes "queue_wakeup env cfg d e text h a th w = (Some u, w')" "plain_sha env"
  shows "lookup (wakeup_id_for env cfg e a) (rw_wakeups w') \<noteq> None"
proof -
  have id: "aw_wakeup_id (normalize_agent_wakeup now (wake_request env cfg e text h a th)) = wakeup_id_for env cfg e a" for now
    by (simp add: normalize_agent_wakeup_def wake_request_def Let_def wakeup_id_trim [OF assms(2)])
  have conflict: "upsert_agent_wakeup now r ws \<noteq> Inl WakeupConflict" for now r ws
    by (auto simp: upsert_agent_wakeup_def get_agent_wakeup_def bind_res_def Let_def split: sum.splits option.splits if_splits)
  from assms(1) obtain r where "upsert_agent_wakeup (rd_text d) (wake_request env cfg e text h a th) (rw_wakeups w) = Inr (r, rw_wakeups w')"
    by (auto simp: queue_wakeup_def guarded_Some conflict split: sum.splits if_splits)
  then show ?thesis
    by (auto simp: upsert_agent_wakeup_def Let_def bind_res_Inr_iff get_agent_wakeup_Inr id wakeup_id_trim [OF assms(2)] split: if_splits)
qed

lemma steady_read: "steady (read_thread d e h)"
  unfolding read_thread_def by (rule steady_guard) (simp add: steady_def split: sum.split)

lemma steady_wake: "steady (wake_agent env cfg d e text h r)"
  unfolding wake_agent_def by (auto intro!: steady_then steady_read steady_packet steady_queue)

lemma wake_agent_woken:
  assumes "wake_agent env cfg d e text h r w = (Some b, w')" "plain_sha env"
  shows "rg_actor_id r = trim (ev_actor_id e) \<or> lookup (wakeup_id_for env cfg e (rg_actor_id r)) (rw_wakeups w') \<noteq> None"
  using assms queue_wakeup_queued by (auto simp: wake_agent_def and_then_Some split: if_splits)

section \<open>The answer to a mention\<close>

definition exception_codes :: "string list" where
  "exception_codes = [''unknown_agent_handle'', ''missing_agent_registration'', ''registration_actor_mismatch'',
     ''agent_not_bound_to_workspace'', ''agent_notifications_disabled'', ''mention_routing_failed'']"

text \<open>
  What there is at \<open>w\<close> for the mention \<open>h\<close> of \<open>e\<close> that was handled at \<open>w0\<close>: a wake request for the agent the handle stood for,
  unless it wrote the message itself; or an exception in the log; or, when that could not be stored, a line in the log of the
  process.
\<close>

definition answered :: "router_env \<Rightarrow> router_config \<Rightarrow> router_world \<Rightarrow> router_world \<Rightarrow> event_row \<Rightarrow> string \<Rightarrow> bool" where
  "answered env cfg w0 w e h \<longleftrightarrow>
     (\<exists>p r. candidate w0 h p \<and> routing_registration_failure p (rc_workspace_id cfg) = Inr r \<and>
        (rg_actor_id r = trim (ev_actor_id e) \<or> lookup (wakeup_id_for env cfg e (rg_actor_id r)) (rw_wakeups w) \<noteq> None)) \<or>
     (\<exists>code\<in>set exception_codes. exception_id env cfg code h (ev_id e) \<in> ev_id ` set (ws_events (rw_db w))) \<or>
     ExceptionFailed h (ev_id e) \<in> set (rw_log w)"

lemma answered_woken:
  "wake_agent env cfg d e text h r w1 = (Some b, w) \<Longrightarrow> plain_sha env \<Longrightarrow> candidate w0 h p \<Longrightarrow>
   routing_registration_failure p (rc_workspace_id cfg) = Inr r \<Longrightarrow> answered env cfg w0 w e h"
  unfolding answered_def using wake_agent_woken by blast

lemma answered_refused:
  "refuse env cfg d e h code summary w1 = (Some b, w) \<Longrightarrow> plain_sha env \<Longrightarrow> code \<in> set exception_codes \<Longrightarrow> answered env cfg w0 w e h"
  unfolding answered_def refuse_def and_then_Some by (auto dest!: emit_exception_stored)

lemma failure_code: "routing_registration_failure p ws = Inl code \<Longrightarrow> code \<in> set exception_codes"
  by (auto simp: routing_registration_failure_def exception_codes_def split: option.splits if_splits)

lemma route_mention_answered:
  assumes "route_mention env cfg d e text h w = (Some b, w')" "plain_sha env" "ev_thread_id e \<noteq> []" "ev_id e \<noteq> []"
  shows "answered env cfg w w' e h"
proof -
  define look where "look = (\<lambda>w. case by_handle w h of Some p \<Rightarrow> (Some (Some p), w)
      | None \<Rightarrow> refresh_principal cfg (rd_now d) (rd_up d h RefreshUnknown) h w)"
  have look: "candidate w h p" if "look w = (Some (Some p), w1)" for p w1
    using that by (cases "by_handle w h") (auto simp: look_def candidate_def dest: refresh_candidate [unfolded candidate_def])
  have works: "works w w1" if "look w = (r, w1)" for r w1
    using that steadyD [OF steady_refresh] by (auto simp: look_def split: option.splits)
  obtain found w1 where 1: "look w = (Some found, w1)" and rest: "(case found of
           None \<Rightarrow> unknown_agent env cfg d e h
         | Some p \<Rightarrow> (case routing_registration_failure p (rc_workspace_id cfg) of
               Inr r \<Rightarrow> wake_agent env cfg d e text h r
             | Inl _ \<Rightarrow> and_then (refresh_principal cfg (rd_now d) (rd_up d h RefreshRefused) h)
                 (\<lambda>again. case again of
                    None \<Rightarrow> unknown_agent env cfg d e h
                  | Some q \<Rightarrow> (case routing_registration_failure q (rc_workspace_id cfg) of
                        Inr r \<Rightarrow> wake_agent env cfg d e text h r
                      | Inl code \<Rightarrow> refuse env cfg d e h code (failure_summary code (av_username q) (rc_workspace_id cfg)))))) w1
      = (Some b, w')"
    using assms(1,3,4) unfolding route_mention_def look_def [symmetric] by (auto simp: and_then_Some)
  have unknown: "unknown_agent env cfg d e h v = (Some b, w') \<Longrightarrow> answered env cfg w w' e h" for v
    unfolding unknown_agent_def by (erule answered_refused [OF _ assms(2)]) (simp add: exception_codes_def)
  have again: "candidate w h q" if "refresh_principal cfg (rd_now d) (rd_up d h RefreshRefused) h w1 = (Some (Some q), w2)" for q w2
    using works_candidate [OF works [OF 1] refresh_candidate [OF that]] .
  note woken = answered_woken [OF _ assms(2)] and refused = answered_refused [OF _ assms(2) failure_code]
  show ?thesis
  proof (cases found)
    case None
    then show ?thesis using rest unknown by simp
  next
    case (Some p)
    show ?thesis
    proof (cases "routing_registration_failure p (rc_workspace_id cfg)")
      case (Inr r)
      then show ?thesis using rest woken [OF _ look Inr] 1 Some by simp
    next
      case (Inl code)
      with rest Some obtain f w2 where 2: "refresh_principal cfg (rd_now d) (rd_up d h RefreshRefused) h w1 = (Some f, w2)"
        and last: "(case f of None \<Rightarrow> unknown_agent env cfg d e h
                  | Some q \<Rightarrow> (case routing_registration_failure q (rc_workspace_id cfg) of
                        Inr r \<Rightarrow> wake_agent env cfg d e text h r
                      | Inl code \<Rightarrow> refuse env cfg d e h code (failure_summary code (av_username q) (rc_workspace_id cfg)))) w2 = (Some b, w')"
        by (auto simp: and_then_Some)
      show ?thesis
      proof (cases f)
        case None
        then show ?thesis using last unknown by simp
      next
        case (Some q)
        have q: "candidate w h q" using again 2 Some by simp
        show ?thesis
        proof (cases "routing_registration_failure q (rc_workspace_id cfg)")
          case (Inl code)
          then show ?thesis using last Some by (auto intro: refused)
        next
          case (Inr r)
          then show ?thesis using last Some by (auto intro: woken [OF _ q Inr])
        qed
      qed
    qed
  qed
qed

section \<open>Answers stay\<close>

definition world_ok :: "router_world \<Rightarrow> bool" where
  "world_ok w \<longleftrightarrow> events_ok (rw_db w) \<and> wakeups_ok (rw_wakeups w)"

definition later :: "router_world \<Rightarrow> router_world \<Rightarrow> bool" where
  "later w w' \<longleftrightarrow> event_step\<^sup>*\<^sup>* (rw_db w) (rw_db w') \<and> wakeup_run (rw_wakeups w) (rw_wakeups w') \<and> set (rw_log w) \<subseteq> set (rw_log w')"

lemma later_refl [simp]: "later w w" by (simp add: later_def)

lemma later_trans: "later u v \<Longrightarrow> later v w \<Longrightarrow> later u w"
  unfolding later_def by (auto intro: rtranclp_trans)

lemma later_intros: "works w w' \<Longrightarrow> later w w'" "others_may w w' \<Longrightarrow> later w w'"
  by (simp_all add: later_def works_def others_may_def)

lemma later_ok: "later w w' \<Longrightarrow> world_ok w \<Longrightarrow> world_ok w'"
  by (auto simp: later_def world_ok_def event_steps_keep(1) wakeup_run_ok)

lemma later_logged: "later w w' \<Longrightarrow> world_ok w \<Longrightarrow> logged e (rw_db w) \<Longrightarrow> logged e (rw_db w')"
  by (auto simp: later_def world_ok_def event_steps_keep(2))

lemma answered_later:
  assumes "answered env cfg w0 w e h" "later w w'" "world_ok w"
  shows "answered env cfg w0 w' e h"
proof -
  have row: "lookup i (rw_wakeups w') \<noteq> None" if some: "lookup i (rw_wakeups w) \<noteq> None" for i
  proof -
    obtain r where r: "lookup i (rw_wakeups w) = Some r" using some by blast
    have run: "wakeup_run (rw_wakeups w) (rw_wakeups w')" "wakeups_ok (rw_wakeups w)"
      using assms(2,3) by (simp_all add: later_def world_ok_def)
    show ?thesis by (rule wakeup_run_row [OF run r]) simp
  qed
  have event: "i \<in> ev_id ` set (ws_events (rw_db w'))" if "i \<in> ev_id ` set (ws_events (rw_db w))" for i
  proof -
    from that obtain x where "logged x (rw_db w)" "ev_id x = i" unfolding logged_def using same_message_refl by blast
    then show ?thesis using later_logged [OF assms(2,3)] logged_id by blast
  qed
  have log: "set (rw_log w) \<subseteq> set (rw_log w')" using assms(2) by (simp add: later_def)
  from assms(1) [unfolded answered_def] show ?thesis
  proof (elim disjE)
    assume "\<exists>p r. candidate w0 h p \<and> routing_registration_failure p (rc_workspace_id cfg) = Inr r \<and>
        (rg_actor_id r = trim (ev_actor_id e) \<or> lookup (wakeup_id_for env cfg e (rg_actor_id r)) (rw_wakeups w) \<noteq> None)"
    then show ?thesis using row unfolding answered_def by meson
  next
    assume "\<exists>code\<in>set exception_codes. exception_id env cfg code h (ev_id e) \<in> ev_id ` set (ws_events (rw_db w))"
    then show ?thesis using event unfolding answered_def by meson
  next
    assume "ExceptionFailed h (ev_id e) \<in> set (rw_log w)"
    then show ?thesis using log unfolding answered_def by blast
  qed
qed

lemma answered_started:
  assumes "answered env cfg w1 w e h" "works w0 w1"
  shows "answered env cfg w0 w e h"
  using assms(1) works_candidate [OF assms(2)] unfolding answered_def by blast

section \<open>Handling one message\<close>

lemma steady_refuse: "draw_ok d \<Longrightarrow> plain_sha env \<Longrightarrow> steady (refuse env cfg d e h code summary)"
  unfolding refuse_def by (intro steady_then steady_emit steady_pure)

lemma steady_branch:
  "steady m \<Longrightarrow> steady n \<Longrightarrow> steady (if b then m else n)"
  "steady m \<Longrightarrow> (\<And>x. steady (f x)) \<Longrightarrow> steady (case p of None \<Rightarrow> m | Some x \<Rightarrow> f x)"
  "(\<And>x. steady (g x)) \<Longrightarrow> (\<And>x. steady (f x)) \<Longrightarrow> steady (case s of Inl x \<Rightarrow> g x | Inr x \<Rightarrow> f x)"
  by (simp_all split: option.split sum.split)

lemma steady_look: "steady m \<Longrightarrow> steady (\<lambda>w. case f w of Some x \<Rightarrow> (g x, w) | None \<Rightarrow> m w)"
  by (simp add: steady_def split: option.split)

lemma steady_route: "draw_ok d \<Longrightarrow> plain_sha env \<Longrightarrow> steady (route_mention env cfg d e msg h)"
  unfolding route_mention_def unknown_agent_def
  by (intro steady_branch steady_look steady_then steady_refresh steady_refuse steady_wake steady_pure) assumption+

lemma log_line_works: "works w (log_line l w)"
  by (auto simp: works_def log_line_def)

text \<open>One mention with what is done when it fails.\<close>

definition route_one :: "router_env \<Rightarrow> router_config \<Rightarrow> router_draw \<Rightarrow> event_row \<Rightarrow> string \<Rightarrow> string \<Rightarrow> router_world \<Rightarrow> bool \<times> router_world" where
  "route_one env cfg d e msg h w =
     (case route_mention env cfg d e msg h w of
        (Some routed, w1) \<Rightarrow> (routed, w1)
      | (None, w1) \<Rightarrow>
          (case emit_exception env cfg d StoreFailure MarkFailureDirty e h ''mention_routing_failed'' (''Failed routing @'' @ h)
                 (log_line (RoutingFailed h (ev_id e)) w1) of
             (Some _, w2) \<Rightarrow> (False, w2)
           | (None, w2) \<Rightarrow> (False, log_line (ExceptionFailed h (ev_id e)) w2)))"

lemma route_all_Cons:
  "snd (route_all env cfg d e msg (h # hs) w) = snd (route_all env cfg d e msg hs (snd (route_one env cfg d e msg h w)))"
  by (simp add: route_one_def case_prod_unfold Let_def split: option.split)

lemma route_one_outcome:
  assumes "draw_ok d" "plain_sha env"
  shows "works w (snd (route_one env cfg d e msg h w))"
    and "ev_thread_id e \<noteq> [] \<Longrightarrow> ev_id e \<noteq> [] \<Longrightarrow> answered env cfg w (snd (route_one env cfg d e msg h w)) e h"
proof -
  obtain r w1 where 1: "route_mention env cfg d e msg h w = (r, w1)" by fastforce
  obtain x w2 where 2: "emit_exception env cfg d StoreFailure MarkFailureDirty e h ''mention_routing_failed'' (''Failed routing @'' @ h)
      (log_line (RoutingFailed h (ev_id e)) w1) = (x, w2)" by fastforce
  have w1: "works w w1" by (rule steadyD [OF steady_route [OF assms] 1])
  have w2: "works w w2" by (rule works_trans [OF works_trans [OF w1 log_line_works] steadyD [OF steady_emit [OF assms] 2]])
  have w3: "works w (log_line l w2)" for l by (rule works_trans [OF w2 log_line_works])
  show "works w (snd (route_one env cfg d e msg h w))" using w1 w2 w3 unfolding route_one_def 1 prod.case 2 by (simp split: option.split)
  assume e: "ev_thread_id e \<noteq> []" "ev_id e \<noteq> []"
  have routed: "answered env cfg w w1 e h" if "r = Some b" for b
    using route_mention_answered [OF 1 [unfolded that] assms(2) e] .
  have code: "''mention_routing_failed'' \<in> set exception_codes" by (simp add: exception_codes_def)
  have stored: "answered env cfg w w2 e h" if "x = Some u" for u
    using emit_exception_stored [OF 2 [unfolded that] assms(2)] code unfolding answered_def by blast
  have failed: "answered env cfg w (log_line (ExceptionFailed h (ev_id e)) w2) e h" by (simp add: answered_def log_line_def)
  show "answered env cfg w (snd (route_one env cfg d e msg h w)) e h"
    using routed stored failed unfolding route_one_def 1 prod.case 2 by (simp split: option.split)
qed

lemma route_all_outcome:
  assumes "draw_ok d" "plain_sha env"
  shows "works w (snd (route_all env cfg d e msg hs w)) \<and>
    (ev_thread_id e \<noteq> [] \<longrightarrow> ev_id e \<noteq> [] \<longrightarrow> world_ok w \<longrightarrow>
       (\<forall>h\<in>set hs. answered env cfg w (snd (route_all env cfg d e msg hs w)) e h))"
proof (induction hs arbitrary: w)
  case (Cons k hs)
  define v where "v = snd (route_one env cfg d e msg k w)"
  let ?w' = "snd (route_all env cfg d e msg hs v)"
  have v: "works w v" unfolding v_def by (rule route_one_outcome(1) [OF assms])
  have IH: "works v ?w'" using Cons.IH by blast
  have "\<forall>h\<in>set (k # hs). answered env cfg w ?w' e h" if e: "ev_thread_id e \<noteq> []" "ev_id e \<noteq> []" "world_ok w"
  proof -
    have ok: "world_ok v" by (rule later_ok [OF later_intros(1) [OF v] e(3)])
    have "answered env cfg w v e k" unfolding v_def by (rule route_one_outcome(2) [OF assms e(1,2)])
    then have "answered env cfg w ?w' e k" by (rule answered_later [OF _ later_intros(1) [OF IH] ok])
    moreover have "answered env cfg w ?w' e h" if "h \<in> set hs" for h
      using answered_started [OF _ v] Cons.IH [of v] e(1,2) ok that by blast
    ultimately show ?thesis by simp
  qed
  then show ?case using works_trans [OF v IH] unfolding route_all_Cons v_def [symmetric] by blast
qed simp

section \<open>The cursor\<close>

definition cursor_in :: "(string \<times> json) list \<Rightarrow> event_cursor" where
  "cursor_in vs = (last_event_ts vs, last_event_id vs)"

definition cursor_keys :: "string list" where "cursor_keys = [''last_event_ts'', ''last_event_id'']"

definition event_key :: "event_row \<Rightarrow> event_cursor" where "event_key e = (ev_ts e, ev_id e)"

lemma map_of_put_values: "map_of (put_values us vs) k = (case map_of us k of Some v \<Rightarrow> Some v | None \<Rightarrow> map_of vs k)"
proof -
  have "map_of (filter (\<lambda>(k, _). k \<notin> A) vs) k = (if k \<in> A then None else map_of vs k)" for A
    by (induction vs) auto
  moreover have "map_of us k \<noteq> None \<longleftrightarrow> k \<in> fst ` set us" by (induction us) auto
  ultimately show ?thesis by (auto simp: put_values_def map_add_def split: option.split)
qed

lemma cursor_put_other: "set cursor_keys \<inter> fst ` set us = {} \<Longrightarrow> cursor_in (put_values us vs) = cursor_in vs"
  by (auto simp: cursor_in_def last_event_ts_def last_event_id_def state_text_def map_of_put_values cursor_keys_def map_of_eq_None_iff [THEN iffD2])

lemma cursor_put: "cursor_in (put_values [(''last_event_ts'', JText ts), (''last_event_id'', JText i)] vs) = (ts, i)"
  by (simp add: cursor_in_def last_event_ts_def last_event_id_def state_text_def map_of_put_values)

lemma update_state_outcome:
  assumes "update_state cfg sv us w = (r, w')"
  shows "\<exists>k\<in>{rw_disk w, put_values us (rw_memory w)}. w' = w\<lparr>rw_memory := put_values us (rw_memory w), rw_disk := k\<rparr>"
  using assms by (auto simp: update_state_def save_locked_def split: if_splits save_outcome.splits)

text \<open>How a world goes on while one message is handled.\<close>

definition goes_on :: "router_world \<Rightarrow> router_world \<Rightarrow> bool" where
  "goes_on w w' \<longleftrightarrow> later w w' \<and> (\<forall>h p. candidate w' h p \<longrightarrow> candidate w h p) \<and>
     cursor_in (rw_memory w') = cursor_in (rw_memory w) \<and>
     cursor_in (rw_disk w') \<in> {cursor_in (rw_disk w), cursor_in (rw_memory w)} \<and> messages_in (rw_db w') = messages_in (rw_db w)"

lemma goes_on_refl [simp]: "goes_on w w" by (simp add: goes_on_def)

lemma goes_on_trans: "goes_on u v \<Longrightarrow> goes_on v w \<Longrightarrow> goes_on u w"
  using later_trans [of u v w] by (auto simp: goes_on_def)

lemma works_goes_on: "works w w' \<Longrightarrow> goes_on w w'"
  using works_candidate [of w w'] later_intros(1) [of w w'] by (auto simp: goes_on_def works_def)

lemma update_goes_on:
  assumes "update_state cfg sv us w = (r, w')" "set cursor_keys \<inter> fst ` set us = {}"
  shows "goes_on w w'"
proof -
  obtain k where k: "k \<in> {rw_disk w, put_values us (rw_memory w)}"
    and w': "w' = w\<lparr>rw_memory := put_values us (rw_memory w), rw_disk := k\<rparr>"
    using update_state_outcome [OF assms(1)] by blast
  have "cursor_in k \<in> {cursor_in (rw_disk w), cursor_in (rw_memory w)}" using k cursor_put_other [OF assms(2), of "rw_memory w"] by (elim insertE) simp_all
  then show ?thesis unfolding goes_on_def later_def candidate_def by_handle_def w' cursor_put_other [OF assms(2)]
    using cursor_put_other [OF assms(2), of "rw_memory w"] by simp
qed

lemma answered_goes_on:
  assumes "answered env cfg w1 w2 e h" "goes_on w0 w1" "later w2 w3" "world_ok w2"
  shows "answered env cfg w0 w3 e h"
  using answered_later [OF assms(1,3,4)] assms(2) unfolding answered_def goes_on_def by blast

lemma goes_on_ok: "goes_on w w' \<Longrightarrow> world_ok w \<Longrightarrow> world_ok w'"
  by (auto simp: goes_on_def intro: later_ok)

definition mentions_of :: "event_row \<Rightarrow> string list" where
  "mentions_of e = extract_mentions (extract_message_text e)"

definition all_answered :: "router_env \<Rightarrow> router_config \<Rightarrow> router_world \<Rightarrow> router_world \<Rightarrow> event_row \<Rightarrow> bool" where
  "all_answered env cfg w0 w e \<longleftrightarrow> (\<forall>h\<in>set (mentions_of e). answered env cfg w0 w e h)"

lemma seen_keys:
  "set cursor_keys \<inter> fst ` set ([(''router_last_message_seen_at'', a), (''router_last_message_seen_event_id'', b)] @
     (if c then [] else [(''router_last_tagged_message_event_id'', d), (''router_last_tagged_message_seen_at'', f),
        (''router_last_tagged_handles'', g), (''router_last_tagged_message_preview'', k)])) = {}"
  "set cursor_keys \<inter> fst ` set [(''router_last_routed_event_id'', a), (''router_last_routed_at'', b), (''router_last_routed_handles'', d)] = {}"
  by (simp_all add: cursor_keys_def)

lemma handle_event_outcome:
  assumes "handle_event env cfg d e w = (r, w')" "draw_ok d" "plain_sha env" "world_ok w"
  shows "goes_on w w'" "r = Some u \<Longrightarrow> ev_thread_id e \<noteq> [] \<Longrightarrow> ev_id e \<noteq> [] \<Longrightarrow> all_answered env cfg w w' e"
proof -
  define hs where "hs = mentions_of e"
  define seen where "seen = [(''router_last_message_seen_at'', JText (rd_text d)), (''router_last_message_seen_event_id'', JText (ev_id e))] @
            (if hs = [] then [] else
               [(''router_last_tagged_message_event_id'', JText (ev_id e)), (''router_last_tagged_message_seen_at'', JText (rd_text d)),
                (''router_last_tagged_handles'', JList (map JText hs)),
                (''router_last_tagged_message_preview'', JText (compact_text (extract_message_text e) 140))])"
  obtain r1 w1 where 1: "update_state cfg (rd_save d SaveSeen) seen w = (r1, w1)" by fastforce
  have g1: "goes_on w w1" by (rule update_goes_on [OF 1]) (simp only: seen_def seen_keys)
  obtain r2 w2 where 2: "load_principals cfg (rd_now d) (rd_up d [] LoadPrincipals) False w1 = (r2, w2)" by fastforce
  have g2: "goes_on w w2" by (rule goes_on_trans [OF g1 works_goes_on [OF steadyD [OF steady_load 2]]])
  obtain routed w3 where 3: "route_all env cfg d e (extract_message_text e) hs w2 = (routed, w3)" by fastforce
  note all = route_all_outcome [where w = w2 and e = e and cfg = cfg and msg = "extract_message_text e" and hs = hs, OF assms(2,3), unfolded 3 snd_conv]
  have w3: "works w2 w3" using all by blast
  have g3: "goes_on w w3" by (rule goes_on_trans [OF g2 works_goes_on [OF w3]])
  define routing where "routing = [(''router_last_routed_event_id'', JText (ev_id e)), (''router_last_routed_at'', JText (rd_text d)),
                (''router_last_routed_handles'', JList (map JText routed))]"
  obtain r4 w4 where 4: "update_state cfg (rd_save d SaveRouted) routing w3 = (r4, w4)" by fastforce
  have step: "goes_on w3 w4" by (rule update_goes_on [OF 4]) (simp only: routing_def seen_keys)
  have eq: "(r, w') = (if r1 = None then (None, w1) else if hs = [] then (Some (), w1) else if r2 = None then (None, w2)
      else if routed = [] then (Some (), w3) else (r4, w4))"
    using assms(1) unfolding handle_event_def Let_def mentions_of_def [symmetric] hs_def [symmetric] seen_def [symmetric]
      and_then_def 1 prod.case
    by (auto simp: 2 3 4 [unfolded routing_def] split: option.splits if_splits)
  show "goes_on w w'" using eq g1 g2 g3 goes_on_trans [OF g3 step] by (auto split: if_splits)
  have ok: "world_ok w2" "world_ok w3" using goes_on_ok [OF g2 assms(4)] goes_on_ok [OF g3 assms(4)] .
  assume e: "ev_thread_id e \<noteq> []" "ev_id e \<noteq> []"
  have "answered env cfg w2 w3 e h" if "h \<in> set hs" for h using all e ok(1) that by blast
  from answered_goes_on [OF this g2 _ ok(2)] have answers: "answered env cfg w w3 e h" "answered env cfg w w4 e h" if "h \<in> set hs" for h
    using that step by (auto simp: goes_on_def)
  assume "r = Some u"
  then show "all_answered env cfg w w' e" using eq answers by (auto simp: all_answered_def hs_def split: if_splits)
qed

text \<open>Either the mentions are answered, or the cursor, in memory and on disk, is still where it was.\<close>

lemma handle_next_outcome:
  assumes "handle_next env cfg d e w = (r, w')" "draw_ok d" "plain_sha env" "world_ok w"
  shows "later w w'"
    and "messages_in (rw_db w') = messages_in (rw_db w)"
    and "cursor_in (rw_memory w') \<in> {cursor_in (rw_memory w), event_key e}"
    and "cursor_in (rw_disk w') \<in> {cursor_in (rw_disk w), cursor_in (rw_memory w), event_key e}"
    and "r = Some c \<Longrightarrow> cursor_in (rw_memory w') = event_key e \<and> c = event_key e"
    and "ev_thread_id e \<noteq> [] \<Longrightarrow> ev_id e \<noteq> [] \<Longrightarrow> all_answered env cfg w w' e \<or> r = None \<and> cursor_in (rw_memory w') = cursor_in (rw_memory w) \<and>
      cursor_in (rw_disk w') \<in> {cursor_in (rw_disk w), cursor_in (rw_memory w)}"
proof -
  obtain r1 w1 where 1: "handle_event env cfg d e w = (r1, w1)" by fastforce
  note one = handle_event_outcome [OF 1 assms(2-4)]
  define us where "us = [(''last_event_ts'', JText (ev_ts e)), (''last_event_id'', JText (ev_id e))]"
  obtain r2 w2 where 2: "update_state cfg (rd_save d SaveCursor) us w1 = (r2, w2)" by fastforce
  from update_state_outcome [OF 2] obtain k where k: "k \<in> {rw_disk w1, put_values us (rw_memory w1)}"
    and w2: "w2 = w1\<lparr>rw_memory := put_values us (rw_memory w1), rw_disk := k\<rparr>" by blast
  have cur: "cursor_in (put_values us (rw_memory w1)) = event_key e" unfolding us_def event_key_def by (rule cursor_put)
  have later2: "later w1 w2" by (simp add: w2 later_def)
  have eq: "r1 = None \<and> r = None \<and> w' = w1 \<or> r1 = Some () \<and> w' = w2 \<and> (\<forall>c. r = Some c \<longrightarrow> c = event_key e)"
    using assms(1) unfolding handle_next_def and_then_def 1 prod.case set_last_event_cursor_def us_def [symmetric]
    by (auto simp: 2 event_key_def split: option.splits)
  have mem: "cursor_in (rw_memory w2) = event_key e" "cursor_in (rw_disk w2) \<in> {cursor_in (rw_disk w1), event_key e}"
    using k cur by (auto simp: w2)
  show "later w w'" "messages_in (rw_db w') = messages_in (rw_db w)"
    using eq one(1) later_trans [OF _ later2] by (auto simp: goes_on_def w2)
  show "cursor_in (rw_memory w') \<in> {cursor_in (rw_memory w), event_key e}"
    "cursor_in (rw_disk w') \<in> {cursor_in (rw_disk w), cursor_in (rw_memory w), event_key e}"
    using eq one(1) mem by (auto simp: goes_on_def)
  show "r = Some c \<Longrightarrow> cursor_in (rw_memory w') = event_key e \<and> c = event_key e" using eq mem by auto
  assume e: "ev_thread_id e \<noteq> []" "ev_id e \<noteq> []"
  have "all_answered env cfg w w2 e" if "r1 = Some ()"
    using one(2) [OF that e] answered_later [OF _ later2 goes_on_ok [OF one(1) assms(4)]] by (auto simp: all_answered_def)
  then show "all_answered env cfg w w' e \<or> r = None \<and> cursor_in (rw_memory w') = cursor_in (rw_memory w) \<and>
      cursor_in (rw_disk w') \<in> {cursor_in (rw_disk w), cursor_in (rw_memory w)}"
    using eq one(1) by (auto simp: goes_on_def)
qed

section \<open>Where the cursor stands\<close>

definition passed :: "router_env \<Rightarrow> (string \<times> json) list \<Rightarrow> event_row \<Rightarrow> bool" where
  "passed env vs e \<longleftrightarrow> \<not> after_cursor (re_jd env) (cursor_in vs) e"

text \<open>A state file holds both parts of a cursor, or neither.\<close>

definition proper_cursor :: "(string \<times> json) list \<Rightarrow> bool" where
  "proper_cursor vs \<longleftrightarrow> (trim (fst (cursor_in vs)) = [] \<longrightarrow> trim (snd (cursor_in vs)) = [])"

lemma resolve_proper: "proper_cursor (rw_memory w) \<Longrightarrow> resolve_cursor w = cursor_in (rw_memory w)"
  by (auto simp: resolve_cursor_def proper_cursor_def cursor_in_def Let_def)

lemma proper_key: "event_ok x \<Longrightarrow> cursor_in vs = event_key x \<Longrightarrow> proper_cursor vs"
  by (simp add: proper_cursor_def event_key_def event_ok_def)

lemma after_key: "event_ok x \<Longrightarrow> after_cursor jd (event_key x) e \<longleftrightarrow> jd_key jd x < jd_key jd e"
  by (simp add: after_cursor_def event_key_def event_ok_def jd_key_def)

lemma messages_after_eq:
  "messages_after env c db =
     take 100 (sort_key (jd_key (re_jd env)) (filter (\<lambda>e. ev_type e = message_posted \<and> after_cursor (re_jd env) c e) (ws_events db)))"
proof -
  have scope: "apply_event_backing_scope [message_posted] [] = ([message_posted], False)"
    by (simp add: apply_event_backing_scope_def normalize_backing_scope_def Let_def)
  show ?thesis by (simp add: messages_after_def list_events_after_def scope event_batch_size_def)
qed

lemma set_takeWhile_take: "set (takeWhile P (take n xs)) \<subseteq> set (takeWhile P xs)"
proof (induction xs arbitrary: n)
  case (Cons x xs)
  then show ?case by (cases n) auto
qed simp

lemma takeWhile_before:
  assumes "\<not> P x"
  shows "set (takeWhile P (us @ x # vs)) \<subseteq> set us"
proof
  fix y assume "y \<in> set (takeWhile P (us @ x # vs))"
  then have "y \<in> set us \<or> y \<in> set (takeWhile P us)" using assms by (simp add: takeWhile_append split: if_splits)
  then show "y \<in> set us" using set_takeWhileD by fastforce
qed

definition in_order :: "router_env \<Rightarrow> event_row list \<Rightarrow> event_row \<Rightarrow> bool" where
  "in_order env b e \<longleftrightarrow> (\<forall>x\<in>set (takeWhile (\<lambda>x. ev_id x \<noteq> ev_id e) b). jd_key (re_jd env) x < jd_key (re_jd env) e)"

definition batch_ok :: "event_row \<Rightarrow> event_row list \<Rightarrow> bool" where
  "batch_ok e b \<longleftrightarrow> (\<forall>x\<in>set b. event_ok x \<and> (ev_id x = ev_id e \<longrightarrow> same_message x e))"

lemma jd_key_same: "same_message x e \<Longrightarrow> jd_key jd x = jd_key jd e"
  by (simp add: same_message_def jd_key_def)

lemma listing_in_order:
  assumes "events_ok db" "logged e db" "ev_type e = message_posted" "after_cursor (re_jd env) c e"
  shows "in_order env (messages_after env c db) e"
proof -
  let ?L = "sort_key (jd_key (re_jd env)) (filter (\<lambda>e. ev_type e = message_posted \<and> after_cursor (re_jd env) c e) (ws_events db))"
  obtain x where x: "x \<in> set (ws_events db)" "same_message x e" using assms(2) by (auto simp: logged_def)
  note key = jd_key_same [OF x(2), of "re_jd env"]
  have "after_cursor (re_jd env) c x" using assms(4) by (simp add: after_cursor_def key)
  then have "x \<in> set ?L" using x assms(3) by (simp add: same_message_def)
  then obtain us vs where L: "?L = us @ x # vs" using split_list by metis
  have id: "ev_id x = ev_id e" using x(2) by (simp add: same_message_def)
  show "in_order env (messages_after env c db) e"
    unfolding in_order_def messages_after_eq
  proof
    fix y assume y: "y \<in> set (takeWhile (\<lambda>x. ev_id x \<noteq> ev_id e) (take 100 ?L))"
    then have "y \<in> set us" using set_takeWhile_take takeWhile_before [of "\<lambda>x. ev_id x \<noteq> ev_id e" x us vs] id L by fastforce
    moreover have "sorted (map (jd_key (re_jd env)) (us @ x # vs))" using sorted_sort_key L by metis
    ultimately have "jd_key (re_jd env) y \<le> jd_key (re_jd env) x" by (auto simp: sorted_append)
    moreover have "ev_id y \<noteq> ev_id x" using y id by (auto dest: set_takeWhileD)
    ultimately show "jd_key (re_jd env) y < jd_key (re_jd env) e"
      unfolding key by (auto simp: jd_key_def order.strict_iff_order id [symmetric] key [symmetric])
  qed
qed

lemma listing_ok:
  assumes "events_ok db" "logged e db"
  shows "batch_ok e (messages_after env c db)"
proof -
  obtain x where x: "x \<in> set (ws_events db)" "same_message x e" using assms(2) by (auto simp: logged_def)
  have "same_message y e" if "y \<in> set (ws_events db)" "ev_id y = ev_id e" for y
    using same_event [OF assms(1) that(1) x(1)] that(2) x(2) by (simp add: same_message_def)
  then show ?thesis using assms(1) unfolding batch_ok_def messages_after_eq by (auto simp: events_ok_def dest: in_set_takeD)
qed

section \<open>No mention is skipped\<close>

definition pending :: "router_env \<Rightarrow> router_state \<Rightarrow> event_row \<Rightarrow> bool" where
  "pending env s e \<longleftrightarrow> (\<forall>vs\<in>{rw_memory (fst s), rw_disk (fst s)}. proper_cursor vs \<and> \<not> passed env vs e) \<and> in_order env (snd s) e"

definition watched :: "router_env \<Rightarrow> router_config \<Rightarrow> router_state \<Rightarrow> event_row \<Rightarrow> router_state \<Rightarrow> bool" where
  "watched env cfg s0 e s \<longleftrightarrow> world_ok (fst s) \<and> logged e (rw_db (fst s)) \<and> batch_ok e (snd s) \<and>
     (pending env s e \<or> (\<exists>s1. router_run env cfg s0 s1 \<and> router_run env cfg s1 s \<and> all_answered env cfg (fst s1) (fst s) e))"

lemma restart_later: "later w (new_state_store cfg w)" by (simp add: later_def new_state_store_def)

lemma step_later:
  assumes "router_step env cfg s s'" "plain_sha env" "world_ok (fst s)"
  shows "later (fst s) (fst s')"
  using assms by (cases rule: router_step.cases) (auto intro: handle_next_outcome(1) restart_later later_intros(2))

lemma all_answered_later:
  "all_answered env cfg w0 w e \<Longrightarrow> later w w' \<Longrightarrow> world_ok w \<Longrightarrow> all_answered env cfg w0 w' e"
  unfolding all_answered_def using answered_later by blast

lemma all_answered_same: "same_message x e \<Longrightarrow> all_answered env cfg w0 w x \<longleftrightarrow> all_answered env cfg w0 w e"
  by (simp add: all_answered_def mentions_of_def answered_def same_message_def wakeup_id_for_def extract_message_text_def)

lemma passed_key: "event_ok x \<Longrightarrow> cursor_in vs = event_key x \<Longrightarrow> passed env vs e \<longleftrightarrow> \<not> jd_key (re_jd env) x < jd_key (re_jd env) e"
  by (simp add: passed_def after_key)

lemma no_state: "proper_cursor []" "\<not> passed env [] e"
  by (simp_all add: proper_cursor_def passed_def cursor_in_def last_event_ts_def last_event_id_def state_text_def after_cursor_def)

lemma pending_handle:
  assumes "handle_next env cfg d x w = (r, w')" "draw_ok d" "plain_sha env" "world_ok w"
    and "pending env (w, x # es) e" "batch_ok e (x # es)" "ev_thread_id e \<noteq> []" "b \<in> {es, []}" "r = None \<Longrightarrow> b = []"
  shows "pending env (w', b) e \<or> all_answered env cfg w w' e"
proof -
  note out = handle_next_outcome [OF assms(1-4)]
  have x: "event_ok x" using assms(6) by (simp add: batch_ok_def)
  have old: "proper_cursor vs \<and> \<not> passed env vs e" if "vs \<in> {rw_memory w, rw_disk w}" for vs
    using assms(5) that by (auto simp: pending_def)
  have empty: "in_order env [] e" by (simp add: in_order_def)
  have cursor: "proper_cursor vs \<and> \<not> passed env vs e" if "cursor_in vs \<in> {cursor_in (rw_disk w), cursor_in (rw_memory w)}" for vs
    using old that by (auto simp: proper_cursor_def passed_def)
  show ?thesis
  proof (cases "ev_id x = ev_id e")
    case False
    then have key: "jd_key (re_jd env) x < jd_key (re_jd env) e" and rest: "in_order env es e"
      using assms(5) by (auto simp: pending_def in_order_def)
    have "proper_cursor vs \<and> \<not> passed env vs e"
      if "cursor_in vs \<in> {cursor_in (rw_disk w), cursor_in (rw_memory w), event_key x}" for vs
      using that cursor proper_key [OF x] passed_key [OF x, of vs env e] key by auto
    then show ?thesis using out(3,4) rest empty assms(8) by (auto simp: pending_def)
  next
    case True
    have same: "same_message x e" using assms(6) True by (simp add: batch_ok_def)
    have "ev_thread_id x \<noteq> []" "ev_id x \<noteq> []" using same assms(7) x by (auto simp: same_message_def event_ok_def)
    from out(6) [OF this] show ?thesis
      using all_answered_same [OF same] cursor [of "rw_memory w'"] cursor [of "rw_disk w'"] assms(9) empty
      by (auto simp: pending_def)
  qed
qed

lemma watched_step:
  assumes "watched env cfg s0 e s" "router_run env cfg s0 s" "router_step env cfg s s'" "plain_sha env"
    and "ev_type e = message_posted" "ev_thread_id e \<noteq> []"
  shows "watched env cfg s0 e s'"
proof -
  have ok: "world_ok (fst s)" "logged e (rw_db (fst s))" "batch_ok e (snd s)" using assms(1) by (simp_all add: watched_def)
  note later = step_later [OF assms(3,4) ok(1)]
  have kept: "world_ok (fst s')" "logged e (rw_db (fst s'))" using later_ok [OF later] later_logged [OF later] ok by blast+
  have events: "events_ok (rw_db (fst s))" using ok(1) by (simp add: world_ok_def)
  have batch: "batch_ok e (snd s')" using assms(3) ok(3) listing_ok [OF events ok(2)]
    by (cases rule: router_step.cases) (auto simp: batch_ok_def)
  have answers: "all_answered env cfg (fst s1) (fst s) e \<Longrightarrow> all_answered env cfg (fst s1) (fst s') e" for s1
    by (rule all_answered_later [OF _ later ok(1)])
  have "pending env s' e \<or> all_answered env cfg (fst s) (fst s') e" if p: "pending env s e"
    using assms(3)
  proof (cases rule: router_step.cases)
    case (step_list w)
    then have "after_cursor (re_jd env) (resolve_cursor w) e" using p resolve_proper by (simp add: pending_def passed_def)
    then show ?thesis using listing_in_order [OF events ok(2) assms(5)] p step_list by (simp add: pending_def)
  next
    case (step_handle d x w c w' es)
    then show ?thesis using pending_handle [OF step_handle(3,4) assms(4), of es e es] ok p assms(6) by simp
  next
    case (step_fail d x w w' es)
    then show ?thesis using pending_handle [OF step_fail(3,4) assms(4), of es e "[]"] ok p assms(6) by simp
  next
    case (step_restart w es)
    then show ?thesis using p no_state by (auto simp: pending_def new_state_store_def in_order_def)
  next
    case (step_others w w' es)
    then show ?thesis using p by (simp add: pending_def others_may_def)
  qed
  moreover have "router_run env cfg x s'" if "router_run env cfg x s" for x
    using that assms(3) by (rule rtranclp.rtrancl_into_rtrancl)
  moreover have "router_run env cfg s s'" using assms(3) by (rule r_into_rtranclp)
  ultimately show ?thesis using assms(1,2) kept batch answers unfolding watched_def by meson
qed

lemma watched_run:
  assumes "router_run env cfg s0 s" "watched env cfg s0 e s0" "plain_sha env" "ev_type e = message_posted" "ev_thread_id e \<noteq> []"
  shows "watched env cfg s0 e s"
  using assms(1)
proof (induction rule: rtranclp_induct)
  case (step s s')
  then show ?case using watched_step assms(3-5) by blast
qed (rule assms(2))

text \<open>
  C5. Take a message in the log that the cursor has not reached.  However the router and the others go on, with failures and
  restarts: once the cursor has passed the message, every mention in it has been answered.
\<close>

theorem no_mention_skipped:
  assumes "router_run env cfg (w0, []) (w, b)" "plain_sha env" "event_history (rw_db w0)" "wakeup_run [] (rw_wakeups w0)"
    and "e \<in> set (ws_events (rw_db w0))" "ev_type e = message_posted" "ev_thread_id e \<noteq> []"
    and "\<forall>vs\<in>{rw_memory w0, rw_disk w0}. proper_cursor vs \<and> \<not> passed env vs e"
    and "passed env (rw_memory w) e" "h \<in> set (mentions_of e)"
  shows "\<exists>w1 b1. router_run env cfg (w0, []) (w1, b1) \<and> router_run env cfg (w1, b1) (w, b) \<and> answered env cfg w1 w e h"
proof -
  have ok: "world_ok w0" using event_history_ok [OF assms(3)] history_ok [OF assms(4)] by (simp add: world_ok_def)
  have "logged e (rw_db w0)" using assms(5) same_message_refl unfolding logged_def by blast
  then have "watched env cfg (w0, []) e (w0, [])"
    using ok assms(8) by (simp add: watched_def batch_ok_def pending_def in_order_def)
  from watched_run [OF assms(1) this assms(2,6,7)] have "\<exists>s1. router_run env cfg (w0, []) s1 \<and> router_run env cfg s1 (w, b) \<and>
      all_answered env cfg (fst s1) w e"
    using assms(9) by (auto simp: watched_def pending_def)
  then show ?thesis using assms(10) by (auto simp: all_answered_def)
qed

end
