(* ===== verification/RouterRules.thy ===== *)
theory RouterRules
  imports RouterRuns DocumentSamples
begin

text \<open>
  A poll ends and catches up with the log; which messages the router never sees; and a message routed end to end.
\<close>

section \<open>A poll\<close>

definition messages_left :: "router_env \<Rightarrow> event_cursor \<Rightarrow> ws_db \<Rightarrow> event_row list" where
  "messages_left env c db = filter (after_cursor (re_jd env) c) (messages_in db)"

lemma messages_after_left: "messages_after env c db = take 100 (sort_key (jd_key (re_jd env)) (messages_left env c db))"
  unfolding messages_after_eq messages_left_def messages_in_def filter_filter by (simp add: conj_commute)

text \<open>A batch is handled step by step.\<close>

lemma handle_batch_run:
  assumes "handle_batch env cfg ds c b w = (r, w')" "\<And>i. draw_ok (ds i)" "plain_sha env" "world_ok w"
  shows "router_run env cfg (w, b) (w', []) \<and> messages_in (rw_db w') = messages_in (rw_db w) \<and> world_ok w' \<and>
    (\<forall>c'. r = Some c' \<longrightarrow> b \<noteq> [] \<longrightarrow> c' = event_key (last b) \<and> cursor_in (rw_memory w') = c')"
  using assms(1,4)
proof (induction b arbitrary: c w)
  case (Cons e b)
  obtain r1 w1 where 1: "handle_next env cfg (ds (ev_id e)) e w = (r1, w1)" by fastforce
  note out = handle_next_outcome [OF 1 assms(2,3) Cons.prems(2)]
  have ok: "world_ok w1" by (rule later_ok [OF out(1) Cons.prems(2)])
  show ?case
  proof (cases r1)
    case None
    then have "r = None" "w' = w1" using Cons.prems(1) 1 by (simp_all add: and_then_def)
    then show ?thesis using step_fail [OF 1 [unfolded None] assms(2)] out(2) ok by auto
  next
    case (Some c1)
    have rest: "handle_batch env cfg ds c1 b w1 = (r, w')" using Cons.prems(1) 1 Some by (simp add: and_then_def)
    have "router_run env cfg (w, e # b) (w', [])"
      using step_handle [OF 1 [unfolded Some] assms(2)] Cons.IH [OF rest ok] by (meson converse_rtranclp_into_rtranclp)
    moreover have "r = Some c1 \<and> w' = w1" if "b = []" using rest that by simp
    ultimately show ?thesis using Cons.IH [OF rest ok] out(2) out(5) [OF Some] by auto
  qed
qed simp

text \<open>A full batch leaves less to do.\<close>

lemma key_order:
  assumes "event_ok x" "after_cursor jd (event_key x) y" "after_cursor jd c x"
  shows "after_cursor jd c y"
  using assms(2,3) unfolding after_key [OF assms(1)] by (auto simp: after_cursor_def)

lemma batch_last:
  assumes "messages_after env c db = b" "b \<noteq> []" "events_ok db"
  shows "event_ok (last b)" "last b \<in> set (messages_left env c db)"
proof -
  have "last b \<in> set b" using assms(2) by simp
  then show "last b \<in> set (messages_left env c db)" using assms(1) unfolding messages_after_left by (auto dest: in_set_takeD)
  then show "event_ok (last b)" using assms(3) by (auto simp: messages_left_def messages_in_def events_ok_def)
qed

lemma fewer_left:
  assumes "messages_after env c db = b" "b \<noteq> []" "events_ok db" "messages_in db' = messages_in db"
  shows "length (messages_left env (event_key (last b)) db') < length (messages_left env c db)"
proof -
  note l = batch_last [OF assms(1-3)]
  let ?P = "after_cursor (re_jd env) c" and ?Q = "after_cursor (re_jd env) (event_key (last b))"
  have "?Q x \<Longrightarrow> ?P x" for x using key_order [OF l(1)] l(2) by (auto simp: messages_left_def)
  then have "messages_left env (event_key (last b)) db' = filter ?Q (messages_left env c db)"
    unfolding messages_left_def filter_filter assms(4) by (intro filter_cong) auto
  moreover have "\<not> ?Q (last b)" using after_key [OF l(1)] by simp
  ultimately show ?thesis using length_filter_less [OF l(2)] by metis
qed

lemma last_take_sorted:
  assumes "sorted (map f xs)" "xs \<noteq> []" "x \<in> set xs"
  shows "f x \<le> f (last xs)"
  using assms by (induction xs rule: rev_induct) (auto simp: sorted_append)

lemma none_left:
  assumes "messages_after env c db = b" "b \<noteq> []" "events_ok db" "int (length b) < event_batch_size" "messages_in db' = messages_in db"
  shows "messages_left env (event_key (last b)) db' = []"
proof -
  let ?L = "sort_key (jd_key (re_jd env)) (messages_left env c db)"
  have b: "b = ?L" using assms(1,4) unfolding messages_after_left by (auto simp: event_batch_size_def)
  note l = batch_last [OF assms(1-3)]
  have "\<not> after_cursor (re_jd env) (event_key (last b)) x" if "x \<in> set (messages_in db)" for x
  proof (cases "x \<in> set b")
    case True
    then have "jd_key (re_jd env) x \<le> jd_key (re_jd env) (last b)"
      using last_take_sorted [of "jd_key (re_jd env)" b x] assms(2) sorted_sort_key b by metis
    then show ?thesis using after_key [OF l(1)] by simp
  next
    case False
    then have "\<not> after_cursor (re_jd env) c x" using that b by (auto simp: messages_left_def)
    then show ?thesis using key_order [OF l(1), of "re_jd env" x c] l(2) by (auto simp: messages_left_def)
  qed
  then show ?thesis unfolding messages_left_def assms(5) by (simp add: filter_empty_conv)
qed

lemma poll_from_ends:
  assumes "\<And>i. draw_ok (ds i)" "plain_sha env" "world_ok w" "resolve_cursor w = c"
  shows "\<exists>r w'. poll_from env cfg ds c w = Some (r, w') \<and> router_run env cfg (w, []) (w', []) \<and>
    messages_in (rw_db w') = messages_in (rw_db w) \<and> (r = Some () \<longrightarrow> messages_left env (resolve_cursor w') (rw_db w') = [])"
  using assms(3,4)
proof (induction "length (messages_left env c (rw_db w))" arbitrary: c w rule: less_induct)
  case less
  define b where "b = messages_after env c (rw_db w)"
  have events: "events_ok (rw_db w)" using less.prems(1) by (simp add: world_ok_def)
  have listing: "router_step env cfg (w, []) (w, b)" unfolding b_def less.prems(2) [symmetric] by (rule step_list)
  show ?case
  proof (cases "b = []")
    case True
    then have "messages_left env c (rw_db w) = []" unfolding b_def messages_after_left
      by (metis set_empty set_sort take_eq_Nil zero_neq_numeral)
    then show ?thesis using True less.prems(2) by (subst poll_from.simps) (simp add: b_def Let_def)
  next
    case False
    obtain r w1 where batch: "handle_batch env cfg ds c b w = (r, w1)" by fastforce
    note out = handle_batch_run [OF batch assms(1,2) less.prems(1)]
    have run: "router_run env cfg (w, []) (w1, [])" using listing out by (meson converse_rtranclp_into_rtranclp)
    have same: "messages_in (rw_db w1) = messages_in (rw_db w)" and ok: "world_ok w1" using out by auto
    show ?thesis
    proof (cases r)
      case None
      then show ?thesis using run same False batch by (subst poll_from.simps) (simp add: b_def [symmetric] Let_def)
    next
      case (Some c')
      note l = batch_last [OF b_def [symmetric] False events]
      have c': "c' = event_key (last b)" "cursor_in (rw_memory w1) = c'" using out Some False by auto
      have res: "resolve_cursor w1 = c'" using c' resolve_proper proper_key [OF l(1)] by simp
      show ?thesis
      proof (cases "int (length b) < event_batch_size")
        case True
        then show ?thesis using run same False batch Some res none_left [OF b_def [symmetric] False events True same] c'(1)
          by (subst poll_from.simps) (simp add: b_def [symmetric] Let_def)
      next
        case full: False
        have "length (messages_left env c' (rw_db w1)) < length (messages_left env c (rw_db w))"
          unfolding c'(1) by (rule fewer_left [OF b_def [symmetric] False events same])
        from less.hyps [OF this ok res] obtain r2 w2 where 2: "poll_from env cfg ds c' w1 = Some (r2, w2)"
          "router_run env cfg (w1, []) (w2, [])" "messages_in (rw_db w2) = messages_in (rw_db w1)"
          "r2 = Some () \<longrightarrow> messages_left env (resolve_cursor w2) (rw_db w2) = []" by blast
        have "poll_from env cfg ds c w = Some (r2, w2)"
          using full False batch Some 2(1) by (subst poll_from.simps) (simp add: b_def [symmetric] Let_def)
        then show ?thesis using 2 same rtranclp_trans [OF run 2(2)] by auto
      qed
    qed
  qed
qed

text \<open>
  C12. A poll ends, however many messages there are, and it is a run of the router.  If it reports no error, it has handled all the
  messages in the log.
\<close>

theorem poll_catches_up:
  assumes "plain_sha env" "\<forall>i. draw_ok (ds i)" "event_history (rw_db w)" "wakeup_run [] (rw_wakeups w)" "proper_cursor (rw_memory w)"
  shows "\<exists>r w'. run_once env cfg ds w = Some (r, w') \<and> router_run env cfg (w, []) (w', []) \<and>
    (r = Some () \<longrightarrow> (\<forall>e\<in>set (ws_events (rw_db w)). ev_type e = message_posted \<longrightarrow> \<not> after_cursor (re_jd env) (resolve_cursor w') e))"
proof -
  have "world_ok w" using event_history_ok [OF assms(3)] history_ok [OF assms(4)] by (simp add: world_ok_def)
  from poll_from_ends [of ds env w, OF _ assms(1) this refl] assms(2) obtain r w' where
    run: "run_once env cfg ds w = Some (r, w')" "router_run env cfg (w, []) (w', [])" "messages_in (rw_db w') = messages_in (rw_db w)"
      "r = Some () \<longrightarrow> messages_left env (resolve_cursor w') (rw_db w') = []"
    unfolding run_once_def by blast
  have "\<not> after_cursor (re_jd env) (resolve_cursor w') e"
    if "r = Some ()" "e \<in> set (ws_events (rw_db w))" "ev_type e = message_posted" for e
  proof -
    have "e \<in> set (messages_in (rw_db w'))" using that(2,3) unfolding run(3) by (simp add: messages_in_def)
    then show ?thesis using run(4) that(1) by (auto simp: messages_left_def filter_empty_conv)
  qed
  with run(1,2) show ?thesis by blast
qed

section \<open>Messages the router never sees\<close>

definition behind :: "router_env \<Rightarrow> event_row \<Rightarrow> router_state \<Rightarrow> bool" where
  "behind env e s \<longleftrightarrow> world_ok (fst s) \<and> logged e (rw_db (fst s)) \<and> batch_ok e (snd s) \<and>
     (\<forall>vs\<in>{rw_memory (fst s), rw_disk (fst s)}. passed env vs e) \<and> (\<forall>x\<in>set (snd s). jd_key (re_jd env) e < jd_key (re_jd env) x)"

lemma passed_proper: "passed env vs e \<Longrightarrow> proper_cursor vs"
  by (simp add: passed_def after_cursor_def proper_cursor_def)

lemma passed_cursor: "passed env vs e \<Longrightarrow> cursor_in vs' = cursor_in vs \<Longrightarrow> passed env vs' e"
  by (simp add: passed_def)

lemma behind_handle:
  assumes "behind env e (w, x # es)" "handle_next env cfg d x w = (r, w')" "draw_ok d" "plain_sha env"
  shows "passed env (rw_memory w') e" "passed env (rw_disk w') e"
proof -
  have w: "world_ok w" "event_ok x" "passed env (rw_memory w) e" "passed env (rw_disk w) e" "jd_key (re_jd env) e < jd_key (re_jd env) x"
    using assms(1) by (auto simp: behind_def batch_ok_def)
  have key: "passed env vs e" if "cursor_in vs = event_key x" for vs using passed_key [OF w(2) that] w(5) by auto
  note out = handle_next_outcome [OF assms(2-4) w(1)]
  show "passed env (rw_memory w') e" using out(3) passed_cursor [OF w(3)] key by blast
  show "passed env (rw_disk w') e" using out(4) passed_cursor [OF w(3)] passed_cursor [OF w(4)] key by blast
qed

lemma behind_step:
  assumes "behind env e s" "router_step env cfg s s'" "plain_sha env" "trim (rc_state_path cfg) \<noteq> []"
  shows "behind env e s'"
proof -
  have ok: "world_ok (fst s)" "logged e (rw_db (fst s))" "batch_ok e (snd s)" using assms(1) by (simp_all add: behind_def)
  note later = step_later [OF assms(2,3) ok(1)]
  have kept: "world_ok (fst s')" "logged e (rw_db (fst s'))" using later_ok [OF later] later_logged [OF later] ok by blast+
  have events: "events_ok (rw_db (fst s))" using ok(1) by (simp add: world_ok_def)
  have batch: "batch_ok e (snd s')" using assms(2) ok(3) listing_ok [OF events ok(2)]
    by (cases rule: router_step.cases) (auto simp: batch_ok_def)
  have "(\<forall>vs\<in>{rw_memory (fst s'), rw_disk (fst s')}. passed env vs e) \<and> (\<forall>x\<in>set (snd s'). jd_key (re_jd env) e < jd_key (re_jd env) x)"
    using assms(2)
  proof (cases rule: router_step.cases)
    case (step_list w)
    have p: "passed env (rw_memory w) e" using assms(1) step_list by (simp add: behind_def)
    have "jd_key (re_jd env) e < jd_key (re_jd env) x" if "x \<in> set (messages_after env (resolve_cursor w) (rw_db w))" for x
    proof -
      have "after_cursor (re_jd env) (cursor_in (rw_memory w)) x"
        using that resolve_proper [OF passed_proper [OF p]] unfolding messages_after_eq by (auto dest: in_set_takeD)
      then show ?thesis using p by (auto simp: passed_def after_cursor_def)
    qed
    then show ?thesis using assms(1) step_list by (simp add: behind_def)
  next
    case (step_handle d x w c w' es)
    have b: "behind env e (w, x # es)" using assms(1) step_handle(1) by simp
    then show ?thesis using behind_handle [OF b step_handle(3,4) assms(3)] step_handle(2) by (simp add: behind_def)
  next
    case (step_fail d x w w' es)
    have b: "behind env e (w, x # es)" using assms(1) step_fail(1) by simp
    then show ?thesis using behind_handle [OF b step_fail(3,4) assms(3)] step_fail(2) by simp
  next
    case (step_restart w es)
    then show ?thesis using assms(1,4) by (simp add: behind_def new_state_store_def)
  next
    case (step_others w w' es)
    then show ?thesis using assms(1) by (simp add: behind_def others_may_def)
  qed
  then show ?thesis using kept batch by (simp add: behind_def)
qed

text \<open>
  C26. A message that enters the log behind the cursor, because its time was taken before, or because it has the same time and a
  smaller id, is not handled in any run, as long as the state file is kept.
\<close>

theorem late_message_never_handled:
  assumes "router_run env cfg (w0, []) (w, b)" "plain_sha env" "trim (rc_state_path cfg) \<noteq> []"
    and "event_history (rw_db w0)" "wakeup_run [] (rw_wakeups w0)" "e \<in> set (ws_events (rw_db w0))"
    and "passed env (rw_memory w0) e" "passed env (rw_disk w0) e"
  shows "ev_id e \<notin> ev_id ` set b"
proof -
  have "world_ok w0" using event_history_ok [OF assms(4)] history_ok [OF assms(5)] by (simp add: world_ok_def)
  moreover have "logged e (rw_db w0)" using assms(6) same_message_refl unfolding logged_def by blast
  ultimately have start: "behind env e (w0, [])" using assms(7,8) by (simp add: behind_def batch_ok_def)
  have "behind env e (w, b)" using assms(1)
  proof (induction rule: rtranclp_induct)
    case (step s s')
    show ?case by (rule behind_step [OF step(3,2) assms(2,3)])
  qed (rule start)
  then have "\<forall>x\<in>set b. (ev_id x = ev_id e \<longrightarrow> same_message x e) \<and> jd_key (re_jd env) e < jd_key (re_jd env) x"
    by (auto simp: behind_def batch_ok_def)
  moreover have False if "same_message x e" "jd_key (re_jd env) e < jd_key (re_jd env) x" for x
    using that(2) unfolding jd_key_same [OF that(1)] by simp
  ultimately show ?thesis by force
qed

section \<open>A message routed end to end\<close>

text \<open>The sample hash is the text itself without its blanks, the sample time the text read as a number.\<close>

definition router_sample_env :: router_env where
  "router_sample_env = \<lparr>re_doc = doc_sample_env, re_sha = filter plain_char, re_encode = (\<lambda>_. ''packet''),
     re_jd = foldl (\<lambda>a c. 256 * a + int (of_char c)) 0, re_event_bytes = (\<lambda>_. 200)\<rparr>"

definition router_sample_cfg :: router_config where
  "router_sample_cfg = \<lparr>rc_base_url = ''http://core/'', rc_workspace_id = ''main'', rc_workspace_name = ''Main'',
     rc_state_path = ''router.json'', rc_cache_ttl = 60, rc_actor_id = ''system''\<rparr>"

definition talk_thread :: thread_row where
  "talk_thread = \<lparr>th_id = ''talk'', th_handle = Some ''talk'', th_kind = ''thread'', th_thread_id = None,
     th_updated_at = ''2026-01-04T00:00:00Z'', th_updated_by = ''bob'',
     th_body = \<lparr>tb_subject_ref = [], tb_topic_ref = [], tb_title = ''Talk'', tb_current_summary = None, tb_key_artifacts = None\<rparr>,
     th_provenance = []\<rparr>"

definition posted :: event_draft where
  "posted = \<lparr>ed_type = message_posted, ed_thread_id = ''talk'', ed_refs = [''thread:talk''], ed_summary = ''Message'',
     ed_payload = [(''text'', ''@alice please look'')]\<rparr>"

definition silent_db :: ws_db where "silent_db = ws_empty\<lparr>ws_threads := [talk_thread]\<rparr>"

definition posted_result :: "doc_error + ws_db" where
  "posted_result = insert_event ''bob'' ''ev1'' ''2026-01-05T00:00:01.000Z'' posted silent_db"

definition posted_db :: ws_db where "posted_db = projr posted_result"
definition posted_row :: event_row where "posted_row = hd (ws_events posted_db)"

definition world_of :: "ws_db \<Rightarrow> (string \<times> json) list \<Rightarrow> router_world" where
  "world_of db vs = \<lparr>rw_db = db, rw_wakeups = [], rw_auth = registered_db, rw_memory = vs, rw_disk = vs, rw_cache = [],
     rw_cache_at = None, rw_log = []\<rparr>"

definition calm_draw :: router_draw where
  "calm_draw = \<lparr>rd_now = 0, rd_text = ''2026-01-05T00:00:02Z'', rd_up = (\<lambda>_ _. True), rd_save = (\<lambda>_. Saved)\<rparr>"

definition routed_world :: router_world where
  "routed_world = snd (handle_next router_sample_env router_sample_cfg calm_draw posted_row (world_of posted_db []))"

lemma sample_sha: "plain_sha router_sample_env"
  by (auto simp: plain_sha_def router_sample_env_def list_all_iff)

lemma posted_ok: "posted_result = Inr posted_db"
proof -
  have "\<not> isl posted_result" by code_simp
  then show ?thesis unfolding posted_db_def by (cases posted_result) simp_all
qed

lemma posted_history: "event_history posted_db"
proof (rule history_more)
  show "event_history silent_db" by (rule history_empty) (simp add: silent_db_def ws_empty_def)
  have "trim ''ev1'' = ''ev1''" "trim ''2026-01-05T00:00:01.000Z'' = ''2026-01-05T00:00:01.000Z''" by code_simp+
  then show "event_step silent_db posted_db" by (intro event_step.step_append [OF posted_ok [unfolded posted_result_def]]) simp_all
qed

lemma posted_listed: "ws_events posted_db = [posted_row]" "ev_type posted_row = message_posted" "ev_thread_id posted_row = ''talk''"
  by code_simp+

lemma routed_facts: "fst (handle_next router_sample_env router_sample_cfg calm_draw posted_row (world_of posted_db [])) = Some (event_key posted_row)"
  "passed router_sample_env (rw_memory routed_world) posted_row" "''alice'' \<in> set (mentions_of posted_row)"
  "map aw_target_handle (rw_wakeups routed_world) = [''alice'']" "length (ws_events (rw_db routed_world)) = 1" "rw_log routed_world = []"
  by code_simp+

lemma calm: "draw_ok calm_draw" by code_simp

lemma listed_facts: "messages_after router_sample_env (resolve_cursor (world_of posted_db [])) (rw_db (world_of posted_db [])) = [posted_row]"
  by code_simp

lemma routed_run: "router_run router_sample_env router_sample_cfg (world_of posted_db [], []) (routed_world, [])"
proof -
  let ?step = "router_step router_sample_env router_sample_cfg"
  have "?step (world_of posted_db [], []) (world_of posted_db [], [posted_row])"
    using step_list [of router_sample_env router_sample_cfg "world_of posted_db []"] unfolding listed_facts .
  moreover have "handle_next router_sample_env router_sample_cfg calm_draw posted_row (world_of posted_db []) =
      (Some (event_key posted_row), routed_world)"
    using routed_facts(1) unfolding routed_world_def by (simp add: prod_eq_iff)
  then have "?step (world_of posted_db [], [posted_row]) (routed_world, [])" by (rule step_handle [OF _ calm])
  ultimately show ?thesis by (meson converse_rtranclp_into_rtranclp rtranclp.rtrancl_refl)
qed

lemma world_of_facts [simp]: "rw_db (world_of db vs) = db" "rw_wakeups (world_of db vs) = []" "rw_memory (world_of db vs) = vs"
  "rw_disk (world_of db vs) = vs"
  by (simp_all add: world_of_def)

theorem no_mention_skipped_witness:
  "(\<exists>w1 b1. router_run router_sample_env router_sample_cfg (w1, b1) (routed_world, []) \<and>
      answered router_sample_env router_sample_cfg w1 routed_world posted_row ''alice'') \<and>
   map aw_target_handle (rw_wakeups routed_world) = [''alice'']"
proof -
  have "posted_row \<in> set (ws_events (rw_db (world_of posted_db [])))" "ev_thread_id posted_row \<noteq> []"
    using posted_listed by simp_all
  from no_mention_skipped [OF routed_run sample_sha _ _ this(1) posted_listed(2) this(2) _ routed_facts(2,3)] posted_history no_state
  show ?thesis using routed_facts(4) by auto
qed

theorem poll_catches_up_witness:
  "\<exists>r w'. run_once router_sample_env router_sample_cfg (\<lambda>_. calm_draw) (world_of posted_db []) = Some (r, w') \<and>
    (r = Some () \<longrightarrow> \<not> after_cursor (re_jd router_sample_env) (resolve_cursor w') posted_row)"
  using poll_catches_up [where w = "world_of posted_db []" and cfg = router_sample_cfg and env = router_sample_env and ds = "\<lambda>_. calm_draw"]
    sample_sha calm posted_history no_state(1) posted_listed by auto

text \<open>A message of the same millisecond, with a smaller id, that is posted after the cursor has moved on.\<close>

definition late_result :: "doc_error + ws_db" where
  "late_result = insert_event ''bob'' ''ev0'' ''2026-01-05T00:00:01.000Z'' posted posted_db"

definition late_db :: ws_db where "late_db = projr late_result"
definition late_row :: event_row where "late_row = last (ws_events late_db)"
definition late_state :: "(string \<times> json) list" where
  "late_state = [(''last_event_ts'', JText ''2026-01-05T00:00:01.000Z''), (''last_event_id'', JText ''ev1'')]"

lemma late_ok: "late_result = Inr late_db"
proof -
  have "\<not> isl late_result" by code_simp
  then show ?thesis unfolding late_db_def by (cases late_result) simp_all
qed

lemma late_history: "event_history late_db"
proof (rule history_more [OF posted_history])
  have "trim ''ev0'' = ''ev0''" "trim ''2026-01-05T00:00:01.000Z'' = ''2026-01-05T00:00:01.000Z''" by code_simp+
  then show "event_step posted_db late_db" by (intro event_step.step_append [OF late_ok [unfolded late_result_def]]) simp_all
qed

lemma late_facts: "passed router_sample_env late_state late_row" "map ev_id (ws_events late_db) = [''ev1'', ''ev0'']" "ev_id late_row = ''ev0''"
  "trim (rc_state_path router_sample_cfg) \<noteq> []"
  by code_simp+

theorem late_message_never_handled_witness:
  "''ev0'' \<in> ev_id ` set (ws_events late_db) \<and>
   ''ev0'' \<notin> ev_id ` set (messages_after router_sample_env (resolve_cursor (world_of late_db late_state)) late_db)"
proof -
  let ?w = "world_of late_db late_state"
  have run: "router_run router_sample_env router_sample_cfg (?w, []) (?w, messages_after router_sample_env (resolve_cursor ?w) (rw_db ?w))"
    by (rule r_into_rtranclp) (rule step_list)
  have "ws_events late_db \<noteq> []" using late_facts(2) by auto
  then have "late_row \<in> set (ws_events (rw_db ?w))" by (simp add: late_row_def)
  from late_message_never_handled [OF run sample_sha late_facts(4) _ _ this] late_history late_facts
  show ?thesis by (metis list.set_intros(1,2) list.set_map rtranclp.rtrancl_refl world_of_facts)
qed

end
