(* ===== verification/Spec2Isabelle.thy ===== *)
theory Spec2Isabelle
  imports Cadence BoardLifecycle CardRules AuthAssertions DocumentRaces EventPages WakeupClaims ArtifactRules RouterRules
begin

text \<open>
  A model of the core of \<open>agent-nexus\<close> (\<open>src/core/internal\<close>, Go), and what it guarantees.

  \<^bold>\<open>The program.\<close>  \<open>core\<close> keeps a workspace for people and agents in an SQLite database: boards with ordered cards,
  topics and threads with a cadence, documents, artifacts in a content-addressed blob store, and principals that
  authenticate with keys, passkeys and tokens.  An HTTP server decodes requests and calls the stores; the command line
  client and the MCP server call the HTTP server.  The logic is in the stores, and they are what is modelled.

  \<^bold>\<open>How it is modelled.\<close>  A table is a list of records, in insertion order, a column that may be NULL an option, a
  transaction a function from database to database whose error branches leave the database out (it is rolled back).
  An operation that reads outside its transaction, or whose statements are not in one, takes the database it read beside the
  one it writes (documents, boards), or what others do before each of its statements (\<open>EventLog\<close>); where it takes one database
  only, it is what it does undisturbed, as with the lifecycle of an artifact that nobody owns and the deletions of blobs after
  the transaction of a purge, which \<open>DocumentHistories\<close> and \<open>DocumentRaces\<close> also have as steps of their own.
  Database input and output errors are not modelled.  The clock, random ids and tokens are arguments; SHA-256 and Ed25519
  are parameters.  Texts are byte strings; a stored time is a \<open>stamp\<close>, compared as text by SQL and as a time by Go.

  \<^bold>\<open>Theories.\<close>
  \<^item> \<open>GoBase\<close>, \<open>GoNumbers\<close>, \<open>GoTime\<close>: the parts of Go's library the code uses (trimming, splitting, decimal numbers,
    durations, calendar, RFC 3339 text), results and early returns, nullable columns.
  \<^item> \<open>Cadence\<close> (\<open>schedule/cadence.go\<close>): cron expressions, the previous run, presets, the list filter.
  \<^item> \<open>Lifecycle\<close> (\<open>primitives/lifecycle_*.go\<close>): active, archived, trashed; the locale \<open>soft_delete\<close> is the contract of a
    row with these marks, interpreted on cards and boards.
  \<^item> \<open>BlobLedger\<close> (\<open>primitives/blob_usage.go\<close>, \<open>quota.go\<close>): the ledger of stored bytes and the write quota, which admits a
    write exactly when every measure stays within its limit, up to a blob the backend has and the ledger has not.
  \<^item> \<open>BoardRank\<close>: 64-bit ranks as zero-padded text (locale \<open>ordered_text\<close>) and the choice of a rank between two.
    \<open>BoardTables\<close>: rows and queries.  \<open>BoardCards\<close>: move, archive, trash, restore and purge of a card.
    \<open>BoardPlacement\<close>: what writing an edge does to a column, seen as a function from card ids to keys.  \<open>BoardMove\<close>:
    correctness of moving, and all that a move leaves alone.  \<open>BoardLifecycle\<close>: histories of card operations, lifecycle of
    boards as a machine with the full database after each operation.  \<open>CardRules\<close>: what a new
    card must satisfy, open work, risk.  All are of \<open>primitives/boards_store.go\<close>.
  \<^item> \<open>Registration\<close> (\<open>auth/registration.go\<close>, \<open>router/models.go\<close>): what an agent registers so that it can be woken.
    \<open>Mentions\<close> (\<open>router/mentions.go\<close>): the search for mentions in a message, and which user names it finds.
  \<^item> \<open>AuthTables\<close>, \<open>AuthText\<close>, \<open>Onboarding\<close>, \<open>AuthTokens\<close>, \<open>AuthPrincipals\<close>: the operations of \<open>auth/\<close>.  \<open>AuthSteps\<close>
    shows what each of them keeps; \<open>AuthRuns\<close> puts them into one step relation, with the locale \<open>auth_table\<close> as the
    contract of each table; \<open>AuthIssued\<close> says for whom a run issues tokens; \<open>AuthOnboarding\<close>, \<open>AuthSafety\<close> and
    \<open>AuthAssertions\<close> hold the guarantees over all histories,
    applied to the short history of \<open>AuthSamples\<close>.

  \<^item> \<open>Handles\<close> (\<open>handles/handles.go\<close>, \<open>primitives/handles.go\<close>): the short names of resources, their allocation and the
    resolution of references.
  \<^item> \<open>Workspace\<close> (\<open>primitives/resource_helpers.go\<close>, \<open>store.go\<close>): the tables documents share with other resources, edges of
    typed references, events.  \<open>Documents\<close> (\<open>primitives/docs_store.go\<close>): the operations on documents, each with the
    database it reads and the one it writes.  \<open>DocumentChains\<close>: the invariant \<open>docs_ok\<close> (every document a chain of revisions
    with hashes, artifacts and contents) and that each operation keeps it; \<open>DocumentHistories\<close>: histories in which
    every operation may have read any earlier database, and a purge may be
    interrupted between its transaction and its deletions; \<open>DocumentSafety\<close>, \<open>DocumentRefs\<close>, \<open>DocumentRaces\<close>: what holds
    in all of them, references to revisions, and where a stale read does harm, applied to the documents of
    \<open>DocumentSamples\<close>.
  \<^item> \<open>EventLog\<close> (\<open>primitives/store.go\<close>): appending, listing by pages, and the lifecycle of events with its cascade over
    the replies of a message, alone and with other operations between its statements.
    \<open>EventCascade\<close>: the worklist of the cascade computes the closure of the reply relation;
    \<open>EventSafety\<close>: histories of the log; \<open>EventLifecycle\<close>: what the cascade changes and when it is undone;
    \<open>EventPages\<close>: pages and cursors, also under a log that changes between them.
  \<^item> \<open>Artifacts\<close> (\<open>primitives/store.go\<close>, \<open>attachment_store.go\<close>): artifacts, attachments, their content over HTTP and their
    lifecycle, which for the artifact of a document or a card is that of its owner (\<open>BoardCards\<close> run on the shared tables).
    \<open>ArtifactSafety\<close>: histories of documents and
    artifacts together; \<open>ArtifactRules\<close>: what holds in them.
  \<^item> \<open>Wakeups\<close> (\<open>primitives/agent_wakeups.go\<close>, \<open>server/agent_notifications_handlers.go\<close>): the queue of wake requests.
    \<open>WakeupSafety\<close>: the machine a request goes through and that the operations implement it; \<open>WakeupClaims\<close>: who may report on a
    request, and notifications.
  \<^item> \<open>PublicRefs\<close> (\<open>primitives/resource_helpers.go\<close>): references as they are shown.  \<open>WakePacket\<close>
    (\<open>router/wake_packet.go\<close>): what a woken agent is told.  \<open>WakeRouting\<close> (\<open>auth/wake_routing.go\<close>): who can be woken, and the
    check-in of a bridge.  \<open>Router\<close> (\<open>router/router.go\<close>, \<open>state.go\<close>): the service that turns mentions into wake requests; an
    action may fail, and then keeps what it changed before.  \<open>RouterRuns\<close>: its steps among those of the event log and the
    queue, with failures and restarts, and that no mention is skipped; \<open>RouterRules\<close>: a poll ends and catches up, and which
    messages are never seen.

  \<^bold>\<open>Bounds.\<close>  The previous-run search ends because its candidate moves down to a fixed lookback.  A registration is tried
  at most eight times, as in the code.  A poll of the router ends because every full batch leaves fewer messages after the
  cursor.  Ranks are 64-bit words; a column of fewer than \<open>10 ^ 15\<close> cards never runs out of
  them.  Sizes and counters are unbounded integers: they stay far below \<open>2 ^ 63\<close>.

  \<^bold>\<open>Not modelled.\<close>  The HTTP server, the clients, the host of the sidecar (input and output around the stores); migrations,
  except the columns and unique keys the operations rely on; blob backends, secrets (AES); grant verification over HTTP key
  sets.  Topics, threads, schema validation and the creation and
  patching of boards and cards are left for later.  Of documents: the list query with its filters and counters, and the JSON
  answers beyond the state and the references.
\<close>

end
